(* ===== verification/Prelude.thy ===== *)
theory Prelude
  imports Main "HOL-Library.AList" "HOL-Library.Sublist" "HOL-Library.Char_ord"
    "HOL-Library.List_Lexorder"
begin

text \<open>
  The vocabulary every component theory shares: Python exceptions as the left values of a
  sum, the loops of the code (\<open>for\<close> with early exit, comprehension, accumulation)
  as combinators over that sum, Python dictionaries with string keys as association lists
  in insertion order, and the string operations the middleware uses.

  Strings are lists of 8-bit characters; the string functions below agree with Python's on
  ASCII text. A message of an exception keeps the constant part of the source's message:
  interpolated values are left out.
\<close>

section \<open>Collections of rewrite rules\<close>

named_theorems result_simps \<open>rewriting of the exception-carrying combinators\<close>
named_theorems dict_simps \<open>lookup and domain of Python dictionaries\<close>
named_theorems string_simps \<open>Python string operations\<close>

section \<open>Exceptions\<close>

datatype exn =
    ValueError string
  | TypeError
  | KeyError
  | IndexError
  | AttributeError
  | AssertionError
  | UnboundLocalError
  | ReError
  | MatchNotFound
  | RecursionError
  | RuntimeError
  | InstanceNotFound
  | SchemaError string string nat
  | ValidationErrors "(string \<times> string \<times> nat) list"
  | CallError string nat

text \<open>The \<open>errno\<close> values the modelled code raises by name.\<close>

definition EINVAL :: nat where "EINVAL = 22"
definition EBUSY :: nat where "EBUSY = 16"
definition ENOENT :: nat where "ENOENT = 2"
definition EFAULT :: nat where "EFAULT = 14"
definition EPERM :: nat where "EPERM = 1"
definition EACCES :: nat where "EACCES = 13"
definition EOPNOTSUPP :: nat where "EOPNOTSUPP = 95"

section \<open>Computations that may raise\<close>

definition bindE :: "'e + 'a \<Rightarrow> ('a \<Rightarrow> 'e + 'b) \<Rightarrow> 'e + 'b" where
  "bindE m f = (case m of Inl e \<Rightarrow> Inl e | Inr x \<Rightarrow> f x)"

lemma bindE_simps [simp, result_simps]:
  "bindE (Inl e) f = Inl e"
  "bindE (Inr x) f = f x"
  by (simp_all add: bindE_def)

lemma bindE_cong [fundef_cong]:
  "m = m' \<Longrightarrow> (\<And>x. m' = Inr x \<Longrightarrow> f x = f' x) \<Longrightarrow> bindE m f = bindE m' f'"
  by (cases m') simp_all

lemma bindE_eq_Inr_iff: "bindE m f = Inr y \<longleftrightarrow> (\<exists>x. m = Inr x \<and> f x = Inr y)"
  by (cases m) simp_all

lemma bindE_eq_Inl_iff:
  "bindE m f = Inl e \<longleftrightarrow> m = Inl e \<or> (\<exists>x. m = Inr x \<and> f x = Inl e)"
  by (cases m) simp_all

lemma bindE_InrE [elim]:
  assumes "bindE m f = Inr y"
  obtains x where "m = Inr x" and "f x = Inr y"
  using assms by (auto simp: bindE_eq_Inr_iff)

lemma bindE_assoc [result_simps]: "bindE (bindE m f) g = bindE m (\<lambda>x. bindE (f x) g)"
  by (cases m) simp_all

text \<open>\<open>for x in xs: if p(x): return True\<close>, then \<open>return False\<close>.\<close>

fun anyE :: "('a \<Rightarrow> 'e + bool) \<Rightarrow> 'a list \<Rightarrow> 'e + bool" where
  "anyE p [] = Inr False"
| "anyE p (x # xs) = bindE (p x) (\<lambda>b. if b then Inr True else anyE p xs)"

text \<open>\<open>for x in xs: if not p(x): return False\<close>, then \<open>return True\<close>.\<close>

fun allE :: "('a \<Rightarrow> 'e + bool) \<Rightarrow> 'a list \<Rightarrow> 'e + bool" where
  "allE p [] = Inr True"
| "allE p (x # xs) = bindE (p x) (\<lambda>b. if b then allE p xs else Inr False)"

fun mapE :: "('a \<Rightarrow> 'e + 'b) \<Rightarrow> 'a list \<Rightarrow> 'e + 'b list" where
  "mapE f [] = Inr []"
| "mapE f (x # xs) = bindE (f x) (\<lambda>y. bindE (mapE f xs) (\<lambda>ys. Inr (y # ys)))"

fun foldE :: "('s \<Rightarrow> 'a \<Rightarrow> 'e + 's) \<Rightarrow> 's \<Rightarrow> 'a list \<Rightarrow> 'e + 's" where
  "foldE f s [] = Inr s"
| "foldE f s (x # xs) = bindE (f s x) (\<lambda>s'. foldE f s' xs)"

lemma anyE_cong [fundef_cong]:
  "xs = ys \<Longrightarrow> (\<And>x. x \<in> set ys \<Longrightarrow> p x = q x) \<Longrightarrow> anyE p xs = anyE q ys"
  by (induction ys arbitrary: xs) (auto intro!: bindE_cong)

lemma allE_cong [fundef_cong]:
  "xs = ys \<Longrightarrow> (\<And>x. x \<in> set ys \<Longrightarrow> p x = q x) \<Longrightarrow> allE p xs = allE q ys"
  by (induction ys arbitrary: xs) (auto intro!: bindE_cong)

lemma mapE_cong [fundef_cong]:
  "xs = ys \<Longrightarrow> (\<And>x. x \<in> set ys \<Longrightarrow> p x = q x) \<Longrightarrow> mapE p xs = mapE q ys"
  by (induction ys arbitrary: xs) (auto intro!: bindE_cong)

lemma foldE_cong [fundef_cong]:
  "s = t \<Longrightarrow> xs = ys \<Longrightarrow> (\<And>s x. x \<in> set ys \<Longrightarrow> f s x = g s x) \<Longrightarrow> foldE f s xs = foldE g t ys"
proof (induction ys arbitrary: xs s t)
  case (Cons y ys)
  then show ?case by (auto intro!: bindE_cong)
qed simp

text \<open>
  Congruences that keep the simplifier out of the bodies of loops and continuations: with
  them a closed call of a recursive definition evaluates by rewriting.
\<close>

lemma bindE_weak_cong: "m = m' \<Longrightarrow> bindE m f = bindE m' f"
  by simp

lemma anyE_weak_cong: "xs = ys \<Longrightarrow> anyE p xs = anyE p ys"
  by simp

lemma allE_weak_cong: "xs = ys \<Longrightarrow> allE p xs = allE p ys"
  by simp

lemma mapE_weak_cong: "xs = ys \<Longrightarrow> mapE p xs = mapE p ys"
  by simp

lemma foldE_weak_cong: "s = t \<Longrightarrow> xs = ys \<Longrightarrow> foldE f s xs = foldE f t ys"
  by simp

lemmas eval_congs = bindE_weak_cong anyE_weak_cong allE_weak_cong mapE_weak_cong foldE_weak_cong

lemma anyE_total [result_simps]:
  "(\<And>x. x \<in> set xs \<Longrightarrow> p x = Inr (P x)) \<Longrightarrow> anyE p xs = Inr (\<exists>x \<in> set xs. P x)"
  by (induction xs) auto

lemma allE_total [result_simps]:
  "(\<And>x. x \<in> set xs \<Longrightarrow> p x = Inr (P x)) \<Longrightarrow> allE p xs = Inr (\<forall>x \<in> set xs. P x)"
  by (induction xs) auto

lemma mapE_total [result_simps]:
  "(\<And>x. x \<in> set xs \<Longrightarrow> f x = Inr (g x)) \<Longrightarrow> mapE f xs = Inr (map g xs)"
  by (induction xs) auto

lemma allE_True_iff: "allE p xs = Inr True \<longleftrightarrow> (\<forall>x \<in> set xs. p x = Inr True)"
  by (induction xs) (auto simp: bindE_eq_Inr_iff split: if_splits)

lemma allE_append:
  "allE p (xs @ ys) = bindE (allE p xs) (\<lambda>b. if b then allE p ys else Inr False)"
  by (induction xs) (auto simp: bindE_assoc intro!: bindE_cong)

lemma mapE_length: "mapE f xs = Inr ys \<Longrightarrow> length ys = length xs"
  by (induction xs arbitrary: ys) (auto simp: bindE_eq_Inr_iff)

lemma mapE_nth: "mapE f xs = Inr ys \<Longrightarrow> i < length xs \<Longrightarrow> f (xs ! i) = Inr (ys ! i)"
  by (induction xs arbitrary: ys i) (auto simp: bindE_eq_Inr_iff nth_Cons split: nat.splits)

lemma foldE_append: "foldE f s (xs @ ys) = bindE (foldE f s xs) (\<lambda>t. foldE f t ys)"
  by (induction xs arbitrary: s) (auto simp: bindE_assoc intro!: bindE_cong)

lemma foldE_invariant:
  assumes "foldE f s xs = Inr t" and "P s"
    and "\<And>s x s'. x \<in> set xs \<Longrightarrow> P s \<Longrightarrow> f s x = Inr s' \<Longrightarrow> P s'"
  shows "P t"
  using assms
proof (induction xs arbitrary: s)
  case (Cons x xs)
  then obtain s' where s': "f s x = Inr s'" and rest: "foldE f s' xs = Inr t"
    by (auto simp: bindE_eq_Inr_iff)
  from Cons.prems(2,3) s' have "P s'" by (meson list.set_intros(1))
  with rest Cons.prems(3) show ?case by (intro Cons.IH) auto
qed simp

lemma foldE_Inr_elem:
  "foldE f s xs = Inr t \<Longrightarrow> x \<in> set xs \<Longrightarrow> \<exists>s1 s2. f s1 x = Inr s2"
  by (induction xs arbitrary: s) (auto simp: bindE_eq_Inr_iff)

lemma anyE_eq_Inl: "anyE p xs = Inl e \<Longrightarrow> \<exists>x \<in> set xs. p x = Inl e"
  by (induction xs) (auto simp: bindE_eq_Inl_iff split: if_splits)

lemma allE_eq_Inl: "allE p xs = Inl e \<Longrightarrow> \<exists>x \<in> set xs. p x = Inl e"
  by (induction xs) (auto simp: bindE_eq_Inl_iff split: if_splits)

lemma mapE_eq_Inl: "mapE f xs = Inl e \<Longrightarrow> \<exists>x \<in> set xs. f x = Inl e"
  by (induction xs) (auto simp: bindE_eq_Inl_iff)

section \<open>Lists updated by index\<close>

lemma nth_update_any: "xs[i := x] ! k = (if k = i \<and> i < length xs then x else xs ! k)"
  by (cases "k = i"; cases "i < length xs") (auto simp: list_update_beyond)

section \<open>Dictionaries\<close>

text \<open>
  A Python dictionary with string keys is an association list in insertion order.
  Assignment to an existing key keeps its position; a new key is appended: this is
  \<open>AList.update\<close>. Deletion is \<open>AList.delete\<close>, lookup is \<open>map_of\<close>.
\<close>

type_synonym 'v dict = "(string \<times> 'v) list"

abbreviation dict_ok :: "('k \<times> 'v) list \<Rightarrow> bool" where
  "dict_ok d \<equiv> distinct (map fst d)"

definition dict_get :: "('k \<times> 'v) list \<Rightarrow> 'k \<Rightarrow> 'v \<Rightarrow> 'v" where
  "dict_get d k dflt = (case map_of d k of None \<Rightarrow> dflt | Some v \<Rightarrow> v)"

definition dict_index :: "('k \<times> 'v) list \<Rightarrow> 'k \<Rightarrow> exn + 'v" where
  "dict_index d k = (case map_of d k of None \<Rightarrow> Inl KeyError | Some v \<Rightarrow> Inr v)"

lemma map_of_update [dict_simps]: "map_of (AList.update k v d) = (map_of d)(k \<mapsto> v)"
  by (simp add: AList.update_conv')

lemma map_of_delete [dict_simps]: "map_of (AList.delete k d) = (map_of d)(k := None)"
  by (rule AList.delete_conv')

lemma dict_ok_update [dict_simps]: "dict_ok d \<Longrightarrow> dict_ok (AList.update k v d)"
  by (rule AList.distinct_update)

lemma dict_ok_delete [dict_simps]: "dict_ok d \<Longrightarrow> dict_ok (AList.delete k d)"
  by (simp add: AList.delete_eq distinct_map_filter)

lemma dict_keys_update [dict_simps]:
  "fst ` set (AList.update k v d) = insert k (fst ` set d)"
  using AList.dom_update [of k v d] by simp

lemma dict_keys_delete [dict_simps]:
  "fst ` set (AList.delete k d) = fst ` set d - {k}"
  by (auto simp: AList.delete_eq)

lemma dict_get_simps [simp, dict_simps]:
  "dict_get [] k v = v"
  "dict_get ((k', w) # d) k v = (if k = k' then w else dict_get d k v)"
  by (simp_all add: dict_get_def)

lemma length_update_new [dict_simps]:
  "k \<notin> fst ` set d \<Longrightarrow> length (AList.update k v d) = Suc (length d)"
  by (induction d) auto

lemma length_update_old [dict_simps]:
  "k \<in> fst ` set d \<Longrightarrow> length (AList.update k v d) = length d"
  by (induction d) auto

lemma update_new_append [dict_simps]: "k \<notin> fst ` set d \<Longrightarrow> AList.update k v d = d @ [(k, v)]"
  by (induction d) auto

lemma length_delete_present:
  "dict_ok d \<Longrightarrow> k \<in> fst ` set d \<Longrightarrow> length (AList.delete k d) = length d - 1"
proof (induction d)
  case (Cons p d)
  show ?case
  proof (cases "fst p = k")
    case True
    with Cons.prems have "k \<notin> fst ` set d" by auto
    then have "AList.delete k d = d" by (simp add: AList.delete_id)
    with True show ?thesis by simp
  next
    case False
    with Cons have "length (AList.delete k d) = length d - 1" and "d \<noteq> []" by auto
    with False show ?thesis by (cases d) auto
  qed
qed simp

section \<open>Strings\<close>

abbreviation startswith :: "string \<Rightarrow> string \<Rightarrow> bool" where
  "startswith s p \<equiv> prefix p s"

abbreviation endswith :: "string \<Rightarrow> string \<Rightarrow> bool" where
  "endswith s p \<equiv> suffix p s"

text \<open>\<open>s.partition(c)\<close>: the text before the first separator, whether there is one, the rest.\<close>

fun str_partition :: "char \<Rightarrow> string \<Rightarrow> string \<times> bool \<times> string" where
  "str_partition c [] = ([], False, [])"
| "str_partition c (x # xs) =
     (if x = c then ([], True, xs)
      else (case str_partition c xs of (l, b, r) \<Rightarrow> (x # l, b, r)))"

lemma str_partition_split:
  "str_partition c s = (l, b, r) \<Longrightarrow> s = (if b then l @ c # r else l) \<and> c \<notin> set l \<and> (\<not> b \<longrightarrow> r = [])"
  by (induction s arbitrary: l b r) (auto split: prod.splits if_splits)

lemma str_partition_shorter:
  "str_partition c s = (l, b, r) \<Longrightarrow> length l + length r + (if b then 1 else 0) = length s"
  using str_partition_split [of c s l b r] by (auto split: if_splits)

fun str_split :: "char \<Rightarrow> string \<Rightarrow> string list" where
  "str_split c [] = [[]]"
| "str_split c (x # xs) =
     (if x = c then [] # str_split c xs
      else (case str_split c xs of [] \<Rightarrow> [[x]] | y # ys \<Rightarrow> (x # y) # ys))"

fun str_join :: "string \<Rightarrow> string list \<Rightarrow> string" where
  "str_join sep [] = []"
| "str_join sep [x] = x"
| "str_join sep (x # y # ys) = x @ sep @ str_join sep (y # ys)"

lemma str_split_not_Nil [simp]: "str_split c s \<noteq> []"
  by (induction s) (auto split: list.splits)

lemma str_join_split: "str_join [c] (str_split c s) = s"
proof (induction s)
  case (Cons x xs)
  obtain y ys where "str_split c xs = y # ys" by (cases "str_split c xs") auto
  with Cons show ?case by (cases ys) auto
qed simp

lemma str_split_parts: "p \<in> set (str_split c s) \<Longrightarrow> c \<notin> set p"
  by (induction s arbitrary: p) (auto split: if_splits list.splits)

lemma str_split_no_sep: "c \<notin> set s \<Longrightarrow> str_split c s = [s]"
  by (induction s) auto

lemma str_split_append_sep: "c \<notin> set l \<Longrightarrow> str_split c (l @ c # r) = l # str_split c r"
  by (induction l) (auto split: list.splits)

definition is_digit :: "char \<Rightarrow> bool" where
  "is_digit c \<longleftrightarrow> (48::nat) \<le> of_char c \<and> of_char c \<le> (57::nat)"

definition str_isdigit :: "string \<Rightarrow> bool" where
  "str_isdigit s \<longleftrightarrow> s \<noteq> [] \<and> list_all is_digit s"

definition digit_val :: "char \<Rightarrow> nat" where
  "digit_val c = of_char c - 48"

definition nat_of_digits :: "string \<Rightarrow> nat" where
  "nat_of_digits s = foldl (\<lambda>n c. 10 * n + digit_val c) 0 s"

definition lower_char :: "char \<Rightarrow> char" where
  "lower_char c = (if (65::nat) \<le> of_char c \<and> of_char c \<le> (90::nat)
     then char_of (of_char c + 32 :: nat) else c)"

definition str_casefold :: "string \<Rightarrow> string" where
  "str_casefold s = map lower_char s"

text \<open>\<open>str(n)\<close> of a natural number.\<close>

fun str_of_nat :: "nat \<Rightarrow> string" where
  "str_of_nat n = (if n < 10 then [char_of (48 + n)] else str_of_nat (n div 10) @ [char_of (48 + n mod 10)])"

declare str_of_nat.simps [simp del]

lemma of_char_less: "of_char c < (256::nat)"
  by (metis mod_less_divisor of_char_mod_256 zero_less_numeral)

lemma of_char_char_of_small [string_simps]: "n < 256 \<Longrightarrow> of_char (char_of n) = (n::nat)"
  by simp

lemma lower_char_idem [simp, string_simps]: "lower_char (lower_char c) = lower_char c"
  by (simp add: lower_char_def)

lemma str_casefold_idem [simp, string_simps]: "str_casefold (str_casefold s) = str_casefold s"
  by (simp add: str_casefold_def)

section \<open>Numbers as text\<close>

lemma nat_of_digits_snoc: "nat_of_digits (s @ [c]) = 10 * nat_of_digits s + digit_val c"
  by (simp add: nat_of_digits_def)

lemma digit_val_char_of: "n < 10 \<Longrightarrow> digit_val (char_of (48 + n)) = n"
  by (simp add: digit_val_def of_char_char_of_small)

lemma nat_of_str_of_nat: "nat_of_digits (str_of_nat n) = n"
proof (induction n rule: str_of_nat.induct)
  case (1 n)
  show ?case
  proof (cases "n < 10")
    case True
    then show ?thesis using nat_of_digits_snoc [of "[]" "char_of (48 + n)"]
      by (simp add: str_of_nat.simps digit_val_char_of) (simp add: nat_of_digits_def)
  next
    case False
    with 1 show ?thesis
      by (simp add: str_of_nat.simps [of n] nat_of_digits_snoc digit_val_char_of)
  qed
qed

lemma str_of_nat_inj: "str_of_nat m = str_of_nat n \<longleftrightarrow> m = n"
  by (metis nat_of_str_of_nat)

lemma str_of_nat_digits: "c \<in> set (str_of_nat n) \<Longrightarrow> is_digit c"
proof (induction n rule: str_of_nat.induct)
  case (1 n)
  have "is_digit (char_of (48 + k))" if "k < 10" for k :: nat
    using that by (simp add: is_digit_def of_char_char_of_small)
  with 1 show ?case by (cases "n < 10") (auto simp: str_of_nat.simps [of n])
qed

lemma str_join_chars: "c \<in> set (str_join sep xs) \<Longrightarrow> c \<in> set sep \<or> (\<exists>x \<in> set xs. c \<in> set x)"
  by (induction sep xs rule: str_join.induct) auto

lemma str_of_nat_not_Nil [simp]: "str_of_nat n \<noteq> []"
  by (subst str_of_nat.simps) simp

lemma str_split_join:
  "cs \<noteq> [] \<Longrightarrow> \<forall>d \<in> set cs. c \<notin> set d \<Longrightarrow> str_split c (str_join [c] cs) = cs"
  by (induction "[c]" cs rule: str_join.induct) (auto simp: str_split_no_sep str_split_append_sep)

end
