(* ===== verification/PyValue.thy ===== *)
theory PyValue
  imports Prelude "HOL-Library.Multiset"
begin

text \<open>
  The Python values that travel through the middleware: JSON scalars, datetimes (as the
  instant they denote), lists, dictionaries with string keys, and instances of classes
  with attributes (rows of a query need not be dictionaries). Floating-point numbers are
  left out; tuples are identified with lists, which the modelled code treats alike.

  The operators are those of Python: equality identifies \<open>True\<close> with \<open>1\<close> and
  ignores the insertion order of dictionaries, \<open><\<close> raises \<open>TypeError\<close> on values
  of different kinds, \<open>in\<close> tests membership, substrings or keys.
\<close>

section \<open>Values\<close>

datatype pyval =
    VNone
  | VBool bool
  | VInt int
  | VStr string
  | VDate int
  | VList "pyval list"
  | VDict "(string \<times> pyval) list"
  | VObj "(string \<times> pyval) list"

text \<open>Truth value testing, \<open>bool(x)\<close>.\<close>

fun truthy :: "pyval \<Rightarrow> bool" where
  "truthy VNone = False"
| "truthy (VBool b) = b"
| "truthy (VInt i) = (i \<noteq> 0)"
| "truthy (VStr s) = (s \<noteq> [])"
| "truthy (VDate d) = True"
| "truthy (VList xs) = (xs \<noteq> [])"
| "truthy (VDict d) = (d \<noteq> [])"
| "truthy (VObj d) = True"

fun is_list :: "pyval \<Rightarrow> bool" where
  "is_list (VList xs) = True"
| "is_list v = False"

fun is_dict :: "pyval \<Rightarrow> bool" where
  "is_dict (VDict d) = True"
| "is_dict v = False"

fun is_str :: "pyval \<Rightarrow> bool" where
  "is_str (VStr s) = True"
| "is_str v = False"

text \<open>A measure for recursion over values that counts the characters of strings too.\<close>

fun vsize :: "pyval \<Rightarrow> nat" where
  "vsize (VStr s) = Suc (length s)"
| "vsize (VList xs) = Suc (sum_list (map vsize xs))"
| "vsize (VDict d) = Suc (sum_list (map (\<lambda>(k, v). Suc (length k) + vsize v) d))"
| "vsize (VObj d) = Suc (sum_list (map (\<lambda>(k, v). Suc (length k) + vsize v) d))"
| "vsize v = 1"

lemma vsize_mem: "x \<in> set xs \<Longrightarrow> vsize x < vsize (VList xs)"
  by (auto simp: less_Suc_eq_le intro: member_le_sum_list)

lemma vsize_mem_dict: "(k, v) \<in> set d \<Longrightarrow> vsize v < vsize (VDict d) \<and> Suc (length k) < vsize (VDict d)"
proof -
  assume "(k, v) \<in> set d"
  then have "Suc (length k) + vsize v \<in> set (map (\<lambda>(k, v). Suc (length k) + vsize v) d)"
    by force
  then have "Suc (length k) + vsize v \<le> sum_list (map (\<lambda>(k, v). Suc (length k) + vsize v) d)"
    by (intro member_le_sum_list) auto
  moreover have "0 < vsize v" by (cases v) auto
  ultimately show ?thesis by simp
qed

section \<open>Equality\<close>

text \<open>
  Two values are equal in Python when their canonical forms are: booleans are integers and
  the entries of a dictionary are sorted by key.
\<close>

fun canon :: "pyval \<Rightarrow> pyval" where
  "canon (VBool b) = VInt (if b then 1 else 0)"
| "canon (VList xs) = VList (map canon xs)"
| "canon (VDict d) = VDict (sort_key fst (map (\<lambda>(k, v). (k, canon v)) d))"
| "canon (VObj d) = VObj (map (\<lambda>(k, v). (k, canon v)) d)"
| "canon v = v"

definition py_eq :: "pyval \<Rightarrow> pyval \<Rightarrow> bool" where
  "py_eq x y \<longleftrightarrow> canon x = canon y"

lemma py_eq_refl [simp]: "py_eq x x"
  by (simp add: py_eq_def)

lemma py_eq_sym: "py_eq x y \<longleftrightarrow> py_eq y x"
  by (auto simp: py_eq_def)

lemma py_eq_trans: "py_eq x y \<Longrightarrow> py_eq y z \<Longrightarrow> py_eq x z"
  by (simp add: py_eq_def)

lemma py_eq_scalar [simp]:
  "py_eq (VInt i) (VInt j) \<longleftrightarrow> i = j"
  "py_eq (VStr s) (VStr t) \<longleftrightarrow> s = t"
  "py_eq (VDate d) (VDate e) \<longleftrightarrow> d = e"
  "py_eq (VBool b) (VInt i) \<longleftrightarrow> i = (if b then 1 else 0)"
  "py_eq (VInt i) (VBool b) \<longleftrightarrow> i = (if b then 1 else 0)"
  "py_eq (VBool b) (VBool c) \<longleftrightarrow> b = c"
  "py_eq VNone VNone"
  by (auto simp: py_eq_def)

section \<open>Order\<close>

definition num_of :: "pyval \<Rightarrow> int option" where
  "num_of v = (case v of VInt i \<Rightarrow> Some i | VBool b \<Rightarrow> Some (if b then 1 else 0) | _ \<Rightarrow> None)"

text \<open>\<open>x < y\<close>. Lists compare at the first position where they differ.\<close>

fun py_lt :: "pyval \<Rightarrow> pyval \<Rightarrow> exn + bool" where
  "py_lt (VStr s) (VStr t) = Inr (s < t)"
| "py_lt (VDate a) (VDate b) = Inr (a < b)"
| "py_lt (VList xs) (VList []) = Inr False"
| "py_lt (VList []) (VList (y # ys)) = Inr True"
| "py_lt (VList (x # xs)) (VList (y # ys)) =
     (if py_eq x y then py_lt (VList xs) (VList ys) else py_lt x y)"
| "py_lt x y =
     (case (num_of x, num_of y) of
        (Some i, Some j) \<Rightarrow> Inr (i < j)
      | _ \<Rightarrow> Inl TypeError)"

definition py_le :: "pyval \<Rightarrow> pyval \<Rightarrow> exn + bool" where
  "py_le x y = bindE (py_lt x y) (\<lambda>b. Inr (b \<or> py_eq x y))"

text \<open>Values a sort can compare with each other.\<close>

definition comparable :: "pyval \<Rightarrow> pyval \<Rightarrow> bool" where
  "comparable x y \<longleftrightarrow> \<not> isl (py_lt x y) \<and> \<not> isl (py_lt y x)"

section \<open>Containers\<close>

definition hashable :: "pyval \<Rightarrow> bool" where
  "hashable v \<longleftrightarrow> \<not> is_list v \<and> \<not> is_dict v"

text \<open>Iteration, \<open>for x in v\<close>.\<close>

fun py_iter :: "pyval \<Rightarrow> exn + pyval list" where
  "py_iter (VList xs) = Inr xs"
| "py_iter (VStr s) = Inr (map (\<lambda>c. VStr [c]) s)"
| "py_iter (VDict d) = Inr (map (\<lambda>(k, v). VStr k) d)"
| "py_iter v = Inl TypeError"

lemma py_iter_vsize: "py_iter v = Inr xs \<Longrightarrow> x \<in> set xs \<Longrightarrow> vsize x \<le> vsize v"
proof (cases v)
  case (VStr s)
  assume "py_iter v = Inr xs" "x \<in> set xs"
  with VStr have "s \<noteq> []" and "vsize x = 2" by auto
  then show ?thesis using VStr by (cases s) auto
next
  case (VList ys)
  assume "py_iter v = Inr xs" "x \<in> set xs"
  then show ?thesis using VList vsize_mem [of x ys] by simp
next
  case (VDict d)
  assume "py_iter v = Inr xs" "x \<in> set xs"
  then show ?thesis using VDict by (auto dest!: vsize_mem_dict)
qed auto

text \<open>Membership, \<open>operator.contains(y, x)\<close>, that is \<open>x in y\<close>.\<close>

fun py_contains :: "pyval \<Rightarrow> pyval \<Rightarrow> exn + bool" where
  "py_contains (VList ys) x = Inr (\<exists>y \<in> set ys. py_eq y x)"
| "py_contains (VStr t) x = (case x of VStr s \<Rightarrow> Inr (sublist s t) | _ \<Rightarrow> Inl TypeError)"
| "py_contains (VDict d) x =
     (if \<not> hashable x then Inl TypeError
      else Inr (case x of VStr s \<Rightarrow> s \<in> fst ` set d | _ \<Rightarrow> False))"
| "py_contains v x = Inl TypeError"

text \<open>Slices \<open>rv[i:]\<close> and \<open>rv[:i]\<close>, with negative indices counted from the end.\<close>

definition slice_from :: "int \<Rightarrow> 'a list \<Rightarrow> 'a list" where
  "slice_from i xs = (if 0 \<le> i then drop (nat i) xs else drop (length xs - nat (- i)) xs)"

definition slice_to :: "int \<Rightarrow> 'a list \<Rightarrow> 'a list" where
  "slice_to i xs = (if 0 \<le> i then take (nat i) xs else take (length xs - nat (- i)) xs)"

definition index_of :: "pyval \<Rightarrow> exn + int" where
  "index_of v = (case num_of v of Some i \<Rightarrow> Inr i | None \<Rightarrow> Inl TypeError)"

section \<open>Sorting\<close>

text \<open>
  \<open>sorted(xs, key=f, reverse=r)\<close>: a stable sort by \<open><\<close> on the keys. It raises
  \<open>TypeError\<close> when two keys are not comparable; a list of one element is never compared.
  A reverse sort keeps the order of equal elements too.
\<close>

definition key_less :: "pyval \<times> 'a \<Rightarrow> pyval \<times> 'a \<Rightarrow> bool" where
  "key_less p q \<longleftrightarrow> py_lt (fst p) (fst q) = Inr True"

fun insert_by :: "('a \<Rightarrow> 'a \<Rightarrow> bool) \<Rightarrow> 'a \<Rightarrow> 'a list \<Rightarrow> 'a list" where
  "insert_by lt x [] = [x]"
| "insert_by lt x (y # ys) = (if lt y x then y # insert_by lt x ys else x # y # ys)"

fun isort_by :: "('a \<Rightarrow> 'a \<Rightarrow> bool) \<Rightarrow> 'a list \<Rightarrow> 'a list" where
  "isort_by lt [] = []"
| "isort_by lt (x # xs) = insert_by lt x (isort_by lt xs)"

fun all_comparable :: "pyval list \<Rightarrow> bool" where
  "all_comparable [] = True"
| "all_comparable (k # ks) = ((\<forall>k' \<in> set ks. comparable k k') \<and> all_comparable ks)"

definition py_sorted :: "('a \<Rightarrow> exn + pyval) \<Rightarrow> bool \<Rightarrow> 'a list \<Rightarrow> exn + 'a list" where
  "py_sorted key reverse xs =
     bindE (mapE key xs) (\<lambda>ks.
       if \<not> all_comparable ks then Inl TypeError
       else (let ps = zip ks xs in
         Inr (map snd (if reverse then rev (isort_by key_less (rev ps))
                       else isort_by key_less ps))))"

text \<open>
  What the sort needs of the order: a strict weak order on the keys at hand. Under it the
  result is sorted, a permutation, and stable.
\<close>

locale weak_order =
  fixes lt :: "'a \<Rightarrow> 'a \<Rightarrow> bool" and carrier :: "'a set"
  assumes lt_asym: "x \<in> carrier \<Longrightarrow> y \<in> carrier \<Longrightarrow> lt x y \<Longrightarrow> \<not> lt y x"
    and lt_negtrans: "x \<in> carrier \<Longrightarrow> y \<in> carrier \<Longrightarrow> z \<in> carrier \<Longrightarrow> lt x z \<Longrightarrow> lt x y \<or> lt y z"
begin

abbreviation equiv :: "'a \<Rightarrow> 'a \<Rightarrow> bool" where
  "equiv x y \<equiv> \<not> lt x y \<and> \<not> lt y x"

lemma mset_insert_by: "mset (insert_by lt x ys) = add_mset x (mset ys)"
  by (induction ys) auto

lemma set_insert_by: "set (insert_by lt x ys) = insert x (set ys)"
  by (induction ys) auto

lemma mset_isort_by: "mset (isort_by lt xs) = mset xs"
  by (induction xs) (auto simp: mset_insert_by)

lemma set_isort_by: "set (isort_by lt xs) = set xs"
  by (metis mset_isort_by set_mset_mset)

lemma sorted_insert_by:
  assumes "x \<in> carrier" "set ys \<subseteq> carrier" "sorted_wrt (\<lambda>a b. \<not> lt b a) ys"
  shows "sorted_wrt (\<lambda>a b. \<not> lt b a) (insert_by lt x ys)"
  using assms
proof (induction ys)
  case (Cons y ys)
  show ?case
  proof (cases "lt y x")
    case True
    with Cons show ?thesis by (auto simp: set_insert_by dest: lt_asym)
  next
    case False
    with Cons.prems have "\<not> lt z x" if "z \<in> set ys" for z
      using that lt_negtrans [of z y x] by auto
    with False Cons.prems show ?thesis by auto
  qed
qed simp

lemma sorted_isort_by:
  "set xs \<subseteq> carrier \<Longrightarrow> sorted_wrt (\<lambda>a b. \<not> lt b a) (isort_by lt xs)"
  by (induction xs) (auto simp: set_isort_by intro!: sorted_insert_by)

lemma filter_equiv_insert_by:
  assumes "x \<in> carrier" "set ys \<subseteq> carrier" "z \<in> carrier"
  shows "filter (equiv z) (insert_by lt x ys) = (if equiv z x then x # filter (equiv z) ys else filter (equiv z) ys)"
  using assms
proof (induction ys)
  case (Cons y ys)
  have "\<not> equiv z y" if "lt y x" "equiv z x"
    using that Cons.prems lt_negtrans [of y z x] by auto
  with Cons show ?case by auto
qed simp

lemma stable_isort_by:
  assumes "set xs \<subseteq> carrier" "z \<in> carrier"
  shows "filter (equiv z) (isort_by lt xs) = filter (equiv z) xs"
  using assms by (induction xs) (auto simp: filter_equiv_insert_by set_isort_by)

end

text \<open>The order of Python on keys of one scalar kind is such an order.\<close>

datatype kind = KNum | KStr | KDate

fun kind_of :: "pyval \<Rightarrow> kind option" where
  "kind_of (VInt i) = Some KNum"
| "kind_of (VBool b) = Some KNum"
| "kind_of (VStr s) = Some KStr"
| "kind_of (VDate d) = Some KDate"
| "kind_of v = None"

lemma py_lt_kinds:
  assumes "kind_of x = Some k" and "kind_of y = Some l"
  shows "py_lt x y = (if k = l then Inr (py_lt x y = Inr True) else Inl TypeError)"
  using assms by (cases x; cases y) (auto simp: num_of_def)

lemma key_less_weak: "weak_order key_less {p. kind_of (fst p) = Some k}"
proof
  fix p q :: "pyval \<times> 'a"
  assume "p \<in> {p. kind_of (fst p) = Some k}" "q \<in> {p. kind_of (fst p) = Some k}" "key_less p q"
  then show "\<not> key_less q p"
    by (cases k; cases "fst p"; cases "fst q") (auto simp: key_less_def num_of_def split: if_splits)
next
  fix p q r :: "pyval \<times> 'a"
  assume "p \<in> {p. kind_of (fst p) = Some k}" "q \<in> {p. kind_of (fst p) = Some k}"
    "r \<in> {p. kind_of (fst p) = Some k}" "key_less p r"
  then show "key_less p q \<or> key_less q r"
    by (cases k; cases "fst p"; cases "fst q"; cases "fst r")
      (auto simp: key_less_def num_of_def split: if_splits)
qed

interpretation num_keys: weak_order key_less "{p. kind_of (fst p) = Some KNum}"
  by (rule key_less_weak)

interpretation str_keys: weak_order key_less "{p. kind_of (fst p) = Some KStr}"
  by (rule key_less_weak)

interpretation date_keys: weak_order key_less "{p. kind_of (fst p) = Some KDate}"
  by (rule key_less_weak)

end
