(* ===== verification/Filters.thy ===== *)
theory Filters
  imports PyValue
begin

text \<open>
  The query engine of the middleware, \<open>filter_list\<close> of
  \<^verbatim>\<open>src/middlewared/middlewared/utils/__init__.py\<close>: every \<open>query\<close> method of every
  service ends in it. Rows are Python values, filters and options are the raw JSON the
  client sent, every exception the code can raise is a value of the model.

  Two library functions the code calls with the client's strings are parameters, gathered
  in a record: the regular expression engine (\<open>None\<close> for a pattern it rejects) and the
  ISO-8601 parser (\<open>None\<close> for a string it rejects).
\<close>

section \<open>Environment and results of a path lookup\<close>

record py_env =
  re_match :: "string \<Rightarrow> string \<Rightarrow> bool option"
  fromisoformat :: "string \<Rightarrow> int option"

text \<open>
  \<open>FilterGetResult\<close>: either the lookup is done, with \<open>None\<close> for the marker
  \<open>undefined\<close>, or a wildcard was met and the members of the list are pending together
  with the rest of the path.
\<close>

datatype filter_get_result = Done "pyval option" | Pending "pyval list" string

datatype getter = GImpl | GAttr

definition NULLS_FIRST :: string where "NULLS_FIRST = ''nulls_first:''"
definition NULLS_LAST :: string where "NULLS_LAST = ''nulls_last:''"
definition REVERSE_CHAR :: string where "REVERSE_CHAR = ''-''"
definition MAX_FILTERS_DEPTH :: nat where "MAX_FILTERS_DEPTH = 3"
definition TIMESTAMP_DESIGNATOR :: string where "TIMESTAMP_DESIGNATOR = ''.$date''"

section \<open>Paths\<close>

fun bisect :: "('a \<Rightarrow> bool) \<Rightarrow> 'a list \<Rightarrow> 'a list \<times> 'a list" where
  "bisect condition [] = ([], [])"
| "bisect condition (val # iterable) =
     (case bisect condition iterable of
        (a, b) \<Rightarrow> if condition val then (val # a, b) else (a, val # b))"

function partition_loop :: "string \<Rightarrow> string \<Rightarrow> exn + (string \<times> string)" where
  "partition_loop rv s =
     (case str_partition (CHR ''.'') s of
        (left, sep, right) \<Rightarrow>
          if \<not> sep then Inr (rv @ left, right)
          else if left = [] then Inl IndexError
          else if last left = CHR 0x5C then partition_loop (rv @ butlast left @ ''.'') right
          else Inr (rv @ left, right))"
  by pat_completeness auto
termination
  by (relation "measure (\<lambda>(rv, s). length s)") (auto dest!: str_partition_shorter [OF sym])

declare partition_loop.simps [simp del]

definition partition_path :: "string \<Rightarrow> exn + (string \<times> string)" where
  "partition_path s = partition_loop [] s"

lemma partition_loop_shorter:
  "partition_loop rv s = Inr (l, r) \<Longrightarrow> s \<noteq> [] \<Longrightarrow> length r < length s"
proof (induction rv s rule: partition_loop.induct)
  case (1 rv s)
  obtain left sep right where p: "str_partition (CHR ''.'') s = (left, sep, right)"
    by (cases "str_partition (CHR ''.'') s") auto
  note shorter = str_partition_shorter [OF p] and split = str_partition_split [OF p]
  show ?case
  proof (cases "sep \<and> left \<noteq> [] \<and> last left = CHR 0x5C")
    case True
    with 1(2) p have rec: "partition_loop (rv @ butlast left @ ''.'') right = Inr (l, r)"
      by (subst (asm) partition_loop.simps) auto
    show ?thesis
    proof (cases "right = []")
      case True
      with rec have "r = []" by (subst (asm) partition_loop.simps) auto
      with 1(3) show ?thesis by simp
    next
      case False
      with 1(1) [OF p [symmetric] refl] True rec have "length r < length right" by auto
      with shorter show ?thesis by auto
    qed
  next
    case False
    with 1(2) p have "r = right" and "sep \<or> right = []"
      using split by (subst (asm) partition_loop.simps; auto split: if_splits)+
    with shorter 1(3) show ?thesis by (cases sep) auto
  qed
qed

lemma partition_path_shorter:
  "partition_path s = Inr (l, r) \<Longrightarrow> s \<noteq> [] \<Longrightarrow> length r < length s"
  unfolding partition_path_def by (rule partition_loop_shorter)

function get_impl_loop :: "pyval option \<Rightarrow> string \<Rightarrow> exn + filter_get_result" where
  "get_impl_loop cur right =
     (if right = [] then Inr (Done cur)
      else bindE (partition_path right) (\<lambda>(left, right').
        case cur of
          Some (VDict d) \<Rightarrow> get_impl_loop (map_of d left) right'
        | Some (VList xs) \<Rightarrow>
            if \<not> str_isdigit left
            then (if left = ''*'' then Inr (Pending xs right')
                  else Inl (ValueError ''must be array index or wildcard character''))
            else get_impl_loop
              (Some (if nat_of_digits left < length xs then xs ! nat_of_digits left else VNone)) right'
        | _ \<Rightarrow> get_impl_loop cur right'))"
  by pat_completeness auto
termination
  by (relation "measure (\<lambda>(cur, right). length right)") (auto dest: partition_path_shorter)

declare get_impl_loop.simps [simp del]

text \<open>
  A path that is not a string: a false value is an empty path, anything else has no
  \<open>partition\<close> method.
\<close>

definition path_str :: "pyval \<Rightarrow> exn + string" where
  "path_str v = (case v of VStr s \<Rightarrow> Inr s | _ \<Rightarrow> if truthy v then Inl AttributeError else Inr [])"

definition get_impl :: "pyval \<Rightarrow> pyval \<Rightarrow> exn + filter_get_result" where
  "get_impl obj path = bindE (path_str path) (get_impl_loop (Some obj))"

definition get_attr :: "pyval \<Rightarrow> pyval \<Rightarrow> exn + filter_get_result" where
  "get_attr obj path =
     (case path of
        VStr p \<Rightarrow>
          (case obj of
             VObj attrs \<Rightarrow> (case map_of attrs p of Some v \<Rightarrow> Inr (Done (Some v)) | None \<Rightarrow> Inl AttributeError)
           | _ \<Rightarrow> Inl AttributeError)
      | _ \<Rightarrow> Inl TypeError)"

definition get_value :: "pyval \<Rightarrow> string \<Rightarrow> exn + pyval" where
  "get_value obj path =
     bindE (get_impl obj (VStr path)) (\<lambda>data.
       Inr (case data of Done None \<Rightarrow> VNone | Done (Some v) \<Rightarrow> v | Pending xs key \<Rightarrow> VList xs))"

lemma get_impl_loop_pending:
  "get_impl_loop cur right = Inr (Pending xs key) \<Longrightarrow> length key < length right"
proof (induction cur right rule: get_impl_loop.induct)
  case (1 cur right)
  show ?case
  proof (cases "right = []")
    case True
    with "1.prems" show ?thesis by (simp add: get_impl_loop.simps)
  next
    case False
    with "1.prems" obtain left right' where p: "partition_path right = Inr (left, right')"
      by (subst (asm) get_impl_loop.simps) (auto simp: bindE_eq_Inr_iff)
    note shorter = partition_path_shorter [OF p False]
    from "1.prems" False p show ?thesis
      using "1.IH" [OF False p refl] shorter
      by (subst (asm) get_impl_loop.simps)
        (fastforce split: option.splits pyval.splits if_splits)
  qed
qed

function select_loop :: "string list \<Rightarrow> pyval option \<Rightarrow> string \<Rightarrow> exn + (string list \<times> pyval option)" where
  "select_loop keys cur right =
     (if right = [] then Inr (keys, cur)
      else bindE (partition_path right) (\<lambda>(left, right').
        case cur of
          Some (VDict d) \<Rightarrow> select_loop (keys @ [left]) (map_of d left) right'
        | Some (VList xs) \<Rightarrow> Inl (ValueError ''Selecting by list index is not supported'')
        | _ \<Rightarrow> select_loop keys cur right'))"
  by pat_completeness auto
termination
  by (relation "measure (\<lambda>(keys, cur, right). length right)") (auto dest: partition_path_shorter)

declare select_loop.simps [simp del]

definition select_path :: "pyval \<Rightarrow> pyval \<Rightarrow> exn + (string list \<times> pyval option)" where
  "select_path obj path = bindE (path_str path) (select_loop [] (Some obj))"

section \<open>Operators\<close>

fun casefold :: "pyval \<Rightarrow> exn + pyval" where
  "casefold VNone = Inr VNone"
| "casefold (VStr s) = Inr (VStr (str_casefold s))"
| "casefold (VList xs) =
     bindE (mapE (\<lambda>x. case x of VStr s \<Rightarrow> Inr (VStr (str_casefold s)) | _ \<Rightarrow> Inl AttributeError) xs)
       (\<lambda>ys. Inr (VList ys))"
| "casefold v = Inl (ValueError ''support for casefolding object type not implemented.'')"

type_synonym operator_fn = "pyval \<Rightarrow> pyval \<Rightarrow> exn + bool"

definition notE :: "exn + bool \<Rightarrow> exn + bool" where
  "notE m = bindE m (\<lambda>b. Inr (\<not> b))"

definition op_in :: operator_fn where
  "op_in x y = py_contains y x"

definition op_rin :: operator_fn where
  "op_rin x y = (if x = VNone then Inr False else py_contains x y)"

definition op_nin :: operator_fn where
  "op_nin x y = (if x = VNone then Inr False else notE (py_contains y x))"

definition op_rnin :: operator_fn where
  "op_rnin x y = (if x = VNone then Inr False else notE (py_contains x y))"

definition op_re :: "py_env \<Rightarrow> operator_fn" where
  "op_re env x y = (case (x, y) of (VStr s, VStr pat) \<Rightarrow> (case re_match env pat s of Some b \<Rightarrow> Inr b | None \<Rightarrow> Inl ReError) | _ \<Rightarrow> Inl TypeError)"

definition str_method :: "(string \<Rightarrow> string \<Rightarrow> bool) \<Rightarrow> operator_fn" where
  "str_method m x y =
     (case x of VStr s \<Rightarrow> (case y of VStr t \<Rightarrow> Inr (m s t) | _ \<Rightarrow> Inl TypeError) | _ \<Rightarrow> Inl AttributeError)"

definition op_startswith :: operator_fn where
  "op_startswith x y = (if x = VNone then Inr False else str_method (\<lambda>s t. startswith s t) x y)"

definition op_notstartswith :: operator_fn where
  "op_notstartswith x y = (if x = VNone then Inr False else notE (str_method (\<lambda>s t. startswith s t) x y))"

definition op_endswith :: operator_fn where
  "op_endswith x y = (if x = VNone then Inr False else str_method (\<lambda>s t. endswith s t) x y)"

definition op_notendswith :: operator_fn where
  "op_notendswith x y = (if x = VNone then Inr False else notE (str_method (\<lambda>s t. endswith s t) x y))"

definition opmap :: "py_env \<Rightarrow> (string \<times> operator_fn) list" where
  "opmap env =
     [(''='', \<lambda>x y. Inr (py_eq x y)),
      (''!='', \<lambda>x y. Inr (\<not> py_eq x y)),
      (''>'', \<lambda>x y. py_lt y x),
      (''>='', \<lambda>x y. py_le y x),
      (''<'', py_lt),
      (''<='', py_le),
      (''~'', op_re env),
      (''in'', op_in),
      (''nin'', op_nin),
      (''rin'', op_rin),
      (''rnin'', op_rnin),
      (''^'', op_startswith),
      (''!^'', op_notstartswith),
      (''$'', op_endswith),
      (''!$'', op_notendswith)]"

definition opcodes :: "string list" where
  "opcodes = [''='', ''!='', ''>'', ''>='', ''<'', ''<='', ''~'', ''in'', ''nin'', ''rin'', ''rnin'',
     ''^'', ''!^'', ''$'', ''!$'']"

lemma opmap_dom: "fst ` set (opmap env) = set opcodes"
  by (auto simp: opmap_def opcodes_def)

lemma opmap_defined: "op \<in> set opcodes \<Longrightarrow> \<exists>fn. map_of (opmap env) op = Some fn"
  using opmap_dom [of env] map_of_eq_None_iff [of "opmap env" op] by auto

section \<open>Validation\<close>

text \<open>Unpacking of a filter or a branch: lists and strings are the sequences of JSON.\<close>

fun seq_items :: "pyval \<Rightarrow> exn + pyval list" where
  "seq_items (VList xs) = Inr xs"
| "seq_items (VStr s) = Inr (map (\<lambda>c. VStr [c]) s)"
| "seq_items v = Inl TypeError"

fun branch_head :: "pyval \<Rightarrow> exn + pyval" where
  "branch_head (VList []) = Inl IndexError"
| "branch_head (VList (x # xs)) = Inr x"
| "branch_head (VStr []) = Inl IndexError"
| "branch_head (VStr (c # cs)) = Inr (VStr [c])"
| "branch_head (VDict d) = Inl KeyError"
| "branch_head v = Inl TypeError"

fun op_code :: "pyval \<Rightarrow> exn + string" where
  "op_code (VStr []) = Inl IndexError"
| "op_code (VStr s) = Inr s"
| "op_code (VList []) = Inl IndexError"
| "op_code (VDict d) = Inl KeyError"
| "op_code v = Inl TypeError"

type_synonym value_maps = "(string \<times> int) list"

definition is_timestamp :: "pyval \<Rightarrow> bool" where
  "is_timestamp v = (case v of VStr s \<Rightarrow> endswith s TIMESTAMP_DESIGNATOR | _ \<Rightarrow> False)"

definition validate_operand ::
    "py_env \<Rightarrow> string \<Rightarrow> pyval \<Rightarrow> pyval \<Rightarrow> value_maps \<Rightarrow> pyval \<Rightarrow> exn + value_maps" where
  "validate_operand env op f0 f2 maps operand =
     (if \<not> is_timestamp operand then Inr maps
      else if op \<notin> set [''='', ''!='', ''>'', ''>='', ''<'', ''<='']
      then Inl (ValueError ''invalid timestamp operation.'')
      else (let other = (if py_eq operand f0 then f2 else f0) in
        case other of
          VStr t \<Rightarrow> (case fromisoformat env t of
              Some ts \<Rightarrow> Inr (AList.update t ts maps)
            | None \<Rightarrow> Inl (ValueError ''must be an ISO-8601 formatted timestamp string''))
        | _ \<Rightarrow> Inl (ValueError ''must be an ISO-8601 formatted timestamp string'')))"

definition strip_case :: "string \<Rightarrow> bool \<times> string" where
  "strip_case op = (if hd op = CHR ''C'' then (True, tl op) else (False, op))"

definition validate_condition ::
    "py_env \<Rightarrow> value_maps \<Rightarrow> pyval \<Rightarrow> pyval \<Rightarrow> pyval \<Rightarrow> exn + value_maps" where
  "validate_condition env maps f0 f1 f2 =
     bindE (op_code f1) (\<lambda>code.
       case strip_case code of (ci, op) \<Rightarrow>
         if ci \<and> op = ''~'' then Inl (ValueError ''Invalid case-insensitive operation'')
         else if op \<notin> set opcodes then Inl (ValueError ''Invalid operation'')
         else foldE (validate_operand env op f0 f2) maps [f0, f2])"

function validate_filters ::
    "py_env \<Rightarrow> nat \<Rightarrow> value_maps \<Rightarrow> pyval list \<Rightarrow> exn + value_maps" where
  "validate_filters env depth maps filters =
     (if MAX_FILTERS_DEPTH < depth
      then Inl (ValueError ''query-filters max recursion depth exceeded'')
      else foldE (\<lambda>maps f. bindE (seq_items f) (\<lambda>items.
        case items of
          [op, value] \<Rightarrow>
            (if \<not> py_eq op (VStr ''OR'') then Inl (ValueError ''Invalid operation'')
             else if \<not> truthy value then Inl (ValueError ''OR filter requires at least one branch.'')
             else bindE (py_iter value) (\<lambda>branches.
               foldE (\<lambda>maps branch. bindE (branch_head branch) (\<lambda>h.
                 if is_list h
                 then bindE (py_iter branch) (\<lambda>fs. validate_filters env (Suc depth) maps fs)
                 else validate_filters env (Suc depth) maps [branch])) maps branches))
        | [f0, f1, f2] \<Rightarrow> validate_condition env maps f0 f1 f2
        | _ \<Rightarrow> Inl (ValueError ''Invalid filter''))) maps filters)"
  by pat_completeness auto
termination
  by (relation "measure (\<lambda>(env, depth, maps, filters). Suc MAX_FILTERS_DEPTH - depth)") auto

declare validate_filters.simps [simp del]

definition validate_select :: "pyval list \<Rightarrow> exn + unit" where
  "validate_select select =
     foldE (\<lambda>_ s. case s of
         VStr _ \<Rightarrow> Inr ()
       | VList sel \<Rightarrow>
           if length sel \<noteq> 2 then Inl (ValueError ''A select as list may only contain two parameters'')
           else if list_all is_str sel then Inr ()
           else Inl (ValueError ''item must be a string.'')
       | _ \<Rightarrow> Inl (ValueError ''selectors must be either a parameter name as a string or a list'')) () select"

definition validate_order_by :: "pyval list \<Rightarrow> exn + unit" where
  "validate_order_by order_by =
     foldE (\<lambda>_ ord. if is_str ord then Inr () else Inl (ValueError ''parameter is not a string.'')) () order_by"

definition validate_options ::
    "(string \<times> pyval) list option \<Rightarrow> exn + ((string \<times> pyval) list \<times> pyval list \<times> pyval list)" where
  "validate_options options =
     (case options of
        None \<Rightarrow> Inr ([], [], [])
      | Some opts \<Rightarrow>
          bindE (if truthy (dict_get opts ''get'' VNone)
                 then py_lt (VInt 1) (dict_get opts ''limit'' (VInt 0)) else Inr False) (\<lambda>too_many.
          if too_many then Inl (ValueError ''Invalid options combination. `get` implies a single result.'')
          else if truthy (dict_get opts ''get'' VNone) \<and> truthy (dict_get opts ''offset'' VNone)
          then Inl (ValueError ''Invalid options combination. `get` implies a single result.'')
          else bindE (py_iter (dict_get opts ''select'' (VList []))) (\<lambda>select.
            bindE (validate_select select) (\<lambda>_.
            bindE (py_iter (dict_get opts ''order_by'' (VList []))) (\<lambda>order_by.
            bindE (validate_order_by order_by) (\<lambda>_. Inr (opts, select, order_by)))))))"

section \<open>Evaluation\<close>

definition source_getter :: "getter option \<Rightarrow> pyval \<Rightarrow> pyval \<Rightarrow> exn + filter_get_result" where
  "source_getter g i name =
     (case g of None \<Rightarrow> Inl TypeError | Some GImpl \<Rightarrow> get_impl i name | Some GAttr \<Rightarrow> get_attr i name)"

definition apply_op :: "py_env \<Rightarrow> pyval \<Rightarrow> pyval \<Rightarrow> pyval \<Rightarrow> exn + bool" where
  "apply_op env op source value =
     bindE (op_code op) (\<lambda>code.
       case strip_case code of (ci, opc) \<Rightarrow>
         (case map_of (opmap env) opc of
            None \<Rightarrow> Inl KeyError
          | Some fn \<Rightarrow>
              if ci then bindE (casefold source) (\<lambda>s. bindE (casefold value) (\<lambda>v. fn s v))
              else fn source value))"

definition path_length :: "pyval \<Rightarrow> nat" where
  "path_length v = (case v of VStr s \<Rightarrow> length s | _ \<Rightarrow> 0)"

lemma get_impl_loop_Nil [simp]: "get_impl_loop cur [] = Inr (Done cur)"
  by (simp add: get_impl_loop.simps)

lemma source_getter_pending:
  "source_getter g i name = Inr (Pending xs key) \<Longrightarrow> length key < path_length name"
  by (auto simp: source_getter_def get_impl_def get_attr_def path_str_def path_length_def
      bindE_eq_Inr_iff
      dest!: get_impl_loop_pending split: option.splits getter.splits pyval.splits if_splits)

function filterop ::
    "py_env \<Rightarrow> getter option \<Rightarrow> pyval \<Rightarrow> pyval \<Rightarrow> pyval \<Rightarrow> pyval \<Rightarrow> exn + bool" where
  "filterop env g i name op value =
     bindE (source_getter g i name) (\<lambda>data.
       case data of
         Done None \<Rightarrow> Inr False
       | Pending entries key \<Rightarrow> anyE (\<lambda>entry. filterop env g entry (VStr key) op value) entries
       | Done (Some source) \<Rightarrow> apply_op env op source value)"
  by pat_completeness auto
termination
  by (relation "measure (\<lambda>(env, g, i, name, op, value). path_length name)")
    (auto dest!: source_getter_pending simp: path_length_def)

declare filterop.simps [simp del]

definition getter_fn :: "pyval \<Rightarrow> getter option" where
  "getter_fn entry =
     (if \<not> truthy entry then None else if is_dict entry then Some GImpl else Some GAttr)"

definition map_lookup :: "value_maps \<Rightarrow> pyval \<Rightarrow> exn + int option" where
  "map_lookup maps v =
     (if \<not> hashable v then Inl TypeError
      else Inr (case v of VStr s \<Rightarrow> map_of maps s | _ \<Rightarrow> None))"

text \<open>
  The condition part of \<open>eval_filter\<close>. When the first operand is found among the
  timestamps the source reads \<open>operand_2\<close> before assigning it, which raises
  \<open>UnboundLocalError\<close>. The result of \<open>rstrip\<close> is not used by the source, so only
  its failure on operands that are not strings shows.
\<close>

definition eval_condition ::
    "py_env \<Rightarrow> getter option \<Rightarrow> value_maps \<Rightarrow> pyval \<Rightarrow> pyval list \<Rightarrow> exn + bool" where
  "eval_condition env g maps item items =
     (if maps = []
      then (case items of [name, op, value] \<Rightarrow> filterop env g item name op value
            | _ \<Rightarrow> Inl (ValueError ''values to unpack''))
      else case items of
        [] \<Rightarrow> Inl IndexError
      | f0 # rest \<Rightarrow>
          bindE (map_lookup maps f0) (\<lambda>t0.
            if t0 \<noteq> None then Inl UnboundLocalError
            else case rest of
              f1 # f2 # _ \<Rightarrow>
                bindE (map_lookup maps f2) (\<lambda>t2.
                  case t2 of
                    Some ts \<Rightarrow> if is_str f0 then filterop env g item f0 f1 (VDate ts) else Inl AttributeError
                  | None \<Rightarrow> filterop env g item f0 f1 f2)
            | _ \<Rightarrow> Inl IndexError))"

lemma seq_items_vsize: "seq_items f = Inr [op, value] \<Longrightarrow> vsize value < vsize f"
  by (cases f) auto

lemma branch_head_list:
  assumes "branch_head b = Inr h" and "is_list h" and "py_iter b = Inr xs" and "x \<in> set xs"
  shows "vsize x < vsize b"
  using assms by (cases b rule: branch_head.cases) (auto dest: vsize_mem)

function eval_filter ::
    "py_env \<Rightarrow> getter option \<Rightarrow> value_maps \<Rightarrow> pyval \<Rightarrow> pyval \<Rightarrow> exn + bool" where
  "eval_filter env g maps item the_filter =
     bindE (seq_items the_filter) (\<lambda>items.
       case items of
         [op, value] \<Rightarrow>
           bindE (py_iter value) (\<lambda>branches.
             anyE (\<lambda>branch. bindE (branch_head branch) (\<lambda>h.
               if is_list h
               then bindE (py_iter branch) (\<lambda>fs. allE (\<lambda>f. eval_filter env g maps item f) fs)
               else eval_filter env g maps item branch)) branches)
       | _ \<Rightarrow> eval_condition env g maps item items)"
  by pat_completeness auto
termination
proof (relation "measure (\<lambda>(env, g, maps, item, f). vsize f)", goal_cases)
  case (2 env g maps item the_filter items op x21 v x21a branches branch h fs f)
  then show ?case
    using seq_items_vsize [of the_filter op v] py_iter_vsize [of v branches branch]
      branch_head_list [of branch h fs f] by auto
next
  case (3 env g maps item the_filter items op x21 v x21a branches branch h)
  then show ?case
    using seq_items_vsize [of the_filter op v] py_iter_vsize [of v branches branch] by auto
qed simp

declare eval_filter.simps [simp del]

section \<open>Selection\<close>

text \<open>The walk through \<open>obj.setdefault(k, {})\<close> and the final \<open>obj[last] = value\<close>.\<close>

fun set_nested :: "string list \<Rightarrow> string \<Rightarrow> pyval \<Rightarrow> pyval \<Rightarrow> exn + pyval" where
  "set_nested [] lst v (VDict d) = Inr (VDict (AList.update lst v d))"
| "set_nested [] lst v obj = Inl TypeError"
| "set_nested (k # ks) lst v (VDict d) =
     bindE (set_nested ks lst v (dict_get d k (VDict []))) (\<lambda>sub. Inr (VDict (AList.update k sub d)))"
| "set_nested (k # ks) lst v obj = Inl AttributeError"

definition select_one :: "pyval \<Rightarrow> pyval \<Rightarrow> pyval \<Rightarrow> exn + pyval" where
  "select_one i entry s =
     bindE (case s of
         VList [target, new_name] \<Rightarrow> Inr (target, Some new_name)
       | VList _ \<Rightarrow> Inl (ValueError ''values to unpack'')
       | _ \<Rightarrow> Inr (s, None)) (\<lambda>(target, new_name).
     bindE (select_path i target) (\<lambda>(keys, value).
       case value of
         None \<Rightarrow> Inr entry
       | Some v \<Rightarrow>
           (case new_name of
              Some (VStr n) \<Rightarrow> set_nested [] n v entry
            | Some _ \<Rightarrow> Inl TypeError
            | None \<Rightarrow> if keys = [] then Inl IndexError else set_nested (butlast keys) (last keys) v entry)))"

definition select_entry :: "pyval list \<Rightarrow> pyval \<Rightarrow> exn + pyval" where
  "select_entry select i = foldE (select_one i) (VDict []) select"

definition do_select :: "pyval list \<Rightarrow> pyval list \<Rightarrow> exn + pyval list" where
  "do_select lst select = mapE (select_entry select) lst"

section \<open>Filtering\<close>

fun do_filters_loop ::
    "py_env \<Rightarrow> pyval list \<Rightarrow> pyval list \<Rightarrow> bool \<Rightarrow> value_maps \<Rightarrow> getter option \<Rightarrow> pyval list \<Rightarrow> exn + pyval list" where
  "do_filters_loop env filters select shortcircuit maps g [] = Inr []"
| "do_filters_loop env filters select shortcircuit maps g (i # lst) =
     (let g' = (if g = None then getter_fn i else g) in
      bindE (allE (\<lambda>f. eval_filter env g' maps i f) filters) (\<lambda>valid.
        if \<not> valid then do_filters_loop env filters select shortcircuit maps g' lst
        else bindE (if select \<noteq> [] then select_entry select i else Inr i) (\<lambda>entry.
          if shortcircuit then Inr [entry]
          else bindE (do_filters_loop env filters select shortcircuit maps g' lst) (\<lambda>rv. Inr (entry # rv)))))"

definition do_filters ::
    "py_env \<Rightarrow> pyval list \<Rightarrow> pyval list \<Rightarrow> pyval list \<Rightarrow> bool \<Rightarrow> value_maps \<Rightarrow> exn + pyval list" where
  "do_filters env lst filters select shortcircuit maps =
     do_filters_loop env filters select shortcircuit maps None lst"

section \<open>Ordering\<close>

definition strip_reverse :: "string \<Rightarrow> bool \<times> string" where
  "strip_reverse ord =
     (if startswith ord REVERSE_CHAR then (True, drop 1 ord) else (False, ord))"

definition is_null_at :: "string \<Rightarrow> pyval \<Rightarrow> exn + bool" where
  "is_null_at ord entry =
     (case entry of VDict d \<Rightarrow> Inr (dict_get d ord VNone = VNone) | _ \<Rightarrow> Inl AttributeError)"

definition order_nulls :: "pyval list \<Rightarrow> string \<Rightarrow> exn + (pyval list \<times> pyval list)" where
  "order_nulls lst ord0 =
     (case strip_reverse ord0 of (reverse, ord) \<Rightarrow>
        bindE (mapE (is_null_at ord) lst) (\<lambda>bs.
          let nulls = map snd (filter fst (zip bs lst));
              non_nulls = map snd (filter (\<lambda>p. \<not> fst p) (zip bs lst))
          in bindE (py_sorted (\<lambda>x. get_value x ord) reverse non_nulls) (\<lambda>srt. Inr (nulls, srt))))"

definition order_no_null :: "pyval list \<Rightarrow> string \<Rightarrow> exn + pyval list" where
  "order_no_null lst ord0 =
     (case strip_reverse ord0 of (reverse, ord) \<Rightarrow> py_sorted (\<lambda>x. get_value x ord) reverse lst)"

definition order_step :: "pyval list \<Rightarrow> pyval \<Rightarrow> exn + pyval list" where
  "order_step rv ordv =
     (case ordv of
        VStr ord \<Rightarrow>
          if startswith ord NULLS_FIRST
          then bindE (order_nulls rv (drop (length NULLS_FIRST) ord)) (\<lambda>(nulls, non_nulls). Inr (nulls @ non_nulls))
          else if startswith ord NULLS_LAST
          then bindE (order_nulls rv (drop (length NULLS_LAST) ord)) (\<lambda>(nulls, non_nulls). Inr (non_nulls @ nulls))
          else order_no_null rv ord
      | _ \<Rightarrow> Inl AttributeError)"

definition do_order :: "pyval list \<Rightarrow> pyval list \<Rightarrow> exn + pyval list" where
  "do_order rv order_by = foldE order_step rv order_by"

section \<open>The entry point\<close>

definition do_get :: "pyval list \<Rightarrow> exn + pyval" where
  "do_get rv = (case rv of [] \<Rightarrow> Inl MatchNotFound | x # _ \<Rightarrow> Inr x)"

definition do_count :: "pyval list \<Rightarrow> pyval" where
  "do_count rv = VInt (int (length rv))"

text \<open>The last part of \<open>filter_list\<close>: count, order, get, offset and limit.\<close>

definition finish_list :: "(string \<times> pyval) list \<Rightarrow> pyval list \<Rightarrow> pyval list \<Rightarrow> exn + pyval" where
  "finish_list opts order_by rv =
     (if dict_get opts ''count'' VNone = VBool True then Inr (do_count rv)
      else bindE (do_order rv order_by) (\<lambda>rv.
        if dict_get opts ''get'' VNone = VBool True then do_get rv
        else bindE (if truthy (dict_get opts ''offset'' VNone)
                    then bindE (index_of (dict_get opts ''offset'' VNone)) (\<lambda>n. Inr (slice_from n rv))
                    else Inr rv) (\<lambda>rv.
             if truthy (dict_get opts ''limit'' VNone)
             then bindE (index_of (dict_get opts ''limit'' VNone)) (\<lambda>n. Inr (VList (slice_to n rv)))
             else Inr (VList rv))))"

definition filter_list ::
    "py_env \<Rightarrow> pyval list \<Rightarrow> pyval list \<Rightarrow> (string \<times> pyval) list option \<Rightarrow> exn + pyval" where
  "filter_list env lst filters options =
     bindE (validate_options options) (\<lambda>(opts, select, order_by).
       let shortcircuit = (truthy (dict_get opts ''get'' VNone) \<and> order_by = []) in
       if filters \<noteq> []
       then bindE (validate_filters env 0 [] filters) (\<lambda>maps.
            bindE (do_filters env lst filters select shortcircuit maps) (\<lambda>rv.
              if shortcircuit then do_get rv else finish_list opts order_by rv))
       else bindE (if select \<noteq> [] then do_select lst select else Inr lst) (finish_list opts order_by))"

section \<open>Helpers\<close>

lemma sum_vsize_last:
  "f \<noteq> [] \<Longrightarrow> sum_list (map vsize f) = sum_list (map vsize (butlast f)) + vsize (last f)"
  by (induction f) auto


text \<open>\<open>filter_getattrs\<close>: a work list that is consumed from its end.\<close>

function getattrs_loop :: "pyval set \<Rightarrow> pyval list \<Rightarrow> exn + pyval set" where
  "getattrs_loop attrs f =
     (if f = [] then Inr attrs
      else bindE (seq_items (last f)) (\<lambda>items.
        case items of
          [op, value] \<Rightarrow> getattrs_loop attrs (butlast f @ [value])
        | [name, op, value] \<Rightarrow>
            if hashable name then getattrs_loop (insert name attrs) (butlast f) else Inl TypeError
        | _ \<Rightarrow> Inl (ValueError ''Invalid filter.'')))"
  by pat_completeness auto
termination
proof (relation "measure (\<lambda>(attrs, f). sum_list (map vsize f))", goal_cases)
  case (2 attrs f items op x21 v x21a)
  then have "vsize v < vsize (last f)" by (auto intro: seq_items_vsize)
  with \<open>f \<noteq> []\<close> show ?case by (simp add: sum_vsize_last)
next
  case (3 attrs f items)
  have "0 < vsize (last f)" by (cases "last f") auto
  with \<open>f \<noteq> []\<close> show ?case by (simp add: sum_vsize_last)
qed simp

declare getattrs_loop.simps [simp del]

definition filter_getattrs :: "pyval list \<Rightarrow> exn + pyval set" where
  "filter_getattrs filters = getattrs_loop {} filters"

definition is_empty :: "pyval \<Rightarrow> exn + bool" where
  "is_empty v =
     (case v of
        VNone \<Rightarrow> Inr True
      | VStr s \<Rightarrow> Inr (s = [] \<or> list_all (\<lambda>c. c \<in> set [CHR '' '', CHR 0x09, CHR 0x0A, CHR 0x0B, CHR 0x0C, CHR 0x0D, CHR 0x1C, CHR 0x1D, CHR 0x1E, CHR 0x1F]) s)
      | _ \<Rightarrow> Inl AttributeError)"

fun are_indices_in_consecutive_order :: "int list \<Rightarrow> bool" where
  "are_indices_in_consecutive_order (a # b # arr) =
     (if b \<noteq> a + 1 then False else are_indices_in_consecutive_order (b # arr))"
| "are_indices_in_consecutive_order arr = True"

text \<open>The counter object \<open>Nid\<close>: a call returns the number and moves on.\<close>

definition nid_call :: "int \<Rightarrow> int \<times> int" where
  "nid_call num = (num, num + 1)"

end
