(* ===== verification/FilterProofs.thy ===== *)
theory FilterProofs
  imports Filters
begin

text \<open>
  Correctness of the query engine: filtering and its short circuit, the meaning of
  \<open>OR\<close> against an abstract query language, what validation guarantees to
  evaluation, ordering, selection and pagination.
\<close>

section \<open>Filtering\<close>

lemma eval_getter_dict:
  "truthy i \<Longrightarrow> is_dict i \<Longrightarrow> getter_fn i = Some GImpl"
  by (simp add: getter_fn_def)

lemma do_filters_loop_filter:
  assumes "do_filters_loop env filters [] False maps g lst = Inr rv"
    and "g = None \<or> g = Some GImpl"
    and "\<forall>i \<in> set lst. truthy i \<and> is_dict i"
  shows "rv = filter (\<lambda>i. allE (eval_filter env (Some GImpl) maps i) filters = Inr True) lst"
  using assms
proof (induction lst arbitrary: g rv)
  case (Cons i lst)
  let ?ok = "allE (eval_filter env (Some GImpl) maps i) filters"
  have g': "(if g = None then getter_fn i else g) = Some GImpl"
    using Cons.prems(2,3) by (auto simp: eval_getter_dict)
  from Cons.prems(1) g' obtain valid where valid: "?ok = Inr valid"
    by (auto simp: Let_def)
  show ?case
  proof (cases valid)
    case True
    with Cons.prems(1) g' valid obtain rv' where
      "do_filters_loop env filters [] False maps (Some GImpl) lst = Inr rv'" and "rv = i # rv'"
      by (auto simp: Let_def bindE_eq_Inr_iff)
    with Cons.IH [of "Some GImpl" rv'] Cons.prems(3) valid True show ?thesis by simp
  next
    case False
    with Cons.prems(1) g' valid have "do_filters_loop env filters [] False maps (Some GImpl) lst = Inr rv"
      by (auto simp: Let_def)
    with Cons.IH [of "Some GImpl" rv] Cons.prems(3) valid False show ?thesis by simp
  qed
qed simp

lemma do_filters_loop_shortcircuit:
  "do_filters_loop env filters select False maps g lst = Inr rv \<Longrightarrow>
   do_filters_loop env filters select True maps g lst = Inr (take 1 rv)"
proof (induction lst arbitrary: g rv)
  case (Cons i lst)
  let ?g' = "if g = None then getter_fn i else g"
  from Cons.prems obtain valid where valid: "allE (eval_filter env ?g' maps i) filters = Inr valid"
    by (auto simp: Let_def)
  show ?case
  proof (cases valid)
    case True
    with Cons.prems valid show ?thesis by (auto simp: Let_def bindE_eq_Inr_iff)
  next
    case False
    with Cons.prems valid have "do_filters_loop env filters select False maps ?g' lst = Inr rv"
      by (auto simp: Let_def)
    from Cons.IH [OF this] valid False show ?thesis by (simp add: Let_def)
  qed
qed simp

section \<open>The abstract query language\<close>

text \<open>
  A filter is a condition or a disjunction of conjunctions. \<open>raw_of\<close> is the JSON a
  client sends for it and \<open>holds_query\<close> its meaning.
\<close>

datatype query = Cond string string pyval | AnyOf "query list list"

fun raw_of :: "query \<Rightarrow> pyval" where
  "raw_of (Cond name op value) = VList [VStr name, VStr op, value]"
| "raw_of (AnyOf branches) = VList [VStr ''OR'', VList (map (\<lambda>b. VList (map raw_of b)) branches)]"

fun holds_query :: "py_env \<Rightarrow> getter option \<Rightarrow> pyval \<Rightarrow> query \<Rightarrow> exn + bool" where
  "holds_query env g item (Cond name op value) = filterop env g item (VStr name) (VStr op) value"
| "holds_query env g item (AnyOf branches) = anyE (\<lambda>b. allE (holds_query env g item) b) branches"

fun qdepth :: "query \<Rightarrow> nat" where
  "qdepth (Cond name op value) = 0"
| "qdepth (AnyOf branches) = Suc (fold max (map (\<lambda>b. fold max (map qdepth b) 0) branches) 0)"

definition op_ok :: "string \<Rightarrow> bool" where
  "op_ok op \<longleftrightarrow> op \<noteq> [] \<and> snd (strip_case op) \<in> set opcodes \<and> \<not> (fst (strip_case op) \<and> snd (strip_case op) = ''~'')"

fun query_ok :: "query \<Rightarrow> bool" where
  "query_ok (Cond name op value) = (op_ok op \<and> \<not> is_timestamp (VStr name) \<and> \<not> is_timestamp value)"
| "query_ok (AnyOf branches) = (branches \<noteq> [] \<and> (\<forall>b \<in> set branches. b \<noteq> [] \<and> (\<forall>q \<in> set b. query_ok q)))"

lemma raw_of_is_list [simp]: "is_list (raw_of q)"
  by (cases q) auto

lemma raw_of_seq: "seq_items (raw_of q) = Inr (case q of
    Cond name op value \<Rightarrow> [VStr name, VStr op, value]
  | AnyOf branches \<Rightarrow> [VStr ''OR'', VList (map (\<lambda>b. VList (map raw_of b)) branches)])"
  by (cases q) auto

lemma fold_max_le: "fold max xs (m::nat) \<le> n \<longleftrightarrow> m \<le> n \<and> (\<forall>x \<in> set xs. x \<le> n)"
  by (induction xs arbitrary: m) auto

lemma qdepth_AnyOf_le:
  "qdepth (AnyOf branches) \<le> Suc n \<longleftrightarrow> (\<forall>b \<in> set branches. \<forall>q \<in> set b. qdepth q \<le> n)"
  by (auto simp: fold_max_le)

lemma map_anyE: "anyE p (map f xs) = anyE (\<lambda>x. p (f x)) xs"
  by (induction xs) (auto intro!: bindE_cong)

lemma map_allE: "allE p (map f xs) = allE (\<lambda>x. p (f x)) xs"
  by (induction xs) (auto intro!: bindE_cong)

lemma eval_filter_raw_of:
  "query_ok q \<Longrightarrow> eval_filter env g [] item (raw_of q) = holds_query env g item q"
proof (induction q)
  case (Cond name op v)
  show ?case by (simp add: eval_filter.simps eval_condition_def)
next
  case (AnyOf branches)
  have branch: "bindE (branch_head (VList (map raw_of b))) (\<lambda>h.
      if is_list h then bindE (py_iter (VList (map raw_of b))) (\<lambda>fs. allE (eval_filter env g [] item) fs)
      else eval_filter env g [] item (VList (map raw_of b))) = allE (holds_query env g item) b"
    if "b \<in> set branches" for b
  proof -
    from AnyOf.prems that obtain q qs where b: "b = q # qs" by (cases b) auto
    then have hd: "branch_head (VList (map raw_of b)) = Inr (raw_of q)" by simp
    from AnyOf that have "allE (eval_filter env g [] item) (map raw_of b) = allE (holds_query env g item) b"
      unfolding map_allE by (intro allE_cong) auto
    with hd show ?thesis by simp
  qed
  show ?case
    by (subst eval_filter.simps) (simp add: map_anyE, intro anyE_cong, auto simp: branch)
qed

section \<open>Validation\<close>

lemma validate_condition_ok:
  "query_ok (Cond name op value) \<Longrightarrow> validate_condition env maps (VStr name) (VStr op) value = Inr maps"
  by (cases op) (auto simp: validate_condition_def validate_operand_def op_ok_def split: prod.splits)

lemma foldE_const: "(\<And>x. x \<in> set xs \<Longrightarrow> f s x = Inr s) \<Longrightarrow> foldE f s xs = Inr s"
  by (induction xs) auto

text \<open>The body of the loop of \<open>validate_filters\<close> and of its loop over branches, by name.\<close>

definition validate_branch :: "py_env \<Rightarrow> nat \<Rightarrow> value_maps \<Rightarrow> pyval \<Rightarrow> exn + value_maps" where
  "validate_branch env depth maps branch = bindE (branch_head branch) (\<lambda>h.
     if is_list h then bindE (py_iter branch) (\<lambda>fs. validate_filters env (Suc depth) maps fs)
     else validate_filters env (Suc depth) maps [branch])"

definition validate_one :: "py_env \<Rightarrow> nat \<Rightarrow> value_maps \<Rightarrow> pyval \<Rightarrow> exn + value_maps" where
  "validate_one env depth maps f = bindE (seq_items f) (\<lambda>items.
     case items of
       [op, value] \<Rightarrow>
         (if \<not> py_eq op (VStr ''OR'') then Inl (ValueError ''Invalid operation'')
          else if \<not> truthy value then Inl (ValueError ''OR filter requires at least one branch.'')
          else bindE (py_iter value) (foldE (validate_branch env depth) maps))
     | [f0, f1, f2] \<Rightarrow> validate_condition env maps f0 f1 f2
     | _ \<Rightarrow> Inl (ValueError ''Invalid filter''))"

lemma validate_filters_unfold:
  "validate_filters env depth maps filters =
     (if MAX_FILTERS_DEPTH < depth then Inl (ValueError ''query-filters max recursion depth exceeded'')
      else foldE (validate_one env depth) maps filters)"
  unfolding validate_filters.simps [of env depth maps filters] validate_one_def validate_branch_def ..

lemma validate_one_cases:
  assumes "validate_one env depth maps f = Inr maps'"
  obtains (Or) op v branches where "seq_items f = Inr [op, v]" "py_iter v = Inr branches"
      "foldE (validate_branch env depth) maps branches = Inr maps'"
  | (Condition) f0 f1 f2 where "seq_items f = Inr [f0, f1, f2]" "validate_condition env maps f0 f1 f2 = Inr maps'"
proof -
  from assms obtain items where items: "seq_items f = Inr items"
    by (auto simp: validate_one_def)
  consider (two) "length items = 2" | (three) "length items = 3" | (other) "length items \<noteq> 2" "length items \<noteq> 3"
    by blast
  then show thesis
  proof cases
    case two
    then obtain a b where "items = [a, b]" by (auto simp: length_Suc_conv numeral_2_eq_2)
    with assms items Or show thesis by (auto simp: validate_one_def split: if_splits)
  next
    case three
    then obtain a b c where "items = [a, b, c]" by (auto simp: length_Suc_conv numeral_3_eq_3)
    with assms items Condition show thesis by (auto simp: validate_one_def)
  next
    case other
    with assms items show thesis by (auto simp: validate_one_def split: list.splits if_splits)
  qed
qed

text \<open>A query within the depth limit passes validation and leaves no timestamp behind.\<close>

lemma validate_filters_ok:
  assumes "\<forall>q \<in> set qs. query_ok q \<and> depth + qdepth q \<le> MAX_FILTERS_DEPTH" and "depth \<le> MAX_FILTERS_DEPTH"
  shows "validate_filters env depth maps (map raw_of qs) = Inr maps"
  using assms
proof (induction "MAX_FILTERS_DEPTH - depth" arbitrary: depth qs rule: less_induct)
  case less
  have step: "validate_one env depth maps (raw_of q) = Inr maps" if q: "q \<in> set qs" for q
  proof (cases q)
    case (Cond name op v)
    with less.prems q have "query_ok (Cond name op v)" by blast
    from validate_condition_ok [OF this] Cond show ?thesis by (simp add: validate_one_def)
  next
    case (AnyOf branches)
    with less.prems q have ok: "query_ok (AnyOf branches)"
      and le: "depth + qdepth (AnyOf branches) \<le> MAX_FILTERS_DEPTH" by blast+
    from le have d: "Suc depth \<le> MAX_FILTERS_DEPTH" by simp
    from le d have sub: "qdepth (AnyOf branches) \<le> Suc (MAX_FILTERS_DEPTH - Suc depth)"
      by linarith
    have "validate_branch env depth maps (VList (map raw_of b)) = Inr maps" if b: "b \<in> set branches" for b
    proof -
      from b ok have "b \<noteq> []" by auto
      then obtain p ps where "b = p # ps" by (cases b) auto
      then have hd: "branch_head (VList (map raw_of b)) = Inr (raw_of p)" by simp
      from b sub have "\<forall>q \<in> set b. qdepth q \<le> MAX_FILTERS_DEPTH - Suc depth"
        unfolding qdepth_AnyOf_le by blast
      with b ok d have "\<forall>q \<in> set b. query_ok q \<and> Suc depth + qdepth q \<le> MAX_FILTERS_DEPTH"
        by (auto simp: le_diff_conv2)
      with less.hyps [of "Suc depth" b] d hd show ?thesis by (simp add: validate_branch_def)
    qed
    then have "foldE (validate_branch env depth) maps (map (\<lambda>b. VList (map raw_of b)) branches) = Inr maps"
      by (intro foldE_const) auto
    with AnyOf ok show ?thesis by (simp add: validate_one_def)
  qed
  then have "foldE (validate_one env depth) maps (map raw_of qs) = Inr maps"
    by (intro foldE_const) auto
  with less.prems(2) show ?case by (simp add: validate_filters_unfold)
qed

text \<open>The other direction: a filter nested deeper than the limit is refused.\<close>

lemma validate_filters_depth:
  assumes "validate_filters env depth maps (map raw_of qs) = Inr maps'" and "q \<in> set qs" and "query_ok q"
  shows "depth + qdepth q \<le> MAX_FILTERS_DEPTH"
  using assms
proof (induction q arbitrary: depth qs maps maps')
  case (Cond name op v)
  then show ?case by (simp add: validate_filters_unfold split: if_splits)
next
  case (AnyOf branches)
  from AnyOf.prems(1,2) obtain m1 m2 where "validate_one env depth m1 (raw_of (AnyOf branches)) = Inr m2"
    by (force simp: validate_filters_unfold split: if_splits dest: foldE_Inr_elem)
  then have fold: "foldE (validate_branch env depth) m1 (map (\<lambda>b. VList (map raw_of b)) branches) = Inr m2"
    by (auto simp: validate_one_def split: if_splits)
  have deeper: "Suc depth + qdepth p \<le> MAX_FILTERS_DEPTH" if b: "b \<in> set branches" and p: "p \<in> set b" for b p
  proof -
    from fold b obtain m3 m4 where v: "validate_branch env depth m3 (VList (map raw_of b)) = Inr m4"
      by (force dest: foldE_Inr_elem)
    from p obtain r rs where "b = r # rs" by (cases b) auto
    then have "branch_head (VList (map raw_of b)) = Inr (raw_of r)" by simp
    with v have "validate_filters env (Suc depth) m3 (map raw_of b) = Inr m4"
      by (simp add: validate_branch_def)
    moreover have "query_ok p" using AnyOf.prems(3) b p by auto
    ultimately show ?thesis using AnyOf.IH [OF b p] p by blast
  qed
  from AnyOf.prems(3) have "hd branches \<in> set branches" and "hd (hd branches) \<in> set (hd branches)"
    by (auto simp: hd_in_set)
  from deeper [OF this] have d: "Suc depth \<le> MAX_FILTERS_DEPTH" by simp
  from deeper have "\<forall>b \<in> set branches. \<forall>p \<in> set b. qdepth p \<le> MAX_FILTERS_DEPTH - Suc depth"
    by (intro ballI) (drule (1) deeper, linarith)
  then have "qdepth (AnyOf branches) \<le> Suc (MAX_FILTERS_DEPTH - Suc depth)"
    unfolding qdepth_AnyOf_le by blast
  with d show ?case by linarith
qed

text \<open>What validation established of one filter of a list.\<close>

definition validated :: "py_env \<Rightarrow> pyval \<Rightarrow> bool" where
  "validated env f \<longleftrightarrow> (\<exists>d m m'. validate_one env d m f = Inr m')"

lemma validated_elem:
  "validate_filters env d m fs = Inr m' \<Longrightarrow> f \<in> set fs \<Longrightarrow> validated env f"
  by (force simp: validated_def validate_filters_unfold split: if_splits dest: foldE_Inr_elem)

lemma validated_items: "validated env f \<Longrightarrow> \<exists>items. seq_items f = Inr items \<and> (length items = 2 \<or> length items = 3)"
  unfolding validated_def by (elim exE validate_one_cases) auto

lemma validated_condition:
  assumes "validated env f" and "seq_items f = Inr [f0, f1, f2]"
  shows "\<exists>code. op_code f1 = Inr code \<and> op_ok code"
proof -
  from assms obtain m m' where "validate_condition env m f0 f1 f2 = Inr m'"
    unfolding validated_def by (elim exE validate_one_cases) auto
  then obtain code where code: "op_code f1 = Inr code" by (auto simp: validate_condition_def)
  moreover from code have "code \<noteq> []" by (cases f1 rule: op_code.cases) auto
  ultimately show ?thesis using \<open>validate_condition env m f0 f1 f2 = Inr m'\<close>
    by (auto simp: validate_condition_def op_ok_def split: prod.splits if_splits)
qed

lemma validated_branch:
  assumes "validated env f" and "seq_items f = Inr [op, v]" and "py_iter v = Inr branches" and "b \<in> set branches"
  shows "\<exists>h. branch_head b = Inr h \<and>
    (if is_list h then \<forall>fs. py_iter b = Inr fs \<longrightarrow> (\<forall>x \<in> set fs. validated env x) else validated env b)"
proof -
  from assms(1-3) obtain d m1 m2 where "foldE (validate_branch env d) m1 branches = Inr m2"
    unfolding validated_def by (elim exE validate_one_cases) auto
  from foldE_Inr_elem [OF this assms(4)] obtain m3 m4 h where h: "branch_head b = Inr h"
    and v: "(if is_list h then bindE (py_iter b) (\<lambda>fs. validate_filters env (Suc d) m3 fs)
      else validate_filters env (Suc d) m3 [b]) = Inr m4"
    by (auto simp: validate_branch_def bindE_eq_Inr_iff)
  then show ?thesis
    by (intro exI [of _ h]) (auto intro: validated_elem split: if_splits)
qed

section \<open>Evaluation after validation\<close>

text \<open>
  Two exceptions mean that evaluation met a filter it should never have been given: an
  unknown operator (\<open>KeyError\<close>) and a filter of the wrong length.
\<close>

definition malformed :: "exn \<Rightarrow> bool" where
  "malformed e \<longleftrightarrow> e = KeyError \<or> e = ValueError ''values to unpack''"

lemma malformed_simps [simp]:
  "\<not> malformed TypeError" "\<not> malformed IndexError" "\<not> malformed AttributeError"
  "\<not> malformed UnboundLocalError" "\<not> malformed ReError"
  by (simp_all add: malformed_def)

lemma partition_path_exn: "partition_path s = Inl e \<Longrightarrow> e = IndexError"
proof -
  have "partition_loop rv s = Inl e \<Longrightarrow> e = IndexError" for rv
  proof (induction rv s rule: partition_loop.induct)
    case (1 rv s)
    then show ?case
      by (subst (asm) (2) partition_loop.simps) (auto split: prod.splits if_splits)
  qed
  then show "partition_path s = Inl e \<Longrightarrow> e = IndexError" by (simp add: partition_path_def)
qed

lemma get_impl_loop_exn:
  "get_impl_loop cur right = Inl e \<Longrightarrow> e = IndexError \<or> e = ValueError ''must be array index or wildcard character''"
proof (induction cur right rule: get_impl_loop.induct)
  case (1 cur right)
  show ?case
  proof (cases "partition_path right")
    case (Inl e')
    with "1.prems" partition_path_exn [OF Inl] show ?thesis
      by (auto simp: get_impl_loop.simps [of cur right] split: if_splits)
  next
    case (Inr lr)
    obtain left right' where lr: "lr = (left, right')" by (cases lr)
    from "1.prems" have ne: "right \<noteq> []" by auto
    note IH = "1.IH" [OF ne Inr lr [symmetric]]
    from "1.prems" Inr lr ne IH show ?thesis
      by (auto simp: get_impl_loop.simps [of cur right] split: option.splits pyval.splits if_splits)
  qed
qed

lemma source_getter_exn: "source_getter g i name = Inl e \<Longrightarrow> \<not> malformed e"
  by (auto simp: source_getter_def get_impl_def get_attr_def path_str_def malformed_def bindE_eq_Inl_iff
      dest!: get_impl_loop_exn split: option.splits getter.splits pyval.splits if_splits)

lemma py_lt_exn: "py_lt x y = Inl e \<Longrightarrow> e = TypeError"
  by (induction x y rule: py_lt.induct) (auto split: if_splits option.splits)

lemma py_contains_exn: "py_contains x y = Inl e \<Longrightarrow> e = TypeError"
  by (cases x) (auto split: pyval.splits if_splits)

lemma casefold_exn: "casefold v = Inl e \<Longrightarrow> \<not> malformed e"
  by (cases v) (auto simp: malformed_def bindE_eq_Inl_iff dest!: mapE_eq_Inl split: pyval.splits)

lemma opmap_exn: "map_of (opmap env) op = Some fn \<Longrightarrow> fn x y = Inl e \<Longrightarrow> \<not> malformed e"
  by (auto simp: opmap_def malformed_def py_le_def op_re_def op_in_def op_rin_def op_nin_def op_rnin_def
      op_startswith_def op_notstartswith_def op_endswith_def op_notendswith_def str_method_def notE_def
      bindE_eq_Inl_iff dest: py_lt_exn py_contains_exn split: if_splits pyval.splits option.splits)

lemma apply_op_exn:
  assumes "op_code op = Inr code" and "op_ok code" and "apply_op env op source v = Inl e"
  shows "\<not> malformed e"
proof -
  obtain ci opc where strip: "strip_case code = (ci, opc)" by (cases "strip_case code")
  with assms(2) obtain fn where fn: "map_of (opmap env) opc = Some fn"
    using opmap_defined [of opc env] by (auto simp: op_ok_def)
  from assms(1,3) strip fn show ?thesis
    by (auto simp: apply_op_def bindE_eq_Inl_iff dest: opmap_exn [OF fn] casefold_exn split: if_splits)
qed

lemma filterop_exn:
  assumes "op_code op = Inr code" and "op_ok code" and "filterop env g i name op v = Inl e"
  shows "\<not> malformed e"
  using assms
proof (induction env g i name op v rule: filterop.induct)
  case (1 env g i name op v)
  show ?case
  proof (cases "source_getter g i name")
    case (Inl e')
    with "1.prems" show ?thesis
      by (auto simp: filterop.simps [of env g i name] dest: source_getter_exn)
  next
    case (Inr data)
    show ?thesis
    proof (cases data)
      case (Done r)
      with Inr "1.prems" show ?thesis
        by (auto simp: filterop.simps [of env g i name] dest: apply_op_exn split: option.splits)
    next
      case (Pending entries key)
      with Inr "1.prems"(3) obtain entry where "entry \<in> set entries"
        and "filterop env g entry (VStr key) op v = Inl e"
        by (auto simp: filterop.simps [of env g i name] dest: anyE_eq_Inl)
      with "1.IH" [OF Inr Pending] "1.prems" show ?thesis by blast
    qed
  qed
qed

lemma map_lookup_exn: "map_lookup maps v = Inl e \<Longrightarrow> \<not> malformed e"
  by (auto simp: map_lookup_def malformed_def split: if_splits)

lemma eval_condition_exn:
  assumes "op_code f1 = Inr code" and "op_ok code" and "eval_condition env g maps item [f0, f1, f2] = Inl e"
  shows "\<not> malformed e"
proof -
  note exn = filterop_exn [OF assms(1,2)] map_lookup_exn
  show ?thesis
  proof (cases "maps = []")
    case True
    with assms(3) show ?thesis by (auto simp: eval_condition_def dest: exn)
  next
    case False
    with assms(3) show ?thesis
      by (cases "map_lookup maps f0"; cases "map_lookup maps f2")
        (auto simp: eval_condition_def dest: exn split: if_splits option.splits)
  qed
qed

lemma py_iter_exn: "py_iter v = Inl e \<Longrightarrow> \<not> malformed e"
  by (cases v) (auto simp: malformed_def)

lemma eval_filter_exn:
  assumes "validated env f" and "eval_filter env g maps item f = Inl e"
  shows "\<not> malformed e"
  using assms
proof (induction env g maps item f rule: eval_filter.induct)
  case (1 env g maps item f)
  from validated_items [OF "1.prems"(1)] obtain items where items: "seq_items f = Inr items"
    and len: "length items = 2 \<or> length items = 3" by blast
  show ?case
  proof (cases "length items = 2")
    case False
    with len obtain f0 f1 f2 where f: "items = [f0, f1, f2]"
      by (auto simp: length_Suc_conv numeral_3_eq_3)
    with items "1.prems"(1) obtain code where "op_code f1 = Inr code" "op_ok code"
      using validated_condition by blast
    moreover from items f "1.prems"(2) have "eval_condition env g maps item [f0, f1, f2] = Inl e"
      by (simp add: eval_filter.simps [of env g maps item f])
    ultimately show ?thesis by (rule eval_condition_exn)
  next
    case True
    then obtain op v where f: "items = [op, v]" by (auto simp: length_Suc_conv numeral_2_eq_2)
    show ?thesis
    proof (cases "py_iter v")
      case (Inl e')
      with items f "1.prems"(2) show ?thesis
        by (auto simp: eval_filter.simps [of env g maps item f] dest: py_iter_exn)
    next
      case (Inr branches)
      let ?br = "\<lambda>b. bindE (branch_head b) (\<lambda>h. if is_list h
          then bindE (py_iter b) (\<lambda>fs. allE (\<lambda>f. eval_filter env g maps item f) fs)
          else eval_filter env g maps item b)"
      from items f Inr "1.prems"(2) have "anyE ?br branches = Inl e"
        by (simp add: eval_filter.simps [of env g maps item f])
      from anyE_eq_Inl [OF this] obtain b where b: "b \<in> set branches" and err: "?br b = Inl e"
        by (rule bexE)
      from validated_branch [OF "1.prems"(1) items [unfolded f] Inr b] obtain h
        where h: "branch_head b = Inr h"
          and ok: "if is_list h then \<forall>fs. py_iter b = Inr fs \<longrightarrow> (\<forall>x \<in> set fs. validated env x) else validated env b"
        by blast
      note IH = "1.IH" [OF items, of op "[v]" v "[]", unfolded f, OF refl refl refl Inr b h]
      show ?thesis
      proof (cases "is_list h")
        case True
        with h err have loop: "bindE (py_iter b) (\<lambda>fs. allE (\<lambda>f. eval_filter env g maps item f) fs) = Inl e"
          by simp
        show ?thesis
        proof (cases "py_iter b")
          case (Inl e')
          with loop show ?thesis by (auto dest: py_iter_exn)
        next
          case fs: (Inr fs)
          with loop obtain x where x: "x \<in> set fs" and "eval_filter env g maps item x = Inl e"
            by (auto dest: allE_eq_Inl)
          moreover from ok True fs x have "validated env x" by simp
          ultimately show ?thesis using IH(1) [OF True fs x] by blast
        qed
      next
        case False
        with h err ok IH(2) show ?thesis by simp
      qed
    qed
  qed
qed

section \<open>Ordering\<close>

lemma all_comparable_kind:
  "\<forall>v \<in> set ks. kind_of v = Some k \<Longrightarrow> all_comparable ks"
proof (induction ks)
  case (Cons v ks)
  have "comparable v w" if "w \<in> set ks" for w
    using that Cons.prems py_lt_kinds [of v k w k] py_lt_kinds [of w k v k]
    by (auto simp: comparable_def isl_def)
  with Cons show ?case by simp
qed simp

lemma zip_map_self: "zip (map f xs) xs = map (\<lambda>x. (f x, x)) xs"
  by (induction xs) auto

lemma scalar_equiv:
  "kind_of v = Some k \<Longrightarrow> kind_of w = Some k \<Longrightarrow>
   (py_lt v w \<noteq> Inr True \<and> py_lt w v \<noteq> Inr True) \<longleftrightarrow> py_eq v w"
  by (cases k; cases v; cases w) (auto simp: num_of_def split: if_splits)

text \<open>
  \<open>sorted\<close> with a key that is defined on every element and has one scalar kind: the
  result is a permutation in the order of the keys, and elements with equal keys keep
  their order, in a reverse sort too.
\<close>

lemma py_sorted_spec:
  assumes key_total: "\<And>x. x \<in> set xs \<Longrightarrow> key x = Inr (val x)"
    and key_kind: "\<And>x. x \<in> set xs \<Longrightarrow> kind_of (val x) = Some k"
  obtains ys where "py_sorted key r xs = Inr ys" and "mset ys = mset xs"
    and "sorted_wrt (\<lambda>x y. (if r then py_lt (val x) (val y) else py_lt (val y) (val x)) = Inr False) ys"
    and "\<And>z. filter (\<lambda>x. py_eq (val x) z) ys = filter (\<lambda>x. py_eq (val x) z) xs"
proof -
  let ?pairs = "map (\<lambda>x. (val x, x)) xs"
  let ?ps = "if r then rev (isort_by key_less (rev ?pairs)) else isort_by key_less ?pairs"
  let ?ys = "map snd ?ps"
  have carrier: "set ?pairs \<subseteq> {p. kind_of (fst p) = Some k}" "set (rev ?pairs) \<subseteq> {p. kind_of (fst p) = Some k}"
    using key_kind by auto
  note weak = key_less_weak [of k]
  have "mapE key xs = Inr (map val xs)" using key_total by (intro mapE_total) auto
  moreover have "all_comparable (map val xs)" using key_kind by (intro all_comparable_kind) auto
  ultimately have sorted: "py_sorted key r xs = Inr ?ys" by (simp add: py_sorted_def zip_map_self)
  have mset_ps: "mset ?ps = mset ?pairs" by (simp add: weak_order.mset_isort_by [OF weak])
  then have set_ps: "set ?ps = set ?pairs" by (rule mset_eq_setD)
  have fst_ps: "fst p = val (snd p) \<and> snd p \<in> set xs" if "p \<in> set ?ps" for p
    using that unfolding set_ps by auto
  have "mset ?ys = image_mset snd (mset ?ps)" by (simp only: mset_map)
  also have "\<dots> = mset xs" by (simp only: mset_ps mset_map [symmetric] map_map comp_def snd_conv map_ident)
  finally have perm: "mset ?ys = mset xs" .
  have "sorted_wrt (\<lambda>a b. if r then \<not> key_less a b else \<not> key_less b a) ?ps"
    using weak_order.sorted_isort_by [OF weak carrier(1)] weak_order.sorted_isort_by [OF weak carrier(2)]
    by (simp add: sorted_wrt_rev)
  then have "sorted_wrt (\<lambda>a b. (if r then py_lt (val (snd a)) (val (snd b)) else py_lt (val (snd b)) (val (snd a))) = Inr False) ?ps"
  proof (rule sorted_wrt_mono_rel [rotated])
    fix a b assume "a \<in> set ?ps" "b \<in> set ?ps" "if r then \<not> key_less a b else \<not> key_less b a"
    with fst_ps [of a] fst_ps [of b] key_kind [of "snd a"] key_kind [of "snd b"]
      py_lt_kinds [of "val (snd a)" k "val (snd b)" k] py_lt_kinds [of "val (snd b)" k "val (snd a)" k]
    show "(if r then py_lt (val (snd a)) (val (snd b)) else py_lt (val (snd b)) (val (snd a))) = Inr False"
      by (auto simp: key_less_def split: if_splits)
  qed
  then have sw: "sorted_wrt (\<lambda>x y. (if r then py_lt (val x) (val y) else py_lt (val y) (val x)) = Inr False) ?ys"
    by (simp only: sorted_wrt_map)
  have stable: "filter (\<lambda>x. py_eq (val x) z) ?ys = filter (\<lambda>x. py_eq (val x) z) xs" for z
  proof (cases "\<exists>x \<in> set xs. py_eq (val x) z")
    case True
    then obtain x where x: "x \<in> set xs" and xz: "py_eq (val x) z" by blast
    let ?E = "\<lambda>p. \<not> key_less (val x, x) p \<and> \<not> key_less p (val x, x)"
    have E: "?E p \<longleftrightarrow> py_eq (val (snd p)) z" if "p \<in> set ?ps" for p
    proof -
      from fst_ps [OF that] have "fst p = val (snd p)" and kp: "kind_of (val (snd p)) = Some k"
        using key_kind by auto
      then have "?E p \<longleftrightarrow> py_eq (val x) (val (snd p))"
        using scalar_equiv [OF key_kind [OF x] kp] by (simp only: key_less_def fst_conv)
      with xz show ?thesis by (auto simp only: py_eq_def)
    qed
    have "filter ?E ?ps = filter ?E ?pairs"
      using weak_order.stable_isort_by [OF weak carrier(1), of "(val x, x)"]
        weak_order.stable_isort_by [OF weak carrier(2), of "(val x, x)"] key_kind [OF x]
      by (simp add: rev_filter [symmetric])
    moreover have "filter ?E ?ps = filter (\<lambda>p. py_eq (val (snd p)) z) ?ps"
      by (rule filter_cong [OF refl E])
    moreover have "filter ?E ?pairs = filter (\<lambda>p. py_eq (val (snd p)) z) ?pairs"
      by (rule filter_cong [OF refl E]) (simp only: set_ps)
    ultimately have "map snd (filter (\<lambda>p. py_eq (val (snd p)) z) ?ps) = map snd (filter (\<lambda>p. py_eq (val (snd p)) z) ?pairs)"
      by simp
    then show ?thesis by (simp only: filter_map map_map comp_def snd_conv map_ident)
  next
    case False
    moreover from perm have "set ?ys = set xs" by (rule mset_eq_setD)
    ultimately have "\<forall>x \<in> set ?ys. \<not> py_eq (val x) z" and "\<forall>x \<in> set xs. \<not> py_eq (val x) z"
      by (simp_all del: set_map)
    then show ?thesis by (simp only: filter_False)
  qed
  show thesis by (rule that [OF sorted perm sw stable])
qed

lemma py_sorted_mset: "py_sorted key r xs = Inr ys \<Longrightarrow> mset ys = mset xs"
proof -
  have ins: "mset (insert_by lt x zs) = add_mset x (mset zs)" for lt :: "pyval \<times> 'a \<Rightarrow> pyval \<times> 'a \<Rightarrow> bool" and x zs
    by (induction zs) auto
  have isort: "mset (isort_by lt zs) = mset zs" for lt :: "pyval \<times> 'a \<Rightarrow> pyval \<times> 'a \<Rightarrow> bool" and zs
    by (induction zs) (auto simp: ins)
  assume "py_sorted key r xs = Inr ys"
  then obtain ks where ks: "mapE key xs = Inr ks"
    and ys: "ys = map snd (if r then rev (isort_by key_less (rev (zip ks xs))) else isort_by key_less (zip ks xs))"
    by (auto simp: py_sorted_def Let_def bindE_eq_Inr_iff split: if_splits)
  have "mset ys = image_mset snd (mset (zip ks xs))" by (simp add: ys isort)
  also have "\<dots> = mset (map snd (zip ks xs))" by simp
  finally show ?thesis using mapE_length [OF ks] by simp
qed

lemma mset_split: "length bs = length xs \<Longrightarrow> mset (map snd (filter fst (zip bs xs))) + mset (map snd (filter (\<lambda>p. \<not> fst p) (zip bs xs))) = mset xs"
  by (induction bs xs rule: list_induct2) auto

lemma order_nulls_mset: "order_nulls lst ord = Inr (nulls, non_nulls) \<Longrightarrow> mset nulls + mset non_nulls = mset lst"
  by (auto simp: order_nulls_def Let_def bindE_eq_Inr_iff mset_split [simplified] dest!: py_sorted_mset mapE_length split: prod.splits)

lemma order_step_mset: "order_step rv ordv = Inr rv' \<Longrightarrow> mset rv' = mset rv"
  by (auto simp: order_step_def order_no_null_def bindE_eq_Inr_iff add.commute
      dest!: order_nulls_mset py_sorted_mset split: pyval.splits if_splits prod.splits)

section \<open>Slices\<close>

lemma take_concat_pages:
  "concat (map (\<lambda>k. take n (drop (k * n) xs)) [0..<m]) = take (m * n) xs"
proof (induction m)
  case (Suc m)
  have "take (m * n) xs @ take n (drop (m * n) xs) = take (m * n + n) xs"
    by (simp add: take_add)
  with Suc show ?case by (simp add: add.commute)
qed simp

lemma page_options:
  "validate_options (Some [(''offset'', VInt (int k)), (''limit'', VInt (int n))])
     = Inr ([(''offset'', VInt (int k)), (''limit'', VInt (int n))], [], [])"
  by (simp add: validate_options_def validate_select_def validate_order_by_def)

lemma finish_page:
  assumes "0 < n"
  shows "finish_list [(''offset'', VInt (int k)), (''limit'', VInt (int n))] [] rv = Inr (VList (take n (drop k rv)))"
  using assms by (simp add: finish_list_def do_order_def index_of_def num_of_def slice_from_def slice_to_def)

lemma filter_list_plain:
  "filter_list env lst filters None = Inr (VList rv) \<longleftrightarrow>
   (if filters \<noteq> [] then \<exists>maps. validate_filters env 0 [] filters = Inr maps \<and> do_filters env lst filters [] False maps = Inr rv
    else rv = lst)"
  by (auto simp: filter_list_def validate_options_def finish_list_def do_order_def bindE_eq_Inr_iff)

lemma filter_list_page:
  assumes "filter_list env lst filters None = Inr (VList rv)" and "0 < n"
  shows "filter_list env lst filters (Some [(''offset'', VInt (int k)), (''limit'', VInt (int n))])
    = Inr (VList (take n (drop k rv)))"
  using assms(1) [unfolded filter_list_plain] assms(2)
  by (auto simp: filter_list_def page_options finish_page split: if_splits)

section \<open>Selection\<close>

definition simple_key :: "string \<Rightarrow> bool" where
  "simple_key key \<longleftrightarrow> key \<noteq> [] \<and> CHR ''.'' \<notin> set key"

lemma str_partition_none: "c \<notin> set s \<Longrightarrow> str_partition c s = (s, False, [])"
  by (induction s) auto

lemma partition_path_simple: "simple_key key \<Longrightarrow> partition_path key = Inr (key, [])"
  by (simp add: simple_key_def partition_path_def partition_loop.simps str_partition_none)

lemma select_loop_Nil [simp]: "select_loop keys cur [] = Inr (keys, cur)"
  by (simp add: select_loop.simps)

lemma select_path_simple:
  "simple_key key \<Longrightarrow> select_path (VDict d) (VStr key) = Inr ([key], map_of d key)"
  by (auto simp: select_path_def path_str_def select_loop.simps [of _ _ key] partition_path_simple)
    (auto simp: simple_key_def)

lemma select_one_simple:
  assumes "simple_key key"
  shows "select_one (VDict d) (VDict e) (VStr key) = Inr (VDict (case map_of d key of None \<Rightarrow> e | Some v \<Rightarrow> AList.update key v e))"
  using assms by (auto simp: select_one_def select_path_simple split: option.splits)

lemma select_fold_simple:
  assumes "\<forall>k \<in> set ks. simple_key k"
  shows "\<exists>r. foldE (select_one (VDict d)) (VDict e) (map VStr ks) = Inr (VDict r)
    \<and> map_of r = map_of e ++ (map_of d |` set ks)"
  using assms
proof (induction ks arbitrary: e)
  case (Cons k ks)
  let ?e = "case map_of d k of None \<Rightarrow> e | Some v \<Rightarrow> AList.update k v e"
  from Cons obtain r where r: "foldE (select_one (VDict d)) (VDict ?e) (map VStr ks) = Inr (VDict r)"
    and mo: "map_of r = map_of ?e ++ (map_of d |` set ks)" by force
  have "map_of r = map_of e ++ (map_of d |` set (k # ks))"
    by (rule ext) (auto simp: mo map_of_update map_add_def restrict_map_def split: option.splits)
  with Cons.prems r show ?case by (simp add: select_one_simple)
qed simp

section \<open>Evaluation on concrete rows\<close>

definition demo_env :: py_env where
  "demo_env = \<lparr>re_match = (\<lambda>pat s. Some (prefix pat s)), fromisoformat = (\<lambda>s. if s = ''2020-01-01'' then Some 1577836800 else None)\<rparr>"

definition demo_rows :: "pyval list" where
  "demo_rows = [VDict [(''id'', VInt 1), (''name'', VStr ''a'')], VDict [(''id'', VInt 2), (''name'', VStr ''b'')], VDict [(''id'', VInt 3), (''name'', VStr ''a'')]]"

definition nested_or :: "nat \<Rightarrow> query" where
  "nested_or n = ((\<lambda>q. AnyOf [[q]]) ^^ n) (Cond ''id'' ''='' (VInt 1))"

lemmas path_eval = partition_path_def partition_loop.simps get_impl_loop.simps select_loop.simps
  get_impl_def get_attr_def path_str_def get_value_def select_path_def str_isdigit_def is_digit_def
  nat_of_digits_def digit_val_def

lemmas operator_eval = opmap_def opcodes_def op_in_def op_rin_def op_nin_def op_rnin_def op_re_def
  op_startswith_def op_notstartswith_def op_endswith_def op_notendswith_def str_method_def notE_def
  py_le_def num_of_def hashable_def str_casefold_def lower_char_def suffix_to_prefix sublist_Cons_right

lemmas validate_eval = validate_filters.simps validate_condition_def validate_operand_def is_timestamp_def
  strip_case_def validate_options_def validate_select_def validate_order_by_def MAX_FILTERS_DEPTH_def
  TIMESTAMP_DESIGNATOR_def

lemmas query_eval = eval_filter.simps eval_condition_def filterop.simps source_getter_def apply_op_def getter_fn_def
  map_lookup_def do_filters_def do_select_def select_entry_def select_one_def strip_reverse_def REVERSE_CHAR_def
  NULLS_FIRST_def NULLS_LAST_def is_null_at_def order_nulls_def order_no_null_def order_step_def do_order_def
  do_get_def do_count_def finish_list_def filter_list_def py_sorted_def key_less_def comparable_def
  index_of_def slice_from_def slice_to_def demo_env_def demo_rows_def

lemmas filter_eval = path_eval operator_eval validate_eval query_eval

lemma demo_filtered:
  "filter_list demo_env demo_rows [VList [VStr ''id'', VStr ''>'', VInt 1]] None
     = Inr (VList [VDict [(''id'', VInt 2), (''name'', VStr ''b'')], VDict [(''id'', VInt 3), (''name'', VStr ''a'')]])"
  by (simp add: filter_eval cong: eval_congs)

section \<open>Properties of the query engine\<close>

text \<open>
  C10. \<open>filter_list\<close> without options returns exactly the rows on which every filter
  evaluates to true, in the order of the input, under the timestamps its own validation
  collected (rows are non-empty dictionaries, as services return them).
\<close>

theorem filter_list_rows:
  assumes "filter_list env lst filters None = Inr (VList rv)" and "filters \<noteq> []"
    and "\<forall>i \<in> set lst. truthy i \<and> is_dict i"
  shows "\<exists>maps. validate_filters env 0 [] filters = Inr maps \<and>
    rv = filter (\<lambda>i. \<forall>f \<in> set filters. eval_filter env (Some GImpl) maps i f = Inr True) lst"
proof -
  from assms(1,2) obtain maps where v: "validate_filters env 0 [] filters = Inr maps"
    and f: "do_filters env lst filters [] False maps = Inr rv"
    by (auto simp: filter_list_plain)
  from do_filters_loop_filter [OF f [unfolded do_filters_def] _ assms(3)] v show ?thesis
    by (auto simp: allE_True_iff)
qed

theorem filter_list_rows_witness:
  "\<exists>maps. validate_filters demo_env 0 [] [VList [VStr ''id'', VStr ''>'', VInt 1]] = Inr maps \<and>
    [VDict [(''id'', VInt 2), (''name'', VStr ''b'')], VDict [(''id'', VInt 3), (''name'', VStr ''a'')]]
      = filter (\<lambda>i. \<forall>f \<in> set [VList [VStr ''id'', VStr ''>'', VInt 1]]. eval_filter demo_env (Some GImpl) maps i f = Inr True) demo_rows"
  by (rule filter_list_rows [OF demo_filtered]) (auto simp: demo_rows_def)

text \<open>
  The short circuit of \<open>get\<close>: stopping at the first hit returns what filtering the
  whole list and taking its first row would return, and \<open>MatchNotFound\<close> when no row
  matches.
\<close>

theorem filter_list_get_shortcircuit:
  assumes "filter_list env lst filters None = Inr (VList rv)" and "filters \<noteq> []"
  shows "filter_list env lst filters (Some [(''get'', VBool True)]) = (case rv of [] \<Rightarrow> Inl MatchNotFound | x # _ \<Rightarrow> Inr x)"
proof -
  have opts: "validate_options (Some [(''get'', VBool True)]) = Inr ([(''get'', VBool True)], [], [])"
    by (simp add: validate_options_def validate_select_def validate_order_by_def num_of_def)
  from assms obtain maps where v: "validate_filters env 0 [] filters = Inr maps"
    and f: "do_filters env lst filters [] False maps = Inr rv" by (auto simp: filter_list_plain)
  from do_filters_loop_shortcircuit [OF f [unfolded do_filters_def]]
  have "do_filters env lst filters [] True maps = Inr (take 1 rv)" by (simp add: do_filters_def)
  with assms(2) v show ?thesis by (cases rv) (simp_all add: filter_list_def opts do_get_def)
qed

theorem filter_list_get_shortcircuit_witness:
  "filter_list demo_env demo_rows [VList [VStr ''id'', VStr ''>'', VInt 1]] (Some [(''get'', VBool True)])
     = Inr (VDict [(''id'', VInt 2), (''name'', VStr ''b'')])"
  using filter_list_get_shortcircuit [OF demo_filtered] by simp

text \<open>
  Validation accepts a well-formed query exactly when its \<open>OR\<close> nesting is at
  most \<open>MAX_FILTERS_DEPTH\<close>.
\<close>

theorem validate_filters_depth_iff:
  assumes "\<forall>q \<in> set qs. query_ok q"
  shows "validate_filters env 0 [] (map raw_of qs) = Inr [] \<longleftrightarrow> (\<forall>q \<in> set qs. qdepth q \<le> MAX_FILTERS_DEPTH)"
  using validate_filters_ok [of qs 0 env "[]"] validate_filters_depth [of env 0 "[]" qs "[]"] assms
  by fastforce

theorem validate_filters_depth_iff_witness:
  "validate_filters demo_env 0 [] (map raw_of [nested_or 3]) = Inr [] \<and>
   validate_filters demo_env 0 [] (map raw_of [nested_or 4]) \<noteq> Inr []"
proof -
  have ok: "query_ok (nested_or n)" for n
    by (induction n) (simp_all add: nested_or_def op_ok_def strip_case_def opcodes_def is_timestamp_def
        TIMESTAMP_DESIGNATOR_def suffix_to_prefix)
  have depth: "qdepth (nested_or n) = n" for n
    by (induction n) (simp_all add: nested_or_def)
  show ?thesis
    using validate_filters_depth_iff [of "[nested_or 3]" demo_env] validate_filters_depth_iff [of "[nested_or 4]" demo_env]
    by (simp add: ok depth MAX_FILTERS_DEPTH_def)
qed



text \<open>
  C24. After a successful validation, evaluating any of the filters on any row never looks
  up an operator that does not exist and never meets a filter of the wrong shape.
\<close>

theorem validated_filters_never_malformed:
  assumes "validate_filters env 0 [] filters = Inr maps" and "f \<in> set filters"
  shows "eval_filter env g maps' item f \<noteq> Inl KeyError \<and> eval_filter env g maps' item f \<noteq> Inl (ValueError ''values to unpack'')"
  using eval_filter_exn [OF validated_elem [OF assms]] by (force simp: malformed_def)

theorem validated_filters_never_malformed_witness:
  "eval_filter demo_env None [] (VInt 5) (VList [VStr ''id'', VStr ''>'', VInt 1]) \<noteq> Inl KeyError"
proof -
  have "validate_filters demo_env 0 [] [VList [VStr ''id'', VStr ''>'', VInt 1]] = Inr []"
    by (simp add: filter_eval cong: eval_congs)
  from validated_filters_never_malformed [OF this, of "VList [VStr ''id'', VStr ''>'', VInt 1]"] show ?thesis by simp
qed

text \<open>
  Ordering never loses, invents or duplicates a row, whatever the \<open>order_by\<close>
  list (null handling and reverse orders included).
\<close>

theorem do_order_permutation:
  assumes "do_order rv order_by = Inr rv'"
  shows "mset rv' = mset rv"
  using foldE_invariant [OF assms [unfolded do_order_def], of "\<lambda>r. mset r = mset rv"] order_step_mset by metis

theorem do_order_permutation_witness:
  "mset [VDict [(''a'', VInt 2)], VDict [(''a'', VInt 1)], VDict []] = mset [VDict [], VDict [(''a'', VInt 1)], VDict [(''a'', VInt 2)]]"
proof -
  have "do_order [VDict [], VDict [(''a'', VInt 1)], VDict [(''a'', VInt 2)]] [VStr ''nulls_last:-a'']
    = Inr [VDict [(''a'', VInt 2)], VDict [(''a'', VInt 1)], VDict []]"
    by (simp add: filter_eval cong: eval_congs)
  from do_order_permutation [OF this] show ?thesis .
qed

text \<open>
  \<open>order_by\<close> with one key sorts: when every row has a value of one scalar kind
  at the path, the order step succeeds, puts the rows in the (reverse) order of those
  values and keeps rows with equal values in their input order. So a later key of
  \<open>order_by\<close> dominates and the earlier ones break its ties.
\<close>

theorem order_no_null_sorts:
  assumes "\<And>x. x \<in> set rv \<Longrightarrow> get_value x (snd (strip_reverse ord)) = Inr (val x) \<and> kind_of (val x) = Some k"
  shows "\<exists>rv'. order_no_null rv ord = Inr rv' \<and> mset rv' = mset rv \<and>
    sorted_wrt (\<lambda>x y. (if fst (strip_reverse ord) then py_lt (val x) (val y) else py_lt (val y) (val x)) = Inr False) rv' \<and>
    (\<forall>z. filter (\<lambda>x. py_eq (val x) z) rv' = filter (\<lambda>x. py_eq (val x) z) rv)"
proof -
  obtain r p where sr: "strip_reverse ord = (r, p)" by (cases "strip_reverse ord")
  obtain rv' where "py_sorted (\<lambda>x. get_value x p) r rv = Inr rv'" "mset rv' = mset rv"
    "sorted_wrt (\<lambda>x y. (if r then py_lt (val x) (val y) else py_lt (val y) (val x)) = Inr False) rv'"
    "\<And>z. filter (\<lambda>x. py_eq (val x) z) rv' = filter (\<lambda>x. py_eq (val x) z) rv"
    using py_sorted_spec [of rv "\<lambda>x. get_value x p" val k r] assms sr by auto
  then show ?thesis by (intro exI [of _ rv']) (simp add: order_no_null_def sr)
qed

theorem order_no_null_sorts_witness:
  "\<exists>rv'. order_no_null demo_rows ''-name'' = Inr rv' \<and> mset rv' = mset demo_rows \<and>
    sorted_wrt (\<lambda>x y. py_lt (projr (get_value x ''name'')) (projr (get_value y ''name'')) = Inr False) rv' \<and>
    (\<forall>z. filter (\<lambda>x. py_eq (projr (get_value x ''name'')) z) rv' = filter (\<lambda>x. py_eq (projr (get_value x ''name'')) z) demo_rows)"
proof -
  have "get_value x (snd (strip_reverse ''-name'')) = Inr (projr (get_value x ''name''))
      \<and> kind_of (projr (get_value x ''name'')) = Some KStr" if "x \<in> set demo_rows" for x
    using that by (auto simp: filter_eval cong: eval_congs)
  from order_no_null_sorts [of demo_rows "''-name''", OF this] show ?thesis
    by (simp add: strip_reverse_def REVERSE_CHAR_def)
qed

text \<open>
  C23. Pagination: the pages that \<open>offset\<close> and \<open>limit\<close> cut out of a query put
  together are the unpaged result, with no row lost or repeated.
\<close>

theorem pagination_partition:
  assumes "filter_list env lst filters None = Inr (VList rv)" and "0 < n" and "length rv \<le> m * n"
  shows "\<exists>pages. mapE (\<lambda>k. filter_list env lst filters (Some [(''offset'', VInt (int (k * n))), (''limit'', VInt (int n))])) [0..<m]
      = Inr (map VList pages) \<and> concat pages = rv"
proof -
  let ?pages = "map (\<lambda>k. take n (drop (k * n) rv)) [0..<m]"
  have "mapE (\<lambda>k. filter_list env lst filters (Some [(''offset'', VInt (int (k * n))), (''limit'', VInt (int n))])) [0..<m]
      = Inr (map (\<lambda>k. VList (take n (drop (k * n) rv))) [0..<m])"
    by (intro mapE_total filter_list_page [OF assms(1,2)])
  moreover have "concat ?pages = rv" using assms(3) by (simp add: take_concat_pages)
  ultimately show ?thesis by (intro exI [of _ ?pages]) simp
qed

theorem pagination_partition_witness:
  "\<exists>pages. mapE (\<lambda>k. filter_list demo_env demo_rows [] (Some [(''offset'', VInt (int (k * 2))), (''limit'', VInt (int 2))])) [0..<2]
      = Inr (map VList pages) \<and> concat pages = demo_rows"
  by (rule pagination_partition) (simp_all add: filter_list_plain demo_rows_def)

text \<open>
  Selecting plain keys projects: the entry returned for a row holds exactly the
  selected keys the row has, with the row's values.
\<close>

theorem select_entry_projects:
  assumes "\<forall>k \<in> set ks. simple_key k"
  shows "\<exists>r. select_entry (map VStr ks) (VDict d) = Inr (VDict r) \<and> map_of r = map_of d |` set ks"
  using select_fold_simple [OF assms, of d "[]"] by (simp add: select_entry_def)

theorem select_entry_projects_witness:
  "\<exists>r. select_entry (map VStr [''id'', ''missing'']) (VDict [(''id'', VInt 1), (''name'', VStr ''a'')]) = Inr (VDict r)
     \<and> map_of r = map_of [(''id'', VInt 1), (''name'', VStr ''a'')] |` set [''id'', ''missing'']"
  by (rule select_entry_projects) (simp add: simple_key_def)

section \<open>Divergences\<close>

lemma getattrs_loop_Nil [simp]: "getattrs_loop attrs [] = Inr attrs"
  by (simp add: getattrs_loop.simps)

lemma getattrs_loop_snoc:
  "getattrs_loop attrs (f @ [x]) = bindE (seq_items x) (\<lambda>items.
     case items of
       [op, v] \<Rightarrow> getattrs_loop attrs (f @ [v])
     | [name, op, v] \<Rightarrow> if hashable name then getattrs_loop (insert name attrs) f else Inl TypeError
     | _ \<Rightarrow> Inl (ValueError ''Invalid filter.''))"
  by (subst getattrs_loop.simps) (simp cong: if_cong)

lemma order_nulls_literal:
  assumes "\<forall>i \<in> set lst. \<exists>d. i = VDict d \<and> map_of d (snd (strip_reverse ord)) = None"
  shows "order_nulls lst ord = Inr (lst, [])"
proof -
  have "is_null_at (snd (strip_reverse ord)) i = Inr True" if "i \<in> set lst" for i
    using assms that by (auto simp: is_null_at_def dict_get_def)
  then have "mapE (is_null_at (snd (strip_reverse ord))) lst = Inr (map (\<lambda>_. True) lst)"
    by (intro mapE_total)
  then show ?thesis
    by (auto simp: order_nulls_def py_sorted_def zip_map_self filter_map comp_def split: prod.splits)
qed

text \<open>
  A timestamp filter with the timestamp as first operand passes validation, and then
  its evaluation raises \<open>UnboundLocalError\<close> on the first row: \<open>operand_2\<close> is
  read before it is assigned.
\<close>

theorem timestamp_first_operand_raises:
  assumes "is_timestamp (VStr p)" and "\<not> is_timestamp (VStr t)"
    and "op \<in> {''='', ''!='', ''>'', ''>='', ''<'', ''<=''}" and "fromisoformat env t = Some ts"
  shows "validate_filters env 0 [] [VList [VStr t, VStr op, VStr p]] = Inr [(t, ts)] \<and>
    filter_list env (row # rows) [VList [VStr t, VStr op, VStr p]] None = Inl UnboundLocalError"
proof -
  have strip: "op_code (VStr op) = Inr op" "strip_case op = (False, op)" "op \<in> set opcodes"
    using assms(3) by (auto simp: strip_case_def opcodes_def)
  have "validate_operand env op (VStr t) (VStr p) [] (VStr t) = Inr []"
    using assms(2) by (simp add: validate_operand_def)
  moreover have "p \<noteq> t" using assms(1,2) by auto
  then have "validate_operand env op (VStr t) (VStr p) [] (VStr p) = Inr [(t, ts)]"
    using assms by (auto simp: validate_operand_def)
  ultimately have v: "validate_filters env 0 [] [VList [VStr t, VStr op, VStr p]] = Inr [(t, ts)]"
    using strip by (simp add: validate_filters_unfold validate_one_def validate_condition_def)
  have "eval_filter env g [(t, ts)] row (VList [VStr t, VStr op, VStr p]) = Inl UnboundLocalError" for g
    by (simp add: eval_filter.simps eval_condition_def map_lookup_def hashable_def)
  with v show ?thesis by (simp add: filter_list_def validate_options_def do_filters_def Let_def)
qed

theorem timestamp_first_operand_raises_witness:
  "filter_list demo_env demo_rows [VList [VStr ''2020-01-01'', VStr ''<'', VStr ''ts.$date'']] None = Inl UnboundLocalError"
proof -
  have "is_timestamp (VStr ''ts.$date'')" "\<not> is_timestamp (VStr ''2020-01-01'')"
    by (simp_all add: is_timestamp_def TIMESTAMP_DESIGNATOR_def suffix_to_prefix)
  moreover have "fromisoformat demo_env ''2020-01-01'' = Some 1577836800" by (simp add: demo_env_def)
  ultimately show ?thesis
    using timestamp_first_operand_raises [of "''ts.$date''" "''2020-01-01''" "''<''" demo_env 1577836800 "hd demo_rows" "tl demo_rows"]
    by (simp add: demo_rows_def)
qed

text \<open>
  Null-aware ordering by a nested path does not order: \<open>order_nulls\<close> tests
  \<open>entry.get(order)\<close> with the whole dotted path as one key, so rows that have a value
  at the path but no key of that literal name all count as nulls and are left as they were.
\<close>

theorem nulls_first_nested_path_unsorted:
  assumes "\<forall>i \<in> set lst. \<exists>d. i = VDict d \<and> map_of d (snd (strip_reverse ord)) = None"
  shows "do_order lst [VStr (NULLS_FIRST @ ord)] = Inr lst"
  using order_nulls_literal [OF assms] by (simp add: do_order_def order_step_def)

theorem nulls_first_nested_path_unsorted_witness:
  "do_order [VDict [(''a'', VDict [(''b'', VInt 2)])], VDict [(''a'', VDict [(''b'', VInt 1)])]] [VStr (NULLS_FIRST @ ''a.b'')]
     = Inr [VDict [(''a'', VDict [(''b'', VInt 2)])], VDict [(''a'', VDict [(''b'', VInt 1)])]]"
  by (rule nulls_first_nested_path_unsorted) (simp add: strip_reverse_def REVERSE_CHAR_def)

text \<open>
  \<open>filter_getattrs\<close> on a disjunction of two conditions reports only the attribute
  of the second: the list of branches is taken for a filter of two elements.
\<close>

theorem filter_getattrs_or_drops_first:
  assumes "hashable b"
  shows "filter_getattrs [VList [VStr ''OR'', VList [VList [a, o1, v1], VList [b, o2, v2]]]] = Inr {b}"
  using assms getattrs_loop_snoc [of "{}" "[]"] by (simp add: filter_getattrs_def)

theorem filter_getattrs_or_drops_first_witness:
  "filter_getattrs [VList [VStr ''OR'', VList [VList [VStr ''x'', VStr ''='', VInt 1], VList [VStr ''y'', VStr ''='', VInt 2]]]] = Inr {VStr ''y''}"
  by (rule filter_getattrs_or_drops_first) (simp add: hashable_def)

end
