(* ===== verification/Systems.thy ===== *)
theory Systems
  imports Prelude
begin

text \<open>
  State machines: the states a component reaches from its initial states by its operations,
  and the rule that an inductive invariant holds in all of them. The rule is stated once, as
  a locale; every stateful component (the role registry, the privilege service,
  the login system, the one-time passwords, the job queue, the alert service, the
  server of calls, the event sources) interprets it with its own operations.

  An operation of the code that may raise after it has changed its object returns the
  exception and the object: \<open>thenS\<close> runs the next operation only when none was raised.
\<close>

section \<open>Operations that raise and keep their effect\<close>

type_synonym 's op_result = "(exn + unit) \<times> 's"

definition thenS :: "'s op_result \<Rightarrow> ('s \<Rightarrow> 's op_result) \<Rightarrow> 's op_result" where
  "thenS r f = (case r of (Inl e, s) \<Rightarrow> (Inl e, s) | (Inr u, s) \<Rightarrow> f s)"

lemma thenS_simps [simp, result_simps]:
  "thenS (Inl e, s) f = (Inl e, s)"
  "thenS (Inr u, s) f = f s"
  by (simp_all add: thenS_def)

fun run_seq :: "('op \<Rightarrow> 's \<Rightarrow> 's op_result) \<Rightarrow> 'op list \<Rightarrow> 's \<Rightarrow> 's op_result" where
  "run_seq f [] s = (Inr (), s)"
| "run_seq f (c # cs) s = thenS (f c s) (run_seq f cs)"

lemma run_seq_append: "run_seq f (cs @ ds) s = thenS (run_seq f cs s) (run_seq f ds)"
  by (induction cs arbitrary: s) (auto simp: thenS_def split: prod.splits sum.splits)

section \<open>Reachable states\<close>

inductive reach :: "('s \<Rightarrow> bool) \<Rightarrow> ('s \<Rightarrow> 's \<Rightarrow> bool) \<Rightarrow> 's \<Rightarrow> bool"
  for init :: "'s \<Rightarrow> bool" and step :: "'s \<Rightarrow> 's \<Rightarrow> bool" where
  reach_init: "init s \<Longrightarrow> reach init step s"
| reach_step: "reach init step s \<Longrightarrow> step s t \<Longrightarrow> reach init step t"

lemma reach_rtranclp: "reach init step s \<Longrightarrow> step\<^sup>*\<^sup>* s t \<Longrightarrow> reach init step t"
  by (rotate_tac, induction rule: rtranclp_induct) (auto intro: reach_step)

locale inductive_invariant =
  fixes init :: "'s \<Rightarrow> bool" and step :: "'s \<Rightarrow> 's \<Rightarrow> bool" and inv :: "'s \<Rightarrow> bool"
  assumes init_inv: "init s \<Longrightarrow> inv s"
    and step_inv: "inv s \<Longrightarrow> step s t \<Longrightarrow> inv t"
begin

lemma reach_inv: "reach init step s \<Longrightarrow> inv s"
  by (induction rule: reach.induct) (auto intro: init_inv step_inv)

lemma steps_inv: "step\<^sup>*\<^sup>* s t \<Longrightarrow> inv s \<Longrightarrow> inv t"
  by (induction rule: rtranclp_induct) (auto intro: step_inv)

end

text \<open>
  A component given as a deterministic operation on commands: each command, whether it
  raises or not, is one step.
\<close>

definition command_step :: "('op \<Rightarrow> 's \<Rightarrow> 's op_result) \<Rightarrow> 's \<Rightarrow> 's \<Rightarrow> bool" where
  "command_step f s t \<longleftrightarrow> (\<exists>c. t = snd (f c s))"

lemma command_stepI [intro]: "command_step f s (snd (f c s))"
  by (auto simp: command_step_def)

lemma run_seq_steps: "(command_step f)\<^sup>*\<^sup>* s (snd (run_seq f cs s))"
proof (induction cs arbitrary: s)
  case (Cons c cs)
  obtain r s' where f: "f c s = (r, s')" by (cases "f c s")
  then have one: "command_step f s s'" using command_stepI [of f s c] by simp
  show ?case
  proof (cases r)
    case (Inl e)
    with f one show ?thesis by (simp add: r_into_rtranclp)
  next
    case (Inr u)
    with f one Cons.IH [of s'] show ?thesis by (simp add: converse_rtranclp_into_rtranclp)
  qed
qed simp

lemma run_seq_reach: "init s \<Longrightarrow> reach init (command_step f) (snd (run_seq f cs s))"
  using reach_rtranclp [OF reach_init run_seq_steps] by metis

end
