(* ===== verification/Roles.thy ===== *)
theory Roles
  imports Systems
begin

text \<open>
  Roles and the resources they give access to (\<open>role.py\<close>, \<open>utils/security.py\<close>,
  the registration loop of \<open>main.py\<close>): the table of roles, the two resource managers
  (methods and events) of the role manager, the roles a role includes and the roles that
  may use a resource.

  A set of role names that the code builds is a list without repetitions: Python leaves the
  iteration order of a set open, so nothing here depends on it. Python's recursion limit is
  the argument \<open>fuel\<close>: a call that needs a deeper recursion raises
  \<open>RecursionError\<close>. The default dictionary of allow lists is a dictionary read with a
  default: the empty entries a read leaves behind are not observable.
\<close>

unbundle bit_operations_syntax

section \<open>Data\<close>

text \<open>\<open>STIGType\<close> is a set of flags; 0 is no STIG (\<open>None\<close> is read the same way).\<close>

definition GPOS :: nat where "GPOS = 1"

definition system_security_config_to_stig_type :: "bool \<Rightarrow> nat" where
  "system_security_config_to_stig_type enable_gpos_stig = (if enable_gpos_stig then GPOS else 0)"

record role =
  role_includes :: "string list"
  full_admin :: bool
  builtin :: bool
  stig :: "nat option"

text \<open>A \<open>Role\<close> with the defaults of the class.\<close>

definition Role :: "string list \<Rightarrow> role" where
  "Role incl = \<lparr>role_includes = incl, full_admin = False, builtin = True, stig = Some GPOS\<rparr>"

type_synonym role_table = "(string \<times> role) list"

section \<open>The table of roles\<close>

definition ROLES_platform :: "(string \<times> role) list" where
  "ROLES_platform = [
    (''ACCOUNT_READ'', Role []),
    (''ACCOUNT_WRITE'', Role [''ACCOUNT_READ'']),
    (''API_KEY_READ'', Role []),
    (''API_KEY_WRITE'', Role [''API_KEY_READ'']),
    (''BOOT_ENV_READ'', Role []),
    (''BOOT_ENV_WRITE'', Role [''BOOT_ENV_READ'']),
    (''FAILOVER_READ'', Role []),
    (''FAILOVER_WRITE'', Role [''FAILOVER_READ'']),
    (''AUTH_SESSIONS_READ'', Role []),
    (''AUTH_SESSIONS_WRITE'', Role [''AUTH_SESSIONS_READ'']),
    (''DIRECTORY_SERVICE_READ'', Role []),
    (''DIRECTORY_SERVICE_WRITE'', Role [''DIRECTORY_SERVICE_READ'']),
    (''DISK_READ'', Role []),
    (''DISK_WRITE'', Role [''DISK_READ'']),
    (''KMIP_READ'', Role []),
    (''KMIP_WRITE'', Role [''KMIP_READ'']),
    (''IPMI_READ'', Role []),
    (''IPMI_WRITE'', Role [''IPMI_READ'']),
    (''FILESYSTEM_ATTRS_READ'', Role []),
    (''FILESYSTEM_ATTRS_WRITE'', Role [''FILESYSTEM_ATTRS_READ'']),
    (''FILESYSTEM_DATA_READ'', Role []),
    (''FILESYSTEM_DATA_WRITE'', Role [''FILESYSTEM_DATA_READ'']),
    (''FILESYSTEM_FULL_CONTROL'', Role [''FILESYSTEM_ATTRS_WRITE'', ''FILESYSTEM_DATA_WRITE'']),
    (''PRIVILEGE_READ'', Role []),
    (''PRIVILEGE_WRITE'', Role [''PRIVILEGE_WRITE'']),
    (''REPORTING_READ'', Role []),
    (''REPORTING_WRITE'', Role [''REPORTING_READ'']),
    (''SUPPORT_READ'', Role []),
    (''SUPPORT_WRITE'', Role [''SUPPORT_READ'']),
    (''SSH_READ'', Role []),
    (''SSH_WRITE'', Role [''SSH_READ'']),
    (''SYSTEM_AUDIT_READ'', Role []),
    (''SYSTEM_AUDIT_WRITE'', Role []),
    (''FULL_ADMIN'', (Role [])\<lparr>full_admin := True, builtin := False\<rparr>),
    (''ALERT_LIST_READ'', Role []),
    (''ALERT_LIST_WRITE'', Role [''ALERT_LIST_READ'']),
    (''ALERT_READ'', Role [''ALERT_LIST_READ'']),
    (''ALERT_WRITE'', Role [''ALERT_LIST_WRITE'', ''ALERT_READ'']),
    (''CLOUD_BACKUP_READ'', Role []),
    (''CLOUD_BACKUP_WRITE'', Role [''CLOUD_BACKUP_READ'']),
    (''CLOUD_SYNC_READ'', Role []),
    (''CLOUD_SYNC_WRITE'', Role [''CLOUD_SYNC_READ'']),
    (''SERVICE_READ'', Role []),
    (''SERVICE_WRITE'', Role []),
    (''ENCLOSURE_READ'', Role []),
    (''ENCLOSURE_WRITE'', Role [''ENCLOSURE_READ'']),
    (''NETWORK_GENERAL_READ'', Role []),
    (''NETWORK_GENERAL_WRITE'', Role [''NETWORK_GENERAL_READ'']),
    (''NETWORK_INTERFACE_READ'', Role []),
    (''NETWORK_INTERFACE_WRITE'', Role [''NETWORK_INTERFACE_READ'']),
    (''VM_READ'', Role []),
    (''VM_WRITE'', (Role [''VM_READ''])\<lparr>stig := None\<rparr>),
    (''VM_DEVICE_READ'', Role [''VM_READ'']),
    (''VM_DEVICE_WRITE'', (Role [''VM_WRITE'', ''VM_DEVICE_READ''])\<lparr>stig := None\<rparr>),
    (''JBOF_READ'', Role []),
    (''JBOF_WRITE'', Role [''JBOF_READ'']),
    (''TRUECOMMAND_READ'', Role []),
    (''TRUECOMMAND_WRITE'', (Role [''TRUECOMMAND_READ''])\<lparr>stig := None\<rparr>),
    (''TRUENAS_CONNECT_READ'', Role []),
    (''TRUENAS_CONNECT_WRITE'', (Role [''TRUENAS_CONNECT_READ''])\<lparr>stig := None\<rparr>),
    (''CERTIFICATE_READ'', Role []),
    (''CERTIFICATE_WRITE'', Role [''CERTIFICATE_READ'']),
    (''CERTIFICATE_AUTHORITY_READ'', Role []),
    (''CERTIFICATE_AUTHORITY_WRITE'', Role [''CERTIFICATE_AUTHORITY_READ''])]"

definition ROLES_data :: "(string \<times> role) list" where
  "ROLES_data = [
    (''CATALOG_READ'', Role []),
    (''CATALOG_WRITE'', (Role [''CATALOG_READ''])\<lparr>stig := None\<rparr>),
    (''DOCKER_READ'', Role []),
    (''DOCKER_WRITE'', (Role [''DOCKER_READ''])\<lparr>stig := None\<rparr>),
    (''APPS_READ'', Role [''CATALOG_READ'']),
    (''APPS_WRITE'', (Role [''CATALOG_WRITE'', ''APPS_READ''])\<lparr>stig := None\<rparr>),
    (''SHARING_FTP_READ'', Role []),
    (''SHARING_FTP_WRITE'', Role [''SHARING_FTP_READ'']),
    (''SHARING_ISCSI_AUTH_READ'', Role []),
    (''SHARING_ISCSI_AUTH_WRITE'', Role [''SHARING_ISCSI_AUTH_READ'']),
    (''SHARING_ISCSI_EXTENT_READ'', Role []),
    (''SHARING_ISCSI_EXTENT_WRITE'', Role [''SHARING_ISCSI_EXTENT_READ'']),
    (''SHARING_ISCSI_GLOBAL_READ'', Role []),
    (''SHARING_ISCSI_GLOBAL_WRITE'', Role [''SHARING_ISCSI_GLOBAL_READ'']),
    (''SHARING_ISCSI_HOST_READ'', Role []),
    (''SHARING_ISCSI_HOST_WRITE'', Role [''SHARING_ISCSI_HOST_READ'']),
    (''SHARING_ISCSI_INITIATOR_READ'', Role []),
    (''SHARING_ISCSI_INITIATOR_WRITE'', Role [''SHARING_ISCSI_INITIATOR_READ'']),
    (''SHARING_ISCSI_PORTAL_READ'', Role []),
    (''SHARING_ISCSI_PORTAL_WRITE'', Role [''SHARING_ISCSI_PORTAL_READ'']),
    (''SHARING_ISCSI_TARGET_READ'', Role []),
    (''SHARING_ISCSI_TARGET_WRITE'', Role [''SHARING_ISCSI_TARGET_READ'']),
    (''SHARING_ISCSI_TARGETEXTENT_READ'', Role []),
    (''SHARING_ISCSI_TARGETEXTENT_WRITE'', Role [''SHARING_ISCSI_TARGETEXTENT_READ'']),
    (''SHARING_ISCSI_READ'',
       Role [''SHARING_ISCSI_AUTH_READ'',
         ''SHARING_ISCSI_EXTENT_READ'',
         ''SHARING_ISCSI_GLOBAL_READ'',
         ''SHARING_ISCSI_HOST_READ'',
         ''SHARING_ISCSI_INITIATOR_READ'',
         ''SHARING_ISCSI_PORTAL_READ'',
         ''SHARING_ISCSI_TARGET_READ'',
         ''SHARING_ISCSI_TARGETEXTENT_READ'']),
    (''SHARING_ISCSI_WRITE'',
       Role [''SHARING_ISCSI_AUTH_WRITE'',
         ''SHARING_ISCSI_EXTENT_WRITE'',
         ''SHARING_ISCSI_GLOBAL_WRITE'',
         ''SHARING_ISCSI_HOST_WRITE'',
         ''SHARING_ISCSI_INITIATOR_WRITE'',
         ''SHARING_ISCSI_PORTAL_WRITE'',
         ''SHARING_ISCSI_TARGET_WRITE'',
         ''SHARING_ISCSI_TARGETEXTENT_WRITE'']),
    (''SHARING_NFS_READ'', Role []),
    (''SHARING_NFS_WRITE'', Role [''SHARING_NFS_READ'']),
    (''SHARING_SMB_READ'', Role []),
    (''SHARING_SMB_WRITE'', Role [''SHARING_SMB_READ'']),
    (''SHARING_READ'',
       Role [''SHARING_ISCSI_READ'',
         ''SHARING_NFS_READ'',
         ''SHARING_SMB_READ'',
         ''SHARING_FTP_READ'']),
    (''SHARING_WRITE'',
       Role [''SHARING_ISCSI_WRITE'',
         ''SHARING_NFS_WRITE'',
         ''SHARING_SMB_WRITE'',
         ''SHARING_FTP_WRITE'']),
    (''KEYCHAIN_CREDENTIAL_READ'', Role []),
    (''KEYCHAIN_CREDENTIAL_WRITE'', Role [''KEYCHAIN_CREDENTIAL_READ'']),
    (''REPLICATION_TASK_CONFIG_READ'', Role []),
    (''REPLICATION_TASK_CONFIG_WRITE'', Role [''REPLICATION_TASK_CONFIG_READ'']),
    (''REPLICATION_TASK_READ'', Role []),
    (''REPLICATION_TASK_WRITE'', Role [''REPLICATION_TASK_READ'']),
    (''REPLICATION_TASK_WRITE_PULL'', Role [''REPLICATION_TASK_WRITE'']),
    (''SNAPSHOT_TASK_READ'', Role []),
    (''SNAPSHOT_TASK_WRITE'', Role [''SNAPSHOT_TASK_READ'']),
    (''POOL_SCRUB_READ'', Role []),
    (''POOL_SCRUB_WRITE'', Role [''POOL_SCRUB_READ'']),
    (''POOL_READ'', Role [''POOL_SCRUB_READ'']),
    (''POOL_WRITE'', Role [''POOL_READ'', ''POOL_SCRUB_WRITE'']),
    (''DATASET_READ'', Role []),
    (''DATASET_WRITE'', Role [''DATASET_READ'']),
    (''DATASET_DELETE'', Role []),
    (''SNAPSHOT_READ'', Role []),
    (''SNAPSHOT_WRITE'', Role [''SNAPSHOT_READ'']),
    (''SNAPSHOT_DELETE'', Role []),
    (''REPLICATION_ADMIN'',
       (Role [''KEYCHAIN_CREDENTIAL_WRITE'',
         ''REPLICATION_TASK_CONFIG_WRITE'',
         ''REPLICATION_TASK_WRITE'',
         ''SNAPSHOT_TASK_WRITE'',
         ''SNAPSHOT_WRITE''])\<lparr>builtin := False\<rparr>),
    (''SHARING_ADMIN'',
       (Role [''READONLY_ADMIN'',
         ''DATASET_WRITE'',
         ''SHARING_WRITE'',
         ''FILESYSTEM_ATTRS_WRITE'',
         ''SERVICE_READ''])\<lparr>builtin := False\<rparr>),
    (''SYSTEM_GENERAL_READ'', Role []),
    (''SYSTEM_GENERAL_WRITE'', Role [''SYSTEM_GENERAL_READ'']),
    (''SYSTEM_ADVANCED_READ'', Role []),
    (''SYSTEM_ADVANCED_WRITE'', Role [''SYSTEM_ADVANCED_READ'']),
    (''SYSTEM_SECURITY_READ'', Role []),
    (''SYSTEM_SECURITY_WRITE'', Role [''SYSTEM_SECURITY_READ'']),
    (''SYSTEM_TUNABLE_READ'', Role []),
    (''SYSTEM_TUNABLE_WRITE'', Role [''SYSTEM_TUNABLE_READ'']),
    (''SYSTEM_CRON_READ'', Role []),
    (''SYSTEM_CRON_WRITE'', Role [''SYSTEM_CRON_READ'']),
    (''VIRT_GLOBAL_READ'', Role []),
    (''VIRT_GLOBAL_WRITE'', (Role [''VIRT_GLOBAL_READ''])\<lparr>stig := None\<rparr>),
    (''VIRT_INSTANCE_READ'', Role []),
    (''VIRT_INSTANCE_WRITE'', (Role [''VIRT_INSTANCE_READ''])\<lparr>stig := None\<rparr>),
    (''VIRT_INSTANCE_DELETE'', (Role [])\<lparr>stig := None\<rparr>),
    (''VIRT_IMAGE_READ'', Role []),
    (''VIRT_IMAGE_WRITE'', (Role [''VIRT_IMAGE_READ''])\<lparr>stig := None\<rparr>)]"

definition ROLES :: role_table where
  "ROLES = (let rs = ROLES_platform @ ROLES_data in
     rs @ [(''READONLY_ADMIN'',
            (Role (filter (\<lambda>r. endswith r ''_READ'') (map fst rs)))\<lparr>builtin := False\<rparr>)])"

definition READ_RESOURCE_BLACKLIST :: "string list" where
  "READ_RESOURCE_BLACKLIST = [''.create'', ''.do_create'', ''.update'', ''.do_update'',
     ''.delete'', ''.do_delete'']"

record allow_item =
  a_method :: string
  a_resource :: string

definition ALLOW_LIST_FULL_ADMIN :: allow_item where
  "ALLOW_LIST_FULL_ADMIN = \<lparr>a_method = ''*'', a_resource = ''*''\<rparr>"

record resource_manager =
  resource_title :: string
  resource_method :: string
  rm_roles :: role_table
  resources :: "string list dict"
  allowlists_for_roles :: "allow_item list dict"

section \<open>Resource managers\<close>

definition new_resource_manager :: "string \<Rightarrow> string \<Rightarrow> role_table \<Rightarrow> resource_manager" where
  "new_resource_manager title method roles =
     \<lparr>resource_title = title, resource_method = method, rm_roles = roles, resources = [],
      allowlists_for_roles = []\<rparr>"

definition blacklisted :: "string \<Rightarrow> bool" where
  "blacklisted name \<longleftrightarrow> list_ex (endswith name) READ_RESOURCE_BLACKLIST"

definition check_role :: "role_table \<Rightarrow> string \<Rightarrow> string \<Rightarrow> exn + unit" where
  "check_role table name role =
     (if map_of table role = None then Inl (ValueError ''Invalid role'')
      else if endswith role ''_READ'' \<and> blacklisted name
      then Inl (ValueError ''resource may not be granted'') else Inr ())"

definition append_allow :: "allow_item \<Rightarrow> string \<Rightarrow> allow_item list dict \<Rightarrow> allow_item list dict" where
  "append_allow item role als = AList.update role (dict_get als role [] @ [item]) als"

definition add_roles_to_resource ::
  "string \<Rightarrow> string list \<Rightarrow> resource_manager \<Rightarrow> resource_manager op_result" where
  "add_roles_to_resource name roles rm =
     (case map_of (resources rm) name of
        None \<Rightarrow> (Inl (ValueError ''is not registered in this role manager''), rm)
      | Some old \<Rightarrow>
          (case mapE (check_role (rm_roles rm) name) roles of
             Inl e \<Rightarrow> (Inl e, rm)
           | Inr _ \<Rightarrow>
               (Inr (), rm\<lparr>resources := AList.update name (old @ roles) (resources rm),
                  allowlists_for_roles :=
                    fold (append_allow \<lparr>a_method = resource_method rm, a_resource = name\<rparr>) roles
                      (allowlists_for_roles rm)\<rparr>)))"

definition register_resource ::
  "string \<Rightarrow> string list \<Rightarrow> bool \<Rightarrow> resource_manager \<Rightarrow> resource_manager op_result" where
  "register_resource name roles exist_ok rm =
     (if map_of (resources rm) name \<noteq> None then
        (if exist_ok then add_roles_to_resource name roles rm
         else (Inl (ValueError ''is already registered in this role manager''), rm))
      else add_roles_to_resource name roles (rm\<lparr>resources := AList.update name [] (resources rm)\<rparr>))"

text \<open>One pass of the \<open>while changed\<close> loop of \<open>roles_for_resource\<close>.\<close>

definition include_child :: "string \<Rightarrow> string \<Rightarrow> string list \<times> bool \<Rightarrow> string list \<times> bool" where
  "include_child role_name child st =
     (case st of (roles, changed) \<Rightarrow>
        if child \<in> set roles then (List.insert role_name roles, True) else (roles, changed))"

definition include_role :: "string \<times> role \<Rightarrow> string list \<times> bool \<Rightarrow> string list \<times> bool" where
  "include_role entry st =
     (if fst entry \<in> set (fst st) then st
      else fold (include_child (fst entry)) (role_includes (snd entry)) st)"

definition closure_pass :: "role_table \<Rightarrow> string list \<Rightarrow> string list \<times> bool" where
  "closure_pass table roles = fold include_role table (roles, False)"

lemma include_child_fold:
  "fold (include_child r) cs (rs, b) =
     (if \<exists>c \<in> set cs. c \<in> set rs then (List.insert r rs, True) else (rs, b))"
proof (induction cs arbitrary: rs b)
  case (Cons c cs)
  have "include_child r c (rs, b) = (if c \<in> set rs then (List.insert r rs, True) else (rs, b))"
    by (simp add: include_child_def)
  with Cons.IH show ?case by (auto simp: List.insert_def)
qed simp

lemma include_role_eq:
  "include_role (r, ro) (rs, b) =
     (if r \<in> set rs \<or> set (role_includes ro) \<inter> set rs = {} then (rs, b)
      else (r # rs, True))"
  by (auto simp: include_role_def include_child_fold)

lemma fold_include_role:
  assumes "fold include_role table (rs, b) = (rs', b')"
  shows "set rs \<subseteq> set rs' \<and> set rs' \<subseteq> set rs \<union> fst ` set table \<and>
    (b' \<longleftrightarrow> b \<or> set rs \<noteq> set rs')"
  using assms
proof (induction table arbitrary: rs b)
  case (Cons e table)
  obtain r ro where e: "e = (r, ro)" by (cases e)
  show ?case
  proof (cases "r \<in> set rs \<or> set (role_includes ro) \<inter> set rs = {}")
    case True
    with Cons.prems e have "fold include_role table (rs, b) = (rs', b')"
      by (auto simp: include_role_eq)
    from Cons.IH [OF this] show ?thesis by auto
  next
    case False
    with Cons.prems e have "fold include_role table (r # rs, True) = (rs', b')"
      by (auto simp: include_role_eq)
    from Cons.IH [OF this] False e show ?thesis by auto
  qed
qed simp

lemma closure_pass_shrinks:
  assumes "closure_pass table roles = (roles', True)"
  shows "card (fst ` set table - set roles') < card (fst ` set table - set roles)"
proof -
  from fold_include_role [OF assms [unfolded closure_pass_def]]
  have "fst ` set table - set roles' \<subset> fst ` set table - set roles" by auto
  then show ?thesis by (simp add: psubset_card_mono)
qed

function closure_loop :: "role_table \<Rightarrow> string list \<Rightarrow> string list" where
  "closure_loop table roles =
     (case closure_pass table roles of
        (roles', changed) \<Rightarrow> if changed then closure_loop table roles' else roles')"
  by pat_completeness auto
termination
  by (relation "measure (\<lambda>(table, roles). card (fst ` set table - set roles))")
    (auto intro: closure_pass_shrinks)

declare closure_loop.simps [simp del]

definition roles_for_resource :: "resource_manager \<Rightarrow> string \<Rightarrow> string list" where
  "roles_for_resource rm name =
     sort (closure_loop (rm_roles rm) (remdups (dict_get (resources rm) name [])))"

section \<open>The role manager\<close>

record role_manager =
  roles :: role_table
  methods :: resource_manager
  events :: resource_manager

definition new_role_manager :: "role_table \<Rightarrow> role_manager" where
  "new_role_manager table =
     \<lparr>roles = table, methods = new_resource_manager ''Method'' ''CALL'' table,
      events = new_resource_manager ''Event'' ''SUBSCRIBE'' table\<rparr>"

definition register_method ::
  "string \<Rightarrow> string list \<Rightarrow> bool \<Rightarrow> role_manager \<Rightarrow> role_manager op_result" where
  "register_method name rs exist_ok m =
     (case register_resource name rs exist_ok (methods m) of (r, rm) \<Rightarrow> (r, m\<lparr>methods := rm\<rparr>))"

definition add_roles_to_method :: "string \<Rightarrow> string list \<Rightarrow> role_manager \<Rightarrow> role_manager op_result" where
  "add_roles_to_method name rs m =
     (case add_roles_to_resource name rs (methods m) of (r, rm) \<Rightarrow> (r, m\<lparr>methods := rm\<rparr>))"

definition register_event ::
  "string \<Rightarrow> string list \<Rightarrow> bool \<Rightarrow> role_manager \<Rightarrow> role_manager op_result" where
  "register_event name rs exist_ok m =
     (case register_resource name rs exist_ok (events m) of (r, rm) \<Rightarrow> (r, m\<lparr>events := rm\<rparr>))"

definition role_stig_check :: "role_table \<Rightarrow> string \<Rightarrow> nat \<Rightarrow> exn + bool" where
  "role_stig_check table role_name enabled_stig =
     bindE (dict_index table role_name) (\<lambda>r.
       case stig r of None \<Rightarrow> Inr False | Some s \<Rightarrow> Inr (s AND enabled_stig \<noteq> 0))"

fun roles_for_role :: "nat \<Rightarrow> role_table \<Rightarrow> string \<Rightarrow> nat \<Rightarrow> exn + string list" where
  "roles_for_role 0 table role enabled_stig = Inl RecursionError"
| "roles_for_role (Suc fuel) table role enabled_stig =
     (case map_of table role of
        None \<Rightarrow> Inr []
      | Some r \<Rightarrow>
          if enabled_stig = 0 then
            bindE (mapE (\<lambda>c. roles_for_role fuel table c enabled_stig) (role_includes r))
              (\<lambda>rs. Inr (remdups (role # concat rs)))
          else if full_admin r then
            Inr (filter (\<lambda>n. role_stig_check table n enabled_stig = Inr True) (map fst table))
          else
            bindE (mapE (\<lambda>c. bindE (role_stig_check table c enabled_stig) (\<lambda>ok.
                if ok then roles_for_role fuel table c enabled_stig else Inr [])) (role_includes r))
              (\<lambda>rs. Inr (remdups (role # concat rs))))"

definition role_allow_items :: "role_manager \<Rightarrow> string \<Rightarrow> allow_item list" where
  "role_allow_items m r =
     dict_get (allowlists_for_roles (methods m)) r [] @ dict_get (allowlists_for_roles (events m)) r []"

definition allowlist_for_role :: "nat \<Rightarrow> role_manager \<Rightarrow> string \<Rightarrow> nat \<Rightarrow> exn + allow_item list" where
  "allowlist_for_role fuel m role enabled_stig =
     (if (case map_of (roles m) role of None \<Rightarrow> False | Some r \<Rightarrow> full_admin r) \<and> enabled_stig = 0
      then Inr [ALLOW_LIST_FULL_ADMIN]
      else bindE (roles_for_role fuel (roles m) role enabled_stig)
             (\<lambda>rs. Inr (concat (map (role_allow_items m) rs))))"

definition roles_for_method :: "role_manager \<Rightarrow> string \<Rightarrow> string list" where
  "roles_for_method m name = roles_for_resource (methods m) name"

definition roles_for_event :: "role_manager \<Rightarrow> string \<Rightarrow> string list" where
  "roles_for_event m name = roles_for_resource (events m) name"

section \<open>Registration of the services\<close>

text \<open>
  The calls \<open>main.py\<close> makes on the role manager for each service, in order. The roles
  declared on the methods of a service (their \<open>roles\<close> attribute, empty when there is none)
  come with the service.
\<close>

record service_config =
  namespace :: string
  role_prefix :: "string option"
  role_separate_delete :: bool
  service_methods :: "(string \<times> string list) list"

datatype role_op =
    RegisterMethod string "string list" bool
  | AddRolesToMethod string "string list"
  | RegisterEvent string "string list" bool

fun role_op_run :: "role_op \<Rightarrow> role_manager \<Rightarrow> role_manager op_result" where
  "role_op_run (RegisterMethod name rs exist_ok) m = register_method name rs exist_ok m"
| "role_op_run (AddRolesToMethod name rs) m = add_roles_to_method name rs m"
| "role_op_run (RegisterEvent name rs exist_ok) m = register_event name rs exist_ok m"

definition crud_ops :: "service_config \<Rightarrow> role_op list" where
  "crud_ops svc =
     (let ns = namespace svc in
      map (\<lambda>s. RegisterMethod (ns @ s) [''READONLY_ADMIN''] False) [''.config'', ''.get_instance'', ''.query'']
      @ (case role_prefix svc of
           None \<Rightarrow> []
         | Some pre \<Rightarrow>
             map (\<lambda>s. AddRolesToMethod (ns @ s) [pre @ ''_READ'']) [''.config'', ''.get_instance'', ''.query'']
             @ map (\<lambda>s. RegisterMethod (ns @ s) [pre @ ''_WRITE''] False) [''.create'', ''.update'']
             @ [RegisterMethod (ns @ ''.delete'')
                  [pre @ (if role_separate_delete svc then ''_DELETE'' else ''_WRITE'')] False]))"

definition public_name :: "string \<Rightarrow> string" where
  "public_name n = (if n \<in> set [''do_create'', ''do_update'', ''do_delete''] then drop 3 n else n)"

definition method_ops :: "service_config \<Rightarrow> string \<times> string list \<Rightarrow> role_op list" where
  "method_ops svc nm =
     (let n = public_name (fst nm);
          rs = snd nm @ (if endswith n ''_choices''
                then [''READONLY_ADMIN''] @ (case role_prefix svc of None \<Rightarrow> [] | Some p \<Rightarrow> [p @ ''_READ''])
                else [])
      in if rs = [] then [] else [RegisterMethod (namespace svc @ ''.'' @ n) rs True])"

definition service_ops :: "service_config \<Rightarrow> role_op list" where
  "service_ops svc = crud_ops svc @ concat (map (method_ops svc) (service_methods svc))"

definition register_services :: "service_config list \<Rightarrow> role_manager \<Rightarrow> role_manager op_result" where
  "register_services svcs = run_seq role_op_run (concat (map service_ops svcs))"

end
