(* ===== verification/RolesProofs.thy ===== *)
theory RolesProofs
  imports Roles
begin

text \<open>
  Correctness of the role manager. \<open>includes_rel\<close> is the inclusion of roles as a relation:
  what a role gives (\<open>roles_for_role\<close>) are its successors under the reflexive transitive
  closure, and who may use a resource (\<open>roles_for_resource\<close>) its predecessors. The two
  directions meet in the registry invariant: the allow list of a role and the role list of a
  resource record the same pairs.
\<close>

section \<open>Inclusion of roles\<close>

definition includes_rel :: "role_table \<Rightarrow> (string \<times> string) set" where
  "includes_rel table =
     {(r, c). \<exists>ro. map_of table r = Some ro \<and> c \<in> set (role_includes ro) \<and> map_of table c \<noteq> None}"

lemma includes_relI:
  "map_of table r = Some ro \<Longrightarrow> c \<in> set (role_includes ro) \<Longrightarrow> map_of table c \<noteq> None
    \<Longrightarrow> (r, c) \<in> includes_rel table"
  by (auto simp: includes_rel_def)

lemma includes_rel_known:
  "(r, c) \<in> (includes_rel table)\<^sup>* \<Longrightarrow> map_of table r \<noteq> None \<Longrightarrow> map_of table c \<noteq> None"
  by (induction rule: rtrancl_induct) (auto simp: includes_rel_def)

text \<open>A measure that decreases along every inclusion below a role.\<close>

definition ranked_from :: "role_table \<Rightarrow> (string \<Rightarrow> nat) \<Rightarrow> string \<Rightarrow> bool" where
  "ranked_from table rank role \<longleftrightarrow>
     (\<forall>r c. (role, r) \<in> (includes_rel table)\<^sup>* \<longrightarrow> (r, c) \<in> includes_rel table \<longrightarrow> rank c < rank r)"

lemma ranked_from_step:
  "ranked_from table rank role \<Longrightarrow> (role, c) \<in> includes_rel table \<Longrightarrow>
    ranked_from table rank c \<and> rank c < rank role"
  by (auto simp: ranked_from_def intro: converse_rtrancl_into_rtrancl)

section \<open>Roles included in a role\<close>

lemma roles_for_role_unknown: "map_of table role = None \<Longrightarrow> roles_for_role (Suc n) table role st = Inr []"
  by simp

lemma concat_mapE_set:
  assumes "\<And>c. c \<in> set cs \<Longrightarrow> \<exists>ys. f c = Inr ys \<and> set ys = P c"
  shows "\<exists>yss. mapE f cs = Inr yss \<and> set (concat yss) = (\<Union>c \<in> set cs. P c)"
proof -
  from assms obtain g where g: "\<And>c. c \<in> set cs \<Longrightarrow> f c = Inr (g c) \<and> set (g c) = P c" by metis
  then have "mapE f cs = Inr (map g cs)" by (intro mapE_total) simp
  with g show ?thesis by auto
qed

lemma rtrancl_image_unfold:
  "map_of table role = Some ro \<Longrightarrow>
    (includes_rel table)\<^sup>* `` {role} =
      insert role (\<Union>c \<in> set (role_includes ro).
        if map_of table c = None then {} else (includes_rel table)\<^sup>* `` {c})"
  by (auto simp: includes_rel_def elim: converse_rtranclE
      intro: converse_rtrancl_into_rtrancl split: if_splits)

lemma roles_for_role_reachable:
  "ranked_from table rank role \<Longrightarrow> Suc (rank role) < fuel \<Longrightarrow> map_of table role \<noteq> None \<Longrightarrow>
    \<exists>rs. roles_for_role fuel table role 0 = Inr rs \<and> distinct rs \<and>
      set rs = (includes_rel table)\<^sup>* `` {role}"
proof (induction fuel arbitrary: role)
  case (Suc fuel)
  then obtain ro where ro: "map_of table role = Some ro" by auto
  have "\<exists>ys. roles_for_role fuel table c 0 = Inr ys \<and>
      set ys = (if map_of table c = None then {} else (includes_rel table)\<^sup>* `` {c})"
    if "c \<in> set (role_includes ro)" for c
  proof (cases "map_of table c = None")
    case True
    with Suc.prems show ?thesis by (cases fuel) auto
  next
    case False
    with ro that have "(role, c) \<in> includes_rel table" by (auto intro: includes_relI)
    with Suc.prems have "ranked_from table rank c" and "Suc (rank c) < fuel"
      using ranked_from_step by fastforce+
    with Suc.IH False show ?thesis by auto
  qed
  from concat_mapE_set [where f = "\<lambda>c. roles_for_role fuel table c 0" and cs = "role_includes ro", OF this]
  obtain yss
    where yss: "mapE (\<lambda>c. roles_for_role fuel table c 0) (role_includes ro) = Inr yss"
      "set (concat yss) = (\<Union>c \<in> set (role_includes ro).
        if map_of table c = None then {} else (includes_rel table)\<^sup>* `` {c})" by blast
  have "set (remdups (role # concat yss)) = (includes_rel table)\<^sup>* `` {role}"
    by (simp only: set_remdups list.set(2) yss(2) rtrancl_image_unfold [OF ro])
  moreover have "roles_for_role (Suc fuel) table role 0 = Inr (remdups (role # concat yss))"
    by (simp only: roles_for_role.simps ro option.case yss(1) bindE_simps if_True refl)
  ultimately show ?case using distinct_remdups by metis
qed simp

lemma mapE_concat_elem:
  "mapE f cs = Inr yss \<Longrightarrow> y \<in> set (concat yss) \<Longrightarrow> \<exists>c \<in> set cs. \<exists>ys. f c = Inr ys \<and> y \<in> set ys"
proof (induction cs arbitrary: yss)
  case (Cons c cs)
  then obtain ys zss where "f c = Inr ys" "mapE f cs = Inr zss" "yss = ys # zss"
    by (auto simp: bindE_eq_Inr_iff)
  with Cons show ?case by auto
qed simp

lemma roles_for_role_elem:
  assumes "roles_for_role (Suc fuel) table role st = Inr rs" and "map_of table role = Some ro"
    and "st = 0 \<or> \<not> full_admin ro" and "r \<in> set rs" and "r \<noteq> role"
  shows "\<exists>c ys. c \<in> set (role_includes ro) \<and> roles_for_role fuel table c st = Inr ys \<and> r \<in> set ys \<and>
    (st \<noteq> 0 \<longrightarrow> role_stig_check table c st = Inr True)"
proof (cases "st = 0")
  case True
  with assms obtain yss where "mapE (\<lambda>c. roles_for_role fuel table c 0) (role_includes ro) = Inr yss"
    and "r \<in> set (concat yss)"
    by (auto simp: bindE_eq_Inr_iff split: if_splits)
  from mapE_concat_elem [OF this] True show ?thesis by auto
next
  case False
  with assms obtain yss where "mapE (\<lambda>c. bindE (role_stig_check table c st) (\<lambda>ok.
      if ok then roles_for_role fuel table c st else Inr [])) (role_includes ro) = Inr yss"
    and "r \<in> set (concat yss)"
    by (auto simp: bindE_eq_Inr_iff split: if_splits)
  from mapE_concat_elem [OF this] show ?thesis by (auto simp: bindE_eq_Inr_iff split: if_splits)
qed

lemma roles_for_role_known:
  "roles_for_role fuel table role st = Inr rs \<Longrightarrow> rs \<noteq> [] \<Longrightarrow> map_of table role \<noteq> None"
  by (cases fuel; cases "map_of table role") auto

lemma roles_for_role_sound:
  "roles_for_role fuel table role 0 = Inr rs \<Longrightarrow> r \<in> set rs \<Longrightarrow>
    (role, r) \<in> (includes_rel table)\<^sup>* \<and> map_of table r \<noteq> None"
proof (induction fuel arbitrary: role rs)
  case (Suc fuel)
  then obtain ro where ro: "map_of table role = Some ro" by (cases "map_of table role") auto
  show ?case
  proof (cases "r = role")
    case False
    from roles_for_role_elem [OF Suc.prems(1) ro _ Suc.prems(2) False] obtain c ys
      where c: "c \<in> set (role_includes ro)" "roles_for_role fuel table c 0 = Inr ys" "r \<in> set ys" by auto
    with Suc.IH have "(c, r) \<in> (includes_rel table)\<^sup>*" "map_of table r \<noteq> None" by auto
    moreover have "map_of table c \<noteq> None" using roles_for_role_known c by fastforce
    ultimately show ?thesis
      using includes_relI [OF ro c(1)] by (auto intro: converse_rtrancl_into_rtrancl)
  qed (use ro in auto)
qed simp

lemma roles_for_role_stig:
  "roles_for_role fuel table role st = Inr rs \<Longrightarrow> st \<noteq> 0 \<Longrightarrow> r \<in> set rs \<Longrightarrow> r \<noteq> role \<Longrightarrow>
    role_stig_check table r st = Inr True"
proof (induction fuel arbitrary: role rs)
  case (Suc fuel)
  then obtain ro where ro: "map_of table role = Some ro" by (cases "map_of table role") auto
  show ?case
  proof (cases "full_admin ro")
    case True
    with Suc.prems ro show ?thesis by auto
  next
    case False
    then have na: "st = 0 \<or> \<not> full_admin ro" by simp
    from roles_for_role_elem [OF Suc.prems(1) ro na Suc.prems(3,4)] Suc.prems(2) obtain c ys
      where c: "roles_for_role fuel table c st = Inr ys" "r \<in> set ys" "role_stig_check table c st = Inr True"
      by auto
    with Suc.IH [OF c(1) Suc.prems(2) c(2)] show ?thesis by (cases "r = c") auto
  qed
qed simp

section \<open>Roles that may use a resource\<close>

lemma fold_include_role_sound:
  assumes "fold include_role entries (rs, b) = (rs', b')" and "dict_ok table" and "set entries \<subseteq> set table"
    and "set rs \<subseteq> {r. \<exists>g \<in> G. (r, g) \<in> (includes_rel table)\<^sup>*}" and "\<forall>g \<in> G. map_of table g \<noteq> None"
  shows "set rs' \<subseteq> {r. \<exists>g \<in> G. (r, g) \<in> (includes_rel table)\<^sup>*}"
  using assms
proof (induction entries arbitrary: rs b)
  case (Cons e entries)
  obtain r ro where e: "e = (r, ro)" by (cases e)
  show ?case
  proof (cases "r \<in> set rs \<or> set (role_includes ro) \<inter> set rs = {}")
    case True
    with Cons e show ?thesis by (auto simp: include_role_eq)
  next
    case False
    then obtain c where c: "c \<in> set (role_includes ro)" "c \<in> set rs" by auto
    with Cons.prems(4) obtain g where g: "g \<in> G" "(c, g) \<in> (includes_rel table)\<^sup>*" by auto
    from e Cons.prems(2,3) have "map_of table r = Some ro" by simp
    moreover have "map_of table c \<noteq> None"
      using g(2) Cons.prems(5) g(1) by (cases rule: converse_rtranclE) (auto simp: includes_rel_def)
    ultimately have "(r, g) \<in> (includes_rel table)\<^sup>*"
      using includes_relI [of table r ro c] c(1) g(2) by (auto intro: converse_rtrancl_into_rtrancl)
    with Cons.prems(4) g(1) have "set (r # rs) \<subseteq> {r. \<exists>g \<in> G. (r, g) \<in> (includes_rel table)\<^sup>*}" by auto
    with Cons.IH [of "r # rs" True] Cons.prems e False show ?thesis by (auto simp: include_role_eq)
  qed
qed simp

lemma fold_include_role_stable:
  assumes "fold include_role entries (rs, False) = (rs', False)"
  shows "rs' = rs \<and> (\<forall>(r, ro) \<in> set entries. set (role_includes ro) \<inter> set rs \<noteq> {} \<longrightarrow> r \<in> set rs)"
  using assms
proof (induction entries)
  case (Cons e entries)
  obtain r ro where e: "e = (r, ro)" by (cases e)
  have stay: "r \<in> set rs \<or> set (role_includes ro) \<inter> set rs = {}"
  proof (rule ccontr)
    assume neg: "\<not> ?thesis"
    with Cons.prems e have "fold include_role entries (r # rs, True) = (rs', False)"
      by (auto simp: include_role_eq)
    from fold_include_role [OF this] show False by simp
  qed
  with Cons e show ?case by (auto simp: include_role_eq)
qed simp

lemma closed_reaches:
  assumes "\<forall>(r, ro) \<in> set table. set (role_includes ro) \<inter> R \<noteq> {} \<longrightarrow> r \<in> R"
    and "(r, g) \<in> (includes_rel table)\<^sup>*" and "g \<in> R"
  shows "r \<in> R"
  using assms(2,3)
proof (induction rule: converse_rtrancl_induct)
  case (step y z)
  then obtain ro where "map_of table y = Some ro" "z \<in> set (role_includes ro)"
    by (auto simp: includes_rel_def)
  with step assms(1) show ?case by (fastforce dest: map_of_SomeD)
qed

lemma closure_loop_set:
  "dict_ok table \<Longrightarrow> \<forall>g \<in> G. map_of table g \<noteq> None \<Longrightarrow> G \<subseteq> set rs \<Longrightarrow>
    set rs \<subseteq> {r. \<exists>g \<in> G. (r, g) \<in> (includes_rel table)\<^sup>*} \<Longrightarrow>
    set (closure_loop table rs) = {r. \<exists>g \<in> G. (r, g) \<in> (includes_rel table)\<^sup>*}"
proof (induction table rs rule: closure_loop.induct)
  case (1 table rs)
  obtain rs' ch where p: "closure_pass table rs = (rs', ch)" by force
  note fp = p [unfolded closure_pass_def]
  show ?case
  proof (cases ch)
    case True
    have "set rs' \<subseteq> {r. \<exists>g \<in> G. (r, g) \<in> (includes_rel table)\<^sup>*}"
      using fold_include_role_sound [OF fp] 1 by auto
    moreover have "G \<subseteq> set rs'" using fold_include_role [OF fp] 1 by auto
    ultimately show ?thesis using 1 p True by (subst closure_loop.simps) simp
  next
    case False
    with fold_include_role_stable fp have "rs' = rs"
      and closed: "\<forall>(r, ro) \<in> set table. set (role_includes ro) \<inter> set rs \<noteq> {} \<longrightarrow> r \<in> set rs" by auto
    with p False have "closure_loop table rs = rs" by (subst closure_loop.simps) simp
    with closed_reaches [OF closed] "1.prems" show ?thesis by auto
  qed
qed

lemma roles_for_resource_set:
  assumes "dict_ok (rm_roles rm)" and "\<forall>g \<in> set (dict_get (resources rm) name []). map_of (rm_roles rm) g \<noteq> None"
  shows "set (roles_for_resource rm name) =
    {r. \<exists>g \<in> set (dict_get (resources rm) name []). (r, g) \<in> (includes_rel (rm_roles rm))\<^sup>*}"
  unfolding roles_for_resource_def set_sort
  by (rule closure_loop_set) (use assms in auto)

section \<open>The registry invariant\<close>

lemma dict_get_update [dict_simps]:
  "dict_get (AList.update k v d) k' dflt = (if k' = k then v else dict_get d k' dflt)"
  by (simp add: dict_get_def map_of_update)

lemma fold_append_allow:
  "set (dict_get (fold (append_allow item) rs als) r []) =
     set (dict_get als r []) \<union> (if r \<in> set rs then {item} else {})"
  by (induction rs arbitrary: als) (auto simp: append_allow_def dict_get_update)

text \<open>Resources the allow lists give to a role, and roles recorded for a resource.\<close>

definition allows :: "resource_manager \<Rightarrow> string \<Rightarrow> string set" where
  "allows rm r = {name. \<lparr>a_method = resource_method rm, a_resource = name\<rparr>
     \<in> set (dict_get (allowlists_for_roles rm) r [])}"

definition granted_to :: "resource_manager \<Rightarrow> string \<Rightarrow> string set" where
  "granted_to rm name = set (dict_get (resources rm) name [])"

definition registry_inv :: "resource_manager \<Rightarrow> bool" where
  "registry_inv rm \<longleftrightarrow>
     (\<forall>name r. r \<in> granted_to rm name \<longleftrightarrow> name \<in> allows rm r) \<and>
     (\<forall>r. \<forall>i \<in> set (dict_get (allowlists_for_roles rm) r []). a_method i = resource_method rm) \<and>
     (\<forall>name. \<forall>r \<in> granted_to rm name. check_role (rm_roles rm) name r = Inr ())"

lemma registry_inv_new: "registry_inv (new_resource_manager title method table)"
  by (simp add: registry_inv_def granted_to_def allows_def new_resource_manager_def)

lemma mapE_unit_elem: "mapE f xs = Inr ys \<Longrightarrow> x \<in> set xs \<Longrightarrow> \<exists>y. f x = Inr y"
  by (induction xs arbitrary: ys) (auto simp: bindE_eq_Inr_iff)

lemma add_roles_cases:
  obtains e where "add_roles_to_resource name rs rm = (Inl e, rm)"
  | old where "map_of (resources rm) name = Some old"
      and "\<forall>r \<in> set rs. check_role (rm_roles rm) name r = Inr ()"
      and "add_roles_to_resource name rs rm =
        (Inr (), rm\<lparr>resources := AList.update name (old @ rs) (resources rm),
           allowlists_for_roles :=
             fold (append_allow \<lparr>a_method = resource_method rm, a_resource = name\<rparr>) rs
               (allowlists_for_roles rm)\<rparr>)"
proof (cases "map_of (resources rm) name")
  case None
  then show thesis using that(1) by (simp add: add_roles_to_resource_def)
next
  case (Some old)
  show thesis
  proof (cases "mapE (check_role (rm_roles rm) name) rs")
    case (Inl e)
    with Some show thesis using that(1) by (simp add: add_roles_to_resource_def)
  next
    case (Inr us)
    from mapE_unit_elem [OF this] have "\<forall>r \<in> set rs. check_role (rm_roles rm) name r = Inr ()" by auto
    with Some Inr show thesis using that(2) by (simp add: add_roles_to_resource_def)
  qed
qed

lemma registry_inv_add:
  assumes "registry_inv rm"
  shows "registry_inv (snd (add_roles_to_resource name rs rm))"
proof (cases rule: add_roles_cases [of name rs rm])
  case (2 old)
  then have "dict_get (resources rm) name [] = old" by (simp add: dict_get_def)
  with 2 assms show ?thesis
    by (auto simp: registry_inv_def granted_to_def allows_def dict_get_update fold_append_allow
        split: if_splits)
qed (use assms in simp)

lemma registry_inv_register:
  assumes "registry_inv rm"
  shows "registry_inv (snd (register_resource name rs exist_ok rm))"
proof (cases "map_of (resources rm) name")
  case None
  then have "dict_get (resources rm) n [] = dict_get (AList.update name [] (resources rm)) n []" for n
    by (simp add: dict_get_update) (simp add: dict_get_def)
  then have "registry_inv (rm\<lparr>resources := AList.update name [] (resources rm)\<rparr>)"
    using assms by (simp add: registry_inv_def granted_to_def allows_def)
  with None show ?thesis by (simp add: register_resource_def registry_inv_add)
qed (use assms in \<open>simp add: register_resource_def registry_inv_add\<close>)

lemma add_roles_frame:
  "resource_method (snd (add_roles_to_resource name rs rm)) = resource_method rm"
  "rm_roles (snd (add_roles_to_resource name rs rm)) = rm_roles rm"
  by (cases rule: add_roles_cases [of name rs rm]; simp)+

lemma register_frame:
  "resource_method (snd (register_resource name rs b rm)) = resource_method rm"
  "rm_roles (snd (register_resource name rs b rm)) = rm_roles rm"
  by (simp_all add: register_resource_def add_roles_frame)

definition role_manager_inv :: "role_table \<Rightarrow> role_manager \<Rightarrow> bool" where
  "role_manager_inv table m \<longleftrightarrow> roles m = table \<and>
     registry_inv (methods m) \<and> rm_roles (methods m) = table \<and> resource_method (methods m) = ''CALL'' \<and>
     registry_inv (events m) \<and> rm_roles (events m) = table \<and> resource_method (events m) = ''SUBSCRIBE''"

lemma role_manager_inv_run: "role_manager_inv table m \<Longrightarrow> role_manager_inv table (snd (role_op_run c m))"
  by (cases c) (auto simp: role_manager_inv_def register_method_def add_roles_to_method_def
      register_event_def case_prod_unfold registry_inv_register registry_inv_add
      add_roles_frame register_frame)

lemma role_manager_inv_new: "role_manager_inv table (new_role_manager table)"
  by (simp add: role_manager_inv_def new_role_manager_def registry_inv_new)
    (simp add: new_resource_manager_def)

interpretation registry: inductive_invariant
  "\<lambda>m. m = new_role_manager table" "command_step role_op_run" "role_manager_inv table" for table
  by unfold_locales (auto simp: command_step_def role_manager_inv_run role_manager_inv_new)

abbreviation registered :: "role_table \<Rightarrow> role_manager \<Rightarrow> bool" where
  "registered table \<equiv> reach (\<lambda>m. m = new_role_manager table) (command_step role_op_run)"

section \<open>Grants seen from both ends\<close>

text \<open>
  A registry promises that its two tables record the same pairs; then closing the resources
  of a role downwards and the roles of a resource upwards agree.
\<close>

locale grant_table =
  fixes ok :: "'s \<Rightarrow> bool" and granted :: "'s \<Rightarrow> 'n \<Rightarrow> 'r set" and allowed :: "'s \<Rightarrow> 'r \<Rightarrow> 'n set"
  assumes same_pairs: "ok s \<Longrightarrow> r \<in> granted s n \<longleftrightarrow> n \<in> allowed s r"
begin

lemma closure_dual:
  "ok s \<Longrightarrow> (\<exists>g. (r, g) \<in> R\<^sup>* \<and> n \<in> allowed s g) \<longleftrightarrow> (\<exists>g \<in> granted s n. (r, g) \<in> R\<^sup>*)"
  using same_pairs by blast

end

interpretation grants: grant_table registry_inv granted_to allows
  by unfold_locales (simp add: registry_inv_def)

lemma allowlist_for_role_items:
  assumes "ranked_from table rank role" and "Suc (rank role) < fuel" and "map_of table role = Some ro"
    and "\<not> full_admin ro" and "roles m = table"
  shows "\<exists>items. allowlist_for_role fuel m role 0 = Inr items \<and>
    set items = (\<Union>g \<in> (includes_rel table)\<^sup>* `` {role}. set (role_allow_items m g))"
proof -
  from roles_for_role_reachable [OF assms(1,2)] assms(3) obtain rs
    where "roles_for_role fuel table role 0 = Inr rs" "set rs = (includes_rel table)\<^sup>* `` {role}" by auto
  with assms(3-5) show ?thesis by (auto simp: allowlist_for_role_def)
qed

lemma role_allow_items_call:
  assumes "role_manager_inv table m"
  shows "\<lparr>a_method = ''CALL'', a_resource = name\<rparr> \<in> set (role_allow_items m g) \<longleftrightarrow> name \<in> allows (methods m) g"
  using assms by (fastforce simp: role_manager_inv_def role_allow_items_def registry_inv_def allows_def)

lemma granted_known:
  "role_manager_inv table m \<Longrightarrow> g \<in> granted_to (methods m) name \<Longrightarrow> map_of table g \<noteq> None"
  by (auto simp: role_manager_inv_def registry_inv_def check_role_def split: if_splits)

lemma registry_read_items:
  assumes "registry_inv rm" and "i \<in> set (dict_get (allowlists_for_roles rm) r [])" and "endswith r ''_READ''"
  shows "\<not> blacklisted (a_resource i)"
proof -
  from assms(1,2) have "a_method i = resource_method rm" by (auto simp: registry_inv_def)
  then have "i = \<lparr>a_method = resource_method rm, a_resource = a_resource i\<rparr>" by simp
  with assms(2) have "a_resource i \<in> allows rm r" by (simp add: allows_def)
  with assms(1) have "check_role (rm_roles rm) (a_resource i) r = Inr ()"
    using grants.same_pairs [OF assms(1)] unfolding registry_inv_def by blast
  with assms(3) show ?thesis by (auto simp: check_role_def split: if_splits)
qed

lemma roles_for_role_closed:
  assumes closed: "\<And>r ro. map_of table r = Some ro \<Longrightarrow> P r \<Longrightarrow> \<not> full_admin ro \<and> (\<forall>c \<in> set (role_includes ro). P c)"
  shows "roles_for_role fuel table role st = Inr rs \<Longrightarrow> P role \<Longrightarrow> r \<in> set rs \<Longrightarrow> P r"
proof (induction fuel arbitrary: role rs)
  case (Suc fuel)
  then obtain ro where ro: "map_of table role = Some ro" by (cases "map_of table role") auto
  with closed Suc.prems(2) have na: "st = 0 \<or> \<not> full_admin ro"
    and inc: "\<forall>c \<in> set (role_includes ro). P c" by blast+
  show ?case
  proof (cases "r = role")
    case False
    from roles_for_role_elem [OF Suc.prems(1) ro na Suc.prems(3) False] Suc.IH inc show ?thesis by blast
  qed (use Suc.prems in simp)
qed simp

section \<open>Registration only adds\<close>

lemma add_roles_mono: "granted_to rm n \<subseteq> granted_to (snd (add_roles_to_resource name rs rm)) n"
proof (cases rule: add_roles_cases [of name rs rm])
  case (2 old)
  then have "dict_get (resources rm) name [] = old" by (simp add: dict_get_def)
  with 2 show ?thesis by (auto simp: granted_to_def dict_get_update)
qed simp

lemma add_roles_grants:
  assumes "add_roles_to_resource name rs rm = (Inr u, rm')"
  shows "set rs \<subseteq> granted_to rm' name"
  using assms by (cases rule: add_roles_cases [of name rs rm]) (auto simp: granted_to_def dict_get_update)

lemma register_mono: "granted_to rm n \<subseteq> granted_to (snd (register_resource name rs b rm)) n"
proof (cases "map_of (resources rm) name")
  case None
  then have "granted_to rm n \<subseteq> granted_to (rm\<lparr>resources := AList.update name [] (resources rm)\<rparr>) n"
    by (auto simp: granted_to_def dict_get_def map_of_update)
  with None show ?thesis
    using add_roles_mono [of "rm\<lparr>resources := AList.update name [] (resources rm)\<rparr>"]
    by (fastforce simp: register_resource_def)
qed (auto simp: register_resource_def intro: subsetD [OF add_roles_mono])

lemma register_grants: "register_resource name rs b rm = (Inr u, rm') \<Longrightarrow> set rs \<subseteq> granted_to rm' name"
  by (auto simp: register_resource_def dest: subsetD [OF add_roles_grants] split: if_splits)

fun grants_of :: "role_op \<Rightarrow> (string \<times> string list) option" where
  "grants_of (RegisterMethod name rs b) = Some (name, rs)"
| "grants_of (AddRolesToMethod name rs) = Some (name, rs)"
| "grants_of (RegisterEvent name rs b) = None"

lemma role_op_run_mono: "granted_to (methods m) n \<subseteq> granted_to (methods (snd (role_op_run c m))) n"
  using register_mono add_roles_mono
  by (cases c) (auto simp: register_method_def add_roles_to_method_def register_event_def case_prod_unfold)

lemma run_seq_mono: "granted_to (methods m) n \<subseteq> granted_to (methods (snd (run_seq role_op_run cs m))) n"
proof (induction cs arbitrary: m)
  case (Cons c cs)
  obtain r m' where run: "role_op_run c m = (r, m')" by force
  with role_op_run_mono [of m n c] Cons.IH [of m'] show ?case by (cases r) auto
qed simp

lemma run_seq_grants:
  "run_seq role_op_run cs m = (Inr (), m') \<Longrightarrow> c \<in> set cs \<Longrightarrow> grants_of c = Some (name, rs) \<Longrightarrow>
    set rs \<subseteq> granted_to (methods m') name"
proof (induction cs arbitrary: m)
  case (Cons d cs)
  obtain r m1 where run: "role_op_run d m = (r, m1)" by force
  with Cons.prems have r: "r = Inr ()" and rest: "run_seq role_op_run cs m1 = (Inr (), m')"
    by (cases r; simp)+
  show ?case
  proof (cases "c = d")
    case True
    with run r Cons.prems(3) have "set rs \<subseteq> granted_to (methods m1) name"
      by (cases d) (auto simp: register_method_def add_roles_to_method_def
          dest: subsetD [OF register_grants] subsetD [OF add_roles_grants] split: prod.splits)
    with run_seq_mono [of m1 name cs] rest show ?thesis by auto
  qed (use Cons rest in auto)
qed simp

section \<open>Properties of the role manager\<close>

definition demo_table :: role_table where
  "demo_table = [(''A_READ'', Role []), (''A_WRITE'', Role [''A_READ'']),
     (''B_WRITE'', (Role [''A_WRITE'', ''GONE''])\<lparr>stig := None\<rparr>),
     (''B_ADMIN'', (Role [''B_WRITE'', ''A_WRITE''])\<lparr>builtin := False\<rparr>),
     (''READONLY_ADMIN'', (Role [''A_READ''])\<lparr>builtin := False\<rparr>)]"

definition demo_rank :: "string \<Rightarrow> nat" where
  "demo_rank r = dict_get [(''A_READ'', 0), (''A_WRITE'', 1), (''READONLY_ADMIN'', 1), (''B_WRITE'', 2),
     (''B_ADMIN'', 3)] r 0"

definition demo_service :: service_config where
  "demo_service = \<lparr>namespace = ''a'', role_prefix = Some ''A'', role_separate_delete = False,
     service_methods = [(''do_create'', []), (''scan'', [''B_WRITE'']), (''os_choices'', [])]\<rparr>"

definition demo_manager :: role_manager where
  "demo_manager = snd (register_services [demo_service] (new_role_manager demo_table))"

lemma demo_ranked: "ranked_from demo_table demo_rank role"
  by (auto simp: ranked_from_def includes_rel_def demo_table_def demo_rank_def Role_def split: if_splits)

lemma demo_registered: "registered demo_table demo_manager"
  unfolding demo_manager_def register_services_def by (rule run_seq_reach) simp

lemma demo_register: "register_services [demo_service] (new_role_manager demo_table) = (Inr (), demo_manager)"
proof -
  have "fst (register_services [demo_service] (new_role_manager demo_table)) = Inr ()"
    by (simp add: register_services_def demo_service_def service_ops_def crud_ops_def method_ops_def
        public_name_def register_method_def add_roles_to_method_def register_resource_def
        add_roles_to_resource_def check_role_def blacklisted_def READ_RESOURCE_BLACKLIST_def
        new_role_manager_def new_resource_manager_def demo_table_def suffix_def)
  then show ?thesis by (simp add: demo_manager_def prod_eq_iff)
qed

text \<open>
  What a role gives: without a STIG, and when the inclusions below the role are well founded,
  \<open>roles_for_role\<close> returns (within a recursion one deeper than the rank of the role) exactly
  the known roles reachable from it by inclusion, each once.
\<close>

theorem roles_for_role_closure:
  assumes "ranked_from table rank role" and "Suc (rank role) < fuel" and "map_of table role \<noteq> None"
  shows "\<exists>rs. roles_for_role fuel table role 0 = Inr rs \<and> distinct rs \<and>
    set rs = {r. (role, r) \<in> (includes_rel table)\<^sup>*}"
  using roles_for_role_reachable [OF assms] by (auto simp: Image_def)

theorem roles_for_role_closure_witness:
  "\<exists>rs. roles_for_role 5 demo_table ''B_ADMIN'' 0 = Inr rs \<and> distinct rs \<and>
    set rs = {r. (''B_ADMIN'', r) \<in> (includes_rel demo_table)\<^sup>*}"
  by (rule roles_for_role_closure [OF demo_ranked]) (simp_all add: demo_rank_def demo_table_def)

text \<open>
  Who may use a method: after any sequence of registrations, \<open>roles_for_method\<close> lists in
  sorted order exactly the roles from which a role registered for the method can be reached
  by inclusion.
\<close>

theorem roles_for_method_closure:
  assumes "registered table m" and "dict_ok table"
  shows "sorted (roles_for_method m name) \<and>
    set (roles_for_method m name) =
      {r. \<exists>g \<in> set (dict_get (resources (methods m)) name []). (r, g) \<in> (includes_rel table)\<^sup>*}"
proof -
  from registry.reach_inv [OF assms(1)] have inv: "role_manager_inv table m" .
  then have t: "rm_roles (methods m) = table" by (simp add: role_manager_inv_def)
  have "\<forall>g \<in> set (dict_get (resources (methods m)) name []). map_of table g \<noteq> None"
    using granted_known [OF inv] by (auto simp: granted_to_def)
  with roles_for_resource_set [of "methods m"] t assms(2) show ?thesis
    by (simp add: roles_for_method_def) (simp add: roles_for_resource_def)
qed

theorem roles_for_method_closure_witness:
  "sorted (roles_for_method demo_manager ''a.create'') \<and>
    set (roles_for_method demo_manager ''a.create'') =
      {r. \<exists>g \<in> set (dict_get (resources (methods demo_manager)) ''a.create'' []).
         (r, g) \<in> (includes_rel demo_table)\<^sup>*}"
  by (rule roles_for_method_closure [OF demo_registered]) (simp add: demo_table_def)



text \<open>
  Under a STIG, every role that comes with another one carries a flag of the enabled STIG:
  no inclusion and no full administrator reaches a role the STIG forbids.
\<close>

theorem stig_restricts_included_roles:
  assumes "roles_for_role fuel table role enabled_stig = Inr rs" and "enabled_stig \<noteq> 0"
    and "r \<in> set rs" and "r \<noteq> role"
  shows "\<exists>ro s. map_of table r = Some ro \<and> stig ro = Some s \<and> s AND enabled_stig \<noteq> 0"
  using roles_for_role_stig [OF assms]
  by (auto simp: role_stig_check_def dict_index_def bindE_eq_Inr_iff split: option.splits)

theorem stig_restricts_included_roles_witness:
  "\<exists>ro s. map_of demo_table ''A_READ'' = Some ro \<and> stig ro = Some s \<and> s AND GPOS \<noteq> 0"
proof (rule stig_restricts_included_roles)
  show "roles_for_role (Suc (Suc (Suc 0))) demo_table ''B_ADMIN'' GPOS =
      Inr [''B_ADMIN'', ''A_WRITE'', ''A_READ'']"
    by (simp add: demo_table_def Role_def role_stig_check_def dict_index_def GPOS_def)
qed (simp_all add: GPOS_def)

text \<open>
  When the registration of the services at start-up succeeds, every service with a role
  prefix has its read role on \<open>config\<close>, \<open>get_instance\<close> and \<open>query\<close>, its write
  role on \<open>create\<close> and \<open>update\<close>, and on \<open>delete\<close> the delete role when it asks
  for a separate one, the write role otherwise; later registrations never revoke them.
\<close>

theorem services_grant_prefix_roles:
  assumes "register_services svcs m = (Inr (), m')" and "svc \<in> set svcs" and "role_prefix svc = Some pre"
  shows "pre @ ''_READ'' \<in> granted_to (methods m') (namespace svc @ ''.config'') \<and>
    pre @ ''_READ'' \<in> granted_to (methods m') (namespace svc @ ''.get_instance'') \<and>
    pre @ ''_READ'' \<in> granted_to (methods m') (namespace svc @ ''.query'') \<and>
    pre @ ''_WRITE'' \<in> granted_to (methods m') (namespace svc @ ''.create'') \<and>
    pre @ ''_WRITE'' \<in> granted_to (methods m') (namespace svc @ ''.update'') \<and>
    pre @ (if role_separate_delete svc then ''_DELETE'' else ''_WRITE'')
      \<in> granted_to (methods m') (namespace svc @ ''.delete'')"
proof -
  have ops: "c \<in> set (concat (map service_ops svcs))" if "c \<in> set (crud_ops svc)" for c
    using that assms(2) by (auto simp: service_ops_def)
  note run = run_seq_grants [OF assms(1) [unfolded register_services_def] ops]
  have rd: "pre @ ''_READ'' \<in> granted_to (methods m') (namespace svc @ s)"
    if "s \<in> {''.config'', ''.get_instance'', ''.query''}" for s
    using run [of "AddRolesToMethod (namespace svc @ s) [pre @ ''_READ'']"] that assms(3)
    by (auto simp: crud_ops_def Let_def)
  have wr: "pre @ ''_WRITE'' \<in> granted_to (methods m') (namespace svc @ s)"
    if "s \<in> {''.create'', ''.update''}" for s
    using run [of "RegisterMethod (namespace svc @ s) [pre @ ''_WRITE''] False"] that assms(3)
    by (auto simp: crud_ops_def Let_def)
  have dl: "pre @ (if role_separate_delete svc then ''_DELETE'' else ''_WRITE'')
      \<in> granted_to (methods m') (namespace svc @ ''.delete'')"
    using run [of "RegisterMethod (namespace svc @ ''.delete'')
        [pre @ (if role_separate_delete svc then ''_DELETE'' else ''_WRITE'')] False"] assms(3)
    by (auto simp: crud_ops_def Let_def)
  from rd wr dl show ?thesis by simp
qed

theorem services_grant_prefix_roles_witness:
  "''A'' @ ''_READ'' \<in> granted_to (methods demo_manager) (namespace demo_service @ ''.config'') \<and>
    ''A'' @ ''_READ'' \<in> granted_to (methods demo_manager) (namespace demo_service @ ''.get_instance'') \<and>
    ''A'' @ ''_READ'' \<in> granted_to (methods demo_manager) (namespace demo_service @ ''.query'') \<and>
    ''A'' @ ''_WRITE'' \<in> granted_to (methods demo_manager) (namespace demo_service @ ''.create'') \<and>
    ''A'' @ ''_WRITE'' \<in> granted_to (methods demo_manager) (namespace demo_service @ ''.update'') \<and>
    ''A'' @ (if role_separate_delete demo_service then ''_DELETE'' else ''_WRITE'')
      \<in> granted_to (methods demo_manager) (namespace demo_service @ ''.delete'')"
  by (rule services_grant_prefix_roles [OF demo_register]) (simp_all add: demo_service_def)

end
