(* ===== verification/RoleTable.thy ===== *)
theory RoleTable
  imports RolesProofs
begin

text \<open>
  Facts on the table of roles the system ships (\<open>ROLES\<close> of \<open>role.py\<close>), checked
  entry by entry: its names are distinct, and apart from one role that includes itself its
  inclusions are well founded, with a depth of at most six.
\<close>

section \<open>The role table of the system\<close>

lemmas ROLES_defs = ROLES_def ROLES_platform_def ROLES_data_def

lemma dict_ok_ROLES: "dict_ok ROLES"
  by (simp add: ROLES_defs)

text \<open>
  The depth of a role in the table: the roles that include roles which include others are
  listed, the rest are read roles without, and other roles with read roles below them.
\<close>

definition deep_roles :: "(string \<times> nat) list" where
  "deep_roles = [(''ALERT_READ'', 1), (''VM_DEVICE_READ'', 1), (''APPS_READ'', 1), (''POOL_READ'', 1),
     (''SHARING_ISCSI_READ'', 1), (''SHARING_READ'', 2), (''READONLY_ADMIN'', 3), (''ALERT_WRITE'', 4),
     (''VM_DEVICE_WRITE'', 4), (''APPS_WRITE'', 4), (''POOL_WRITE'', 4), (''SHARING_ISCSI_WRITE'', 4),
     (''REPLICATION_TASK_WRITE_PULL'', 4), (''FILESYSTEM_FULL_CONTROL'', 4), (''REPLICATION_ADMIN'', 4),
     (''SHARING_WRITE'', 5), (''SHARING_ADMIN'', 6)]"

definition role_depth :: "string \<Rightarrow> nat" where
  "role_depth r = dict_get deep_roles r (if endswith r ''_READ'' then 0 else 3)"

definition entry_ranked :: "string \<times> role \<Rightarrow> bool" where
  "entry_ranked e \<longleftrightarrow> fst e = ''PRIVILEGE_WRITE'' \<or>
     list_all (\<lambda>c. c \<noteq> ''PRIVILEGE_WRITE'' \<and> role_depth c < role_depth (fst e)) (role_includes (snd e))"

lemma entry_ranked_iff [simp]:
  "entry_ranked (r, (Role cs)\<lparr>builtin := b\<rparr>) = entry_ranked (r, Role cs)"
  "entry_ranked (r, (Role cs)\<lparr>stig := s\<rparr>) = entry_ranked (r, Role cs)"
  "entry_ranked (r, (Role cs)\<lparr>full_admin := a, builtin := b\<rparr>) = entry_ranked (r, Role cs)"
  "entry_ranked (r, Role []) = True"
  "entry_ranked (r, Role (c # cs)) \<longleftrightarrow> r = ''PRIVILEGE_WRITE'' \<or>
     c \<noteq> ''PRIVILEGE_WRITE'' \<and> role_depth c < role_depth r \<and> entry_ranked (r, Role cs)"
  by (auto simp: entry_ranked_def Role_def)

lemma ROLES_platform_ranked: "list_all entry_ranked ROLES_platform"
  by (simp add: ROLES_platform_def) (simp add: role_depth_def deep_roles_def suffix_def)

lemma ROLES_data_ranked: "list_all entry_ranked ROLES_data"
  by (simp add: ROLES_data_def) (simp add: role_depth_def deep_roles_def suffix_def)

lemma deep_roles_read: "list_all (\<lambda>(k, d). endswith k ''_READ'' \<longrightarrow> d < 3) deep_roles"
  by (simp add: deep_roles_def suffix_def)

lemma read_role_depth: "endswith r ''_READ'' \<Longrightarrow> role_depth r < 3"
  using deep_roles_read
  by (auto simp: role_depth_def dict_get_def list_all_iff dest!: map_of_SomeD split: option.splits)

lemma ROLES_entry_ranked:
  assumes "e \<in> set ROLES" shows "entry_ranked e"
proof -
  from assms consider "e \<in> set (ROLES_platform @ ROLES_data)"
    | "e = (''READONLY_ADMIN'', (Role (filter (\<lambda>r. endswith r ''_READ'')
          (map fst (ROLES_platform @ ROLES_data))))\<lparr>builtin := False\<rparr>)"
    unfolding ROLES_def Let_def by auto
  then show ?thesis
  proof cases
    case 1
    with ROLES_platform_ranked ROLES_data_ranked show ?thesis by (auto simp: list_all_iff)
  next
    case 2
    have "c \<noteq> ''PRIVILEGE_WRITE'' \<and> role_depth c < role_depth ''READONLY_ADMIN''"
      if "endswith c ''_READ''" for c
      using read_role_depth [OF that] that by (auto simp: role_depth_def deep_roles_def suffix_def)
    with 2 show ?thesis by (auto simp: entry_ranked_def Role_def list_all_iff)
  qed
qed

lemma ROLES_edge:
  assumes "(r, c) \<in> includes_rel ROLES" and "r \<noteq> ''PRIVILEGE_WRITE''"
  shows "c \<noteq> ''PRIVILEGE_WRITE'' \<and> role_depth c < role_depth r"
  using assms by (auto simp: includes_rel_def entry_ranked_def list_all_iff
      dest!: map_of_SomeD ROLES_entry_ranked)

lemma ROLES_ranked_from:
  assumes "role \<noteq> ''PRIVILEGE_WRITE''"
  shows "ranked_from ROLES role_depth role"
proof -
  have "r \<noteq> ''PRIVILEGE_WRITE''" if "(role, r) \<in> (includes_rel ROLES)\<^sup>*" for r
    using that assms by (induction rule: rtrancl_induct) (auto dest: ROLES_edge)
  then show ?thesis using ROLES_edge by (auto simp: ranked_from_def)
qed

lemma deep_roles_bound: "list_all (\<lambda>(k, d). d \<le> 6) deep_roles"
  by (simp add: deep_roles_def)

lemma role_depth_bound: "role_depth r \<le> 6"
  using deep_roles_bound
  by (auto simp: role_depth_def dict_get_def list_all_iff dest!: map_of_SomeD split: option.splits)

text \<open>Read roles include read roles only, and none is a full administrator.\<close>

definition entry_read_closed :: "string \<times> role \<Rightarrow> bool" where
  "entry_read_closed e \<longleftrightarrow> endswith (fst e) ''_READ'' \<longrightarrow>
     \<not> full_admin (snd e) \<and> list_all (\<lambda>c. endswith c ''_READ'') (role_includes (snd e))"

lemma ROLES_read_closed: "list_all entry_read_closed ROLES"
  by (simp add: ROLES_def ROLES_platform_def ROLES_data_def Role_def entry_read_closed_def suffix_def)

lemma read_roles_stay_read:
  assumes "roles_for_role fuel ROLES role st = Inr rs" and "endswith role ''_READ''" and "r \<in> set rs"
  shows "endswith r ''_READ''"
proof (rule roles_for_role_closed [where P = "\<lambda>r. endswith r ''_READ''", OF _ assms])
  fix r ro
  assume "map_of ROLES r = Some ro" and "endswith r ''_READ''"
  with ROLES_read_closed show "\<not> full_admin ro \<and> (\<forall>c \<in> set (role_includes ro). endswith c ''_READ'')"
    by (auto simp: list_all_iff entry_read_closed_def dest!: map_of_SomeD)
qed

lemma PRIVILEGE_WRITE_entry: "map_of ROLES ''PRIVILEGE_WRITE'' = Some (Role [''PRIVILEGE_WRITE''])"
  by (simp add: ROLES_defs)

lemma VM_WRITE_entry: "map_of ROLES ''VM_WRITE'' = Some ((Role [''VM_READ''])\<lparr>stig := None\<rparr>)"
  by (simp add: ROLES_defs)

lemma VM_READ_entry: "map_of ROLES ''VM_READ'' = Some (Role [])"
  by (simp add: ROLES_defs)

lemma READONLY_ADMIN_known: "map_of ROLES ''READONLY_ADMIN'' \<noteq> None"
  by (simp add: ROLES_def map_of_eq_None_iff)

section \<open>Properties of the shipped table\<close>

text \<open>
  C25. Every shipped role other than \<open>PRIVILEGE_WRITE\<close> resolves within eight nested calls, to
  the roles reachable from it by inclusion.
\<close>

theorem shipped_roles_resolve:
  assumes "map_of ROLES role \<noteq> None" and "role \<noteq> ''PRIVILEGE_WRITE''" and "8 \<le> fuel"
  shows "\<exists>rs. roles_for_role fuel ROLES role 0 = Inr rs \<and> distinct rs \<and>
    set rs = {r. (role, r) \<in> (includes_rel ROLES)\<^sup>*}"
proof -
  have "Suc (role_depth role) < fuel" using role_depth_bound [of role] assms(3) by simp
  from roles_for_role_reachable [OF ROLES_ranked_from [OF assms(2)] this assms(1)] show ?thesis
    by (auto simp: Image_def)
qed

theorem shipped_roles_resolve_witness:
  "\<exists>rs. roles_for_role 8 ROLES ''READONLY_ADMIN'' 0 = Inr rs \<and> distinct rs \<and>
    set rs = {r. (''READONLY_ADMIN'', r) \<in> (includes_rel ROLES)\<^sup>*}"
  by (rule shipped_roles_resolve [OF READONLY_ADMIN_known]) simp_all

text \<open>
  \<open>PRIVILEGE_WRITE\<close> includes itself instead of \<open>PRIVILEGE_READ\<close>: resolving it
  exceeds every recursion limit, without a STIG and under the GPOS one, so composing a
  privilege that carries it fails.
\<close>

theorem privilege_write_never_resolves:
  "roles_for_role fuel ROLES ''PRIVILEGE_WRITE'' 0 = Inl RecursionError \<and>
   roles_for_role fuel ROLES ''PRIVILEGE_WRITE'' GPOS = Inl RecursionError"
proof (induction fuel)
  case (Suc fuel)
  moreover have "role_stig_check ROLES ''PRIVILEGE_WRITE'' GPOS = Inr True"
    by (simp add: role_stig_check_def dict_index_def PRIVILEGE_WRITE_entry) (simp add: Role_def GPOS_def)
  ultimately show ?case
    using PRIVILEGE_WRITE_entry by (simp add: Role_def GPOS_def)
qed simp

text \<open>
  Read roles stay read only: whatever the services register on top of the shipped table,
  the allow list of a role whose name ends in \<open>_READ\<close> contains no create, update or delete
  method, with or without a STIG.
\<close>

theorem read_roles_never_write:
  assumes "registered ROLES m" and "endswith role ''_READ''"
    and "allowlist_for_role fuel m role enabled_stig = Inr items" and "i \<in> set items"
  shows "\<not> blacklisted (a_resource i)"
proof (cases "i = ALLOW_LIST_FULL_ADMIN")
  case True
  then show ?thesis
    by (simp add: ALLOW_LIST_FULL_ADMIN_def blacklisted_def READ_RESOURCE_BLACKLIST_def suffix_def)
next
  case False
  from registry.reach_inv [OF assms(1)] have inv: "role_manager_inv ROLES m" .
  with assms(3,4) False obtain rs r where rs: "roles_for_role fuel ROLES role enabled_stig = Inr rs"
    "r \<in> set rs" "i \<in> set (role_allow_items m r)"
    by (auto simp: allowlist_for_role_def role_manager_inv_def bindE_eq_Inr_iff split: if_splits)
  then have "endswith r ''_READ''" using read_roles_stay_read assms(2) by blast
  with rs(3) inv show ?thesis
    using registry_read_items by (auto simp: role_allow_items_def role_manager_inv_def)
qed

definition vm_manager :: role_manager where
  "vm_manager = snd (run_seq role_op_run [RegisterMethod ''vm.query'' [''VM_READ''] False] (new_role_manager ROLES))"

theorem read_roles_never_write_witness:
  "\<not> blacklisted (a_resource \<lparr>a_method = ''CALL'', a_resource = ''vm.query''\<rparr>)"
proof (rule read_roles_never_write)
  show "registered ROLES vm_manager"
    unfolding vm_manager_def by (rule run_seq_reach) simp
  have "check_role ROLES ''vm.query'' ''VM_READ'' = Inr ()"
    by (simp add: check_role_def VM_READ_entry blacklisted_def READ_RESOURCE_BLACKLIST_def suffix_def)
  then have "role_allow_items vm_manager ''VM_READ'' = [\<lparr>a_method = ''CALL'', a_resource = ''vm.query''\<rparr>]"
    and "roles vm_manager = ROLES"
    by (simp_all add: vm_manager_def register_method_def register_resource_def add_roles_to_resource_def
        new_role_manager_def new_resource_manager_def role_allow_items_def append_allow_def)
  then show "allowlist_for_role (Suc 0) vm_manager ''VM_READ'' 0 = Inr [\<lparr>a_method = ''CALL'', a_resource = ''vm.query''\<rparr>]"
    by (simp add: allowlist_for_role_def VM_READ_entry) (simp add: Role_def)
qed (simp_all add: suffix_def)

text \<open>
  The STIG filter does not look at the role that was asked for: \<open>VM_WRITE\<close>, which no
  STIG allows, is still given (with its read role) under the GPOS STIG when it is assigned directly.
\<close>

theorem stig_keeps_requested_role:
  "roles_for_role (Suc (Suc fuel)) ROLES ''VM_WRITE'' GPOS = Inr [''VM_WRITE'', ''VM_READ''] \<and>
   role_stig_check ROLES ''VM_WRITE'' GPOS = Inr False"
proof -
  have rd: "role_stig_check ROLES ''VM_READ'' GPOS = Inr True"
    by (simp add: role_stig_check_def dict_index_def VM_READ_entry) (simp add: Role_def GPOS_def)
  have wr: "role_stig_check ROLES ''VM_WRITE'' GPOS = Inr False"
    by (simp add: role_stig_check_def dict_index_def VM_WRITE_entry)
  have "roles_for_role (Suc fuel) ROLES ''VM_READ'' GPOS = Inr [''VM_READ'']"
    using VM_READ_entry by (simp add: Role_def GPOS_def)
  then have "roles_for_role (Suc (Suc fuel)) ROLES ''VM_WRITE'' GPOS = Inr [''VM_WRITE'', ''VM_READ'']"
    using VM_WRITE_entry rd by (subst roles_for_role.simps) (simp add: Role_def GPOS_def)
  with wr show ?thesis by simp
qed

end
