(* ===== verification/Errors.thy ===== *)
theory Errors
  imports Prelude
begin

text \<open>
  The collected validation errors of \<open>service_exception.py\<close>: a list of attribute, message
  and error number, which \<open>check\<close> raises when it is not empty. Messages keep their constant
  part.
\<close>

type_synonym validation_error = "string \<times> string \<times> nat"

definition verrors_add :: "string \<Rightarrow> string \<Rightarrow> validation_error list \<Rightarrow> validation_error list" where
  "verrors_add attribute errmsg errors = errors @ [(attribute, errmsg, EINVAL)]"

definition verrors_add_errno ::
  "string \<Rightarrow> string \<Rightarrow> nat \<Rightarrow> validation_error list \<Rightarrow> validation_error list" where
  "verrors_add_errno attribute errmsg errno errors = errors @ [(attribute, errmsg, errno)]"

definition verrors_add_child ::
  "string \<Rightarrow> validation_error list \<Rightarrow> validation_error list \<Rightarrow> validation_error list" where
  "verrors_add_child attribute child errors =
     fold (\<lambda>(a, m, n). verrors_add_errno (attribute @ ''.'' @ a) m n) child errors"

definition verrors_extend :: "validation_error list \<Rightarrow> validation_error list \<Rightarrow> validation_error list" where
  "verrors_extend more errors = fold (\<lambda>(a, m, n). verrors_add_errno a m n) more errors"

definition verrors_check :: "validation_error list \<Rightarrow> exn + unit" where
  "verrors_check errors = (if errors = [] then Inr () else Inl (ValidationErrors errors))"

definition verrors_contains :: "string \<Rightarrow> validation_error list \<Rightarrow> bool" where
  "verrors_contains item errors \<longleftrightarrow> item \<in> set (map fst errors)"

lemma verrors_check_Inr [simp]: "verrors_check errors = Inr u \<longleftrightarrow> errors = []"
  by (simp add: verrors_check_def)

lemma verrors_add_not_Nil [simp]: "verrors_add a m errors \<noteq> []"
  by (simp add: verrors_add_def)

lemma verrors_extend_append: "verrors_extend more errors = errors @ more"
  by (induction more arbitrary: errors) (auto simp: verrors_extend_def verrors_add_errno_def)

lemma verrors_add_child_append:
  "verrors_add_child attribute child errors =
     errors @ map (\<lambda>(a, m, n). (attribute @ ''.'' @ a, m, n)) child"
  by (induction child arbitrary: errors) (auto simp: verrors_add_child_def verrors_add_errno_def)

lemma verrors_contains_simps [simp]:
  "verrors_contains a (verrors_add b m errors) \<longleftrightarrow> a = b \<or> verrors_contains a errors"
  "verrors_contains a (verrors_extend more errors) \<longleftrightarrow> verrors_contains a more \<or> verrors_contains a errors"
  by (auto simp: verrors_contains_def verrors_add_def verrors_extend_append)

text \<open>
  \<open>for i, x in enumerate(xs): if not ok(x): verrors.add(name i, msg)\<close>: one error per
  rejected element, in order, so no error is added exactly when all elements pass.
\<close>

fun verrors_each ::
  "(nat \<Rightarrow> string) \<Rightarrow> string \<Rightarrow> ('a \<Rightarrow> bool) \<Rightarrow> nat \<Rightarrow> 'a list \<Rightarrow> validation_error list \<Rightarrow> validation_error list" where
  "verrors_each name msg ok i [] errors = errors"
| "verrors_each name msg ok i (x # xs) errors =
     verrors_each name msg ok (Suc i) xs (if ok x then errors else verrors_add (name i) msg errors)"

lemma verrors_each_Nil: "verrors_each name msg ok i xs errors = [] \<longleftrightarrow> errors = [] \<and> list_all ok xs"
  by (induction xs arbitrary: i errors) auto

end
