(* ===== verification/Privilege.thy ===== *)
theory Privilege
  imports RolesProofs Errors
begin

text \<open>
  Privileges and allow lists (\<open>utils/privilege.py\<close>, \<open>utils/allowlist.py\<close>,
  \<open>plugins/account_/privilege.py\<close>): matching a method against an allow list, composing the
  privileges of a user from roles, and the privilege service with its protected built-in
  privileges. \<open>fnmatch\<close> is the standard library's; its pattern language is modelled here.
\<close>

section \<open>Shell patterns\<close>

datatype glob = Star | AnyChar | Lit char | Class bool "(char \<times> char) list"

text \<open>The characters of a bracket expression, as ranges.\<close>

fun class_ranges :: "string \<Rightarrow> (char \<times> char) list" where
  "class_ranges (a # b # c # cs) =
     (if b = CHR ''-'' then (a, c) # class_ranges cs else (a, a) # class_ranges (b # c # cs))"
| "class_ranges [a, b] = [(a, a), (b, b)]"
| "class_ranges [a] = [(a, a)]"
| "class_ranges [] = []"

text \<open>
  The body of a bracket expression and the rest of the pattern: a leading \<open>!\<close> and a closing
  bracket right after it belong to the body; \<open>None\<close> when no bracket closes it.
\<close>

definition split_class :: "string \<Rightarrow> (bool \<times> string \<times> string) option" where
  "split_class s =
     (let (neg, s1) = (case s of c # r \<Rightarrow> if c = CHR ''!'' then (True, r) else (False, s) | [] \<Rightarrow> (False, s));
          (pre, s2) = (case s1 of c # r \<Rightarrow> if c = CHR '']'' then ([c], r) else ([], s1) | [] \<Rightarrow> ([], s1))
      in case str_partition (CHR '']'') s2 of (l, found, r) \<Rightarrow>
           if found then Some (neg, pre @ l, r) else None)"

lemma split_class_shorter: "split_class s = Some (neg, body, r) \<Longrightarrow> length r < length s"
  by (auto simp: split_class_def Let_def split: list.splits if_splits prod.splits
      dest!: str_partition_shorter)

function glob_tokens :: "string \<Rightarrow> glob list" where
  "glob_tokens [] = []"
| "glob_tokens (c # s) =
     (if c = CHR ''*'' then Star # glob_tokens s
      else if c = CHR ''?'' then AnyChar # glob_tokens s
      else if c = CHR ''['' then
        (case split_class s of
           None \<Rightarrow> Lit c # glob_tokens s
         | Some (neg, body, r) \<Rightarrow> Class neg (class_ranges body) # glob_tokens r)
      else Lit c # glob_tokens s)"
  by pat_completeness auto
termination
  by (relation "measure length") (auto dest: split_class_shorter)

fun glob_char :: "glob \<Rightarrow> char \<Rightarrow> bool" where
  "glob_char Star c = True"
| "glob_char AnyChar c = True"
| "glob_char (Lit d) c = (c = d)"
| "glob_char (Class neg rs) c = (list_ex (\<lambda>(a, b). a \<le> c \<and> c \<le> b) rs \<noteq> neg)"

fun glob_match :: "glob list \<Rightarrow> string \<Rightarrow> bool" where
  "glob_match [] s = (s = [])"
| "glob_match (Star # p) [] = glob_match p []"
| "glob_match (Star # p) (c # r) = (glob_match p (c # r) \<or> glob_match (Star # p) r)"
| "glob_match (g # p) [] = False"
| "glob_match (g # p) (c # r) = (glob_char g c \<and> glob_match p r)"

definition fnmatch :: "string \<Rightarrow> string \<Rightarrow> bool" where
  "fnmatch pattern s = glob_match (glob_tokens pattern) s"

section \<open>Allow lists\<close>

record allowlist =
  exact :: "string list dict"
  al_full_admin :: bool
  patterns :: "string list dict"

definition add_entry :: "allow_item \<Rightarrow> allowlist \<Rightarrow> allowlist" where
  "add_entry entry al =
     (let m = a_method entry; r = a_resource entry in
      if CHR ''*'' \<in> set r
      then al\<lparr>patterns := AList.update m (dict_get (patterns al) m [] @ [r]) (patterns al)\<rparr>
      else al\<lparr>exact := AList.update m (List.insert r (dict_get (exact al) m [])) (exact al)\<rparr>)"

definition Allowlist :: "allow_item list \<Rightarrow> allowlist" where
  "Allowlist items =
     fold add_entry items
       \<lparr>exact = [], al_full_admin = (ALLOW_LIST_FULL_ADMIN \<in> set items), patterns = []\<rparr>"

definition authorize_internal :: "allowlist \<Rightarrow> string \<Rightarrow> string \<Rightarrow> bool" where
  "authorize_internal al method resource \<longleftrightarrow>
     (case map_of (exact al) method of None \<Rightarrow> False | Some ex \<Rightarrow> resource \<in> set ex) \<or>
     (case map_of (patterns al) method of None \<Rightarrow> False | Some ps \<Rightarrow> list_ex (\<lambda>p. fnmatch p resource) ps)"

definition al_authorize :: "allowlist \<Rightarrow> string \<Rightarrow> string \<Rightarrow> bool" where
  "al_authorize al method resource \<longleftrightarrow>
     authorize_internal al ''*'' resource \<or> authorize_internal al method resource"

section \<open>Privileges\<close>

datatype group_id = GID int | SID string

record privilege =
  p_id :: int
  builtin_name :: "string option"
  p_name :: string
  local_groups :: "int list"
  ds_groups :: "group_id list"
  p_roles :: "string list"
  web_shell :: bool

definition privilege_has_webui_access :: "role_table \<Rightarrow> privilege \<Rightarrow> exn + bool" where
  "privilege_has_webui_access table p =
     anyE (\<lambda>role. bindE (dict_index table role) (\<lambda>r. Inr (\<not> builtin r))) (p_roles p)"

record composed =
  c_roles :: "string list"
  c_allowlist :: "allow_item list"
  c_web_shell :: bool
  c_webui_access :: bool

definition compose_role :: "nat \<Rightarrow> role_manager \<Rightarrow> nat \<Rightarrow> composed \<Rightarrow> string \<Rightarrow> exn + composed" where
  "compose_role fuel m enabled_stig c role =
     bindE (roles_for_role fuel (roles m) role enabled_stig) (\<lambda>rs.
     bindE (allowlist_for_role fuel m role enabled_stig) (\<lambda>items.
       Inr (c\<lparr>c_roles := List.union rs (c_roles c), c_allowlist := c_allowlist c @ items\<rparr>)))"

definition compose_one :: "nat \<Rightarrow> role_manager \<Rightarrow> nat \<Rightarrow> composed \<Rightarrow> privilege \<Rightarrow> exn + composed" where
  "compose_one fuel m enabled_stig c p =
     bindE (foldE (compose_role fuel m enabled_stig) c (p_roles p)) (\<lambda>c'.
     bindE (privilege_has_webui_access (roles m) p) (\<lambda>w.
       Inr (c'\<lparr>c_web_shell := c_web_shell c' \<or> web_shell p, c_webui_access := c_webui_access c' \<or> w\<rparr>)))"

definition compose_privilege :: "nat \<Rightarrow> role_manager \<Rightarrow> bool \<Rightarrow> privilege list \<Rightarrow> exn + composed" where
  "compose_privilege fuel m enable_gpos_stig ps =
     (let enabled_stig = system_security_config_to_stig_type enable_gpos_stig in
      bindE (foldE (compose_one fuel m enabled_stig)
               \<lparr>c_roles = [], c_allowlist = [], c_web_shell = False, c_webui_access = False\<rparr> ps)
        (\<lambda>c. Inr (if enabled_stig \<noteq> 0 then c\<lparr>c_web_shell := False\<rparr> else c)))"

definition full_privilege :: composed where
  "full_privilege = \<lparr>c_roles = [''FULL_ADMIN''], c_allowlist = [ALLOW_LIST_FULL_ADMIN],
     c_web_shell = True, c_webui_access = True\<rparr>"

text \<open>\<open>groups_key\<close> selects the local or the directory service groups of a privilege.\<close>

definition privileges_group_mapping ::
  "(privilege \<Rightarrow> group_id list) \<Rightarrow> privilege list \<Rightarrow> group_id list \<Rightarrow> string list \<times> privilege list" where
  "privileges_group_mapping groups_key ps group_ids =
     (let out = filter (\<lambda>p. list_ex (\<lambda>g. g \<in> set group_ids) (groups_key p)) ps
      in (remdups (concat (map p_roles out)), out))"

definition local_key :: "privilege \<Rightarrow> group_id list" where
  "local_key p = map GID (local_groups p)"

text \<open>
  \<open>mapped_sids\<close> is the answer of \<open>idmap.convert_unixids\<close>, \<open>None\<close> when it raises.
\<close>

definition privileges_for_groups ::
  "privilege list \<Rightarrow> bool \<Rightarrow> int list \<Rightarrow> string list option \<Rightarrow> privilege list" where
  "privileges_for_groups ps use_ds gids mapped_sids =
     (if use_ds
      then snd (privileges_group_mapping ds_groups ps
             (map GID gids @ (case mapped_sids of None \<Rightarrow> [] | Some sids \<Rightarrow> map SID sids)))
      else snd (privileges_group_mapping local_key ps (map GID gids)))"

section \<open>The privilege service\<close>

text \<open>
  What the service asks other services: the local groups by id, whether a directory service
  group exists, and whether a group has a user with password login other than the excluded ones.
\<close>

record privilege_env =
  group_local :: "int \<Rightarrow> bool option"
  ds_group_exists :: "group_id \<Rightarrow> bool"
  has_password_enabled_user :: "int list \<Rightarrow> int list \<Rightarrow> bool"

definition BUILTIN_ADMINISTRATORS :: int where "BUILTIN_ADMINISTRATORS = 544"

definition LOCAL_ADMINISTRATOR :: string where "LOCAL_ADMINISTRATOR = ''LOCAL_ADMINISTRATOR''"
definition READONLY_ADMINISTRATOR :: string where "READONLY_ADMINISTRATOR = ''READONLY_ADMINISTRATOR''"
definition SHARING_ADMINISTRATOR :: string where "SHARING_ADMINISTRATOR = ''SHARING_ADMINISTRATOR''"

definition BuiltinPrivileges :: "string list" where
  "BuiltinPrivileges = [LOCAL_ADMINISTRATOR, READONLY_ADMINISTRATOR, SHARING_ADMINISTRATOR]"

definition local_groups_of :: "privilege_env \<Rightarrow> bool \<Rightarrow> int list \<Rightarrow> (int \<times> bool) list" where
  "local_groups_of env include_nonexistent gids =
     concat (map (\<lambda>gid. case group_local env gid of
         Some True \<Rightarrow> [(gid, True)]
       | Some False \<Rightarrow> []
       | None \<Rightarrow> if include_nonexistent then [(gid, False)] else []) gids)"

text \<open>The data of a create call, and of an update, in which every field may be missing.\<close>

record privilege_data =
  d_name :: "string option"
  d_local_groups :: "int list option"
  d_ds_groups :: "group_id list option"
  d_roles :: "string list option"
  d_web_shell :: "bool option"

definition update_with :: "privilege_data \<Rightarrow> privilege \<Rightarrow> privilege" where
  "update_with data p =
     p\<lparr>p_name := case_option (p_name p) id (d_name data),
       local_groups := case_option (local_groups p) id (d_local_groups data),
       ds_groups := case_option (ds_groups p) id (d_ds_groups data),
       p_roles := case_option (p_roles p) id (d_roles data),
       web_shell := case_option (web_shell p) id (d_web_shell data)\<rparr>"

definition ensure_unique_name ::
  "string \<Rightarrow> privilege list \<Rightarrow> string \<Rightarrow> int option \<Rightarrow> validation_error list \<Rightarrow> validation_error list" where
  "ensure_unique_name schema rows name idn errors =
     (if list_ex (\<lambda>p. p_name p = name \<and> Some (p_id p) \<noteq> idn) rows
      then verrors_add (schema @ ''.name'') ''Object with this name already exists'' errors else errors)"

definition privilege_validate ::
  "privilege_env \<Rightarrow> role_table \<Rightarrow> string \<Rightarrow> privilege list \<Rightarrow> privilege \<Rightarrow> int option \<Rightarrow> exn + unit" where
  "privilege_validate env table schema rows p idn =
     verrors_check
       (verrors_each (\<lambda>i. schema @ ''.roles.'' @ str_of_nat i) ''Invalid role''
          (\<lambda>r. map_of table r \<noteq> None) 0 (p_roles p)
       (verrors_each (\<lambda>i. schema @ ''.ds_groups.'' @ str_of_nat i) ''directory Service group does not exist.''
          (ds_group_exists env) 0 (ds_groups p)
       (verrors_each (\<lambda>i. schema @ ''.local_groups.'' @ str_of_nat i) ''local group does not exist.''
          (\<lambda>g. local_groups_of env False [g] \<noteq> []) 0 (local_groups p)
       (ensure_unique_name schema rows (p_name p) idn []))))"

text \<open>The rows of the table \<open>account.privilege\<close>; a new row gets the next number, as the store's row ids do.\<close>

definition fresh_id :: "privilege list \<Rightarrow> int" where
  "fresh_id rows = fold max (map p_id rows) 0 + 1"

definition get_instance :: "privilege list \<Rightarrow> int \<Rightarrow> exn + privilege" where
  "get_instance rows idn =
     (case filter (\<lambda>p. p_id p = idn) rows of [] \<Rightarrow> Inl InstanceNotFound | p # _ \<Rightarrow> Inr p)"

definition privilege_create ::
  "privilege_env \<Rightarrow> role_table \<Rightarrow> privilege_data \<Rightarrow> privilege list \<Rightarrow> privilege list op_result" where
  "privilege_create env table data rows =
     (let p = update_with data \<lparr>p_id = fresh_id rows, builtin_name = None, p_name = [], local_groups = [],
                ds_groups = [], p_roles = [], web_shell = False\<rparr>
      in case privilege_validate env table ''privilege_create'' rows p None of
           Inl e \<Rightarrow> (Inl e, rows)
         | Inr _ \<Rightarrow> (Inr (), rows @ [p]))"

definition read_only_errors :: "privilege \<Rightarrow> privilege \<Rightarrow> validation_error list \<Rightarrow> validation_error list" where
  "read_only_errors old new errors =
     (let e1 = (if p_name new \<noteq> p_name old then verrors_add ''privilege_update.name''
                  ''This field is read-only for built-in privileges'' errors else errors)
      in if p_roles new \<noteq> p_roles old then verrors_add ''privilege_update.roles''
           ''This field is read-only for built-in privileges'' e1 else e1)"

definition builtin_errors ::
  "privilege_env \<Rightarrow> privilege \<Rightarrow> privilege \<Rightarrow> exn + validation_error list" where
  "builtin_errors env old new =
     (case builtin_name new of
        None \<Rightarrow> Inr []
      | Some b \<Rightarrow>
          if b = [] then Inr []
          else let e1 = read_only_errors old new [] in
            if b \<notin> set BuiltinPrivileges then Inl (ValueError ''is not a valid BuiltinPrivileges'')
            else if b = LOCAL_ADMINISTRATOR then
              let e2 = (if BUILTIN_ADMINISTRATORS \<notin> set (local_groups new)
                        then verrors_add ''privilege_update.local_groups''
                          ''must be among grantees of the Local Administrator privilege.'' e1 else e1)
              in Inr (if \<not> has_password_enabled_user env (local_groups new) []
                      then verrors_add ''privilege_update.local_groups''
                        ''None of the members of these groups has password login enabled.'' e2 else e2)
            else if b = READONLY_ADMINISTRATOR then
              Inr (if web_shell new then verrors_add ''privilege_update.web_shell''
                     ''Web shell access may not be enabled'' e1 else e1)
            else Inr e1)"

text \<open>
  An update starts from the extended row: the local groups that exist as local groups or do not
  exist at all. \<open>ds_known\<close> is the extension of the directory service groups.
\<close>

definition extended_row :: "privilege_env \<Rightarrow> (group_id list \<Rightarrow> group_id list) \<Rightarrow> privilege \<Rightarrow> privilege" where
  "extended_row env ds_known p =
     p\<lparr>local_groups := map fst (local_groups_of env True (local_groups p)), ds_groups := ds_known (ds_groups p)\<rparr>"

definition privilege_update ::
  "privilege_env \<Rightarrow> role_table \<Rightarrow> (group_id list \<Rightarrow> group_id list) \<Rightarrow> int \<Rightarrow> privilege_data
    \<Rightarrow> privilege list \<Rightarrow> privilege list op_result" where
  "privilege_update env table ds_known idn data rows =
     (case get_instance rows idn of
        Inl e \<Rightarrow> (Inl e, rows)
      | Inr row \<Rightarrow>
          let old = extended_row env ds_known row; new = update_with data old in
          case bindE (builtin_errors env old new) (\<lambda>errors.
               bindE (verrors_check errors) (\<lambda>_.
               privilege_validate env table ''privilege_update'' rows new (Some idn))) of
            Inl e \<Rightarrow> (Inl e, rows)
          | Inr _ \<Rightarrow> (Inr (), map (\<lambda>p. if p_id p = idn then new else p) rows))"

definition privilege_delete :: "int \<Rightarrow> privilege list \<Rightarrow> privilege list op_result" where
  "privilege_delete idn rows =
     (case get_instance rows idn of
        Inl e \<Rightarrow> (Inl e, rows)
      | Inr p \<Rightarrow>
          if builtin_name p \<noteq> None \<and> builtin_name p \<noteq> Some []
          then (Inl (CallError ''Unable to delete built-in privilege'' EPERM), rows)
          else (Inr (), filter (\<lambda>p. p_id p \<noteq> idn) rows))"

definition before_user_deactivation :: "privilege_env \<Rightarrow> int \<Rightarrow> privilege list \<Rightarrow> exn + unit" where
  "before_user_deactivation env user_id rows =
     (if list_all (\<lambda>p. has_password_enabled_user env (local_groups p) [user_id])
           (filter (\<lambda>p. builtin_name p = Some LOCAL_ADMINISTRATOR) rows)
      then Inr () else Inl (CallError ''will have built-in privilege'' EACCES))"

definition before_group_delete :: "int \<Rightarrow> privilege list \<Rightarrow> exn + unit" where
  "before_group_delete gid rows =
     (if list_ex (\<lambda>p. gid \<in> set (local_groups p)) rows
      then Inl (CallError ''This group is used by privilege'' EACCES) else Inr ())"

definition used_local_gids :: "privilege list \<Rightarrow> (int \<times> privilege) list" where
  "used_local_gids rows =
     fold (\<lambda>p gids. fold (\<lambda>gid gids. if map_of gids gid = None then AList.update gid p gids else gids)
             (local_groups p) gids)
       (sort_key p_id rows) []"

end
