(* ===== verification/PrivilegeProofs.thy ===== *)
theory PrivilegeProofs
  imports Privilege
begin

text \<open>
  Correctness of allow lists, of the composition of privileges and of the privilege service.
  The central statement connects the three: what a session may call is decided by the roles of
  its privileges exactly as the role manager lists them for the method.
\<close>

section \<open>Allow lists\<close>

text \<open>What an entry of an allow list permits.\<close>

definition permits :: "allow_item \<Rightarrow> string \<Rightarrow> string \<Rightarrow> bool" where
  "permits i method resource \<longleftrightarrow> a_method i = method \<and>
     (if CHR ''*'' \<in> set (a_resource i) then fnmatch (a_resource i) resource else a_resource i = resource)"

lemma authorize_add_entry:
  "authorize_internal (add_entry i al) method resource \<longleftrightarrow>
     authorize_internal al method resource \<or> permits i method resource"
  by (auto simp: authorize_internal_def add_entry_def permits_def Let_def map_of_update dict_get_def
      split: option.splits)

lemma authorize_fold:
  "authorize_internal (fold add_entry items al) method resource \<longleftrightarrow>
     authorize_internal al method resource \<or> (\<exists>i \<in> set items. permits i method resource)"
  by (induction items arbitrary: al) (auto simp: authorize_add_entry)

lemma authorize_Allowlist:
  "authorize_internal (Allowlist items) method resource \<longleftrightarrow> (\<exists>i \<in> set items. permits i method resource)"
  by (simp add: Allowlist_def authorize_fold) (simp add: authorize_internal_def)

lemma al_full_admin_Allowlist: "al_full_admin (Allowlist items) \<longleftrightarrow> ALLOW_LIST_FULL_ADMIN \<in> set items"
proof -
  have "al_full_admin (fold add_entry xs al) = al_full_admin al" for xs al
    by (induction xs arbitrary: al) (auto simp: add_entry_def Let_def)
  then show ?thesis by (simp add: Allowlist_def)
qed

lemma glob_match_star: "glob_match (Star # p) s \<longleftrightarrow> (\<exists>l r. s = l @ r \<and> glob_match p r)"
proof (induction s)
  case (Cons c s)
  show ?case
  proof
    assume "glob_match (Star # p) (c # s)"
    with Cons show "\<exists>l r. c # s = l @ r \<and> glob_match p r" by (auto) (metis append_Cons)
  next
    assume "\<exists>l r. c # s = l @ r \<and> glob_match p r"
    then obtain l r where lr: "c # s = l @ r" "glob_match p r" by blast
    with Cons show "glob_match (Star # p) (c # s)" by (cases l) auto
  qed
qed simp

text \<open>A pattern that is text, one star, text: the name starts and ends with the texts.\<close>

definition plain :: "string \<Rightarrow> bool" where
  "plain s \<longleftrightarrow> CHR ''*'' \<notin> set s \<and> CHR ''?'' \<notin> set s \<and> CHR ''['' \<notin> set s"

lemma glob_tokens_plain_append: "plain l \<Longrightarrow> glob_tokens (l @ s) = map Lit l @ glob_tokens s"
  by (induction l) (auto simp: plain_def)

lemma glob_match_lits: "glob_match (map Lit l @ p) s \<longleftrightarrow> (\<exists>r. s = l @ r \<and> glob_match p r)"
proof (induction l arbitrary: s)
  case (Cons c l)
  then show ?case by (cases s) auto
qed simp

lemma fnmatch_star:
  assumes "plain l" and "plain r"
  shows "fnmatch (l @ ''*'' @ r) s \<longleftrightarrow> (\<exists>m. s = l @ m @ r)"
proof -
  have "glob_tokens (l @ ''*'' @ r) = map Lit l @ Star # map Lit r"
    using assms glob_tokens_plain_append [of r "[]"] by (simp add: glob_tokens_plain_append)
  moreover have "glob_match (map Lit r) t \<longleftrightarrow> t = r" for t
    using glob_match_lits [of r "[]" t] by simp
  ultimately show ?thesis by (auto simp: fnmatch_def glob_match_lits glob_match_star)
qed

section \<open>Composition of privileges\<close>

lemma roles_for_role_complete:
  "(role, r) \<in> (includes_rel table)\<^sup>* \<Longrightarrow> map_of table r \<noteq> None \<Longrightarrow>
    roles_for_role fuel table role 0 = Inr rs \<Longrightarrow> r \<in> set rs"
proof (induction arbitrary: fuel rs rule: converse_rtrancl_induct)
  case base
  then show ?case by (cases fuel) (auto simp: bindE_eq_Inr_iff split: option.splits)
next
  case (step y z)
  then obtain ro n where ro: "map_of table y = Some ro" "z \<in> set (role_includes ro)" and f: "fuel = Suc n"
    by (cases fuel) (auto simp: includes_rel_def)
  with step.prems obtain yss where yss: "mapE (\<lambda>c. roles_for_role n table c 0) (role_includes ro) = Inr yss"
    and rs: "rs = remdups (y # concat yss)"
    by (auto simp: bindE_eq_Inr_iff)
  from ro(2) obtain i where i: "i < length (role_includes ro)" "role_includes ro ! i = z"
    by (auto simp: in_set_conv_nth)
  with mapE_nth [OF yss i(1)] step.IH step.prems(1) have "r \<in> set (yss ! i)" by simp
  moreover have "yss ! i \<in> set yss" using mapE_length [OF yss] i(1) by simp
  ultimately show ?case using rs by auto
qed

lemma roles_for_role_exact:
  assumes "roles_for_role fuel table role 0 = Inr rs" and "map_of table role \<noteq> None"
  shows "set rs = (includes_rel table)\<^sup>* `` {role}"
proof (intro equalityI subsetI)
  fix r assume "r \<in> (includes_rel table)\<^sup>* `` {role}"
  then have "(role, r) \<in> (includes_rel table)\<^sup>*" by simp
  with assms includes_rel_known show "r \<in> set rs" by (blast intro: roles_for_role_complete)
qed (use roles_for_role_sound [OF assms(1)] in blast)

lemma allowlist_for_role_exact:
  assumes inv: "role_manager_inv table m" and ok: "dict_ok table"
    and items: "allowlist_for_role fuel m role 0 = Inr items"
    and role: "map_of table role = Some ro" "\<not> full_admin ro"
  shows "\<lparr>a_method = ''CALL'', a_resource = name\<rparr> \<in> set items \<longleftrightarrow> role \<in> set (roles_for_method m name)"
proof -
  from inv have t: "roles m = table" "rm_roles (methods m) = table" and reg: "registry_inv (methods m)"
    by (simp_all add: role_manager_inv_def)
  with items role obtain rs where rs: "roles_for_role fuel table role 0 = Inr rs"
    and it: "items = concat (map (role_allow_items m) rs)"
    by (auto simp: allowlist_for_role_def bindE_eq_Inr_iff)
  have "\<lparr>a_method = ''CALL'', a_resource = name\<rparr> \<in> set items \<longleftrightarrow>
      (\<exists>g. (role, g) \<in> (includes_rel table)\<^sup>* \<and> name \<in> allows (methods m) g)"
    using roles_for_role_exact [OF rs] role(1) role_allow_items_call [OF inv] unfolding it by auto
  also have "\<dots> \<longleftrightarrow> (\<exists>g \<in> granted_to (methods m) name. (role, g) \<in> (includes_rel table)\<^sup>*)"
    by (rule grants.closure_dual [OF reg])
  also have "\<dots> \<longleftrightarrow> role \<in> set (roles_for_method m name)"
    using roles_for_resource_set [of "methods m" name] granted_known [OF inv] t ok
    by (simp add: roles_for_method_def granted_to_def)
  finally show ?thesis .
qed

lemma compose_role_step:
  "compose_role fuel m st c r = Inr c1 \<Longrightarrow>
    \<exists>items. allowlist_for_role fuel m r st = Inr items \<and> c_allowlist c1 = c_allowlist c @ items"
  by (auto simp: compose_role_def bindE_eq_Inr_iff)

lemma compose_one_step:
  "compose_one fuel m st c p = Inr c2 \<Longrightarrow>
    \<exists>c1. foldE (compose_role fuel m st) c (p_roles p) = Inr c1 \<and> c_allowlist c2 = c_allowlist c1"
  by (auto simp: compose_one_def bindE_eq_Inr_iff)

lemma compose_roles_allowlist:
  assumes "foldE (compose_role fuel m st) c rs = Inr c'"
  shows "set (c_allowlist c') = set (c_allowlist c) \<union>
    {i. \<exists>r \<in> set rs. \<exists>items. allowlist_for_role fuel m r st = Inr items \<and> i \<in> set items}
    \<and> (\<forall>r \<in> set rs. \<exists>items. allowlist_for_role fuel m r st = Inr items)"
  using assms
proof (induction rs arbitrary: c)
  case (Cons r rs)
  then obtain c1 items where items: "allowlist_for_role fuel m r st = Inr items"
    and c1: "c_allowlist c1 = c_allowlist c @ items" and rest: "foldE (compose_role fuel m st) c1 rs = Inr c'"
    using compose_role_step by (fastforce simp: bindE_eq_Inr_iff)
  from Cons.IH [OF rest] items c1 show ?case by auto
qed simp

lemma compose_privileges_allowlist:
  assumes "foldE (compose_one fuel m st) c ps = Inr c'"
  shows "set (c_allowlist c') = set (c_allowlist c) \<union>
    {i. \<exists>p \<in> set ps. \<exists>r \<in> set (p_roles p). \<exists>items. allowlist_for_role fuel m r st = Inr items \<and> i \<in> set items}
    \<and> (\<forall>p \<in> set ps. \<forall>r \<in> set (p_roles p). \<exists>items. allowlist_for_role fuel m r st = Inr items)"
  using assms
proof (induction ps arbitrary: c)
  case (Cons p ps)
  then obtain c1 c2 where c1: "foldE (compose_role fuel m st) c (p_roles p) = Inr c1"
    and c2: "c_allowlist c2 = c_allowlist c1" and rest: "foldE (compose_one fuel m st) c2 ps = Inr c'"
    using compose_one_step by (fastforce simp: bindE_eq_Inr_iff)
  from Cons.IH [OF rest] compose_roles_allowlist [OF c1] c2 show ?case by auto
qed simp

lemma compose_privilege_allowlist:
  assumes "compose_privilege fuel m b ps = Inr c"
  shows "set (c_allowlist c) =
    {i. \<exists>p \<in> set ps. \<exists>r \<in> set (p_roles p). \<exists>items.
       allowlist_for_role fuel m r (system_security_config_to_stig_type b) = Inr items \<and> i \<in> set items}
    \<and> (\<forall>p \<in> set ps. \<forall>r \<in> set (p_roles p). \<exists>items.
       allowlist_for_role fuel m r (system_security_config_to_stig_type b) = Inr items)"
proof -
  let ?st = "system_security_config_to_stig_type b"
  from assms obtain c1 where fold: "foldE (compose_one fuel m ?st)
      \<lparr>c_roles = [], c_allowlist = [], c_web_shell = False, c_webui_access = False\<rparr> ps = Inr c1"
    and c: "c_allowlist c = c_allowlist c1"
    by (auto simp: compose_privilege_def Let_def bindE_eq_Inr_iff split: if_splits)
  from compose_privileges_allowlist [OF fold] show ?thesis unfolding c by simp
qed

lemma role_items_methods:
  assumes "role_manager_inv table m" and "i \<in> set (role_allow_items m g)"
  shows "a_method i \<in> {''CALL'', ''SUBSCRIBE''}"
  using assms by (auto simp: role_manager_inv_def role_allow_items_def registry_inv_def)

lemma allowlist_items_origin:
  assumes "allowlist_for_role fuel m role st = Inr items" and "i \<in> set items"
  shows "i = ALLOW_LIST_FULL_ADMIN \<and> st = 0 \<or> (\<exists>g. i \<in> set (role_allow_items m g))"
  using assms by (auto simp: allowlist_for_role_def bindE_eq_Inr_iff split: if_splits)

section \<open>The privilege service\<close>

datatype privilege_op =
    PCreate privilege_env privilege_data
  | PUpdate privilege_env "group_id list \<Rightarrow> group_id list" int privilege_data
  | PDelete int

fun privilege_run :: "role_table \<Rightarrow> privilege_op \<Rightarrow> privilege list \<Rightarrow> privilege list op_result" where
  "privilege_run table (PCreate env data) rows = privilege_create env table data rows"
| "privilege_run table (PUpdate env ds i data) rows = privilege_update env table ds i data rows"
| "privilege_run table (PDelete i) rows = privilege_delete i rows"

definition local_admin :: "privilege \<Rightarrow> bool" where
  "local_admin p \<longleftrightarrow> builtin_name p = Some LOCAL_ADMINISTRATOR \<and> p_roles p = [''FULL_ADMIN''] \<and>
     BUILTIN_ADMINISTRATORS \<in> set (local_groups p)"

definition privilege_inv :: "privilege list \<Rightarrow> bool" where
  "privilege_inv rows \<longleftrightarrow> distinct (map p_id rows) \<and> distinct (map p_name rows) \<and>
     (\<exists>p \<in> set rows. local_admin p) \<and>
     (\<forall>p \<in> set rows. builtin_name p = Some READONLY_ADMINISTRATOR \<longrightarrow> \<not> web_shell p)"

lemma fold_max_bound: "(a::int) \<le> fold max xs a" "x \<in> set xs \<Longrightarrow> x \<le> fold max xs a"
proof -
  show low: "a \<le> fold max xs a" for a :: int
    by (induction xs arbitrary: a) (auto intro: order_trans [OF max.cobounded2])
  show "x \<le> fold max xs a" if "x \<in> set xs"
    using that
  proof (induction xs arbitrary: a)
    case (Cons y ys)
    have "max y a \<le> fold max ys (max y a)"
      by (induction ys arbitrary: a y) (auto intro: order_trans [OF max.cobounded2])
    with Cons show ?case by auto
  qed simp
qed

lemma fresh_id_new: "p \<in> set rows \<Longrightarrow> p_id p < fresh_id rows"
  using fold_max_bound(2) [of "p_id p" "map p_id rows" 0] by (auto simp: fresh_id_def)

lemma privilege_validate_name:
  assumes "privilege_validate env table schema rows p idn = Inr u" and "q \<in> set rows" and "Some (p_id q) \<noteq> idn"
  shows "p_name q \<noteq> p_name p"
  using assms
  by (auto simp: privilege_validate_def verrors_each_Nil ensure_unique_name_def list_ex_iff split: if_splits)

lemma get_instance_Inr: "get_instance rows i = Inr p \<Longrightarrow> p \<in> set rows \<and> p_id p = i"
proof -
  assume "get_instance rows i = Inr p"
  then obtain ps where "filter (\<lambda>p. p_id p = i) rows = p # ps"
    by (auto simp: get_instance_def split: list.splits)
  then show ?thesis by (auto simp: filter_eq_Cons_iff)
qed

lemma update_with_frame [simp]:
  "p_id (update_with data p) = p_id p" "builtin_name (update_with data p) = builtin_name p"
  by (simp_all add: update_with_def)

lemma extended_row_frame [simp]:
  "p_id (extended_row env ds p) = p_id p" "builtin_name (extended_row env ds p) = builtin_name p"
  "p_name (extended_row env ds p) = p_name p" "p_roles (extended_row env ds p) = p_roles p"
  "web_shell (extended_row env ds p) = web_shell p"
  by (simp_all add: extended_row_def)

lemma builtin_errors_local:
  assumes "builtin_errors env old new = Inr []" and "builtin_name new = Some LOCAL_ADMINISTRATOR"
  shows "p_roles new = p_roles old \<and> p_name new = p_name old \<and>
    BUILTIN_ADMINISTRATORS \<in> set (local_groups new) \<and> has_password_enabled_user env (local_groups new) []"
  using assms
  by (auto simp: builtin_errors_def read_only_errors_def Let_def BuiltinPrivileges_def LOCAL_ADMINISTRATOR_def
      split: if_splits)

lemma builtin_errors_readonly:
  assumes "builtin_errors env old new = Inr []" and "builtin_name new = Some READONLY_ADMINISTRATOR"
  shows "\<not> web_shell new"
  using assms
  by (auto simp: builtin_errors_def read_only_errors_def Let_def BuiltinPrivileges_def LOCAL_ADMINISTRATOR_def
      READONLY_ADMINISTRATOR_def split: if_splits)

lemma distinct_replace:
  assumes "distinct (map k rows)" and "distinct (map f rows)"
    and "\<And>q. q \<in> set rows \<Longrightarrow> k q \<noteq> i \<Longrightarrow> f q \<noteq> f new"
  shows "distinct (map f (map (\<lambda>p. if k p = i then new else p) rows))"
  using assms
proof (induction rows)
  case (Cons r rows)
  let ?g = "\<lambda>p. if k p = i then new else p"
  show ?case
  proof (cases "k r = i")
    case True
    with Cons.prems(1) have other: "k q \<noteq> i" if "q \<in> set rows" for q using that by (auto simp: image_iff)
    then have "map ?g rows = rows" by (simp add: map_idI)
    moreover have "f new \<notin> f ` set rows" using other Cons.prems(3) by force
    ultimately show ?thesis using True Cons.prems(2) by simp
  next
    case False
    have "f r \<noteq> f (?g q)" if "q \<in> set rows" for q
      using Cons.prems(2) Cons.prems(3) [of r] False that by (auto simp: image_iff)
    moreover have "distinct (map f (map ?g rows))" using Cons by simp
    ultimately show ?thesis using False by auto
  qed
qed simp

lemma privilege_update_cases:
  obtains e where "privilege_update env table ds i data rows = (Inl e, rows)"
  | row new where "row \<in> set rows" "p_id row = i" "new = update_with data (extended_row env ds row)"
      "builtin_errors env (extended_row env ds row) new = Inr []"
      "privilege_validate env table ''privilege_update'' rows new (Some i) = Inr ()"
      "privilege_update env table ds i data rows = (Inr (), map (\<lambda>p. if p_id p = i then new else p) rows)"
proof (cases "get_instance rows i")
  case (Inl e)
  then show thesis using that(1) by (simp add: privilege_update_def)
next
  case (Inr row)
  let ?old = "extended_row env ds row" and ?new = "update_with data (extended_row env ds row)"
  let ?chk = "bindE (builtin_errors env ?old ?new) (\<lambda>errors. bindE (verrors_check errors) (\<lambda>_.
      privilege_validate env table ''privilege_update'' rows ?new (Some i)))"
  show thesis
  proof (cases ?chk)
    case (Inl e)
    with Inr show thesis using that(1) by (simp add: privilege_update_def Let_def)
  next
    case ok: (Inr u)
    then have "builtin_errors env ?old ?new = Inr []"
      "privilege_validate env table ''privilege_update'' rows ?new (Some i) = Inr ()"
      by (auto simp: bindE_eq_Inr_iff)
    moreover from Inr ok have "privilege_update env table ds i data rows =
        (Inr (), map (\<lambda>p. if p_id p = i then ?new else p) rows)"
      by (simp add: privilege_update_def Let_def)
    ultimately show thesis using that(2) get_instance_Inr [OF Inr] by blast
  qed
qed

lemma privilege_inv_update:
  assumes inv: "privilege_inv rows"
  shows "privilege_inv (snd (privilege_update env table ds i data rows))"
proof (cases rule: privilege_update_cases [of env table ds i data rows])
  case (2 row new)
  note ids = inv [unfolded privilege_inv_def, THEN conjunct1]
  have frame: "p_id new = i" "builtin_name new = builtin_name row" using 2 by simp_all
  have "p_name q \<noteq> p_name new" if "q \<in> set rows" "p_id q \<noteq> i" for q
    using privilege_validate_name [OF 2(5) that(1)] that(2) by simp
  then have names: "distinct (map p_name (map (\<lambda>p. if p_id p = i then new else p) rows))"
    using inv by (intro distinct_replace) (auto simp: privilege_inv_def)
  have id_map: "map p_id (map (\<lambda>p. if p_id p = i then new else p) rows) = map p_id rows"
    using frame by simp
  obtain q where q: "q \<in> set rows" "local_admin q" using inv by (auto simp: privilege_inv_def)
  have "local_admin (if p_id q = i then new else q)"
  proof (cases "p_id q = i")
    case True
    with ids q(1) 2(1,2) have "q = row" by (auto simp: distinct_map dest: inj_onD)
    with q(2) builtin_errors_local [OF 2(4)] frame True show ?thesis by (auto simp: local_admin_def)
  qed (use q in simp)
  then have admin: "\<exists>p \<in> set (map (\<lambda>p. if p_id p = i then new else p) rows). local_admin p"
    using q(1) by (force simp only: set_map)
  have "\<forall>p \<in> set (map (\<lambda>p. if p_id p = i then new else p) rows).
      builtin_name p = Some READONLY_ADMINISTRATOR \<longrightarrow> \<not> web_shell p"
    using inv builtin_errors_readonly [OF 2(4)] by (auto simp: privilege_inv_def)
  with names admin ids show ?thesis unfolding 2(6) snd_conv privilege_inv_def id_map by blast
qed (use inv in simp)

lemma privilege_inv_create:
  assumes inv: "privilege_inv rows"
  shows "privilege_inv (snd (privilege_create env table data rows))"
proof -
  let ?p = "update_with data \<lparr>p_id = fresh_id rows, builtin_name = None, p_name = [], local_groups = [],
      ds_groups = [], p_roles = [], web_shell = False\<rparr>"
  show ?thesis
  proof (cases "privilege_validate env table ''privilege_create'' rows ?p None")
    case (Inr u)
    have "p_id q \<noteq> p_id ?p" "p_name q \<noteq> p_name ?p" if "q \<in> set rows" for q
      using fresh_id_new [OF that] privilege_validate_name [OF Inr that] by auto
    then have "p_id ?p \<notin> p_id ` set rows" "p_name ?p \<notin> p_name ` set rows" by force+
    with inv Inr show ?thesis
      by (simp add: privilege_create_def Let_def privilege_inv_def)
  qed (use inv in \<open>simp add: privilege_create_def Let_def\<close>)
qed

lemma privilege_inv_delete:
  assumes inv: "privilege_inv rows"
  shows "privilege_inv (snd (privilege_delete i rows))"
proof (cases "get_instance rows i")
  case (Inr p)
  show ?thesis
  proof (cases "builtin_name p \<noteq> None \<and> builtin_name p \<noteq> Some []")
    case False
    obtain q where q: "q \<in> set rows" "local_admin q" using inv by (auto simp: privilege_inv_def)
    have "p_id q \<noteq> i"
    proof
      assume "p_id q = i"
      with inv q(1) get_instance_Inr [OF Inr] have "q = p"
        by (auto simp: privilege_inv_def distinct_map dest: inj_onD)
      with False q(2) show False by (simp add: local_admin_def LOCAL_ADMINISTRATOR_def)
    qed
    with False Inr inv q show ?thesis
      by (auto simp: privilege_delete_def privilege_inv_def distinct_map_filter)
  qed (use inv Inr in \<open>simp add: privilege_delete_def\<close>)
qed (use inv in \<open>simp add: privilege_delete_def\<close>)

interpretation privileges: inductive_invariant
  "\<lambda>rows. rows = start \<and> privilege_inv start" "command_step (privilege_run table)" privilege_inv
  for start table
proof unfold_locales
  fix s t
  assume "privilege_inv s" and "command_step (privilege_run table) s t"
  then obtain c where "t = snd (privilege_run table c s)" by (auto simp: command_step_def)
  with \<open>privilege_inv s\<close> show "privilege_inv t"
    by (cases c) (auto simp: privilege_inv_create privilege_inv_update privilege_inv_delete)
qed auto

lemma used_gids_fold:
  "fst ` set (fold (\<lambda>p gids. fold (\<lambda>gid gids. if map_of gids gid = None then AList.update gid p gids else gids)
      (local_groups p) gids) (ps :: privilege list) acc) = fst ` set acc \<union> (\<Union>p \<in> set ps. set (local_groups p))"
proof (induction ps arbitrary: acc)
  case (Cons p ps)
  have inner: "fst ` set (fold (\<lambda>gid gids. if map_of gids gid = None then AList.update gid p gids else gids) gs acc)
      = fst ` set acc \<union> set gs" for gs and acc :: "(int \<times> privilege) list"
  proof (induction gs arbitrary: acc)
    case (Cons g gs)
    have "fst ` set (if map_of acc g = None then AList.update g p acc else acc) = insert g (fst ` set acc)"
      by (auto simp: dict_keys_update map_of_eq_None_iff insert_absorb)
    with Cons show ?case by simp
  qed simp
  show ?case by (simp only: fold_Cons o_apply Cons.IH inner list.set UN_insert Un_assoc)
qed simp

section \<open>Properties of privileges\<close>

text \<open>
  An allow list authorizes a call exactly when one of its entries does: the entry names the
  method of access or any, and its resource is the name itself, or a shell pattern (it contains
  a star) the name matches.
\<close>

theorem allowlist_authorize_iff:
  "al_authorize (Allowlist items) method resource \<longleftrightarrow>
     (\<exists>i \<in> set items. (a_method i = ''*'' \<or> a_method i = method) \<and>
       (if CHR ''*'' \<in> set (a_resource i) then fnmatch (a_resource i) resource else a_resource i = resource))"
  by (auto simp: al_authorize_def authorize_Allowlist permits_def)

lemma may_call_iff_role:
  assumes "registered table m" and "dict_ok table"
    and "compose_privilege fuel m False ps = Inr c"
    and "\<forall>p \<in> set ps. \<forall>r \<in> set (p_roles p). \<exists>ro. map_of table r = Some ro \<and> \<not> full_admin ro"
    and "\<forall>g. \<forall>i \<in> set (role_allow_items m g). CHR ''*'' \<notin> set (a_resource i)"
  shows "al_authorize (Allowlist (c_allowlist c)) ''CALL'' name \<longleftrightarrow>
    (\<exists>p \<in> set ps. \<exists>r \<in> set (p_roles p). r \<in> set (roles_for_method m name))"
proof -
  from registry.reach_inv [OF assms(1)] have inv: "role_manager_inv table m" .
  then have table: "roles m = table" by (simp add: role_manager_inv_def)
  note comp = compose_privilege_allowlist [OF assms(3), unfolded system_security_config_to_stig_type_def if_False]
  let ?i = "\<lparr>a_method = ''CALL'', a_resource = name\<rparr>"
  have items: "\<exists>g. i \<in> set (role_allow_items m g)" if "i \<in> set (c_allowlist c)" for i
  proof -
    from that comp obtain p r its where r: "p \<in> set ps" "r \<in> set (p_roles p)"
      "allowlist_for_role fuel m r 0 = Inr its" "i \<in> set its" by auto
    with assms(4) table obtain rs where "its = concat (map (role_allow_items m) rs)"
      by (fastforce simp: allowlist_for_role_def bindE_eq_Inr_iff)
    with r(4) show ?thesis by auto
  qed
  have "al_authorize (Allowlist (c_allowlist c)) ''CALL'' name \<longleftrightarrow> ?i \<in> set (c_allowlist c)"
  proof
    assume "al_authorize (Allowlist (c_allowlist c)) ''CALL'' name"
    then obtain i where i: "i \<in> set (c_allowlist c)" "permits i ''*'' name \<or> permits i ''CALL'' name"
      by (auto simp: al_authorize_def authorize_Allowlist)
    from items [OF i(1)] obtain g where g: "i \<in> set (role_allow_items m g)" by blast
    with role_items_methods [OF inv g] assms(5) i(2) have "i = ?i" by (auto simp: permits_def)
    with i(1) show "?i \<in> set (c_allowlist c)" by simp
  next
    assume mem: "?i \<in> set (c_allowlist c)"
    from items [OF mem] assms(5) have "CHR ''*'' \<notin> set name" by fastforce
    with mem show "al_authorize (Allowlist (c_allowlist c)) ''CALL'' name"
      by (auto simp: al_authorize_def authorize_Allowlist permits_def intro!: bexI [of _ ?i])
  qed
  also have "\<dots> \<longleftrightarrow> (\<exists>p \<in> set ps. \<exists>r \<in> set (p_roles p). r \<in> set (roles_for_method m name))"
  proof -
    have "?i \<in> set its \<longleftrightarrow> r \<in> set (roles_for_method m name)"
      if "p \<in> set ps" "r \<in> set (p_roles p)" "allowlist_for_role fuel m r 0 = Inr its" for p r its
      using allowlist_for_role_exact [OF inv assms(2) that(3)] assms(4) that(1,2) by blast
    with comp show ?thesis by blast
  qed
  finally show ?thesis .
qed


definition demo_privilege :: privilege where
  "demo_privilege = \<lparr>p_id = 9, builtin_name = None, p_name = ''ops'', local_groups = [3000], ds_groups = [],
     p_roles = [''A_WRITE''], web_shell = True\<rparr>"

definition small_manager :: role_manager where
  "small_manager = snd (run_seq role_op_run [RegisterMethod ''a.create'' [''A_WRITE''] False]
     (new_role_manager demo_table))"

lemma small_manager_items:
  "role_allow_items small_manager g =
     (if g = ''A_WRITE'' then [\<lparr>a_method = ''CALL'', a_resource = ''a.create''\<rparr>] else [])"
  "roles small_manager = demo_table"
  by (simp_all add: small_manager_def register_method_def register_resource_def add_roles_to_resource_def
      check_role_def blacklisted_def READ_RESOURCE_BLACKLIST_def demo_table_def suffix_def
      new_role_manager_def new_resource_manager_def role_allow_items_def append_allow_def)

lemma small_compose:
  "\<exists>c. compose_privilege (Suc (Suc (Suc 0))) small_manager False [demo_privilege] = Inr c"
  by (simp add: compose_privilege_def compose_one_def compose_role_def demo_privilege_def small_manager_items
      system_security_config_to_stig_type_def allowlist_for_role_def privilege_has_webui_access_def
      dict_index_def)
    (simp add: demo_table_def Role_def)


text \<open>
  Under the GPOS STIG no composed privilege, not even a full administrator's, opens a web
  shell or carries the wildcard entry, so no session made from it counts as full administrator
  by its allow list.
\<close>

theorem stig_no_wildcard:
  assumes "registered table m" and "compose_privilege fuel m True ps = Inr c"
  shows "\<not> c_web_shell c \<and> \<not> al_full_admin (Allowlist (c_allowlist c))"
proof -
  have "\<not> c_web_shell c"
    using assms(2) by (auto simp: compose_privilege_def Let_def bindE_eq_Inr_iff
        system_security_config_to_stig_type_def GPOS_def)
  moreover have "ALLOW_LIST_FULL_ADMIN \<notin> set (c_allowlist c)"
  proof
    assume "ALLOW_LIST_FULL_ADMIN \<in> set (c_allowlist c)"
    then obtain r its where "allowlist_for_role fuel m r GPOS = Inr its" "ALLOW_LIST_FULL_ADMIN \<in> set its"
      using compose_privilege_allowlist [OF assms(2)] by (auto simp: system_security_config_to_stig_type_def)
    from allowlist_items_origin [OF this] obtain g where "ALLOW_LIST_FULL_ADMIN \<in> set (role_allow_items m g)"
      by (auto simp: GPOS_def)
    from role_items_methods [OF registry.reach_inv [OF assms(1)] this] show False
      by (simp add: ALLOW_LIST_FULL_ADMIN_def)
  qed
  ultimately show ?thesis by (simp add: al_full_admin_Allowlist)
qed

lemma stig_compose: "\<exists>c. compose_privilege (Suc (Suc (Suc 0))) small_manager True [demo_privilege] = Inr c"
  by (simp add: compose_privilege_def compose_one_def compose_role_def demo_privilege_def small_manager_items
      system_security_config_to_stig_type_def allowlist_for_role_def privilege_has_webui_access_def
      dict_index_def role_stig_check_def GPOS_def)
    (simp add: demo_table_def Role_def GPOS_def role_stig_check_def dict_index_def)

theorem stig_no_wildcard_witness:
  "\<exists>c. compose_privilege (Suc (Suc (Suc 0))) small_manager True [demo_privilege] = Inr c \<and>
    \<not> c_web_shell c \<and> \<not> al_full_admin (Allowlist (c_allowlist c))"
proof -
  obtain c where c: "compose_privilege (Suc (Suc (Suc 0))) small_manager True [demo_privilege] = Inr c"
    using stig_compose by blast
  have "registered demo_table small_manager"
    unfolding small_manager_def by (rule run_seq_reach) simp
  from stig_no_wildcard [OF this c] c show ?thesis by blast
qed

text \<open>
  C16. The local administrator privilege cannot be lost: whatever creates, updates and deletes of
  privileges are called, failing or not, a privilege with that built-in name, the full
  administrator role and the built-in administrators group remains, ids and names stay unique,
  and the read-only administrator never gets a web shell.
\<close>

theorem local_administrator_survives:
  assumes "privilege_inv rows"
  shows "privilege_inv (snd (run_seq (privilege_run table) ops rows))"
  by (rule privileges.steps_inv [OF run_seq_steps assms])

definition builtin_rows :: "privilege list" where
  "builtin_rows =
     [\<lparr>p_id = 1, builtin_name = Some LOCAL_ADMINISTRATOR, p_name = ''Local Administrator'',
       local_groups = [544], ds_groups = [], p_roles = [''FULL_ADMIN''], web_shell = True\<rparr>,
      \<lparr>p_id = 2, builtin_name = Some READONLY_ADMINISTRATOR, p_name = ''Read-Only Administrator'',
       local_groups = [], ds_groups = [], p_roles = [''READONLY_ADMIN''], web_shell = False\<rparr>]"

theorem local_administrator_survives_witness:
  "privilege_inv (snd (run_seq (privilege_run demo_table) [PDelete 1, PDelete 2] builtin_rows))"
  by (rule local_administrator_survives)
    (simp add: privilege_inv_def builtin_rows_def local_admin_def BUILTIN_ADMINISTRATORS_def
      LOCAL_ADMINISTRATOR_def READONLY_ADMINISTRATOR_def)

text \<open>
  A local group may be deleted exactly when \<open>used_local_gids\<close> does not list it.
\<close>

theorem group_delete_iff_unused:
  "before_group_delete gid rows = Inr () \<longleftrightarrow> gid \<notin> fst ` set (used_local_gids rows)"
  by (auto simp: before_group_delete_def used_local_gids_def used_gids_fold list_ex_iff)

end
