(* ===== verification/Auth.thy ===== *)
theory Auth
  imports PrivilegeProofs
begin

text \<open>
  Authentication: the assurance levels and one-time passwords of \<open>utils/auth.py\<close>, the
  credentials of \<open>auth.py\<close>, connection origins (\<open>utils/origin.py\<close>), and the token
  manager, the session manager and the login conversation of \<open>plugins/auth.py\<close> with
  \<open>plugins/auth_/authenticate.py\<close>.

  Credentials and tokens are objects that sessions and tokens share and that are updated in
  place (\<open>notify_used\<close>), so they live in a store: a list of credentials and a list of
  tokens, referred to by position. Monotonic time is an integer argument \<open>now\<close>. Audit
  messages, events, delays and the connection objects are left out; PAM, the password database,
  the directory and the second-factor check are arguments (\<open>login_env\<close>).
\<close>

section \<open>Assurance levels\<close>

datatype auth_mech = API_KEY_PLAIN | PASSWORD_PLAIN | TOKEN_PLAIN | OTP_TOKEN

datatype auth_resp = SUCCESS | AUTH_ERR | EXPIRED | OTP_REQUIRED | REDIRECT

record aal =
  max_session_age :: int
  max_inactivity :: "int option"
  mechanisms :: "auth_mech list"
  otp_mandatory :: bool

definition MAX_OTP_ATTEMPTS :: nat where "MAX_OTP_ATTEMPTS = 3"

definition AUID_UNSET :: int where "AUID_UNSET = 2 ^ 32 - 1"
definition AUID_FAULTED :: int where "AUID_FAULTED = 2 ^ 32 - 2"

definition AA_LEVEL1 :: aal where
  "AA_LEVEL1 = \<lparr>max_session_age = 86400 * 30, max_inactivity = None,
     mechanisms = [API_KEY_PLAIN, TOKEN_PLAIN, PASSWORD_PLAIN], otp_mandatory = False\<rparr>"

definition AA_LEVEL2 :: aal where
  "AA_LEVEL2 = \<lparr>max_session_age = 12 * 60 * 60, max_inactivity = Some (30 * 60),
     mechanisms = [PASSWORD_PLAIN], otp_mandatory = True\<rparr>"

definition AA_LEVEL3 :: aal where
  "AA_LEVEL3 = \<lparr>max_session_age = 13 * 60, max_inactivity = Some (15 * 60),
     mechanisms = [], otp_mandatory = True\<rparr>"

definition aal_auth_mechanism_check :: "auth_mech \<Rightarrow> aal \<Rightarrow> bool" where
  "aal_auth_mechanism_check mechanism level \<longleftrightarrow> mechanism = OTP_TOKEN \<or> mechanism \<in> set (mechanisms level)"

section \<open>One-time passwords\<close>

datatype otpw_response = OTPW_SUCCESS | OTPW_EXPIRED | NO_KEY | ALREADY_USED | WRONG_USER | BAD_PASSKEY

record user_otp =
  otp_uid :: int
  otp_expires :: int
  keyhash :: string
  used :: bool

record otp_manager =
  otpasswd :: "user_otp dict"
  cnt :: nat

definition new_otp_manager :: otp_manager where
  "new_otp_manager = \<lparr>otpasswd = [], cnt = 0\<rparr>"

definition human_friendly :: "string \<Rightarrow> string" where
  "human_friendly p = str_join ''-'' [take 6 p, take 6 (drop 6 p), take 6 (drop 12 p), take 6 (drop 18 p)]"

text \<open>
  \<open>p\<close> is the generated string and \<open>sha512_crypt\<close> the salted hash drawn for it.
\<close>

definition generate_for_uid ::
  "(string \<Rightarrow> string) \<Rightarrow> string \<Rightarrow> int \<Rightarrow> int \<Rightarrow> otp_manager \<Rightarrow> string \<times> otp_manager" where
  "generate_for_uid sha512_crypt p now uid m =
     (let plain = human_friendly p;
          entry = \<lparr>otp_uid = uid, otp_expires = now + 86400, keyhash = sha512_crypt plain, used = False\<rparr>;
          n = Suc (cnt m)
      in (str_of_nat n @ ''_'' @ plain,
          m\<lparr>cnt := n, otpasswd := AList.update (str_of_nat n) entry (otpasswd m)\<rparr>))"

definition otp_authenticate ::
  "(string \<Rightarrow> string \<Rightarrow> bool) \<Rightarrow> int \<Rightarrow> int \<Rightarrow> string \<Rightarrow> otp_manager \<Rightarrow> otpw_response \<times> otp_manager" where
  "otp_authenticate check_unixhash now uid plaintext m =
     (case str_split (CHR ''_'') plaintext of
        [idx, passwd] \<Rightarrow>
          (case map_of (otpasswd m) idx of
             None \<Rightarrow> (NO_KEY, m)
           | Some entry \<Rightarrow>
               if otp_uid entry \<noteq> uid then (WRONG_USER, m)
               else if used entry then (ALREADY_USED, m)
               else if now > otp_expires entry then (OTPW_EXPIRED, m)
               else if \<not> check_unixhash passwd (keyhash entry) then (BAD_PASSKEY, m)
               else (OTPW_SUCCESS, m\<lparr>otpasswd := AList.update idx (entry\<lparr>used := True\<rparr>) (otpasswd m)\<rparr>))
      | _ \<Rightarrow> (NO_KEY, m))"

section \<open>Connection origins\<close>

datatype family = AF_INET | AF_INET6 | AF_UNIX

record origin =
  family :: family
  rem_addr :: "string option"
  rem_port :: "int option"
  o_uid :: "int option"
  o_gid :: "int option"
  loginuid :: "int option"
  ssl :: bool

definition HA_HEARTBEAT_IPS :: "string list" where
  "HA_HEARTBEAT_IPS = [''169.254.10.1'', ''169.254.10.2'']"

definition is_unix_family :: "origin \<Rightarrow> bool" where
  "is_unix_family o1 \<longleftrightarrow> family o1 = AF_UNIX"

definition is_tcp_ip_family :: "origin \<Rightarrow> bool" where
  "is_tcp_ip_family o1 \<longleftrightarrow> family o1 \<in> {AF_INET, AF_INET6}"

definition origin_match :: "origin \<Rightarrow> origin \<Rightarrow> bool" where
  "origin_match o1 o2 \<longleftrightarrow>
     (if is_unix_family o1 then o_uid o1 = o_uid o2 \<and> o_gid o1 = o_gid o2 else rem_addr o1 = rem_addr o2)"

definition session_is_interactive :: "origin \<Rightarrow> bool" where
  "session_is_interactive o1 = (case loginuid o1 of None \<Rightarrow> True | Some l \<Rightarrow> l \<noteq> AUID_UNSET)"

definition is_ha_connection :: "origin \<Rightarrow> bool" where
  "is_ha_connection o1 \<longleftrightarrow> is_tcp_ip_family o1 \<and>
     (case rem_port o1 of None \<Rightarrow> False | Some p \<Rightarrow> p \<noteq> 0 \<and> p \<le> 1024) \<and>
     (case rem_addr o1 of None \<Rightarrow> False | Some a \<Rightarrow> a \<noteq> [] \<and> a \<in> set HA_HEARTBEAT_IPS)"

text \<open>\<open>is_loopback\<close> is that of \<open>ipaddress\<close>, \<open>None\<close> where \<open>ip_address\<close> raises.\<close>

definition secure_transport :: "(string \<Rightarrow> bool option) \<Rightarrow> origin \<Rightarrow> bool" where
  "secure_transport is_loopback o1 \<longleftrightarrow> ssl o1 \<or> is_unix_family o1 \<or> is_ha_connection o1 \<or>
     is_tcp_ip_family o1 \<and> (case rem_addr o1 of None \<Rightarrow> False | Some a \<Rightarrow> is_loopback a = Some True)"

section \<open>Credentials\<close>

record user =
  username :: string
  account_attributes :: "string list"
  u_privilege :: composed

datatype user_class = ApiKey | UnixSocket | LoginPassword | LoginTwofactor | LoginOnetimePassword

record user_cred =
  uc_class :: user_class
  uc_user :: user
  assurance :: "aal option"
  uc_allowlist :: allowlist
  expiry :: "int option"
  inactivity_timeout :: "int option"
  uc_last_used :: int
  uc_may_create :: bool

text \<open>A token credential refers to its token and to the root credential it computed.\<close>

datatype cred = UserC user_cred | TokenC nat nat | NodeC

definition new_user_cred :: "user_class \<Rightarrow> user \<Rightarrow> aal option \<Rightarrow> int \<Rightarrow> user_cred" where
  "new_user_cred cls u level now =
     \<lparr>uc_class = cls, uc_user = u, assurance = level, uc_allowlist = Allowlist (c_allowlist (u_privilege u)),
      expiry = map_option (\<lambda>l. now + max_session_age l) level,
      inactivity_timeout = (case level of None \<Rightarrow> None | Some l \<Rightarrow> max_inactivity l),
      uc_last_used = now,
      uc_may_create = (cls \<noteq> LoginOnetimePassword \<and>
        (case level of None \<Rightarrow> True | Some l \<Rightarrow> TOKEN_PLAIN \<in> set (mechanisms l)))\<rparr>"

text \<open>A timeout of 0 is no timeout.\<close>

definition timeout_of :: "user_cred \<Rightarrow> int option" where
  "timeout_of u = (case inactivity_timeout u of None \<Rightarrow> None | Some t \<Rightarrow> if t = 0 then None else Some t)"

definition user_notify_used :: "int \<Rightarrow> user_cred \<Rightarrow> user_cred" where
  "user_notify_used now u =
     (case timeout_of u of
        None \<Rightarrow> u
      | Some t \<Rightarrow> if now < uc_last_used u + t then u\<lparr>uc_last_used := now\<rparr> else u)"

definition user_is_valid :: "int \<Rightarrow> user_cred \<Rightarrow> bool" where
  "user_is_valid now u \<longleftrightarrow>
     \<not> (case expiry u of None \<Rightarrow> False | Some e \<Rightarrow> now > e) \<and>
     \<not> (case timeout_of u of None \<Rightarrow> False | Some t \<Rightarrow> now > uc_last_used u + t)"

definition user_authorize :: "int \<Rightarrow> user_cred \<Rightarrow> string \<Rightarrow> string \<Rightarrow> bool" where
  "user_authorize now u method resource \<longleftrightarrow> user_is_valid now u \<and> al_authorize (uc_allowlist u) method resource"

definition user_has_role :: "user_cred \<Rightarrow> string \<Rightarrow> bool" where
  "user_has_role u role \<longleftrightarrow> role \<in> set (c_roles (u_privilege (uc_user u)))"

section \<open>The store\<close>

record token =
  t_token :: string
  t_ttl :: int
  t_attributes :: "string dict"
  match_origin :: "origin option"
  t_parent :: nat
  session_ids :: "string list"
  single_use :: bool
  t_last_used :: int

record app =
  app_origin :: "origin option"
  authenticated :: bool
  app_cred :: "nat option"
  next_mech :: "auth_mech option"
  auth_data :: "(nat \<times> user) option"

record auth_state =
  creds :: "cred list"
  toks :: "token list"
  tokens :: "nat dict"
  sessions :: "nat dict"
  apps :: "app dict"
  aal_level :: aal
  otpw :: otp_manager
  revoked_keys :: "int list"

type_synonym 'a auth_result = "(exn + 'a) \<times> auth_state"

definition token_is_valid :: "int \<Rightarrow> token \<Rightarrow> bool" where
  "token_is_valid now t \<longleftrightarrow> now < t_last_used t + t_ttl t"

text \<open>
  \<open>Token.root_credentials\<close>: follow the parents of token credentials. The loop is bounded by
  the number of credentials; it ends earlier in every reachable state.
\<close>

fun root_loop :: "nat \<Rightarrow> auth_state \<Rightarrow> nat \<Rightarrow> nat option" where
  "root_loop 0 st c = None"
| "root_loop (Suc n) st c =
     (case creds st ! c of TokenC t r \<Rightarrow> root_loop n st (t_parent (toks st ! t)) | _ \<Rightarrow> Some c)"

definition root_credentials :: "auth_state \<Rightarrow> nat \<Rightarrow> nat option" where
  "root_credentials st t = root_loop (Suc (length (creds st))) st (t_parent (toks st ! t))"

text \<open>
  Operations of a credential that is not a token's: what \<open>root_credentials\<close> and the parent of
  a token are.
\<close>

fun base_is_valid :: "int \<Rightarrow> cred \<Rightarrow> bool" where
  "base_is_valid now (UserC u) = user_is_valid now u"
| "base_is_valid now NodeC = True"
| "base_is_valid now (TokenC t r) = False"

fun base_authorize :: "int \<Rightarrow> cred \<Rightarrow> string \<Rightarrow> string \<Rightarrow> bool" where
  "base_authorize now (UserC u) method resource = user_authorize now u method resource"
| "base_authorize now NodeC method resource = True"
| "base_authorize now (TokenC t r) method resource = False"

fun base_has_role :: "cred \<Rightarrow> string \<Rightarrow> bool" where
  "base_has_role (UserC u) role = user_has_role u role"
| "base_has_role NodeC role = False"
| "base_has_role (TokenC t r) role = False"

fun base_notify_used :: "int \<Rightarrow> cred \<Rightarrow> cred" where
  "base_notify_used now (UserC u) = UserC (user_notify_used now u)"
| "base_notify_used now c = c"

definition is_valid :: "int \<Rightarrow> auth_state \<Rightarrow> nat \<Rightarrow> bool" where
  "is_valid now st c =
     (case creds st ! c of
        TokenC t r \<Rightarrow> base_is_valid now (creds st ! r) \<and> token_is_valid now (toks st ! t)
      | b \<Rightarrow> base_is_valid now b)"

definition authorize :: "int \<Rightarrow> auth_state \<Rightarrow> nat \<Rightarrow> string \<Rightarrow> string \<Rightarrow> bool" where
  "authorize now st c method resource =
     (case creds st ! c of
        TokenC t r \<Rightarrow> base_authorize now (creds st ! t_parent (toks st ! t)) method resource
      | b \<Rightarrow> base_authorize now b method resource)"

definition has_role :: "auth_state \<Rightarrow> nat \<Rightarrow> string \<Rightarrow> bool" where
  "has_role st c role =
     (case creds st ! c of
        TokenC t r \<Rightarrow> base_has_role (creds st ! t_parent (toks st ! t)) role
      | b \<Rightarrow> base_has_role b role)"

definition notify_used :: "int \<Rightarrow> nat \<Rightarrow> auth_state \<Rightarrow> auth_state" where
  "notify_used now c st =
     (case creds st ! c of
        TokenC t r \<Rightarrow>
          st\<lparr>creds := (creds st)[r := base_notify_used now (creds st ! r)],
             toks := (toks st)[t := (toks st ! t)\<lparr>t_last_used := now\<rparr>]\<rparr>
      | b \<Rightarrow> st\<lparr>creds := (creds st)[c := base_notify_used now b]\<rparr>)"

definition may_create_auth_token :: "cred \<Rightarrow> bool" where
  "may_create_auth_token c = (case c of UserC u \<Rightarrow> uc_may_create u | _ \<Rightarrow> True)"

definition new_cred :: "cred \<Rightarrow> auth_state \<Rightarrow> nat \<times> auth_state" where
  "new_cred c st = (length (creds st), st\<lparr>creds := creds st @ [c]\<rparr>)"

section \<open>Tokens\<close>

definition token_create ::
  "string \<Rightarrow> int \<Rightarrow> int \<Rightarrow> string dict \<Rightarrow> origin option \<Rightarrow> nat \<Rightarrow> string \<Rightarrow> bool \<Rightarrow> auth_state \<Rightarrow> auth_state" where
  "token_create str now ttl attrs orig parent session_id single st =
     (let parent' = (case creds st ! parent of
                TokenC t r \<Rightarrow> (case root_credentials st t of Some c \<Rightarrow> c | None \<Rightarrow> parent)
              | _ \<Rightarrow> parent);
          tok = \<lparr>t_token = str, t_ttl = ttl, t_attributes = attrs, match_origin = orig, t_parent = parent',
                 session_ids = [session_id], single_use = single, t_last_used = now\<rparr>
      in st\<lparr>toks := toks st @ [tok], tokens := AList.update str (length (toks st)) (tokens st)\<rparr>)"

definition token_get :: "int \<Rightarrow> string \<Rightarrow> origin option \<Rightarrow> auth_state \<Rightarrow> nat option \<times> auth_state" where
  "token_get now str orig st =
     (case map_of (tokens st) str of
        None \<Rightarrow> (None, st)
      | Some t \<Rightarrow>
          let tok = toks st ! t in
          if \<not> token_is_valid now tok then (None, st\<lparr>tokens := AList.delete (t_token tok) (tokens st)\<rparr>)
          else case match_origin tok of
                 None \<Rightarrow> (Some t, st)
               | Some mo \<Rightarrow>
                   (case orig of
                      None \<Rightarrow> (None, st)
                    | Some o1 \<Rightarrow> if origin_match mo o1 then (Some t, st) else (None, st)))"

definition token_destroy :: "nat \<Rightarrow> auth_state \<Rightarrow> auth_state" where
  "token_destroy t st = st\<lparr>tokens := AList.delete (t_token (toks st ! t)) (tokens st)\<rparr>"

definition destroy_by_session_id :: "string \<Rightarrow> auth_state \<Rightarrow> auth_state" where
  "destroy_by_session_id session_id st =
     st\<lparr>tokens := filter (\<lambda>(k, t). session_id \<notin> set (session_ids (toks st ! t))) (tokens st)\<rparr>"

section \<open>Sessions\<close>

definition update_app :: "string \<Rightarrow> (app \<Rightarrow> app) \<Rightarrow> auth_state \<Rightarrow> auth_state" where
  "update_app sid f st =
     (case map_of (apps st) sid of None \<Rightarrow> st | Some a \<Rightarrow> st\<lparr>apps := AList.update sid (f a) (apps st)\<rparr>)"

definition connect_app :: "string \<Rightarrow> origin option \<Rightarrow> auth_state \<Rightarrow> auth_state" where
  "connect_app sid orig st =
     st\<lparr>apps := AList.update sid \<lparr>app_origin = orig, authenticated = False, app_cred = None,
                  next_mech = None, auth_data = None\<rparr> (apps st)\<rparr>"

definition session_login :: "string \<Rightarrow> nat \<Rightarrow> auth_state \<Rightarrow> unit auth_result" where
  "session_login sid c st =
     (case map_of (apps st) sid of
        None \<Rightarrow> (Inl AttributeError, st)
      | Some a \<Rightarrow>
          if authenticated a then
            (if map_of (sessions st) sid = None then (Inl KeyError, st)
             else (Inr (), update_app sid (\<lambda>a. a\<lparr>app_cred := Some c\<rparr>)
                     (st\<lparr>sessions := AList.update sid c (sessions st)\<rparr>)))
          else (Inr (), update_app sid (\<lambda>a. a\<lparr>authenticated := True, app_cred := Some c\<rparr>)
                  (st\<lparr>sessions := AList.update sid c (sessions st)\<rparr>)))"

definition cred_logout :: "nat \<Rightarrow> auth_state \<Rightarrow> auth_state" where
  "cred_logout c st = (case creds st ! c of TokenC t r \<Rightarrow> token_destroy t st | _ \<Rightarrow> st)"

definition session_logout :: "string \<Rightarrow> auth_state \<Rightarrow> auth_state" where
  "session_logout sid st =
     update_app sid (\<lambda>a. a\<lparr>authenticated := False\<rparr>)
       (case map_of (sessions st) sid of
          None \<Rightarrow> st
        | Some c \<Rightarrow> cred_logout c (st\<lparr>sessions := AList.delete sid (sessions st)\<rparr>))"

definition app_on_message :: "int \<Rightarrow> string \<Rightarrow> auth_state \<Rightarrow> auth_state" where
  "app_on_message now sid st =
     (case map_of (sessions st) sid of
        None \<Rightarrow> update_app sid (\<lambda>a. a\<lparr>authenticated := False\<rparr>) st
      | Some c \<Rightarrow> if \<not> is_valid now st c then session_logout sid st else notify_used now c st)"

definition app_on_close :: "string \<Rightarrow> auth_state \<Rightarrow> auth_state" where
  "app_on_close sid st = session_logout sid st"

definition is_internal_session :: "auth_state \<Rightarrow> string \<Rightarrow> bool" where
  "is_internal_session st sid =
     (case map_of (apps st) sid of
        None \<Rightarrow> False
      | Some a \<Rightarrow>
          (case app_origin a of None \<Rightarrow> False | Some o1 \<Rightarrow> is_unix_family o1 \<and> o_uid o1 = Some 0) \<or>
          (case app_cred a of None \<Rightarrow> False | Some c \<Rightarrow> creds st ! c = NodeC))"

text \<open>Closing the socket runs the close callback of the application.\<close>

definition terminate_session :: "string \<Rightarrow> auth_state \<Rightarrow> bool \<times> auth_state" where
  "terminate_session sid st =
     (case map_of (sessions st) sid of
        None \<Rightarrow> (False, st)
      | Some c \<Rightarrow> (True, app_on_close sid (destroy_by_session_id sid st)))"

definition terminate_other_sessions :: "string \<Rightarrow> auth_state \<Rightarrow> auth_state" where
  "terminate_other_sessions current st =
     fold (\<lambda>sid st. if sid = current \<or> is_internal_session st sid then st else snd (terminate_session sid st))
       (map fst (sessions st)) st"

section \<open>Token operations of the service\<close>

definition generate_token ::
  "string \<Rightarrow> int \<Rightarrow> string \<Rightarrow> int option \<Rightarrow> string dict \<Rightarrow> bool \<Rightarrow> bool \<Rightarrow> auth_state \<Rightarrow> string auth_result" where
  "generate_token str now sid ttl attrs match single st =
     (if \<not> single \<and> aal_level st \<noteq> AA_LEVEL1
      then (Inl (CallError ''Multi-use authentication tokens are not supported at current authenticator level.'' EOPNOTSUPP), st)
      else case map_of (apps st) sid of
        None \<Rightarrow> (Inl AttributeError, st)
      | Some a \<Rightarrow>
          (case app_cred a of
             None \<Rightarrow> (Inl AttributeError, st)
           | Some c \<Rightarrow>
               if \<not> may_create_auth_token (creds st ! c)
               then (Inl (CallError ''the current session type does not support creation of authentication tokens.'' EOPNOTSUPP), st)
               else (Inr str, token_create str now (case ttl of None \<Rightarrow> 600 | Some t \<Rightarrow> t) attrs
                       (if match then app_origin a else None) c sid single st)))"

definition get_token :: "int \<Rightarrow> string \<Rightarrow> origin option \<Rightarrow> auth_state \<Rightarrow> string dict option \<times> auth_state" where
  "get_token now str orig st =
     (case token_get now str orig st of
        (None, st1) \<Rightarrow> (None, st1)
      | (Some t, st1) \<Rightarrow>
          (Some (t_attributes (toks st1 ! t)), if single_use (toks st1 ! t) then token_destroy t st1 else st1))"

text \<open>The credential the token stands for, as a new object of the store.\<close>

definition token_cred :: "nat \<Rightarrow> auth_state \<Rightarrow> nat \<times> auth_state" where
  "token_cred t st = new_cred (TokenC t (the (root_credentials st t))) st"

definition get_token_for_action ::
  "int \<Rightarrow> string \<Rightarrow> origin option \<Rightarrow> string \<Rightarrow> string \<Rightarrow> auth_state \<Rightarrow> nat option \<times> auth_state" where
  "get_token_for_action now str orig method resource st =
     (case token_get now str orig st of
        (None, st1) \<Rightarrow> (None, st1)
      | (Some t, st1) \<Rightarrow>
          let tok = toks st1 ! t in
          if t_attributes tok \<noteq> [] then (None, st1)
          else if \<not> authorize now st1 (t_parent tok) method resource then (None, st1)
          else case token_cred t (if single_use tok then token_destroy t st1 else st1) of
                 (c, st2) \<Rightarrow> (Some c, st2))"

definition get_token_for_shell_application ::
  "int \<Rightarrow> string \<Rightarrow> origin option \<Rightarrow> auth_state \<Rightarrow> string option \<times> auth_state" where
  "get_token_for_shell_application now str orig st =
     (case token_get now str orig st of
        (None, st1) \<Rightarrow> (None, st1)
      | (Some t, st1) \<Rightarrow>
          let tok = toks st1 ! t in
          if t_attributes tok \<noteq> [] then (None, st1)
          else case map_option (\<lambda>c. creds st1 ! c) (root_credentials st1 t) of
                 Some (UserC u) \<Rightarrow>
                   if \<not> c_web_shell (u_privilege (uc_user u)) then (None, st1)
                   else (Some (username (uc_user u)), if single_use tok then token_destroy t st1 else st1)
               | _ \<Rightarrow> (None, st1))"

definition set_authenticator_assurance_level :: "string \<Rightarrow> auth_state \<Rightarrow> unit auth_result" where
  "set_authenticator_assurance_level level st =
     (if level = ''LEVEL_1'' then (Inr (), st\<lparr>aal_level := AA_LEVEL1\<rparr>)
      else if level = ''LEVEL_2'' then (Inr (), st\<lparr>aal_level := AA_LEVEL2\<rparr>)
      else if level = ''LEVEL_3'' then (Inr (), st\<lparr>aal_level := AA_LEVEL3\<rparr>)
      else (Inl (CallError ''unknown authenticator assurance level'' EFAULT), st))"

definition get_authenticator_assurance_level :: "auth_state \<Rightarrow> exn + string" where
  "get_authenticator_assurance_level st =
     (if aal_level st = AA_LEVEL1 then Inr ''LEVEL_1''
      else if aal_level st = AA_LEVEL2 then Inr ''LEVEL_2''
      else if aal_level st = AA_LEVEL3 then Inr ''LEVEL_3''
      else Inl (CallError ''unknown authenticator assurance level'' EFAULT))"

definition mechanism_choices :: "auth_state \<Rightarrow> auth_mech list" where
  "mechanism_choices st = mechanisms (aal_level st)"

end
