(* ===== verification/Login.thy ===== *)
theory Login
  imports Auth
begin

text \<open>
  The login conversation: \<open>auth.login_ex\<close> with its mechanisms, the wrappers around it, the
  check of a password or API key behind it (\<open>plugins/auth_/authenticate.py\<close>), the
  implicit login of local sockets, and the questions other services ask about a credential
  (\<open>utils/privilege.py\<close>). \<open>user_info\<close> of the login options (the profile a successful
  response carries) is left out.
\<close>

section \<open>What the login asks outside\<close>

datatype pam_code =
    PAM_SUCCESS | PAM_AUTH_ERR | PAM_USER_UNKNOWN | PAM_ACCT_EXPIRED | PAM_NEW_AUTHTOK_REQD
  | PAM_CRED_EXPIRED | PAM_AUTHINFO_UNAVAIL | PAM_OTHER nat

text \<open>A PAM response is a dictionary: \<open>None\<close> is a missing key.\<close>

record pam_response =
  code :: pam_code
  reason :: "string option"
  otpw_response :: "string option"

datatype user_query = ByName string | ByUid int

datatype twofactor_id = TfDb "int option" | TfSid string

record nss_user =
  pw_name :: string
  pw_uid :: int
  nss_source :: string
  nss_local :: bool
  nss_sid :: string
  grouplist :: "int list"

record db_user =
  db_id :: "int option"
  db_uid :: "int option"
  db_local :: bool

record login_env =
  failover_backup :: bool
  db_lookup :: "string \<Rightarrow> (int \<times> int \<times> string option) option"
  db_lookup_uid :: "int \<Rightarrow> (int \<times> string) option"
  ds_uid :: "string \<Rightarrow> int option"
  always_has_root_password :: bool
  unixhash_is_valid :: "string option \<Rightarrow> bool"
  check_unixhash :: "string \<Rightarrow> string \<Rightarrow> bool"
  libpam :: "nat \<Rightarrow> string \<Rightarrow> string \<Rightarrow> bool \<Rightarrow> pam_response"
  get_user_obj :: "user_query \<Rightarrow> nss_user option"
  twofactor_secret :: "twofactor_id \<Rightarrow> bool \<Rightarrow> bool"
  privilege_rows :: "privilege list"
  unixids_sids :: "int list \<Rightarrow> string list option"
  compose :: "privilege list \<Rightarrow> exn + composed"
  twofactor_enabled :: bool
  verify_twofactor_token :: "string \<Rightarrow> string \<Rightarrow> bool"
  api_key_row :: "int \<Rightarrow> string option"
  ip_is_loopback :: "string \<Rightarrow> bool option"

definition ADMIN_UID :: int where "ADMIN_UID = 950"

section \<open>Checking a password or key\<close>

definition authenticate_user ::
  "login_env \<Rightarrow> user_query \<Rightarrow> db_user \<Rightarrow> string option \<Rightarrow> exn + user option" where
  "authenticate_user env query info cred_tag =
     (case get_user_obj env query of
        None \<Rightarrow> Inr None
      | Some u \<Rightarrow>
          if db_uid info \<noteq> None \<and> db_uid info \<noteq> Some (pw_uid u) then Inr None
          else
            (case (if nss_source u = ''LOCAL'' then Some (TfDb (db_id info), False, [''LOCAL''])
                   else if nss_source u = ''ACTIVEDIRECTORY''
                   then Some (TfSid (nss_sid u), True, [''DIRECTORY_SERVICE'', ''ACTIVE_DIRECTORY''])
                   else if nss_source u = ''LDAP''
                   then Some (if nss_sid u \<noteq> [] then TfSid (nss_sid u) else TfDb (db_id info), True,
                              [''DIRECTORY_SERVICE'', ''LDAP''])
                   else None) of
               None \<Rightarrow> Inr None
             | Some (tf, use_ds, flags) \<Rightarrow>
                 if nss_local u \<noteq> db_local info then Inr None
                 else
                   let flags1 = flags @ (if twofactor_secret env tf (db_local info) then [''2FA''] else [])
                                @ (case cred_tag of None \<Rightarrow> [] | Some t \<Rightarrow> [t]);
                       admin = pw_uid u \<in> {0, ADMIN_UID};
                       flags2 = (if admin then flags1 @ [''SYS_ADMIN''] else flags1);
                       ps = privileges_for_groups (privilege_rows env) use_ds (grouplist u)
                              (unixids_sids env (grouplist u))
                   in if admin \<and> \<not> nss_local u then Inr None
                      else if ps = [] then Inr None
                      else bindE (compose env ps) (\<lambda>p.
                             Inr (Some \<lparr>username = pw_name u, account_attributes = flags2, u_privilege = p\<rparr>))))"

definition authenticate_root :: user where
  "authenticate_root = \<lparr>username = ''root'', account_attributes = [''LOCAL'', ''SYS_ADMIN''],
     u_privilege = full_privilege\<rparr>"

definition onetime_password_authenticate ::
  "login_env \<Rightarrow> int \<Rightarrow> int \<Rightarrow> string \<Rightarrow> auth_state \<Rightarrow> pam_response option \<times> auth_state" where
  "onetime_password_authenticate env now uid password st =
     (case otp_authenticate (check_unixhash env) now uid password (otpw st) of
        (r, m) \<Rightarrow>
          (case r of
             OTPW_SUCCESS \<Rightarrow> Some \<lparr>code = PAM_SUCCESS, reason = Some [], otpw_response = Some ''SUCCESS''\<rparr>
           | OTPW_EXPIRED \<Rightarrow> Some \<lparr>code = PAM_CRED_EXPIRED, reason = None,
                                otpw_response = Some ''Onetime password is expired''\<rparr>
           | NO_KEY \<Rightarrow> None
           | _ \<Rightarrow> Some \<lparr>code = PAM_AUTH_ERR, reason = Some ''Authentication failure'',
                     otpw_response = Some ''Onetime password authentication failed''\<rparr>,
           st\<lparr>otpw := m\<rparr>))"

definition db_info :: "login_env \<Rightarrow> string \<Rightarrow> db_user \<times> string option" where
  "db_info env name =
     (case db_lookup env name of
        None \<Rightarrow> (\<lparr>db_id = None, db_uid = None, db_local = False\<rparr>, None)
      | Some (i, u, h) \<Rightarrow> (\<lparr>db_id = Some i, db_uid = Some u, db_local = True\<rparr>, h))"

definition pam_step :: "login_env \<Rightarrow> nat \<Rightarrow> string \<Rightarrow> string \<Rightarrow> bool \<Rightarrow> pam_response" where
  "pam_step env n name password is_api_key =
     (let failure = \<lparr>code = PAM_AUTH_ERR, reason = Some ''Authentication failure'', otpw_response = None\<rparr>;
          unixhash = snd (db_info env name)
      in if \<not> is_api_key \<and> name = ''root'' \<and> always_has_root_password env then
           (if \<not> unixhash_is_valid env unixhash then failure
            else case unixhash of
                   Some h \<Rightarrow> if check_unixhash env password h
                             then \<lparr>code = PAM_SUCCESS, reason = Some [], otpw_response = None\<rparr> else failure
                 | None \<Rightarrow> failure)
         else libpam env n name password is_api_key)"

text \<open>
  \<open>n\<close> tells the PAM conversations of one login apart. After a failure of PAM the password
  may be a one-time password, whose answer replaces PAM's unless there is no such password.
\<close>

definition plain_response ::
  "login_env \<Rightarrow> nat \<Rightarrow> int \<Rightarrow> string \<Rightarrow> string \<Rightarrow> bool \<Rightarrow> auth_state \<Rightarrow> pam_response \<times> auth_state" where
  "plain_response env n now name password is_api_key st =
     (let info = fst (db_info env name);
          resp = pam_step env n name password is_api_key;
          uid = (case db_uid info of None \<Rightarrow> ds_uid env name | Some u \<Rightarrow> Some u)
      in if code resp = PAM_AUTH_ERR \<and> \<not> is_api_key then
           (case uid of
              None \<Rightarrow> (resp, st)
            | Some u \<Rightarrow>
                (case onetime_password_authenticate env now u password st of
                   (r, st1) \<Rightarrow> (case r of None \<Rightarrow> resp | Some r \<Rightarrow> r, st1)))
         else (resp, st))"

text \<open>
  The user token is only built for a successful response; a failure to build it turns the
  response into an error.
\<close>

definition plain_user ::
  "login_env \<Rightarrow> string \<Rightarrow> bool \<Rightarrow> pam_response \<Rightarrow> exn + (pam_response \<times> user option)" where
  "plain_user env name is_api_key resp =
     (if code resp \<noteq> PAM_SUCCESS then Inr (resp, None)
      else bindE (authenticate_user env (ByName name) (fst (db_info env name))
                    (if is_api_key then Some ''API_KEY''
                     else if otpw_response resp \<noteq> None then Some ''OTPW'' else None)) (\<lambda>u.
             case u of
               None \<Rightarrow> Inr (resp\<lparr>code := PAM_AUTH_ERR, reason := Some ''Failed to generate user token''\<rparr>, None)
             | Some u \<Rightarrow> Inr (resp, Some u)))"

definition authenticate_plain ::
  "login_env \<Rightarrow> nat \<Rightarrow> int \<Rightarrow> string \<Rightarrow> string \<Rightarrow> bool \<Rightarrow> auth_state
    \<Rightarrow> (pam_response \<times> user option) auth_result" where
  "authenticate_plain env n now name password is_api_key st =
     (case plain_response env n now name password is_api_key st of
        (resp, st1) \<Rightarrow> (plain_user env name is_api_key resp, st1))"

text \<open>\<open>get_login_user\<close> adds whether a second factor is required and whether a one-time password was used.\<close>

definition otp_flags :: "login_env \<Rightarrow> auth_mech \<Rightarrow> pam_response \<Rightarrow> user option \<Rightarrow> bool \<times> bool" where
  "otp_flags env mechanism resp u =
     (case u of
        Some u \<Rightarrow>
          if mechanism = PASSWORD_PLAIN \<and> code resp = PAM_SUCCESS then
            (if ''OTPW'' \<in> set (account_attributes u) then (False, True)
             else (twofactor_enabled env \<and> ''2FA'' \<in> set (account_attributes u), False))
          else (False, False)
      | None \<Rightarrow> (False, False))"

section \<open>The login conversation\<close>

datatype login_data =
    PasswordLogin string string
  | ApiKeyLogin string string
  | OtpLogin string
  | TokenLogin string

fun mech_of :: "login_data \<Rightarrow> auth_mech" where
  "mech_of (PasswordLogin u p) = PASSWORD_PLAIN"
| "mech_of (ApiKeyLogin u k) = API_KEY_PLAIN"
| "mech_of (OtpLogin t) = OTP_TOKEN"
| "mech_of (TokenLogin t) = TOKEN_PLAIN"

datatype login_response = Redirect | OtpRequired string | Response auth_resp

definition set_auth_ctx :: "string \<Rightarrow> auth_mech option \<Rightarrow> (nat \<times> user) option \<Rightarrow> auth_state \<Rightarrow> auth_state" where
  "set_auth_ctx sid m d st = update_app sid (\<lambda>a. a\<lparr>next_mech := m, auth_data := d\<rparr>) st"

definition check_auth_mechanism :: "string \<Rightarrow> auth_mech \<Rightarrow> app \<Rightarrow> auth_state \<Rightarrow> unit auth_result" where
  "check_auth_mechanism sid mechanism a st =
     (let abandon = (case next_mech a of None \<Rightarrow> False | Some m \<Rightarrow> m \<noteq> mechanism);
          st1 = (if abandon then set_auth_ctx sid None None st else st);
          next = (if abandon then None else next_mech a)
      in if next = None \<and> mechanism = OTP_TOKEN
         then (Inl (CallError ''no authentication in progress'' EINVAL), st1)
         else if \<not> aal_auth_mechanism_check mechanism (aal_level st)
         then (Inl (CallError ''mechanism is not supported at current authenticator level.'' EOPNOTSUPP), st1)
         else (Inr (), st1))"

text \<open>The response of the final match on the PAM code.\<close>

definition final_response :: "pam_code \<Rightarrow> auth_state \<Rightarrow> login_response auth_result" where
  "final_response c st =
     (case c of
        PAM_SUCCESS \<Rightarrow> (bindE (get_authenticator_assurance_level st) (\<lambda>_. Inr (Response SUCCESS)), st)
      | PAM_ACCT_EXPIRED \<Rightarrow> (Inr (Response EXPIRED), st)
      | PAM_NEW_AUTHTOK_REQD \<Rightarrow> (Inr (Response EXPIRED), st)
      | PAM_CRED_EXPIRED \<Rightarrow> (Inr (Response EXPIRED), st)
      | _ \<Rightarrow> (Inr (Response AUTH_ERR), st))"

definition login_as :: "string \<Rightarrow> cred \<Rightarrow> auth_state \<Rightarrow> unit auth_result" where
  "login_as sid c st = (case new_cred c st of (r, st1) \<Rightarrow> session_login sid r st1)"

definition andThen :: "'a auth_result \<Rightarrow> ('a \<Rightarrow> auth_state \<Rightarrow> 'b auth_result) \<Rightarrow> 'b auth_result" where
  "andThen r f = (case r of (Inl e, st) \<Rightarrow> (Inl e, st) | (Inr x, st) \<Rightarrow> f x st)"

text \<open>The audit message of an unexpected PAM response reads its reason, or its one-time password answer.\<close>

definition audit_reason :: "pam_response \<Rightarrow> exn + unit" where
  "audit_reason resp =
     (case reason resp of
        None \<Rightarrow> Inl KeyError
      | Some r \<Rightarrow> if r \<noteq> [] then Inr () else (if otpw_response resp = None then Inl KeyError else Inr ()))"

definition login_password ::
  "login_env \<Rightarrow> int \<Rightarrow> string \<Rightarrow> string \<Rightarrow> string \<Rightarrow> auth_state \<Rightarrow> login_response auth_result" where
  "login_password env now sid name password st =
     andThen (authenticate_plain env 0 now name password False st) (\<lambda>(resp, u) st1.
       case otp_flags env PASSWORD_PLAIN resp u of
         (otp_required, otpw_used) \<Rightarrow>
           if otp_required
           then (Inr (OtpRequired (username (the u))), set_auth_ctx sid (Some OTP_TOKEN) (Some (0, the u)) st1)
           else if \<not> otpw_used \<and> otp_mandatory (aal_level st1)
           then (Inl (CallError ''Two-factor authentication is requried at the current authenticator level.'' EOPNOTSUPP), st1)
           else case code resp of
                  PAM_SUCCESS \<Rightarrow>
                    andThen (login_as sid (UserC (new_user_cred
                        (if otpw_used then LoginOnetimePassword else LoginPassword) (the u)
                        (Some (aal_level st1)) now)) st1)
                      (\<lambda>_ st2. final_response PAM_SUCCESS st2)
                | PAM_AUTH_ERR \<Rightarrow> final_response PAM_AUTH_ERR st1
                | c \<Rightarrow> andThen (audit_reason resp, st1) (\<lambda>_ st2. final_response c st2))"

text \<open>\<open>int()\<close> of a text: surrounding blanks, a sign, digits with single underscores between them.\<close>

fun digits_ok :: "string \<Rightarrow> bool" where
  "digits_ok [] = False"
| "digits_ok [c] = is_digit c"
| "digits_ok (c # d # s) = (is_digit c \<and> (if d = CHR ''_'' then digits_ok s else digits_ok (d # s)))"

definition is_blank :: "char \<Rightarrow> bool" where
  "is_blank c \<longleftrightarrow> of_char c \<in> {9, 10, 11, 12, 13, 32::nat}"

definition py_int :: "string \<Rightarrow> int option" where
  "py_int s =
     (let t = rev (dropWhile is_blank (rev (dropWhile is_blank s)));
          (neg, d) = (case t of c # r \<Rightarrow> if c = CHR ''-'' then (True, r) else if c = CHR ''+'' then (False, r)
                                         else (False, t) | [] \<Rightarrow> (False, t));
          v = int (nat_of_digits (filter is_digit d))
      in if digits_ok d then Some (if neg then - v else v) else None)"

definition api_key_id :: "string \<Rightarrow> int option" where
  "api_key_id key = py_int (hd (str_split (CHR ''-'') key))"

definition login_api_key ::
  "login_env \<Rightarrow> int \<Rightarrow> string \<Rightarrow> string \<Rightarrow> string \<Rightarrow> auth_state \<Rightarrow> login_response auth_result" where
  "login_api_key env now sid name key st =
     andThen
       (andThen (authenticate_plain env 0 now name key True st) (\<lambda>(resp, u) st1.
          if code resp = PAM_AUTHINFO_UNAVAIL then authenticate_plain env 1 now name key True st1
          else (Inr (resp, u), st1)))
       (\<lambda>(resp, u) st2.
          let key_id = api_key_id key;
              thehash = (case key_id of None \<Rightarrow> None | Some i \<Rightarrow> api_key_row env i)
          in if code resp = PAM_SUCCESS then
               (case map_of (apps st2) sid of
                  None \<Rightarrow> (Inl AttributeError, st2)
                | Some a \<Rightarrow>
                    (case app_origin a of
                       None \<Rightarrow> (Inl AttributeError, st2)
                     | Some o1 \<Rightarrow>
                         if \<not> secure_transport (ip_is_loopback env) o1 then
                           (case key_id of
                              None \<Rightarrow> (Inl UnboundLocalError, st2)
                            | Some i \<Rightarrow> (Inr (Response EXPIRED), st2\<lparr>revoked_keys := revoked_keys st2 @ [i]\<rparr>))
                         else if thehash = None then (Inl UnboundLocalError, st2)
                         else andThen (login_as sid (UserC (new_user_cred ApiKey (the u) (Some (aal_level st2)) now)) st2)
                                (\<lambda>_ st3. final_response PAM_SUCCESS st3)))
             else if reason resp = None \<and> code resp \<noteq> PAM_CRED_EXPIRED then (Inl KeyError, st2)
             else final_response (code resp) st2)"

definition login_otp :: "login_env \<Rightarrow> int \<Rightarrow> string \<Rightarrow> string \<Rightarrow> auth_state \<Rightarrow> login_response auth_result" where
  "login_otp env now sid otp_token st =
     (case map_option auth_data (map_of (apps st) sid) of
        Some (Some (n, u)) \<Rightarrow>
          let otp_ok = verify_twofactor_token env (username u) otp_token;
              st1 = set_auth_ctx sid None None st
          in if otp_ok then
               andThen (login_as sid (UserC (new_user_cred LoginTwofactor u (Some (aal_level st1)) now)) st1)
                 (\<lambda>_ st2. final_response PAM_SUCCESS st2)
             else if n < MAX_OTP_ATTEMPTS
             then (Inr (OtpRequired (username u)), set_auth_ctx sid (Some OTP_TOKEN) (Some (Suc n, u)) st1)
             else final_response PAM_AUTH_ERR st1
      | _ \<Rightarrow> (Inl TypeError, st))"

definition login_token :: "int \<Rightarrow> string \<Rightarrow> string \<Rightarrow> app \<Rightarrow> auth_state \<Rightarrow> login_response auth_result" where
  "login_token now sid str a st =
     (case token_get now str (app_origin a) st of
        (None, st1) \<Rightarrow> (Inr (Response AUTH_ERR), st1)
      | (Some t, st1) \<Rightarrow>
          if t_attributes (toks st1 ! t) \<noteq> [] then (Inr (Response AUTH_ERR), st1)
          else case token_cred t st1 of
                 (c, st2) \<Rightarrow>
                   andThen (session_login sid c st2) (\<lambda>_ st3.
                     final_response PAM_SUCCESS (if single_use (toks st1 ! t) then token_destroy t st3 else st3)))"

definition login_ex :: "login_env \<Rightarrow> int \<Rightarrow> string \<Rightarrow> login_data \<Rightarrow> auth_state \<Rightarrow> login_response auth_result" where
  "login_ex env now sid data st =
     (if failover_backup env then (Inr Redirect, st)
      else case map_of (apps st) sid of
        None \<Rightarrow> (Inl AttributeError, st)
      | Some a \<Rightarrow>
          andThen (check_auth_mechanism sid (mech_of data) a st) (\<lambda>_ st1.
            case data of
              PasswordLogin u p \<Rightarrow> login_password env now sid u p st1
            | ApiKeyLogin u k \<Rightarrow> login_api_key env now sid u k st1
            | OtpLogin t \<Rightarrow> login_otp env now sid t st1
            | TokenLogin t \<Rightarrow> login_token now sid t a st1))"

definition login ::
  "login_env \<Rightarrow> int \<Rightarrow> string \<Rightarrow> string \<Rightarrow> string \<Rightarrow> string option \<Rightarrow> auth_state \<Rightarrow> bool auth_result" where
  "login env now sid name password otp_token st =
     andThen (login_ex env now sid (PasswordLogin name password) st) (\<lambda>r st1.
       case r of
         Response SUCCESS \<Rightarrow> (Inr True, st1)
       | OtpRequired u \<Rightarrow>
           (case otp_token of
              None \<Rightarrow> (Inr False, st1)
            | Some t \<Rightarrow> andThen (login_ex env now sid (OtpLogin t) st1)
                         (\<lambda>r2 st2. (Inr (r2 = Response SUCCESS), st2)))
       | _ \<Rightarrow> (Inr False, st1))"

text \<open>\<open>key_user\<close> is the user name of the key's row, found by its id.\<close>

definition login_with_api_key ::
  "login_env \<Rightarrow> (int \<Rightarrow> string option) \<Rightarrow> int \<Rightarrow> string \<Rightarrow> string \<Rightarrow> auth_state \<Rightarrow> bool auth_result" where
  "login_with_api_key env key_user now sid key st =
     (case (case api_key_id key of None \<Rightarrow> None | Some i \<Rightarrow> key_user i) of
        None \<Rightarrow> (Inr False, st)
      | Some name \<Rightarrow> andThen (login_ex env now sid (ApiKeyLogin name key) st)
                      (\<lambda>r st1. (Inr (r = Response SUCCESS), st1)))"

definition login_with_token :: "login_env \<Rightarrow> int \<Rightarrow> string \<Rightarrow> string \<Rightarrow> auth_state \<Rightarrow> bool auth_result" where
  "login_with_token env now sid str st =
     andThen (login_ex env now sid (TokenLogin str) st) (\<lambda>r st1. (Inr (r = Response SUCCESS), st1))"

text \<open>\<open>check_permission\<close>: connections from local sockets are logged in when they connect.\<close>

definition check_permission :: "login_env \<Rightarrow> int \<Rightarrow> string \<Rightarrow> auth_state \<Rightarrow> unit auth_result" where
  "check_permission env now sid st =
     (case map_of (apps st) sid of
        None \<Rightarrow> (Inl AttributeError, st)
      | Some a \<Rightarrow>
          (case app_origin a of
             None \<Rightarrow> (Inr (), st)
           | Some o1 \<Rightarrow>
               if \<not> is_unix_family o1 then (Inr (), st)
               else if o_uid o1 = Some 0 \<and> \<not> session_is_interactive o1
               then login_as sid (UserC (new_user_cred UnixSocket authenticate_root None now)) st
               else
                 case (case o_uid o1 of
                         None \<Rightarrow> Inr None
                       | Some uid \<Rightarrow>
                           (case db_lookup_uid env uid of
                              Some (i, name) \<Rightarrow>
                                authenticate_user env (ByName name) \<lparr>db_id = Some i, db_uid = Some uid, db_local = True\<rparr> None
                            | None \<Rightarrow>
                                authenticate_user env (ByUid uid) \<lparr>db_id = None, db_uid = None, db_local = False\<rparr> None)) of
                   Inl e \<Rightarrow> (Inl e, st)
                 | Inr None \<Rightarrow> (Inr (), st)
                 | Inr (Some u) \<Rightarrow> login_as sid (UserC (new_user_cred UnixSocket u None now)) st))"

section \<open>Questions about a credential\<close>

text \<open>The user credential behind a session: the credential itself or the root of its token.\<close>

definition session_user :: "auth_state \<Rightarrow> nat \<Rightarrow> user_cred option" where
  "session_user st c =
     (case creds st ! c of
        UserC u \<Rightarrow> Some u
      | TokenC t r \<Rightarrow> (case creds st ! r of UserC u \<Rightarrow> Some u | _ \<Rightarrow> None)
      | NodeC \<Rightarrow> None)"

definition credential_has_full_admin :: "auth_state \<Rightarrow> nat \<Rightarrow> bool" where
  "credential_has_full_admin st c \<longleftrightarrow>
     (case session_user st c of
        Some u \<Rightarrow> ''FULL_ADMIN'' \<in> set (c_roles (u_privilege (uc_user u))) \<or> al_full_admin (uc_allowlist u)
      | None \<Rightarrow> creds st ! c = NodeC)"

text \<open>
  A credential that is neither a full administrator's nor a user's has no \<open>user\<close> attribute.
\<close>

definition credential_full_admin_or_user :: "auth_state \<Rightarrow> nat option \<Rightarrow> string \<Rightarrow> exn + bool" where
  "credential_full_admin_or_user st c name =
     (case c of
        None \<Rightarrow> Inr False
      | Some c \<Rightarrow>
          if credential_has_full_admin st c then Inr True
          else case session_user st c of None \<Rightarrow> Inl AttributeError | Some u \<Rightarrow> Inr (username (uc_user u) = name))"

definition app_credential_full_admin_or_user :: "auth_state \<Rightarrow> app option \<Rightarrow> string \<Rightarrow> exn + bool" where
  "app_credential_full_admin_or_user st a name =
     (case a of None \<Rightarrow> Inr True | Some a \<Rightarrow> credential_full_admin_or_user st (app_cred a) name)"

definition credential_is_limited_to_own_jobs :: "auth_state \<Rightarrow> nat option \<Rightarrow> bool" where
  "credential_is_limited_to_own_jobs st c =
     (case c of
        None \<Rightarrow> False
      | Some c \<Rightarrow> session_user st c \<noteq> None \<and> \<not> credential_has_full_admin st c)"

definition credential_is_root_or_equivalent :: "auth_state \<Rightarrow> nat option \<Rightarrow> bool" where
  "credential_is_root_or_equivalent st c =
     (case c of
        None \<Rightarrow> False
      | Some c \<Rightarrow> (case session_user st c of
                     None \<Rightarrow> False | Some u \<Rightarrow> ''SYS_ADMIN'' \<in> set (account_attributes (uc_user u))))"

end
