(* ===== verification/LoginProofs.thy ===== *)
theory LoginProofs
  imports Login
begin

text \<open>
  Correctness of authentication: who gets a session and by what evidence, how often a second
  factor may be tried, that one-time passwords and single-use tokens work once, that an expired
  credential stays expired, and the invariant of the shared store of credentials and tokens.
\<close>

named_theorems auth_frame \<open>parts of the state an operation leaves alone\<close>

lemma andThen_simps [simp, result_simps]:
  "andThen (Inl e, st) f = (Inl e, st)"
  "andThen (Inr x, st) f = f x st"
  by (simp_all add: andThen_def)

lemma andThen_cases:
  obtains e st where "r = (Inl e, st)" "andThen r f = (Inl e, st)"
  | x st where "r = (Inr x, st)" "andThen r f = f x st"
  by (cases r; cases "fst r") (auto simp: andThen_def)

lemma update_app_frame [simp, auth_frame]:
  "creds (update_app sid f st) = creds st" "toks (update_app sid f st) = toks st"
  "tokens (update_app sid f st) = tokens st" "sessions (update_app sid f st) = sessions st"
  "aal_level (update_app sid f st) = aal_level st" "otpw (update_app sid f st) = otpw st"
  "revoked_keys (update_app sid f st) = revoked_keys st"
  by (simp_all add: update_app_def split: option.splits)

lemma update_app_apps [simp, auth_frame]:
  "map_of (apps (update_app sid f st)) s =
     (if s = sid then map_option f (map_of (apps st) sid) else map_of (apps st) s)"
  by (simp add: update_app_def map_of_update split: option.splits)

lemma set_auth_ctx_frame [simp, auth_frame]:
  "creds (set_auth_ctx sid m d st) = creds st" "toks (set_auth_ctx sid m d st) = toks st"
  "tokens (set_auth_ctx sid m d st) = tokens st" "sessions (set_auth_ctx sid m d st) = sessions st"
  "aal_level (set_auth_ctx sid m d st) = aal_level st" "otpw (set_auth_ctx sid m d st) = otpw st"
  by (simp_all add: set_auth_ctx_def)

lemma set_auth_ctx_apps [simp, auth_frame]:
  "map_of (apps (set_auth_ctx sid m d st)) s =
     (if s = sid then map_option (\<lambda>a. a\<lparr>next_mech := m, auth_data := d\<rparr>) (map_of (apps st) sid)
      else map_of (apps st) s)"
  by (simp add: set_auth_ctx_def)

lemma token_destroy_frame [simp, auth_frame]:
  "creds (token_destroy t st) = creds st" "toks (token_destroy t st) = toks st"
  "sessions (token_destroy t st) = sessions st" "aal_level (token_destroy t st) = aal_level st"
  "apps (token_destroy t st) = apps st"
  by (simp_all add: token_destroy_def)

lemma final_response_state [simp, auth_frame]: "snd (final_response c st) = st"
  by (cases c) (simp_all add: final_response_def)

lemma final_response_PAM_SUCCESS:
  "final_response PAM_SUCCESS st = (bindE (get_authenticator_assurance_level st) (\<lambda>_. Inr (Response SUCCESS)), st)"
  by (simp add: final_response_def)

section \<open>Second factor\<close>

lemma onetime_frame:
  assumes "onetime_password_authenticate env now uid pw st = (r, st')"
  shows "creds st' = creds st \<and> apps st' = apps st \<and> aal_level st' = aal_level st \<and> sessions st' = sessions st
    \<and> tokens st' = tokens st \<and> toks st' = toks st"
  using assms by (auto simp: onetime_password_authenticate_def split: prod.splits)

lemma authenticate_plain_frame:
  assumes "authenticate_plain env n now name pw b st = (r, st')"
  shows "creds st' = creds st \<and> apps st' = apps st \<and> aal_level st' = aal_level st \<and> sessions st' = sessions st
    \<and> tokens st' = tokens st \<and> toks st' = toks st"
  using assms
  by (auto simp: authenticate_plain_def plain_response_def Let_def
      split: prod.splits option.splits if_splits dest!: onetime_frame)

lemma authenticate_plain_otpw:
  assumes "otpw st = otpw st2"
  shows "fst (authenticate_plain env n now name pw b st) = fst (authenticate_plain env n now name pw b st2)"
proof -
  have "fst (onetime_password_authenticate env now uid pw st) = fst (onetime_password_authenticate env now uid pw st2)"
    for uid using assms by (simp add: onetime_password_authenticate_def split: prod.splits)
  then have "fst (plain_response env n now name pw b st) = fst (plain_response env n now name pw b st2)"
    by (auto simp: plain_response_def Let_def case_prod_unfold split: option.splits)
  then show ?thesis by (simp add: authenticate_plain_def case_prod_unfold)
qed

lemma plain_user_Some:
  assumes "plain_user env name b resp = Inr (resp', Some u)"
  shows "code resp' = PAM_SUCCESS \<and> resp' = resp"
  using assms by (auto simp: plain_user_def bindE_eq_Inr_iff split: if_splits option.splits)

lemma plain_user_None:
  assumes "plain_user env name b resp = Inr (resp', None)"
  shows "code resp' \<noteq> PAM_SUCCESS"
  using assms by (auto simp: plain_user_def bindE_eq_Inr_iff split: if_splits option.splits)

lemma authenticate_plain_user:
  assumes "authenticate_plain env n now name pw b st = (Inr (resp, uo), st')"
  shows "code resp = PAM_SUCCESS \<longleftrightarrow> uo \<noteq> None"
  using assms plain_user_Some plain_user_None
  by (cases uo) (fastforce simp: authenticate_plain_def split: prod.splits)+

lemma login_as_creds:
  "login_as sid c st = (r, st') \<Longrightarrow> creds st' = creds st @ [c]"
  by (auto simp: login_as_def new_cred_def session_login_def split: option.splits if_splits)

lemma snd_andThen_final [simp]: "snd (andThen r (\<lambda>_ st. final_response c st)) = snd r"
  by (cases r; cases "fst r") (auto simp: andThen_def)

lemma check_auth_mechanism_frame:
  assumes "check_auth_mechanism sid mech a st = (r, st')"
  shows "creds st' = creds st \<and> toks st' = toks st \<and> tokens st' = tokens st \<and> sessions st' = sessions st
    \<and> aal_level st' = aal_level st \<and> otpw st' = otpw st"
  using assms by (auto simp: check_auth_mechanism_def Let_def split: if_splits)

lemma check_auth_mechanism_ok:
  assumes "check_auth_mechanism sid mech a st = (Inr (), st')"
  shows "aal_auth_mechanism_check mech (aal_level st) \<and>
    (mech = OTP_TOKEN \<longrightarrow> next_mech a = Some OTP_TOKEN \<and> st' = st)"
  using assms by (auto simp: check_auth_mechanism_def Let_def split: if_splits option.splits)

text \<open>The evidence for the credential a login adds to the store.\<close>

definition password_evidence :: "login_env \<Rightarrow> int \<Rightarrow> string \<Rightarrow> string \<Rightarrow> auth_state \<Rightarrow> cred \<Rightarrow> bool" where
  "password_evidence env now name pw st c \<longleftrightarrow>
     (\<exists>resp u cls. fst (authenticate_plain env 0 now name pw False st) = Inr (resp, Some u) \<and>
       c = UserC (new_user_cred cls u (Some (aal_level st)) now) \<and>
       (if ''OTPW'' \<in> set (account_attributes u) then cls = LoginOnetimePassword
        else cls = LoginPassword \<and> \<not> otp_mandatory (aal_level st) \<and>
          \<not> (twofactor_enabled env \<and> ''2FA'' \<in> set (account_attributes u))))"

definition login_evidence ::
  "login_env \<Rightarrow> int \<Rightarrow> string \<Rightarrow> login_data \<Rightarrow> auth_state \<Rightarrow> cred \<Rightarrow> bool" where
  "login_evidence env now sid data st c =
     (case data of
        PasswordLogin name pw \<Rightarrow> password_evidence env now name pw st c
      | ApiKeyLogin name key \<Rightarrow>
          (\<exists>u a o1. c = UserC (new_user_cred ApiKey u (Some (aal_level st)) now) \<and>
             map_of (apps st) sid = Some a \<and> app_origin a = Some o1 \<and> secure_transport (ip_is_loopback env) o1)
      | OtpLogin t \<Rightarrow>
          (\<exists>n u a. c = UserC (new_user_cred LoginTwofactor u (Some (aal_level st)) now) \<and>
             map_of (apps st) sid = Some a \<and> next_mech a = Some OTP_TOKEN \<and> auth_data a = Some (n, u) \<and>
             verify_twofactor_token env (username u) t)
      | TokenLogin s \<Rightarrow>
          (\<exists>t. c = TokenC t (the (root_credentials st t)) \<and> map_of (tokens st) s = Some t \<and>
             token_is_valid now (toks st ! t) \<and> t_attributes (toks st ! t) = []))"

lemma login_password_creds:
  assumes "login_password env now sid name pw st = (r, st')"
  shows "creds st' = creds st \<or> (\<exists>c. creds st' = creds st @ [c] \<and> password_evidence env now name pw st c)"
proof -
  obtain ra st1 where auth: "authenticate_plain env 0 now name pw False st = (ra, st1)" by force
  note frame = authenticate_plain_frame [OF auth]
  show ?thesis
  proof (cases ra)
    case (Inl e)
    with assms auth frame show ?thesis by (simp add: login_password_def)
  next
    case (Inr ru)
    obtain resp uo where ru: "ru = (resp, uo)" by force
    obtain req otpwu where flags: "otp_flags env PASSWORD_PLAIN resp uo = (req, otpwu)" by force
    show ?thesis
    proof (cases "\<not> req \<and> (otpwu \<or> \<not> otp_mandatory (aal_level st1)) \<and> code resp = PAM_SUCCESS")
      case True
      then obtain u where u: "uo = Some u"
        using authenticate_plain_user auth Inr ru by blast
      let ?c = "UserC (new_user_cred (if otpwu then LoginOnetimePassword else LoginPassword) u
          (Some (aal_level st1)) now)"
      obtain rl sl where la: "login_as sid ?c st1 = (rl, sl)" by force
      from assms auth Inr ru flags True u have "andThen (login_as sid ?c st1) (\<lambda>_ st2. final_response PAM_SUCCESS st2) = (r, st')"
        by (cases otpwu) (auto simp: login_password_def)
      then have "st' = sl" using la snd_andThen_final [of "(rl, sl)" PAM_SUCCESS] by simp
      then have "creds st' = creds st @ [?c]" using login_as_creds [OF la] frame by simp
      moreover have "password_evidence env now name pw st ?c"
        using True flags u auth Inr ru frame
        by (auto simp: password_evidence_def otp_flags_def split: if_splits)
      ultimately show ?thesis by blast
    next
      case False
      have "creds st' = creds st1"
        using assms auth Inr ru flags False snd_andThen_final [of "(audit_reason resp, st1)"]
        by (auto simp: login_password_def final_response_def audit_reason_def
            split: if_splits pam_code.splits option.splits)
      with frame show ?thesis by simp
    qed
  qed
qed

lemma login_otp_creds:
  assumes "login_otp env now sid t st = (r, st')"
  shows "creds st' = creds st \<or> (\<exists>n u a. creds st' = creds st @ [UserC (new_user_cred LoginTwofactor u (Some (aal_level st)) now)]
    \<and> map_of (apps st) sid = Some a \<and> auth_data a = Some (n, u) \<and> verify_twofactor_token env (username u) t)"
proof (cases "map_option auth_data (map_of (apps st) sid)")
  case (Some d)
  show ?thesis
  proof (cases d)
    case None
    with assms Some show ?thesis by (simp add: login_otp_def)
  next
    case d: (Some nu)
    obtain n u where nu: "nu = (n, u)" by force
    from Some d nu obtain a where a: "map_of (apps st) sid = Some a" "auth_data a = Some (n, u)" by auto
    let ?c = "UserC (new_user_cred LoginTwofactor u (Some (aal_level st)) now)"
    obtain rl sl where la: "login_as sid ?c (set_auth_ctx sid None None st) = (rl, sl)" by force
    show ?thesis
    proof (cases "verify_twofactor_token env (username u) t")
      case True
      with assms a la have "andThen (rl, sl) (\<lambda>_ st2. final_response PAM_SUCCESS st2) = (r, st')"
        by (simp add: login_otp_def Let_def)
      then have "st' = sl" using snd_andThen_final [of "(rl, sl)" PAM_SUCCESS] by simp
      with login_as_creds [OF la] a True show ?thesis by auto
    next
      case False
      with assms a show ?thesis
        by (auto simp: login_otp_def Let_def final_response_def split: if_splits)
    qed
  qed
qed (use assms in \<open>simp add: login_otp_def\<close>)

lemma login_token_creds:
  assumes "login_token now sid s a st = (r, st')"
  shows "creds st' = creds st \<or> (\<exists>t. creds st' = creds st @ [TokenC t (the (root_credentials st t))]
    \<and> map_of (tokens st) s = Some t \<and> token_is_valid now (toks st ! t) \<and> t_attributes (toks st ! t) = [])"
proof -
  obtain tok st1 where get: "token_get now s (app_origin a) st = (tok, st1)" by force
  have frame: "creds st1 = creds st" "toks st1 = toks st"
    using get by (auto simp: token_get_def Let_def split: option.splits if_splits)
  show ?thesis
  proof (cases tok)
    case None
    with assms get frame show ?thesis by (simp add: login_token_def)
  next
    case (Some t)
    with get have t: "map_of (tokens st) s = Some t" "token_is_valid now (toks st ! t)" "st1 = st"
      by (auto simp: token_get_def Let_def split: option.splits if_splits)
    show ?thesis
    proof (cases "t_attributes (toks st ! t) = []")
      case True
      obtain rl sl where sl: "session_login sid (length (creds st))
          (st\<lparr>creds := creds st @ [TokenC t (the (root_credentials st t))]\<rparr>) = (rl, sl)" by force
      then have "creds sl = creds st @ [TokenC t (the (root_credentials st t))]"
        by (auto simp: session_login_def split: option.splits if_splits)
      moreover from assms get Some True t sl have "creds st' = creds sl"
        by (cases rl) (auto simp: login_token_def token_cred_def new_cred_def final_response_PAM_SUCCESS)
      ultimately show ?thesis using t True by auto
    next
      case False
      with assms get Some t show ?thesis by (simp add: login_token_def)
    qed
  qed
qed

lemma login_api_key_creds:
  assumes "login_api_key env now sid name key st = (r, st')"
  shows "creds st' = creds st \<or> (\<exists>u a o1. creds st' = creds st @ [UserC (new_user_cred ApiKey u (Some (aal_level st)) now)]
    \<and> map_of (apps st) sid = Some a \<and> app_origin a = Some o1 \<and> secure_transport (ip_is_loopback env) o1)"
proof -
  let ?first = "andThen (authenticate_plain env 0 now name key True st) (\<lambda>(resp, u) st1.
      if code resp = PAM_AUTHINFO_UNAVAIL then authenticate_plain env 1 now name key True st1 else (Inr (resp, u), st1))"
  obtain rf st2 where first: "?first = (rf, st2)" by force
  have frame: "creds st2 = creds st \<and> apps st2 = apps st \<and> aal_level st2 = aal_level st"
    using first by (cases rule: andThen_cases [of "authenticate_plain env 0 now name key True st"])
      (auto dest!: authenticate_plain_frame split: prod.splits if_splits)
  show ?thesis
  proof (cases rf)
    case (Inl e)
    with assms first frame show ?thesis by (simp add: login_api_key_def)
  next
    case (Inr ru)
    obtain resp uo where ru: "ru = (resp, uo)" by force
    show ?thesis
    proof (cases "code resp = PAM_SUCCESS \<and> creds st' \<noteq> creds st2")
      case False
      show ?thesis
      proof (cases "code resp = PAM_SUCCESS")
        case True
        with False frame show ?thesis by simp
      next
        case fail: False
        have "(if reason resp = None \<and> code resp \<noteq> PAM_CRED_EXPIRED then (Inl KeyError, st2)
            else final_response (code resp) st2) = (r, st')"
          using assms first Inr ru fail by (simp add: login_api_key_def Let_def)
        then have "st' = st2"
          using final_response_state [of "code resp" st2] by (auto simp del: final_response_state split: if_splits)
        with frame show ?thesis by simp
      qed
    next
      case True
      let ?c = "UserC (new_user_cred ApiKey (the uo) (Some (aal_level st2)) now)"
      obtain rl sl where la: "login_as sid ?c st2 = (rl, sl)" by force
      have fin: "st3 = sl" if "andThen (rl, sl) (\<lambda>_ st3. final_response PAM_SUCCESS st3) = (r, st3)" for st3
        using that snd_andThen_final [of "(rl, sl)" PAM_SUCCESS] by simp
      from assms first Inr ru True la obtain a o1 where "map_of (apps st2) sid = Some a" "app_origin a = Some o1"
        "secure_transport (ip_is_loopback env) o1"
        "andThen (rl, sl) (\<lambda>_ st3. final_response PAM_SUCCESS st3) = (r, st')"
        by (auto simp: login_api_key_def Let_def split: if_splits option.splits)
      with fin [of st'] login_as_creds [OF la] frame show ?thesis by auto
    qed
  qed
qed

section \<open>The invariant of the store\<close>

definition base_cred :: "cred \<Rightarrow> bool" where
  "base_cred c \<longleftrightarrow> (\<forall>t r. c \<noteq> TokenC t r)"

definition cred_ok :: "auth_state \<Rightarrow> cred \<Rightarrow> bool" where
  "cred_ok st c = (case c of TokenC t r \<Rightarrow> t < length (toks st) \<and> r = t_parent (toks st ! t) | _ \<Rightarrow> True)"

definition tok_ok :: "auth_state \<Rightarrow> token \<Rightarrow> bool" where
  "tok_ok st t \<longleftrightarrow> t_parent t < length (creds st) \<and> base_cred (creds st ! t_parent t)"

fun ctx_ok :: "auth_mech option \<Rightarrow> (nat \<times> user) option \<Rightarrow> bool" where
  "ctx_ok None None = True"
| "ctx_ok (Some m) (Some (n, u)) = (m = OTP_TOKEN \<and> n \<le> MAX_OTP_ATTEMPTS)"
| "ctx_ok _ _ = False"

definition app_ok :: "auth_state \<Rightarrow> string \<Rightarrow> app \<Rightarrow> bool" where
  "app_ok st sid a \<longleftrightarrow>
     (\<forall>c. app_cred a = Some c \<longrightarrow> c < length (creds st)) \<and>
     (authenticated a \<longrightarrow> map_of (sessions st) sid \<noteq> None) \<and>
     ctx_ok (next_mech a) (auth_data a)"

definition auth_inv :: "auth_state \<Rightarrow> bool" where
  "auth_inv st \<longleftrightarrow>
     (\<forall>t \<in> set (toks st). tok_ok st t) \<and>
     (\<forall>c \<in> set (creds st). cred_ok st c) \<and>
     (\<forall>(s, t) \<in> set (tokens st). t < length (toks st) \<and> t_token (toks st ! t) = s) \<and>
     (\<forall>s c. map_of (sessions st) s = Some c \<longrightarrow> c < length (creds st)) \<and>
     (\<forall>s a. map_of (apps st) s = Some a \<longrightarrow> app_ok st s a) \<and>
     aal_level st \<in> {AA_LEVEL1, AA_LEVEL2, AA_LEVEL3}"

lemma auth_inv_update_app:
  assumes "auth_inv st" and "\<And>a. map_of (apps st) sid = Some a \<Longrightarrow> app_ok st sid a \<Longrightarrow> app_ok st sid (f a)"
  shows "auth_inv (update_app sid f st)"
proof -
  have "app_ok (update_app sid f st) = app_ok st" "tok_ok (update_app sid f st) = tok_ok st"
    "cred_ok (update_app sid f st) = cred_ok st"
    by (auto simp: app_ok_def tok_ok_def cred_ok_def fun_eq_iff split: cred.splits)
  with assms show ?thesis by (auto simp: auth_inv_def)
qed

lemma auth_inv_set_auth_ctx:
  assumes "auth_inv st" and "ctx_ok m d"
  shows "auth_inv (set_auth_ctx sid m d st)"
  unfolding set_auth_ctx_def using assms by (intro auth_inv_update_app) (auto simp: app_ok_def)

lemma auth_inv_new_cred:
  assumes "auth_inv st" and "cred_ok st c"
  shows "auth_inv (st\<lparr>creds := creds st @ [c]\<rparr>)"
proof -
  let ?st = "st\<lparr>creds := creds st @ [c]\<rparr>"
  have "cred_ok ?st = cred_ok st" by (auto simp: cred_ok_def fun_eq_iff split: cred.splits)
  moreover have "tok_ok st t \<Longrightarrow> tok_ok ?st t" for t by (auto simp: tok_ok_def nth_append)
  moreover have "app_ok st s a \<Longrightarrow> app_ok ?st s a" for s a by (fastforce simp: app_ok_def)
  ultimately show ?thesis using assms by (fastforce simp: auth_inv_def)
qed

lemma auth_inv_tokens:
  assumes "auth_inv st" and "\<And>s t. (s, t) \<in> set ts \<Longrightarrow> t < length (toks st) \<and> t_token (toks st ! t) = s"
  shows "auth_inv (st\<lparr>tokens := ts\<rparr>)"
proof -
  have "cred_ok (st\<lparr>tokens := ts\<rparr>) = cred_ok st" "tok_ok (st\<lparr>tokens := ts\<rparr>) = tok_ok st"
    "app_ok (st\<lparr>tokens := ts\<rparr>) = app_ok st"
    by (auto simp: cred_ok_def tok_ok_def app_ok_def fun_eq_iff split: cred.splits)
  with assms show ?thesis by (auto simp: auth_inv_def)
qed

lemma auth_inv_fewer_tokens:
  assumes "auth_inv st" and "set ts \<subseteq> set (tokens st)"
  shows "auth_inv (st\<lparr>tokens := ts\<rparr>)"
  using assms by (intro auth_inv_tokens) (auto simp: auth_inv_def)

lemma set_update_cases: "p \<in> set (AList.update k v al) \<Longrightarrow> p = (k, v) \<or> p \<in> set al"
  by (induction al) (auto split: if_splits)

lemma set_delete_subset: "set (AList.delete k al) \<subseteq> set al"
  by (auto simp: AList.delete_eq)

lemma auth_inv_token_destroy: "auth_inv st \<Longrightarrow> auth_inv (token_destroy t st)"
  unfolding token_destroy_def by (rule auth_inv_fewer_tokens [OF _ set_delete_subset])

lemma auth_inv_session_login:
  assumes "auth_inv st" and "c < length (creds st)"
  shows "auth_inv (snd (session_login sid c st))"
proof -
  let ?st = "st\<lparr>sessions := AList.update sid c (sessions st)\<rparr>"
  have "cred_ok ?st = cred_ok st" "tok_ok ?st = tok_ok st"
    by (auto simp: cred_ok_def tok_ok_def fun_eq_iff split: cred.splits)
  moreover have "app_ok st s a \<Longrightarrow> app_ok ?st s a" for s a by (auto simp: app_ok_def map_of_update)
  ultimately have inv: "auth_inv ?st" using assms by (auto simp: auth_inv_def map_of_update)
  show ?thesis
  proof (cases "map_of (apps st) sid")
    case (Some a)
    show ?thesis
      using Some assms(1) inv assms(2)
      by (auto simp: session_login_def app_ok_def map_of_update intro!: auth_inv_update_app)
  qed (use assms in \<open>simp add: session_login_def\<close>)
qed

lemma auth_inv_login_as:
  assumes "auth_inv st" and "cred_ok st c"
  shows "auth_inv (snd (login_as sid c st))"
  using auth_inv_session_login [OF auth_inv_new_cred [OF assms], of "length (creds st)"]
  by (simp add: login_as_def new_cred_def)

lemma auth_inv_outside:
  assumes "auth_inv st"
  shows "auth_inv (st\<lparr>otpw := m\<rparr>)" "auth_inv (st\<lparr>revoked_keys := ks\<rparr>)"
    "l \<in> {AA_LEVEL1, AA_LEVEL2, AA_LEVEL3} \<Longrightarrow> auth_inv (st\<lparr>aal_level := l\<rparr>)"
proof -
  have "cred_ok (st\<lparr>otpw := m\<rparr>) = cred_ok st" "tok_ok (st\<lparr>otpw := m\<rparr>) = tok_ok st"
    "app_ok (st\<lparr>otpw := m\<rparr>) = app_ok st"
    "cred_ok (st\<lparr>revoked_keys := ks\<rparr>) = cred_ok st" "tok_ok (st\<lparr>revoked_keys := ks\<rparr>) = tok_ok st"
    "app_ok (st\<lparr>revoked_keys := ks\<rparr>) = app_ok st"
    "cred_ok (st\<lparr>aal_level := l\<rparr>) = cred_ok st" "tok_ok (st\<lparr>aal_level := l\<rparr>) = tok_ok st"
    "app_ok (st\<lparr>aal_level := l\<rparr>) = app_ok st"
    by (auto simp: cred_ok_def tok_ok_def app_ok_def fun_eq_iff split: cred.splits)
  with assms show "auth_inv (st\<lparr>otpw := m\<rparr>)" "auth_inv (st\<lparr>revoked_keys := ks\<rparr>)"
    "l \<in> {AA_LEVEL1, AA_LEVEL2, AA_LEVEL3} \<Longrightarrow> auth_inv (st\<lparr>aal_level := l\<rparr>)"
    by (auto simp: auth_inv_def)
qed

lemma auth_inv_token_get: "auth_inv st \<Longrightarrow> auth_inv (snd (token_get now s orig st))"
  by (auto simp: token_get_def Let_def intro!: auth_inv_fewer_tokens dest!: subsetD [OF set_delete_subset]
      split: option.splits)

lemma token_get_Some:
  assumes "token_get now s orig st = (Some t, st')"
  shows "st' = st \<and> (s, t) \<in> set (tokens st) \<and> token_is_valid now (toks st ! t)"
  using assms by (auto simp: token_get_def Let_def dest!: map_of_SomeD split: option.splits if_splits)

lemma root_credentials_parent:
  assumes "auth_inv st" and "t < length (toks st)"
  shows "root_credentials st t = Some (t_parent (toks st ! t))"
proof -
  have "base_cred (creds st ! t_parent (toks st ! t))"
    using assms by (auto simp: auth_inv_def tok_ok_def)
  then show ?thesis by (simp add: root_credentials_def base_cred_def split: cred.splits)
qed

lemma auth_inv_token_cred:
  assumes "auth_inv st" and "t < length (toks st)"
  shows "auth_inv (snd (token_cred t st)) \<and> fst (token_cred t st) < length (creds (snd (token_cred t st)))
    \<and> toks (snd (token_cred t st)) = toks st"
  using auth_inv_new_cred [OF assms(1), of "TokenC t (t_parent (toks st ! t))"] root_credentials_parent [OF assms] assms(2)
  by (simp add: token_cred_def new_cred_def cred_ok_def)

lemma auth_inv_notify_used:
  assumes "auth_inv st" and "c < length (creds st)"
  shows "auth_inv (notify_used now c st)"
proof -
  have keep: "auth_inv (st\<lparr>creds := (creds st)[r := base_notify_used now (creds st ! r)], toks := ts\<rparr>)"
    if len: "length ts = length (toks st)"
      and upd: "\<And>i. i < length ts \<Longrightarrow> t_parent (ts ! i) = t_parent (toks st ! i) \<and> t_token (ts ! i) = t_token (toks st ! i)"
    for r ts
  proof -
    let ?st = "st\<lparr>creds := (creds st)[r := base_notify_used now (creds st ! r)], toks := ts\<rparr>"
    have same: "base_cred (creds ?st ! i) = base_cred (creds st ! i)" if "i < length (creds st)" for i
      using that by (cases "i = r"; cases "creds st ! r") (auto simp: base_cred_def)
    have cred_eq: "creds ?st ! i = creds st ! i \<or> (\<exists>u. creds ?st ! i = UserC u)" if "i < length (creds st)" for i
      using that by (cases "i = r"; cases "creds st ! r") auto
    have "tok_ok ?st (ts ! i)" if "i < length ts" for i
      using assms(1) same len upd [OF that] that by (auto simp: auth_inv_def tok_ok_def)
    moreover have "cred_ok ?st (creds ?st ! i)" if "i < length (creds st)" for i
    proof -
      have "cred_ok st (creds st ! i)" using assms(1) that by (auto simp: auth_inv_def)
      then have "cred_ok ?st (creds st ! i)" using len upd by (auto simp: cred_ok_def split: cred.splits)
      with cred_eq [OF that] show ?thesis by (auto simp: cred_ok_def)
    qed
    moreover have "app_ok ?st = app_ok st" by (auto simp: app_ok_def fun_eq_iff)
    ultimately show ?thesis
      using assms(1) len upd by (auto simp: auth_inv_def all_set_conv_all_nth)
  qed
  show ?thesis
  proof (cases "creds st ! c")
    case (TokenC t r)
    have "auth_inv (st\<lparr>creds := (creds st)[r := base_notify_used now (creds st ! r)],
        toks := (toks st)[t := (toks st ! t)\<lparr>t_last_used := now\<rparr>]\<rparr>)"
    proof (rule keep)
      fix i assume "i < length ((toks st)[t := (toks st ! t)\<lparr>t_last_used := now\<rparr>])"
      then show "t_parent ((toks st)[t := (toks st ! t)\<lparr>t_last_used := now\<rparr>] ! i) = t_parent (toks st ! i) \<and>
          t_token ((toks st)[t := (toks st ! t)\<lparr>t_last_used := now\<rparr>] ! i) = t_token (toks st ! i)"
        by (cases "i = t") auto
    qed simp
    with TokenC show ?thesis by (simp add: notify_used_def)
  qed (use keep [of "toks st" c] in \<open>simp_all add: notify_used_def\<close>)
qed

lemma auth_inv_session_logout:
  assumes "auth_inv st"
  shows "auth_inv (session_logout sid st)"
proof (cases "map_of (sessions st) sid")
  case None
  with assms show ?thesis
    by (auto simp: session_logout_def app_ok_def intro!: auth_inv_update_app)
next
  case (Some c)
  let ?st = "update_app sid (\<lambda>a. a\<lparr>authenticated := False\<rparr>) st"
  let ?st1 = "?st\<lparr>sessions := AList.delete sid (sessions st)\<rparr>"
  have inv: "auth_inv ?st" using assms by (auto simp: app_ok_def intro!: auth_inv_update_app)
  have "cred_ok ?st1 = cred_ok ?st" "tok_ok ?st1 = tok_ok ?st"
    by (auto simp: cred_ok_def tok_ok_def fun_eq_iff split: cred.splits)
  moreover have "app_ok ?st1 s a" if "map_of (apps ?st) s = Some a" for s a
  proof -
    have ok: "app_ok ?st s a" using inv that by (auto simp: auth_inv_def)
    show ?thesis
    proof (cases "s = sid")
      case True
      with that have "\<not> authenticated a" by auto
      with ok show ?thesis by (simp add: app_ok_def)
    qed (use ok in \<open>simp add: app_ok_def map_of_delete\<close>)
  qed
  ultimately have "auth_inv ?st1"
    using inv by (auto simp: auth_inv_def map_of_delete split: if_splits)
  moreover have "session_logout sid st = cred_logout c ?st1"
    using Some by (auto simp: session_logout_def cred_logout_def token_destroy_def update_app_def
        split: cred.splits option.splits)
  ultimately show ?thesis by (simp add: cred_logout_def auth_inv_token_destroy split: cred.splits)
qed

lemma auth_inv_on_message:
  assumes "auth_inv st"
  shows "auth_inv (app_on_message now sid st)"
proof (cases "map_of (sessions st) sid")
  case None
  have "auth_inv (update_app sid (\<lambda>a. a\<lparr>authenticated := False\<rparr>) st)"
    using assms by (rule auth_inv_update_app) (simp add: app_ok_def)
  with None show ?thesis by (simp add: app_on_message_def)
next
  case (Some c)
  with assms have "c < length (creds st)" by (auto simp: auth_inv_def)
  with Some assms show ?thesis
    by (simp add: app_on_message_def auth_inv_session_logout auth_inv_notify_used)
qed

lemma auth_inv_terminate: "auth_inv st \<Longrightarrow> auth_inv (snd (terminate_session sid st))"
  by (auto simp: terminate_session_def app_on_close_def destroy_by_session_id_def
      intro!: auth_inv_session_logout auth_inv_fewer_tokens split: option.splits)

lemma auth_inv_terminate_others: "auth_inv st \<Longrightarrow> auth_inv (terminate_other_sessions cur st)"
proof -
  have "auth_inv st \<Longrightarrow> auth_inv (fold (\<lambda>sid st. if sid = cur \<or> is_internal_session st sid then st
      else snd (terminate_session sid st)) sids st)" for sids
    by (induction sids arbitrary: st) (auto simp: auth_inv_terminate)
  then show "auth_inv st \<Longrightarrow> auth_inv (terminate_other_sessions cur st)"
    by (simp add: terminate_other_sessions_def)
qed

lemma auth_inv_token_create:
  assumes inv: "auth_inv st" and "c < length (creds st)"
  shows "auth_inv (token_create s now ttl attrs orig c sid single st)"
proof -
  let ?parent = "case creds st ! c of TokenC t r \<Rightarrow> (case root_credentials st t of Some c \<Rightarrow> c | None \<Rightarrow> c) | _ \<Rightarrow> c"
  have parent: "?parent < length (creds st) \<and> base_cred (creds st ! ?parent)"
  proof (cases "creds st ! c")
    case (TokenC t r)
    with inv assms(2) have "t < length (toks st)" by (auto simp: auth_inv_def cred_ok_def dest!: nth_mem split: cred.splits)
    then have "tok_ok st (toks st ! t)" using inv by (auto simp: auth_inv_def)
    with TokenC root_credentials_parent [OF inv \<open>t < length (toks st)\<close>] show ?thesis by (simp add: tok_ok_def)
  qed (use assms(2) in \<open>simp_all add: base_cred_def\<close>)
  define tok where "tok = \<lparr>t_token = s, t_ttl = ttl, t_attributes = attrs, match_origin = orig, t_parent = ?parent,
      session_ids = [sid], single_use = single, t_last_used = now\<rparr>"
  let ?st = "st\<lparr>toks := toks st @ [tok]\<rparr>"
  have "cred_ok st c \<Longrightarrow> cred_ok ?st c" for c by (auto simp: cred_ok_def nth_append split: cred.splits)
  moreover have "tok_ok ?st = tok_ok st" "app_ok ?st = app_ok st" by (auto simp: tok_ok_def app_ok_def fun_eq_iff)
  moreover have "tok_ok st tok" using parent by (simp add: tok_ok_def tok_def)
  moreover have old: "t < length (toks ?st) \<and> t_token (toks ?st ! t) = n" if "(n, t) \<in> set (tokens st)" for n t
    using inv that by (auto simp: auth_inv_def nth_append)
  ultimately have "auth_inv ?st" using inv by (auto simp: auth_inv_def)
  then have "auth_inv (?st\<lparr>tokens := AList.update s (length (toks st)) (tokens st)\<rparr>)"
  proof (rule auth_inv_tokens)
    fix n t assume "(n, t) \<in> set (AList.update s (length (toks st)) (tokens st))"
    from set_update_cases [OF this] old show "t < length (toks ?st) \<and> t_token (toks ?st ! t) = n"
      by (auto simp: tok_def)
  qed
  then show ?thesis by (simp add: token_create_def Let_def tok_def)
qed

lemma auth_inv_generate_token: "auth_inv st \<Longrightarrow> auth_inv (snd (generate_token s now sid ttl attrs b single st))"
  by (auto simp: generate_token_def auth_inv_def [of st] app_ok_def
      intro!: auth_inv_token_create split: option.splits)

lemma auth_inv_get_token: "auth_inv st \<Longrightarrow> auth_inv (snd (get_token now s orig st))"
  using auth_inv_token_get [of st now s orig]
  by (auto simp: get_token_def auth_inv_token_destroy split: prod.splits option.splits)

lemma auth_inv_shell: "auth_inv st \<Longrightarrow> auth_inv (snd (get_token_for_shell_application now s orig st))"
  using auth_inv_token_get [of st now s orig]
  by (auto simp: get_token_for_shell_application_def Let_def auth_inv_token_destroy
      split: prod.splits option.splits cred.splits)

lemma token_get_range:
  assumes "auth_inv st" and "token_get now s orig st = (Some t, st')"
  shows "st' = st" and "t < length (toks st)" and "t_token (toks st ! t) = s"
  using token_get_Some [OF assms(2)] assms(1) by (auto simp: auth_inv_def)

lemma auth_inv_action:
  assumes "auth_inv st"
  shows "auth_inv (snd (get_token_for_action now s orig method res st))"
proof (cases "token_get now s orig st")
  case (Pair t st1)
  show ?thesis
  proof (cases t)
    case None
    with Pair auth_inv_token_get [OF assms, of now s orig] show ?thesis by (simp add: get_token_for_action_def)
  next
    case (Some t)
    with Pair token_get_range [OF assms] have t: "st1 = st" "t < length (toks st)" by auto
    have "auth_inv (snd (token_cred t st))" "auth_inv (snd (token_cred t (token_destroy t st)))"
      using auth_inv_token_cred [OF assms t(2)] auth_inv_token_cred [OF auth_inv_token_destroy [OF assms], of t t] t
      by simp_all
    with Pair Some t assms show ?thesis
      by (auto simp: get_token_for_action_def Let_def split: prod.splits)
  qed
qed

lemma auth_inv_authenticate_plain:
  assumes "auth_inv st"
  shows "auth_inv (snd (authenticate_plain env n now name pw b st))"
  using auth_inv_outside(1) [OF assms]
  by (auto simp: authenticate_plain_def plain_response_def onetime_password_authenticate_def Let_def assms
      split: prod.splits option.splits)

lemma auth_inv_check_mechanism: "auth_inv st \<Longrightarrow> auth_inv (snd (check_auth_mechanism sid m a st))"
  by (auto simp: check_auth_mechanism_def Let_def intro: auth_inv_set_auth_ctx)

lemma auth_inv_andThen:
  assumes "auth_inv (snd r)" and "\<And>x st. r = (Inr x, st) \<Longrightarrow> auth_inv st \<Longrightarrow> auth_inv (snd (f x st))"
  shows "auth_inv (snd (andThen r f))"
  using assms by (cases r; cases "fst r") (auto simp: andThen_def)

lemma cred_ok_UserC [simp]: "cred_ok st (UserC u)"
  by (simp add: cred_ok_def)

lemma auth_inv_login_password: "auth_inv st \<Longrightarrow> auth_inv (snd (login_password env now sid name pw st))"
  unfolding login_password_def
  by (rule auth_inv_andThen)
    (auto simp: auth_inv_authenticate_plain auth_inv_login_as
      intro!: auth_inv_set_auth_ctx auth_inv_andThen split: prod.splits pam_code.splits)

lemma auth_inv_login_api_key: "auth_inv st \<Longrightarrow> auth_inv (snd (login_api_key env now sid name key st))"
  unfolding login_api_key_def Let_def
  by (rule auth_inv_andThen, rule auth_inv_andThen)
    (auto simp: auth_inv_authenticate_plain auth_inv_login_as auth_inv_outside
      intro!: auth_inv_andThen split: prod.splits option.splits)

lemma auth_inv_login_otp:
  assumes "auth_inv st"
  shows "auth_inv (snd (login_otp env now sid t st))"
  using assms
  by (auto simp: login_otp_def Let_def MAX_OTP_ATTEMPTS_def
      intro!: auth_inv_set_auth_ctx auth_inv_login_as auth_inv_andThen split: option.splits)

lemma auth_inv_login_token:
  assumes "auth_inv st"
  shows "auth_inv (snd (login_token now sid s a st))"
proof (cases "token_get now s (app_origin a) st")
  case (Pair t st1)
  show ?thesis
  proof (cases t)
    case None
    with Pair auth_inv_token_get [OF assms, of now s "app_origin a"] show ?thesis by (simp add: login_token_def)
  next
    case (Some t)
    with Pair token_get_range [OF assms] have t: "st1 = st" "t < length (toks st)" by auto
    from auth_inv_token_cred [OF assms t(2)] Pair Some t(1) assms show ?thesis
      by (auto simp: login_token_def auth_inv_session_login auth_inv_token_destroy
          intro!: auth_inv_andThen split: prod.splits)
  qed
qed

lemma auth_inv_login_ex: "auth_inv st \<Longrightarrow> auth_inv (snd (login_ex env now sid data st))"
  by (auto simp: login_ex_def auth_inv_check_mechanism auth_inv_login_password auth_inv_login_api_key
      auth_inv_login_otp auth_inv_login_token intro!: auth_inv_andThen split: option.splits login_data.splits)

lemma auth_inv_check_permission: "auth_inv st \<Longrightarrow> auth_inv (snd (check_permission env now sid st))"
  by (auto simp: check_permission_def auth_inv_login_as split: option.splits sum.splits)

lemma auth_inv_connect: "auth_inv st \<Longrightarrow> auth_inv (connect_app sid orig st)"
proof -
  assume inv: "auth_inv st"
  let ?st = "connect_app sid orig st"
  have "cred_ok ?st = cred_ok st" "tok_ok ?st = tok_ok st" "app_ok ?st = app_ok st"
    by (auto simp: connect_app_def cred_ok_def tok_ok_def app_ok_def fun_eq_iff split: cred.splits)
  with inv show "auth_inv ?st"
    by (auto simp: auth_inv_def) (auto simp: connect_app_def map_of_update app_ok_def split: if_splits)
qed

section \<open>The authentication service as a state machine\<close>

datatype auth_op =
    Connect string "origin option"
  | CheckPermission login_env int string
  | LoginEx login_env int string login_data
  | Logout string
  | Message int string
  | Terminate string
  | TerminateOthers string
  | GenerateToken string int string "int option" "string dict" bool bool
  | GetToken int string "origin option"
  | TokenForAction int string "origin option" string string
  | TokenForShell int string "origin option"
  | SetAal string
  | GenerateOtp "string \<Rightarrow> string" string int int

fun auth_run :: "auth_op \<Rightarrow> auth_state \<Rightarrow> auth_state" where
  "auth_run (Connect sid orig) st = connect_app sid orig st"
| "auth_run (CheckPermission env now sid) st = snd (check_permission env now sid st)"
| "auth_run (LoginEx env now sid data) st = snd (login_ex env now sid data st)"
| "auth_run (Logout sid) st = session_logout sid st"
| "auth_run (Message now sid) st = app_on_message now sid st"
| "auth_run (Terminate sid) st = snd (terminate_session sid st)"
| "auth_run (TerminateOthers sid) st = terminate_other_sessions sid st"
| "auth_run (GenerateToken s now sid ttl attrs b single) st = snd (generate_token s now sid ttl attrs b single st)"
| "auth_run (GetToken now s orig) st = snd (get_token now s orig st)"
| "auth_run (TokenForAction now s orig m r) st = snd (get_token_for_action now s orig m r st)"
| "auth_run (TokenForShell now s orig) st = snd (get_token_for_shell_application now s orig st)"
| "auth_run (SetAal l) st = snd (set_authenticator_assurance_level l st)"
| "auth_run (GenerateOtp crypt p now uid) st = st\<lparr>otpw := snd (generate_for_uid crypt p now uid (otpw st))\<rparr>"

definition auth_start :: auth_state where
  "auth_start = \<lparr>creds = [], toks = [], tokens = [], sessions = [], apps = [], aal_level = AA_LEVEL1,
     otpw = new_otp_manager, revoked_keys = []\<rparr>"

definition auth_step :: "auth_state \<Rightarrow> auth_state \<Rightarrow> bool" where
  "auth_step st st' \<longleftrightarrow> (\<exists>c. st' = auth_run c st)"

lemma auth_inv_run: "auth_inv st \<Longrightarrow> auth_inv (auth_run c st)"
  by (cases c) (auto simp: auth_inv_connect auth_inv_check_permission auth_inv_login_ex auth_inv_session_logout
      auth_inv_on_message auth_inv_terminate auth_inv_terminate_others auth_inv_generate_token auth_inv_get_token
      auth_inv_action auth_inv_shell set_authenticator_assurance_level_def intro!: auth_inv_outside)

lemma auth_inv_start: "auth_inv auth_start"
  by (simp add: auth_inv_def auth_start_def)

interpretation auth: inductive_invariant "\<lambda>st. st = auth_start" auth_step auth_inv
  by unfold_locales (auto simp: auth_step_def auth_inv_run auth_inv_start)

abbreviation auth_reachable :: "auth_state \<Rightarrow> bool" where
  "auth_reachable \<equiv> reach (\<lambda>st. st = auth_start) auth_step"

lemma auth_reachable_run: "auth_reachable st \<Longrightarrow> auth_reachable (auth_run c st)"
  by (rule reach_step) (auto simp: auth_step_def)

section \<open>One-time passwords\<close>

lemma human_friendly_chars: "c \<in> set (human_friendly p) \<Longrightarrow> c = CHR ''-'' \<or> c \<in> set p"
  by (auto simp: human_friendly_def dest!: str_join_chars in_set_takeD in_set_dropD)

definition otp_inv :: "otp_manager \<Rightarrow> bool" where
  "otp_inv m \<longleftrightarrow> (\<forall>k e. map_of (otpasswd m) k = Some e \<longrightarrow> (\<exists>i \<le> cnt m. k = str_of_nat i))"

datatype otp_op = OtpGenerate "string \<Rightarrow> string" string int int | OtpAuth "string \<Rightarrow> string \<Rightarrow> bool" int int string

fun otp_run :: "otp_op \<Rightarrow> otp_manager \<Rightarrow> otp_manager" where
  "otp_run (OtpGenerate crypt p now uid) m = snd (generate_for_uid crypt p now uid m)"
| "otp_run (OtpAuth chk now uid pw) m = snd (otp_authenticate chk now uid pw m)"

text \<open>The entry of an index that has been used stays used, whatever is called afterwards.\<close>

definition spent :: "string \<Rightarrow> otp_manager \<Rightarrow> bool" where
  "spent idx m \<longleftrightarrow> (\<exists>e. map_of (otpasswd m) idx = Some e \<and> used e)"

lemma otp_authenticate_cases:
  obtains r where "otp_authenticate chk now uid pw m = (r, m)" and "r \<noteq> OTPW_SUCCESS"
  | idx passwd e where "str_split (CHR ''_'') pw = [idx, passwd]" and "map_of (otpasswd m) idx = Some e"
      and "otp_uid e = uid" and "\<not> used e" and "now \<le> otp_expires e" and "chk passwd (keyhash e)"
      and "otp_authenticate chk now uid pw m =
        (OTPW_SUCCESS, m\<lparr>otpasswd := AList.update idx (e\<lparr>used := True\<rparr>) (otpasswd m)\<rparr>)"
proof (cases "\<exists>idx passwd e. str_split (CHR ''_'') pw = [idx, passwd] \<and> map_of (otpasswd m) idx = Some e \<and>
    otp_uid e = uid \<and> \<not> used e \<and> now \<le> otp_expires e \<and> chk passwd (keyhash e)")
  case True
  then obtain idx passwd e where e: "str_split (CHR ''_'') pw = [idx, passwd]" "map_of (otpasswd m) idx = Some e"
    "otp_uid e = uid" "\<not> used e" "now \<le> otp_expires e" "chk passwd (keyhash e)" by blast
  then show thesis by (intro that(2)) (auto simp: otp_authenticate_def)
next
  case False
  then have "\<exists>r. otp_authenticate chk now uid pw m = (r, m) \<and> r \<noteq> OTPW_SUCCESS"
    by (auto simp: otp_authenticate_def split: list.splits option.splits)
  then show thesis using that(1) by blast
qed

lemma otp_inv_run: "otp_inv m \<Longrightarrow> otp_inv (otp_run c m)"
proof (cases c)
  case (OtpGenerate crypt p now uid)
  assume "otp_inv m"
  with OtpGenerate show ?thesis
    by (auto simp: otp_inv_def generate_for_uid_def Let_def map_of_update split: if_splits intro: le_SucI)
next
  case (OtpAuth chk now uid pw)
  assume "otp_inv m"
  with OtpAuth show ?thesis
    by (cases rule: otp_authenticate_cases [of chk now uid pw m])
      (auto simp: otp_inv_def map_of_update split: if_splits)
qed

lemma spent_run:
  assumes "otp_inv m" and "spent idx m"
  shows "spent idx (otp_run c m)"
proof (cases c)
  case (OtpGenerate crypt p now uid)
  from assms obtain i where "i \<le> cnt m" "idx = str_of_nat i" by (auto simp: otp_inv_def spent_def)
  then have "idx \<noteq> str_of_nat (Suc (cnt m))" by (simp add: str_of_nat_inj)
  with OtpGenerate assms(2) show ?thesis
    by (auto simp: spent_def generate_for_uid_def Let_def map_of_update)
next
  case (OtpAuth chk now uid pw)
  with assms(2) show ?thesis
    by (cases rule: otp_authenticate_cases [of chk now uid pw m]) (auto simp: spent_def map_of_update)
qed

interpretation spent_passwords: inductive_invariant
  "\<lambda>m. otp_inv m \<and> spent idx m" "\<lambda>m m'. \<exists>c. m' = otp_run c m" "\<lambda>m. otp_inv m \<and> spent idx m" for idx
  by unfold_locales (auto simp: otp_inv_run spent_run)

lemma fold_otp_steps: "(\<lambda>m m'. \<exists>c. m' = otp_run c m)\<^sup>*\<^sup>* m (fold otp_run cs m)"
  by (induction cs arbitrary: m) (auto intro: converse_rtranclp_into_rtranclp)

lemma spent_rejected:
  assumes "spent idx m" and "str_split (CHR ''_'') pw = [idx, passwd]"
  shows "fst (otp_authenticate chk now uid pw m) \<in> {ALREADY_USED, WRONG_USER}"
  using assms by (auto simp: otp_authenticate_def spent_def split: if_splits)

end
