(* ===== verification/AuthProperties.thy ===== *)
theory AuthProperties
  imports LoginProofs
begin

text \<open>
  The properties of authentication, with concrete instances: a small environment with one local
  user \<open>bob\<close> who has a second factor.
\<close>

section \<open>A small environment\<close>

definition bob_privilege :: composed where
  "bob_privilege = \<lparr>c_roles = [''A_READ''], c_allowlist = [\<lparr>a_method = ''CALL'', a_resource = ''a.query''\<rparr>],
     c_web_shell = False, c_webui_access = True\<rparr>"

definition demo_login :: login_env where
  "demo_login = \<lparr>failover_backup = False,
     db_lookup = (\<lambda>n. if n = ''bob'' then Some (7, 3000, None) else None),
     db_lookup_uid = (\<lambda>u. None), ds_uid = (\<lambda>n. None), always_has_root_password = False,
     unixhash_is_valid = (\<lambda>h. h \<noteq> None), check_unixhash = (\<lambda>p h. h = ''$6$'' @ p),
     libpam = (\<lambda>n u p k. if u = ''bob'' \<and> p = ''secret''
       then \<lparr>code = PAM_SUCCESS, reason = Some ''Success'', otpw_response = None\<rparr>
       else \<lparr>code = PAM_AUTH_ERR, reason = Some ''Authentication failure'', otpw_response = None\<rparr>),
     get_user_obj = (\<lambda>q. if q = ByName ''bob'' then Some \<lparr>pw_name = ''bob'', pw_uid = 3000,
       nss_source = ''LOCAL'', nss_local = True, nss_sid = [], grouplist = [3000]\<rparr> else None),
     twofactor_secret = (\<lambda>i l. True),
     privilege_rows = [demo_privilege], unixids_sids = (\<lambda>g. None), compose = (\<lambda>ps. Inr bob_privilege),
     twofactor_enabled = True, verify_twofactor_token = (\<lambda>u t. t = ''123456''),
     api_key_row = (\<lambda>i. None), ip_is_loopback = (\<lambda>a. Some False)\<rparr>"

definition bob :: user where
  "bob = \<lparr>username = ''bob'', account_attributes = [''LOCAL'', ''2FA''], u_privilege = bob_privilege\<rparr>"

lemmas demo_login_sel = demo_login_def login_env.simps

lemma bob_authenticates:
  "authenticate_plain demo_login n now ''bob'' ''secret'' False st =
     (Inr (\<lparr>code = PAM_SUCCESS, reason = Some ''Success'', otpw_response = None\<rparr>, Some bob), st)"
  by (simp add: authenticate_plain_def plain_response_def plain_user_def pam_step_def db_info_def
      authenticate_user_def privileges_for_groups_def privileges_group_mapping_def local_key_def
      demo_privilege_def ADMIN_UID_def bob_def demo_login_def)

definition connected :: auth_state where
  "connected = auth_run (Connect ''s1'' None) auth_start"

definition challenged :: auth_state where
  "challenged = auth_run (LoginEx demo_login 0 ''s1'' (PasswordLogin ''bob'' ''secret'')) connected"

lemma connected_app:
  "map_of (apps connected) ''s1'' = Some \<lparr>app_origin = None, authenticated = False, app_cred = None,
     next_mech = None, auth_data = None\<rparr>"
  "aal_level connected = AA_LEVEL1"
  by (simp_all add: connected_def connect_app_def auth_start_def)

lemma connected_reachable: "auth_reachable connected"
  unfolding connected_def by (intro auth_reachable_run reach_init) simp

lemma bob_challenged:
  "login_ex demo_login 0 ''s1'' (PasswordLogin ''bob'' ''secret'') connected =
     (Inr (OtpRequired ''bob''), set_auth_ctx ''s1'' (Some OTP_TOKEN) (Some (0, bob)) connected)"
  by (simp add: login_ex_def connected_app check_auth_mechanism_def aal_auth_mechanism_check_def AA_LEVEL1_def
      login_password_def bob_authenticates otp_flags_def)
    (simp add: demo_login_def bob_def)

lemma challenged_eq: "challenged = set_auth_ctx ''s1'' (Some OTP_TOKEN) (Some (0, bob)) connected"
  by (simp add: challenged_def bob_challenged)

section \<open>Properties of authentication\<close>



text \<open>A sequence of tokens sent one after the other.\<close>

fun otp_guesses ::
  "login_env \<Rightarrow> int \<Rightarrow> string \<Rightarrow> string list \<Rightarrow> auth_state \<Rightarrow> (exn + login_response) list \<times> auth_state" where
  "otp_guesses env now sid [] st = ([], st)"
| "otp_guesses env now sid (t # ts) st =
     (case login_ex env now sid (OtpLogin t) st of
        (r, st1) \<Rightarrow> (case otp_guesses env now sid ts st1 of (rs, st2) \<Rightarrow> (r # rs, st2)))"

definition otp_pending :: "auth_state \<Rightarrow> string \<Rightarrow> nat \<Rightarrow> user \<Rightarrow> bool" where
  "otp_pending st sid n u \<longleftrightarrow>
     (\<exists>a. map_of (apps st) sid = Some a \<and> next_mech a = Some OTP_TOKEN \<and> auth_data a = Some (n, u))"

lemma otp_wrong_guess:
  assumes "otp_pending st sid n u" and "\<not> failover_backup env" and "\<not> verify_twofactor_token env (username u) t"
  shows "login_ex env now sid (OtpLogin t) st =
    (if n < MAX_OTP_ATTEMPTS
     then (Inr (OtpRequired (username u)), set_auth_ctx sid (Some OTP_TOKEN) (Some (Suc n, u)) (set_auth_ctx sid None None st))
     else (Inr (Response AUTH_ERR), set_auth_ctx sid None None st))"
  using assms
  by (auto simp: otp_pending_def login_ex_def check_auth_mechanism_def aal_auth_mechanism_check_def
      login_otp_def Let_def final_response_def)

lemma otp_guesses_from:
  "otp_pending st sid n u \<Longrightarrow> \<not> failover_backup env \<Longrightarrow> (\<And>t. t \<in> set ts \<Longrightarrow> \<not> verify_twofactor_token env (username u) t)
    \<Longrightarrow> length ts + n = Suc MAX_OTP_ATTEMPTS \<Longrightarrow> n \<le> MAX_OTP_ATTEMPTS \<Longrightarrow>
    \<exists>st'. otp_guesses env now sid ts st =
        (replicate (length ts - 1) (Inr (OtpRequired (username u))) @ [Inr (Response AUTH_ERR)], st') \<and>
      creds st' = creds st \<and> (\<exists>a. map_of (apps st') sid = Some a \<and> next_mech a = None \<and> auth_data a = None)"
proof (induction ts arbitrary: n st)
  case (Cons t ts)
  show ?case
  proof (cases "n < MAX_OTP_ATTEMPTS")
    case True
    let ?st = "set_auth_ctx sid (Some OTP_TOKEN) (Some (Suc n, u)) (set_auth_ctx sid None None st)"
    have "otp_pending ?st sid (Suc n) u" using Cons.prems(1) by (auto simp: otp_pending_def)
    with Cons.IH [of ?st "Suc n"] Cons.prems True obtain st' where
      "otp_guesses env now sid ts ?st =
        (replicate (length ts - 1) (Inr (OtpRequired (username u))) @ [Inr (Response AUTH_ERR)], st')"
      "creds st' = creds st" "\<exists>a. map_of (apps st') sid = Some a \<and> next_mech a = None \<and> auth_data a = None"
      by auto
    moreover have "ts \<noteq> []" using Cons.prems(4) True by auto
    ultimately show ?thesis
      using otp_wrong_guess [OF Cons.prems(1,2)] Cons.prems(3) True by (cases ts) auto
  next
    case False
    moreover have "length ts + n = MAX_OTP_ATTEMPTS" using Cons.prems(4) by simp
    ultimately have "length ts = 0" by linarith
    then have "ts = []" by simp
    with otp_wrong_guess [OF Cons.prems(1,2)] Cons.prems(1,3) \<open>\<not> n < MAX_OTP_ATTEMPTS\<close> show ?thesis
      by (auto simp: otp_pending_def)
  qed
qed simp



text \<open>
  The assurance level gates the mechanisms: a mechanism it does not list is refused with
  \<open>EOPNOTSUPP\<close> before any credential is looked at, and no session changes.
\<close>

theorem mechanism_refused_at_level:
  assumes "mech_of data \<notin> set (mechanism_choices st)" and "mech_of data \<noteq> OTP_TOKEN"
    and "\<not> failover_backup env" and "map_of (apps st) sid = Some a"
  shows "\<exists>st'. login_ex env now sid data st =
      (Inl (CallError ''mechanism is not supported at current authenticator level.'' EOPNOTSUPP), st') \<and>
    creds st' = creds st \<and> sessions st' = sessions st \<and> tokens st' = tokens st"
  using assms
  by (auto simp: login_ex_def check_auth_mechanism_def Let_def aal_auth_mechanism_check_def mechanism_choices_def)

theorem mechanism_refused_at_level_witness:
  "\<exists>st'. login_ex demo_login 0 ''s1'' (TokenLogin ''t'') (auth_run (SetAal ''LEVEL_2'') connected) =
      (Inl (CallError ''mechanism is not supported at current authenticator level.'' EOPNOTSUPP), st') \<and>
    creds st' = creds (auth_run (SetAal ''LEVEL_2'') connected) \<and>
    sessions st' = sessions (auth_run (SetAal ''LEVEL_2'') connected) \<and>
    tokens st' = tokens (auth_run (SetAal ''LEVEL_2'') connected)"
  by (rule mechanism_refused_at_level [where a = "\<lparr>app_origin = None, authenticated = False, app_cred = None,
        next_mech = None, auth_data = None\<rparr>"])
    (simp_all add: set_authenticator_assurance_level_def mechanism_choices_def AA_LEVEL2_def demo_login_def connected_app)

text \<open>
  C17. A single-use token logs in once: in every reachable state, after a login with it succeeded
  the token manager does not know it any more, at any time and from any origin.
\<close>

theorem single_use_token_once:
  assumes "auth_reachable st" and "login_ex env now sid (TokenLogin s) st = (Inr (Response SUCCESS), st')"
    and "map_of (tokens st) s = Some t" and "single_use (toks st ! t)"
  shows "fst (token_get now' s orig st') = None"
proof -
  from auth.reach_inv [OF assms(1)] have inv: "auth_inv st" .
  from assms(2) obtain a st1 where a: "map_of (apps st) sid = Some a"
    and chk: "check_auth_mechanism sid TOKEN_PLAIN a st = (Inr (), st1)"
    and run: "login_token now sid s a st1 = (Inr (Response SUCCESS), st')"
    by (auto simp: login_ex_def andThen_def split: if_splits option.splits prod.splits sum.splits)
  note frame = check_auth_mechanism_frame [OF chk]
  have "auth_inv st1" using auth_inv_check_mechanism [OF inv, of sid TOKEN_PLAIN a] chk by simp
  obtain tok st2 where get: "token_get now s (app_origin a) st1 = (tok, st2)" by force
  with run obtain t2 where tok: "tok = Some t2" by (cases tok) (auto simp: login_token_def)
  note t2 = token_get_range [OF \<open>auth_inv st1\<close> get [unfolded tok]]
  have "t2 = t" using get tok frame assms(3) by (auto simp: token_get_def Let_def split: option.splits if_splits)
  with assms(4) frame have single: "single_use (toks st1 ! t2)" by simp
  have "tokens st' = AList.delete s (tokens st1)"
    using run get tok t2 single
    by (auto simp: login_token_def andThen_def token_cred_def new_cred_def session_login_def token_destroy_def
        final_response_PAM_SUCCESS split: if_splits option.splits prod.splits sum.splits)
  then show ?thesis by (simp add: token_get_def map_of_delete)
qed

definition with_token :: auth_state where
  "with_token = auth_run (GenerateToken ''tok'' 10 ''s1'' None [] False True)
     (auth_run (LoginEx demo_login 1 ''s1'' (OtpLogin ''123456'')) challenged)"

lemmas store_eval = login_as_def new_cred_def session_login_def update_app_def set_auth_ctx_def
  challenged_eq connected_def connect_app_def auth_start_def

lemma bob_logged_in:
  "snd (login_ex demo_login 1 ''s1'' (OtpLogin ''123456'') challenged) =
     snd (login_as ''s1'' (UserC (new_user_cred LoginTwofactor bob (Some AA_LEVEL1) 1))
       (set_auth_ctx ''s1'' None None challenged))"
proof -
  have "demo_login \<lparr>failover_backup := False\<rparr> = demo_login" "\<not> failover_backup demo_login"
    "verify_twofactor_token demo_login u ''123456''" for u
    by (simp_all add: demo_login_def)
  then show ?thesis
    by (simp add: login_ex_def challenged_eq connected_app check_auth_mechanism_def
        aal_auth_mechanism_check_def login_otp_def Let_def)
qed

lemma logged_in_eq:
  "snd (login_ex demo_login 1 ''s1'' (OtpLogin ''123456'') challenged) =
     \<lparr>creds = [UserC (new_user_cred LoginTwofactor bob (Some AA_LEVEL1) 1)], toks = [], tokens = [],
      sessions = [(''s1'', 0)],
      apps = [(''s1'', \<lparr>app_origin = None, authenticated = True, app_cred = Some 0, next_mech = None, auth_data = None\<rparr>)],
      aal_level = AA_LEVEL1, otpw = new_otp_manager, revoked_keys = []\<rparr>"
  unfolding bob_logged_in by (simp add: store_eval)

lemma with_token_facts:
  "map_of (tokens with_token) ''tok'' = Some 0" "toks with_token = [\<lparr>t_token = ''tok'', t_ttl = 600, t_attributes = [],
     match_origin = None, t_parent = 0, session_ids = [''s1''], single_use = True, t_last_used = 10\<rparr>]"
  "map_of (apps with_token) ''s1'' = Some \<lparr>app_origin = None, authenticated = True, app_cred = Some 0,
     next_mech = None, auth_data = None\<rparr>" "map_of (sessions with_token) ''s1'' = Some 0"
  "aal_level with_token = AA_LEVEL1"
  by (simp_all add: with_token_def logged_in_eq generate_token_def token_create_def may_create_auth_token_def)
    (simp_all add: new_user_cred_def AA_LEVEL1_def)

lemma with_token_reachable: "auth_reachable with_token"
  unfolding with_token_def challenged_def by (intro auth_reachable_run connected_reachable)

lemma token_login_succeeds:
  "\<exists>st'. login_ex demo_login 20 ''s1'' (TokenLogin ''tok'') with_token = (Inr (Response SUCCESS), st')"
  by (simp add: login_ex_def with_token_facts check_auth_mechanism_def aal_auth_mechanism_check_def
      login_token_def token_get_def token_is_valid_def token_cred_def new_cred_def session_login_def
      final_response_PAM_SUCCESS get_authenticator_assurance_level_def)
    (simp add: demo_login_def AA_LEVEL1_def)

theorem single_use_token_once_witness:
  "\<exists>st'. login_ex demo_login 20 ''s1'' (TokenLogin ''tok'') with_token = (Inr (Response SUCCESS), st') \<and>
     fst (token_get 21 ''tok'' None st') = None"
proof -
  obtain st' where st': "login_ex demo_login 20 ''s1'' (TokenLogin ''tok'') with_token = (Inr (Response SUCCESS), st')"
    using token_login_succeeds by blast
  have "fst (token_get 21 ''tok'' None st') = None"
    by (rule single_use_token_once [OF with_token_reachable st', of 0]) (simp_all add: with_token_facts)
  with st' show ?thesis by blast
qed

text \<open>
  Terminating a session ends it and everything made from it: the session is gone, the
  application counts as not authenticated, and no token created in that session is left.
\<close>

theorem terminate_session_revokes:
  assumes "map_of (sessions st) sid = Some c" and "map_of (apps st) sid = Some a"
    and "terminate_session sid st = (r, st')"
  shows "r \<and> map_of (sessions st') sid = None \<and> map_of (apps st') sid = Some (a\<lparr>authenticated := False\<rparr>) \<and>
    sid \<notin> (\<Union>(s, t) \<in> set (tokens st'). set (session_ids (toks st ! t)))"
proof -
  let ?st = "destroy_by_session_id sid st"
  have r: r and st': "st' =
      update_app sid (\<lambda>a. a\<lparr>authenticated := False\<rparr>) (cred_logout c (?st\<lparr>sessions := AList.delete sid (sessions st)\<rparr>))"
    using assms(1,3)
    by (simp_all add: terminate_session_def app_on_close_def session_logout_def destroy_by_session_id_def)
  have "set (tokens (cred_logout c (?st\<lparr>sessions := AList.delete sid (sessions st)\<rparr>))) \<subseteq> set (tokens ?st)"
    using set_delete_subset by (fastforce simp: cred_logout_def token_destroy_def split: cred.splits)
  moreover have "sid \<notin> set (session_ids (toks st ! t))" if "(s, t) \<in> set (tokens ?st)" for s t
    using that by (simp add: destroy_by_session_id_def)
  ultimately have toks: "sid \<notin> (\<Union>(s, t) \<in> set (tokens st'). set (session_ids (toks st ! t)))"
    unfolding st' by auto
  have frame: "sessions (cred_logout c x) = sessions x" "apps (cred_logout c x) = apps x" for x
    by (simp_all add: cred_logout_def split: cred.splits)
  have "map_of (sessions st') sid = None" unfolding st' by (simp add: frame map_of_delete)
  moreover have "map_of (apps st') sid = Some (a\<lparr>authenticated := False\<rparr>)"
    unfolding st' using assms(2) by (simp add: frame destroy_by_session_id_def)
  ultimately show ?thesis using r toks by simp
qed

theorem terminate_session_revokes_witness:
  "fst (terminate_session ''s1'' with_token) \<and>
    map_of (sessions (snd (terminate_session ''s1'' with_token))) ''s1'' = None \<and>
    map_of (apps (snd (terminate_session ''s1'' with_token))) ''s1'' =
      Some (\<lparr>app_origin = None, authenticated = True, app_cred = Some 0, next_mech = None, auth_data = None\<rparr>
        \<lparr>authenticated := False\<rparr>) \<and>
    ''s1'' \<notin> (\<Union>(s, t) \<in> set (tokens (snd (terminate_session ''s1'' with_token))).
      set (session_ids (toks with_token ! t)))"
  by (rule terminate_session_revokes [OF with_token_facts(4,3)]) simp

lemma expired_once:
  assumes "\<not> user_is_valid now u" and "now \<le> n"
  shows "\<not> user_is_valid now (user_notify_used n u)"
  using assms by (auto simp: user_is_valid_def user_notify_used_def timeout_of_def split: option.splits if_splits)

lemma expired_later: "\<not> user_is_valid now u \<Longrightarrow> now \<le> n \<Longrightarrow> \<not> user_is_valid n u"
  by (auto simp: user_is_valid_def split: option.splits)



text \<open>
  C18. A one-time password works once: after it authenticated somebody, no sequence of later
  operations of the manager makes the same password succeed again.
\<close>

theorem onetime_password_once:
  assumes "otp_inv m" and "otp_authenticate chk now uid pw m = (OTPW_SUCCESS, m')"
  shows "fst (otp_authenticate chk' now' uid' pw (fold otp_run ops m')) \<in> {ALREADY_USED, WRONG_USER}"
proof -
  from assms(2) obtain idx passwd e where e: "str_split (CHR ''_'') pw = [idx, passwd]"
    "m' = m\<lparr>otpasswd := AList.update idx (e\<lparr>used := True\<rparr>) (otpasswd m)\<rparr>"
    by (cases rule: otp_authenticate_cases [of chk now uid pw m]) auto
  have "otp_inv m'" using otp_inv_run [OF assms(1), of "OtpAuth chk now uid pw"] assms(2) by simp
  moreover have "spent idx m'" using e(2) by (simp add: spent_def map_of_update)
  ultimately have "spent idx (fold otp_run ops m')"
    using spent_passwords.steps_inv [OF fold_otp_steps] by blast
  then show ?thesis using spent_rejected e(1) by blast
qed

text \<open>The password \<open>abcdef-ghijkl-mnopqr-stuvwx\<close> generated for user id 3000.\<close>

definition demo_crypt :: "string \<Rightarrow> string" where "demo_crypt s = ''$6$'' @ s"
definition demo_check :: "string \<Rightarrow> string \<Rightarrow> bool" where "demo_check p h \<longleftrightarrow> h = ''$6$'' @ p"

definition issued :: "string \<times> otp_manager" where
  "issued = generate_for_uid demo_crypt ''abcdefghijklmnopqrstuvwx'' 0 3000 new_otp_manager"

lemma issued_eq:
  "issued = (''1_abcdef-ghijkl-mnopqr-stuvwx'', \<lparr>otpasswd = [(''1'', \<lparr>otp_uid = 3000, otp_expires = 86400,
     keyhash = ''$6$abcdef-ghijkl-mnopqr-stuvwx'', used = False\<rparr>)], cnt = 1\<rparr>)"
  by (simp add: issued_def generate_for_uid_def human_friendly_def demo_crypt_def new_otp_manager_def
      str_of_nat.simps char_of_def bit_simps Let_def)

lemma issued_accepted:
  "otp_authenticate demo_check 10 3000 (fst issued) (snd issued) =
     (OTPW_SUCCESS, \<lparr>otpasswd = [(''1'', \<lparr>otp_uid = 3000, otp_expires = 86400,
     keyhash = ''$6$abcdef-ghijkl-mnopqr-stuvwx'', used = True\<rparr>)], cnt = 1\<rparr>)"
  by (simp add: issued_eq otp_authenticate_def demo_check_def)

theorem onetime_password_once_witness:
  "fst (otp_authenticate demo_check 20 3000 (fst issued) (fold otp_run [OtpGenerate demo_crypt ''x'' 5 0]
      (snd (otp_authenticate demo_check 10 3000 (fst issued) (snd issued))))) \<in> {ALREADY_USED, WRONG_USER}"
proof (rule onetime_password_once)
  show "otp_inv (snd issued)"
    using otp_inv_run [of new_otp_manager "OtpGenerate demo_crypt ''abcdefghijklmnopqrstuvwx'' 0 3000"]
    by (simp add: issued_def otp_inv_def new_otp_manager_def)
  show "otp_authenticate demo_check 10 3000 (fst issued) (snd issued) =
      (OTPW_SUCCESS, snd (otp_authenticate demo_check 10 3000 (fst issued) (snd issued)))"
    by (simp add: issued_accepted)
qed

text \<open>
  A one-time password that was just issued authenticates its user, for a day, when the hash
  of a text checks against the text and the generated string has no underscore.
\<close>

theorem onetime_password_roundtrip:
  assumes "generate_for_uid sha512_crypt p now uid m = (pw, m')" and "CHR ''_'' \<notin> set p"
    and "\<And>s. check s (sha512_crypt s)" and "now \<le> now'" and "now' \<le> now + 86400"
  shows "fst (otp_authenticate check now' uid pw m') = OTPW_SUCCESS"
proof -
  have "CHR ''_'' \<notin> set (human_friendly p)" using assms(2) human_friendly_chars by fastforce
  moreover have "CHR ''_'' \<notin> set (str_of_nat (Suc (cnt m)))"
    using str_of_nat_digits by (fastforce simp: is_digit_def)
  ultimately have "str_split (CHR ''_'') pw = [str_of_nat (Suc (cnt m)), human_friendly p]"
    using assms(1) by (auto simp: generate_for_uid_def Let_def str_split_append_sep str_split_no_sep)
  with assms show ?thesis
    by (auto simp: generate_for_uid_def Let_def otp_authenticate_def map_of_update)
qed

theorem onetime_password_roundtrip_witness:
  "fst (otp_authenticate demo_check 10 3000 (fst issued) (snd issued)) = OTPW_SUCCESS"
  by (rule onetime_password_roundtrip [where now = 0 and p = "''abcdefghijklmnopqrstuvwx''"
        and sha512_crypt = demo_crypt and m = new_otp_manager])
    (simp_all add: issued_def demo_check_def demo_crypt_def)

text \<open>
  A login with an expired one-time password does not answer \<open>EXPIRED\<close>: the response
  built for it has no \<open>reason\<close>, and reading it for the audit message raises
  \<open>KeyError\<close>.
\<close>

theorem expired_onetime_password_raises:
  assumes "map_of (apps st) sid = Some a" and "next_mech a = None" and "\<not> failover_backup env"
    and "aal_level st = AA_LEVEL1" and "code (pam_step env 0 name pw False) = PAM_AUTH_ERR"
    and "db_uid (fst (db_info env name)) = Some uid"
    and "fst (otp_authenticate (check_unixhash env) now uid pw (otpw st)) = OTPW_EXPIRED"
  shows "fst (login_ex env now sid (PasswordLogin name pw) st) = Inl KeyError"
proof -
  have "fst (onetime_password_authenticate env now uid pw st) =
      Some \<lparr>code = PAM_CRED_EXPIRED, reason = None, otpw_response = Some ''Onetime password is expired''\<rparr>"
    using assms(7) by (simp add: onetime_password_authenticate_def case_prod_unfold)
  then obtain st1 where one: "onetime_password_authenticate env now uid pw st =
      (Some \<lparr>code = PAM_CRED_EXPIRED, reason = None, otpw_response = Some ''Onetime password is expired''\<rparr>, st1)"
    by (metis prod.collapse)
  then have "authenticate_plain env 0 now name pw False st = (Inr (\<lparr>code = PAM_CRED_EXPIRED, reason = None,
      otpw_response = Some ''Onetime password is expired''\<rparr>, None), st1)"
    using assms(5,6) by (simp add: authenticate_plain_def plain_response_def plain_user_def)
  moreover have "aal_level st1 = AA_LEVEL1" using onetime_frame [OF one] assms(4) by simp
  ultimately show ?thesis
    using assms(1-4)
    by (simp add: login_ex_def check_auth_mechanism_def aal_auth_mechanism_check_def login_password_def
        otp_flags_def audit_reason_def) (simp add: AA_LEVEL1_def audit_reason_def)
qed

theorem expired_onetime_password_raises_witness:
  "fst (login_ex demo_login 90000 ''s1'' (PasswordLogin ''bob'' (fst issued)) (connected\<lparr>otpw := snd issued\<rparr>))
     = Inl KeyError"
  by (rule expired_onetime_password_raises [where uid = 3000 and a = "\<lparr>app_origin = None,
        authenticated = False, app_cred = None, next_mech = None, auth_data = None\<rparr>"])
    (simp_all add: connected_app pam_step_def db_info_def demo_login_def issued_eq otp_authenticate_def)

text \<open>
  In every reachable state the loop of \<open>root_credentials\<close> ends, at a credential of the
  store that is not a token's: however tokens are made from sessions that were themselves opened
  with tokens, the chain behind a token has one link.
\<close>

theorem root_credentials_ends:
  assumes "auth_reachable st" and "t < length (toks st)"
  shows "\<exists>c < length (creds st). root_credentials st t = Some c \<and> (\<forall>x y. creds st ! c \<noteq> TokenC x y)"
  using root_credentials_parent [OF auth.reach_inv [OF assms(1)] assms(2)] auth.reach_inv [OF assms(1)] assms(2)
  by (auto simp: auth_inv_def tok_ok_def base_cred_def)

theorem root_credentials_ends_witness:
  "\<exists>c < length (creds with_token). root_credentials with_token 0 = Some c \<and> (\<forall>x y. creds with_token ! c \<noteq> TokenC x y)"
  by (rule root_credentials_ends [OF with_token_reachable]) (simp add: with_token_facts)

text \<open>
  A connection that counts as authenticated has a session, so logging it in again never
  fails on a missing session.
\<close>

theorem relogin_finds_session:
  assumes "auth_reachable st" and "map_of (apps st) sid = Some a"
  shows "fst (session_login sid c st) = Inr ()"
proof -
  have "app_ok st sid a" using auth.reach_inv [OF assms(1)] assms(2) by (auto simp: auth_inv_def)
  with assms(2) show ?thesis by (auto simp: app_ok_def session_login_def)
qed

theorem relogin_finds_session_witness: "fst (session_login ''s1'' 0 with_token) = Inr ()"
  by (rule relogin_finds_session [OF with_token_reachable with_token_facts(3)])

end
