(* ===== verification/Jobs.thy ===== *)
theory Jobs
  imports Login Filters Systems
begin

text \<open>
  Jobs (\<open>job.py\<close>, the job methods of \<open>service/core_service.py\<close>): the shared locks, the
  queue and its scheduler, the bounded table of jobs, and the life of a job from its
  construction to its removal.

  Jobs and locks are objects that the queue, the table and the locks share, so both live in
  a store: a list of jobs and a list of locks, referred to by position. A coroutine runs
  without interruption between two points where it suspends; each such segment is one
  operation here, and the point at which \<open>Job.run\<close> is suspended is part of the job
  (\<open>run_pc\<close>). What the method of a job does, the contents of its log file and the failure
  to open it are arguments of the operations. Python's recursion limit bounds the forwarding
  of progress through wrapped jobs.
\<close>

section \<open>Data\<close>

datatype job_state = S_WAITING | S_RUNNING | S_SUCCESS | S_FAILED | S_ABORTED

definition finished_states :: "job_state set" where
  "finished_states = {S_SUCCESS, S_FAILED, S_ABORTED}"

datatype job_access = READ | ABORT

text \<open>\<open>lock=\<close> of the decorator: a constant or a callable on the arguments.\<close>

datatype lock_spec = ConstLock "string option" | CallLock "pyval list \<Rightarrow> exn + string option"

record job_options =
  opt_lock :: lock_spec
  lock_queue_size :: "int option"
  opt_logs :: bool
  opt_pipes :: "string list"
  check_pipes :: bool
  opt_transient :: bool
  opt_description :: "(pyval list \<Rightarrow> exn + pyval) option"
  opt_abortable :: bool
  read_roles :: "string list"

text \<open>The defaults of the \<open>job\<close> decorator.\<close>

definition default_options :: job_options where
  "default_options =
     \<lparr>opt_lock = ConstLock None, lock_queue_size = Some 5, opt_logs = False, opt_pipes = [],
      check_pipes = True, opt_transient = False, opt_description = None, opt_abortable = False,
      read_roles = []\<rparr>"

record progress =
  percent :: int
  p_description :: pyval
  p_extra :: pyval

text \<open>
  Where \<open>Job.run\<close> is: not handed out by the scheduler; its task created; the log file
  opened; its body running; the outcome stored and logs and pipes being closed; the lock
  released and the callback running; returned. \<open>PCrashed\<close>: an exception left \<open>run\<close> before
  its \<open>try\<close>. \<open>PReceived\<close>: a finished job of the other controller, which is never run.
\<close>

datatype run_pc = PPending | PHanded | POpened | PBody | PClosing | PReleased | PEnded | PCrashed | PReceived

record job =
  j_method :: string
  j_args :: "pyval list"
  j_options :: job_options
  j_pipes :: "string list"
  j_app :: "string option"
  j_id :: "nat option"
  j_lock :: "nat option"
  j_result :: pyval
  j_error :: "exn option"
  aborted :: bool
  j_state :: job_state
  j_description :: pyval
  j_progress :: progress
  time_started :: int
  time_finished :: "int option"
  j_future :: bool
  wrapped :: "nat list"
  on_finish_cb :: bool
  on_finish_cb_called :: bool
  logs_path :: "string option"
  logs_fd :: bool
  logs_excerpt :: "string option"
  finished :: bool
  pc :: run_pc

record shared_lock =
  l_name :: string
  l_jobs :: "nat list"
  l_locked :: bool

record jobs_queue =
  q_jobs :: "job list"
  q_locks :: "shared_lock list"
  deque_count :: nat
  deque_dict :: "(nat \<times> nat) list"
  q_queue :: "nat list"
  queue_event :: bool
  job_locks :: "nat dict"
  sent :: "(string \<times> nat option) list"

definition new_jobs_queue :: jobs_queue where
  "new_jobs_queue = \<lparr>q_jobs = [], q_locks = [], deque_count = 0, deque_dict = [], q_queue = [],
     queue_event = False, job_locks = [], sent = []\<rparr>"

abbreviation job_of :: "jobs_queue \<Rightarrow> nat \<Rightarrow> job" where
  "job_of q r \<equiv> q_jobs q ! r"

abbreviation lock_of :: "jobs_queue \<Rightarrow> nat \<Rightarrow> shared_lock" where
  "lock_of q l \<equiv> q_locks q ! l"

definition upd_job :: "nat \<Rightarrow> (job \<Rightarrow> job) \<Rightarrow> jobs_queue \<Rightarrow> jobs_queue" where
  "upd_job r f q = q\<lparr>q_jobs := (q_jobs q)[r := f (job_of q r)]\<rparr>"

definition upd_lock :: "nat \<Rightarrow> (shared_lock \<Rightarrow> shared_lock) \<Rightarrow> jobs_queue \<Rightarrow> jobs_queue" where
  "upd_lock l f q = q\<lparr>q_locks := (q_locks q)[l := f (lock_of q l)]\<rparr>"

section \<open>Shared locks\<close>

definition JobSharedLock :: "string \<Rightarrow> shared_lock" where
  "JobSharedLock name = \<lparr>l_name = name, l_jobs = [], l_locked = False\<rparr>"

definition add_job :: "nat \<Rightarrow> shared_lock \<Rightarrow> shared_lock" where
  "add_job r k = k\<lparr>l_jobs := List.insert r (l_jobs k)\<rparr>"

definition remove_job :: "nat \<Rightarrow> shared_lock \<Rightarrow> shared_lock" where
  "remove_job r k = k\<lparr>l_jobs := removeAll r (l_jobs k)\<rparr>"

text \<open>\<open>asyncio.Lock\<close>: acquiring a free lock does not suspend, releasing a free one raises.\<close>

definition lock_acquire :: "shared_lock \<Rightarrow> shared_lock" where
  "lock_acquire k = k\<lparr>l_locked := True\<rparr>"

definition lock_release :: "shared_lock \<Rightarrow> exn + shared_lock" where
  "lock_release k = (if l_locked k then Inr (k\<lparr>l_locked := False\<rparr>) else Inl RuntimeError)"

section \<open>Jobs\<close>

definition check_pipe :: "job \<Rightarrow> string \<Rightarrow> exn + unit" where
  "check_pipe j p = (if p \<in> set (j_pipes j) then Inr () else Inl (ValueError ''Pipe is not open''))"

definition Job ::
  "string \<Rightarrow> pyval list \<Rightarrow> job_options \<Rightarrow> string list \<Rightarrow> string option \<Rightarrow> int \<Rightarrow> exn + job" where
  "Job method args options pipes app now =
     (let j = \<lparr>j_method = method, j_args = args, j_options = options, j_pipes = pipes, j_app = app,
               j_id = None, j_lock = None, j_result = VNone, j_error = None, aborted = False,
               j_state = S_WAITING,
               j_description = (case opt_description options of
                                  None \<Rightarrow> VNone
                                | Some f \<Rightarrow> (case f args of Inl e \<Rightarrow> VNone | Inr d \<Rightarrow> d)),
               j_progress = \<lparr>percent = 0, p_description = VStr [], p_extra = VNone\<rparr>,
               time_started = now, time_finished = None, j_future = False, wrapped = [],
               on_finish_cb = False, on_finish_cb_called = False, logs_path = None, logs_fd = False,
               logs_excerpt = None, finished = False, pc = PPending\<rparr>
      in bindE (if check_pipes options then mapE (check_pipe j) (opt_pipes options) else Inr []) (\<lambda>_. Inr j))"

definition get_lock_name :: "job \<Rightarrow> exn + string option" where
  "get_lock_name j =
     (case opt_lock (j_options j) of
        ConstLock n \<Rightarrow> Inr n
      | CallLock f \<Rightarrow>
          (case f (j_args j) of
             Inl e \<Rightarrow> Inl (CallError ''Error handling job lock. This is most likely caused by invalid call arguments.'' EINVAL)
           | Inr n \<Rightarrow> Inr n))"

text \<open>The credentials of a job are those its connection has now.\<close>

definition job_credentials :: "auth_state \<Rightarrow> job \<Rightarrow> nat option" where
  "job_credentials st j =
     (case j_app j of
        None \<Rightarrow> None
      | Some sid \<Rightarrow> (case map_of (apps st) sid of None \<Rightarrow> None | Some a \<Rightarrow> app_cred a))"

definition credential_username :: "auth_state \<Rightarrow> nat option \<Rightarrow> string option" where
  "credential_username st c =
     (case c of None \<Rightarrow> None | Some c \<Rightarrow> map_option (\<lambda>u. username (uc_user u)) (session_user st c))"

definition credential_access_error :: "auth_state \<Rightarrow> job \<Rightarrow> nat option \<Rightarrow> job_access \<Rightarrow> string option" where
  "credential_access_error st j credential access =
     (case credential of
        None \<Rightarrow> None
      | Some c \<Rightarrow>
          if \<not> credential_is_limited_to_own_jobs st (Some c) then None
          else if access = READ \<and> session_user st c \<noteq> None \<and>
                  list_ex (has_role st c) (read_roles (j_options j)) then None
          else if session_user st c = None \<or> credential_has_full_admin st c then None
          else case credential_username st (job_credentials st j) of
                 None \<Rightarrow> Some ''Only users with full administrative privileges can access internally ran jobs''
               | Some owner \<Rightarrow>
                   if Some owner = credential_username st (Some c) then None
                   else Some ''Job is not owned by current session'')"

definition credential_can_access :: "auth_state \<Rightarrow> job \<Rightarrow> nat option \<Rightarrow> job_access \<Rightarrow> bool" where
  "credential_can_access st j credential access \<longleftrightarrow> credential_access_error st j credential access = None"

definition set_state :: "job_state \<Rightarrow> int \<Rightarrow> job \<Rightarrow> exn + job" where
  "set_state s now j =
     (if j_state j = S_WAITING \<and> s \<in> {S_WAITING, S_SUCCESS} then Inl AssertionError
      else if j_state j = S_RUNNING \<and> s \<in> {S_WAITING, S_RUNNING} then Inl AssertionError
      else if j_state j \<in> finished_states then Inl AssertionError
      else let j1 = j\<lparr>j_state := s\<rparr> in
           Inr (if s \<in> finished_states then j1\<lparr>time_finished := Some now\<rparr> else j1))"

definition send_job_event :: "string \<Rightarrow> nat \<Rightarrow> jobs_queue \<Rightarrow> jobs_queue" where
  "send_job_event event_type r q = q\<lparr>sent := sent q @ [(event_type, j_id (job_of q r))]\<rparr>"

definition should_send_job_event :: "auth_state \<Rightarrow> job \<Rightarrow> nat option \<Rightarrow> bool" where
  "should_send_job_event st j client =
     (case client of None \<Rightarrow> True | Some c \<Rightarrow> credential_can_access st j (Some c) READ)"

definition set_description :: "nat \<Rightarrow> pyval \<Rightarrow> jobs_queue \<Rightarrow> jobs_queue" where
  "set_description r d q =
     (if py_eq (j_description (job_of q r)) d then q
      else send_job_event ''CHANGED'' r (upd_job r (\<lambda>j. j\<lparr>j_description := d\<rparr>) q))"

text \<open>
  The new progress: a percentage that is given replaces the old one, a description and an
  extra only when they are true. \<open>isinstance(percent, (int, float))\<close> holds of booleans.
\<close>

definition merge_progress :: "pyval \<Rightarrow> pyval \<Rightarrow> pyval \<Rightarrow> progress \<Rightarrow> exn + progress" where
  "merge_progress p d e pr =
     (case (if p = VNone then Some (percent pr) else num_of p) of
        None \<Rightarrow> Inl AssertionError
      | Some n \<Rightarrow>
          Inr \<lparr>percent = n,
               p_description = (if truthy d \<and> \<not> py_eq (p_description pr) d then d else p_description pr),
               p_extra = (if truthy e \<and> \<not> py_eq (p_extra pr) e then e else p_extra pr)\<rparr>)"

fun set_progress :: "nat \<Rightarrow> nat \<Rightarrow> pyval \<Rightarrow> pyval \<Rightarrow> pyval \<Rightarrow> jobs_queue \<Rightarrow> jobs_queue op_result" where
  "set_progress 0 r p d e q = (Inl RecursionError, q)"
| "set_progress (Suc n) r p d e q =
     (case merge_progress p d e (j_progress (job_of q r)) of
        Inl x \<Rightarrow> (Inl x, q)
      | Inr pr \<Rightarrow>
          let q1 = upd_job r (\<lambda>j. j\<lparr>j_progress := pr\<rparr>) q;
              q2 = (if pr \<noteq> j_progress (job_of q r) then send_job_event ''CHANGED'' r q1 else q1)
          in run_seq (\<lambda>w. set_progress n w (VInt (percent pr)) (p_description pr) (p_extra pr))
               (wrapped (job_of q r)) q2)"

text \<open>Python's default recursion limit bounds the chain of wrapped jobs.\<close>

definition recursion_limit :: nat where "recursion_limit = 1000"

definition abort :: "nat \<Rightarrow> jobs_queue \<Rightarrow> jobs_queue" where
  "abort r q =
     (if j_future (job_of q r) then q
      else if j_state (job_of q r) = S_WAITING then upd_job r (\<lambda>j. j\<lparr>aborted := True\<rparr>) q
      else q)"

section \<open>The table of jobs\<close>

definition deque_maxlen :: nat where "deque_maxlen = 1000"

definition deque_remove :: "nat \<Rightarrow> jobs_queue \<Rightarrow> jobs_queue" where
  "deque_remove i q = q\<lparr>deque_dict := AList.delete i (deque_dict q)\<rparr>"

definition deque_add :: "nat \<Rightarrow> jobs_queue \<Rightarrow> jobs_queue" where
  "deque_add r q =
     (let i = Suc (deque_count q);
          q1 = upd_job r (\<lambda>j. j\<lparr>j_id := Some i\<rparr>) (q\<lparr>deque_count := i\<rparr>);
          q2 = (if length (deque_dict q1) > deque_maxlen
                then (case find (\<lambda>(k, o1). j_state (job_of q1 o1) \<in> finished_states) (deque_dict q1) of
                        Some (k, o1) \<Rightarrow> deque_remove k q1
                      | None \<Rightarrow> q1)
                else q1)
      in q2\<lparr>deque_dict := AList.update i r (deque_dict q2)\<rparr>)"

section \<open>The queue\<close>

definition handle_lock :: "nat \<Rightarrow> jobs_queue \<Rightarrow> jobs_queue op_result" where
  "handle_lock r q =
     (case get_lock_name (job_of q r) of
        Inl e \<Rightarrow> (Inl e, q)
      | Inr None \<Rightarrow> (Inr (), q)
      | Inr (Some name) \<Rightarrow>
          (case (case map_of (job_locks q) name of
                   Some l \<Rightarrow> (l, q)
                 | None \<Rightarrow>
                     (length (q_locks q),
                      q\<lparr>q_locks := q_locks q @ [JobSharedLock name],
                        job_locks := AList.update name (length (q_locks q)) (job_locks q)\<rparr>)) of
             (l, q1) \<Rightarrow> (Inr (), upd_job r (\<lambda>j. j\<lparr>j_lock := Some l\<rparr>) (upd_lock l (add_job r) q1))))"

text \<open>
  The queued job that replaces the new one when the queue of its lock is full: the last one
  for an unrestricted caller, the last one of the same user otherwise. A queued job without
  credentials has no \<open>is_user_session\<close>.
\<close>

fun replacement :: "auth_state \<Rightarrow> jobs_queue \<Rightarrow> job \<Rightarrow> nat list \<Rightarrow> exn + nat" where
  "replacement st q j [] = Inl (CallError ''This job is already being performed by another user'' EBUSY)"
| "replacement st q j (r # rs) =
     (if \<not> credential_is_limited_to_own_jobs st (job_credentials st j) then Inr r
      else if credential_username st (job_credentials st j) = None then replacement st q j rs
      else case job_credentials st (job_of q r) of
             None \<Rightarrow> Inl AttributeError
           | Some c \<Rightarrow>
               if credential_username st (Some c) \<noteq> None \<and>
                  credential_username st (job_credentials st j) = credential_username st (Some c)
               then Inr r else replacement st q j rs)"

definition queued_with :: "jobs_queue \<Rightarrow> nat option \<Rightarrow> nat list" where
  "queued_with q l = filter (\<lambda>r. j_lock (job_of q r) = l) (q_queue q)"

text \<open>What \<open>add\<close> decides before it queues the job: a replacement, a refusal, or neither.\<close>

definition admission :: "auth_state \<Rightarrow> nat \<Rightarrow> jobs_queue \<Rightarrow> exn + nat option" where
  "admission st r q =
     (let j = job_of q r in
      case lock_queue_size (j_options j) of
        None \<Rightarrow> Inr None
      | Some limit \<Rightarrow>
          if limit = 0 then
            (if list_ex (\<lambda>(k, a). j_state (job_of q a) = S_RUNNING \<and> j_lock (job_of q a) = j_lock j) (deque_dict q)
             then Inl (CallError ''This job is already being performed'' EBUSY) else Inr None)
          else if int (length (queued_with q (j_lock j))) \<ge> limit
            then bindE (replacement st q j (rev (queued_with q (j_lock j)))) (\<lambda>a. Inr (Some a))
          else Inr None)"

definition enqueue :: "nat \<Rightarrow> jobs_queue \<Rightarrow> jobs_queue" where
  "enqueue r q =
     (let q1 = deque_add r q;
          q2 = send_job_event ''ADDED'' r (q1\<lparr>q_queue := q_queue q1 @ [r]\<rparr>)
      in q2\<lparr>queue_event := True\<rparr>)"

definition queue_add :: "auth_state \<Rightarrow> nat \<Rightarrow> jobs_queue \<Rightarrow> (exn + nat) \<times> jobs_queue" where
  "queue_add st r q =
     (case handle_lock r q of
        (Inl e, q1) \<Rightarrow> (Inl e, q1)
      | (Inr u, q1) \<Rightarrow>
          (case admission st r q1 of
             Inl e \<Rightarrow> (Inl e, q1)
           | Inr (Some a) \<Rightarrow> (Inr a, q1)
           | Inr None \<Rightarrow> (Inr r, enqueue r q1)))"

definition release_lock :: "nat \<Rightarrow> jobs_queue \<Rightarrow> jobs_queue op_result" where
  "release_lock r q =
     (case j_lock (job_of q r) of
        None \<Rightarrow> (Inr (), q)
      | Some l \<Rightarrow>
          let q1 = upd_lock l (remove_job r) q in
          case lock_release (lock_of q1 l) of
            Inl e \<Rightarrow> (Inl e, q1)
          | Inr k \<Rightarrow>
              let q2 = upd_lock l (\<lambda>_. k) q1 in
              if l_jobs k = [] \<and> map_of (job_locks q2) (l_name k) = None then (Inl KeyError, q2)
              else let q3 = (if l_jobs k = [] then q2\<lparr>job_locks := AList.delete (l_name k) (job_locks q2)\<rparr> else q2)
                   in (Inr (), q3\<lparr>queue_event := True\<rparr>))"

definition runnable :: "jobs_queue \<Rightarrow> nat \<Rightarrow> bool" where
  "runnable q r = (case j_lock (job_of q r) of None \<Rightarrow> True | Some l \<Rightarrow> \<not> l_locked (lock_of q l))"

text \<open>One turn of the loop of \<open>next\<close>, after its event was set.\<close>

definition queue_next :: "jobs_queue \<Rightarrow> nat option \<times> jobs_queue" where
  "queue_next q =
     (case find (runnable q) (q_queue q) of
        Some r \<Rightarrow>
          let q1 = (case j_lock (job_of q r) of None \<Rightarrow> q | Some l \<Rightarrow> upd_lock l lock_acquire q);
              q2 = q1\<lparr>q_queue := remove1 r (q_queue q1)\<rparr>
          in (Some r, if q_queue q2 = [] then q2\<lparr>queue_event := False\<rparr> else q2)
      | None \<Rightarrow> (None, q\<lparr>queue_event := False\<rparr>))"

text \<open>A turn of \<open>JobsQueue.run\<close>: the job that is ready gets a task of its own.\<close>

definition queue_run :: "jobs_queue \<Rightarrow> jobs_queue" where
  "queue_run q =
     (if \<not> queue_event q then q
      else case queue_next q of
             (None, q1) \<Rightarrow> q1
           | (Some r, q1) \<Rightarrow> upd_job r (\<lambda>j. j\<lparr>pc := PHanded\<rparr>) q1)"

definition for_credential :: "auth_state \<Rightarrow> nat option \<Rightarrow> job_access \<Rightarrow> jobs_queue \<Rightarrow> (nat \<times> nat) list" where
  "for_credential st credential access q =
     (if \<not> credential_is_limited_to_own_jobs st credential then deque_dict q
      else filter (\<lambda>(i, r). credential_can_access st (job_of q r) credential access) (deque_dict q))"

section \<open>Running a job\<close>

definition LOGS_DIR :: string where "LOGS_DIR = ''/var/log/jobs''"

definition job_logs_path :: "job \<Rightarrow> string" where
  "job_logs_path j = LOGS_DIR @ ''/'' @ (case j_id j of None \<Rightarrow> ''None'' | Some i \<Rightarrow> str_of_nat i) @ ''.log''"

text \<open>The exception handlers of \<open>run\<close>; an assertion that fails in them leaves the job as it is.\<close>

definition mark_aborted :: "int \<Rightarrow> job \<Rightarrow> job" where
  "mark_aborted now j = (case set_state S_ABORTED now j of Inl e \<Rightarrow> j | Inr j1 \<Rightarrow> j1)"

definition mark_failed :: "int \<Rightarrow> exn \<Rightarrow> job \<Rightarrow> job" where
  "mark_failed now e j = (case set_state S_FAILED now j of Inl x \<Rightarrow> j | Inr j1 \<Rightarrow> j1\<lparr>j_error := Some e\<rparr>)"

definition run_begin :: "int \<Rightarrow> nat \<Rightarrow> jobs_queue \<Rightarrow> jobs_queue" where
  "run_begin now r q =
     (let j = job_of q r in
      if aborted j then upd_job r (\<lambda>j. (mark_aborted now j)\<lparr>pc := PClosing\<rparr>) q
      else case set_state S_RUNNING now j of
             Inl e \<Rightarrow> upd_job r (\<lambda>j. (mark_failed now e j)\<lparr>pc := PClosing\<rparr>) q
           | Inr j1 \<Rightarrow>
               send_job_event ''CHANGED'' r (upd_job r (\<lambda>_. j1\<lparr>j_future := True, pc := PBody\<rparr>) q))"

text \<open>\<open>log_error\<close>: the exception that opening the log file raises, if it does.\<close>

definition run_start :: "int \<Rightarrow> exn option \<Rightarrow> nat \<Rightarrow> jobs_queue \<Rightarrow> jobs_queue" where
  "run_start now log_error r q =
     (if opt_logs (j_options (job_of q r))
      then upd_job r (\<lambda>j. (case log_error of
               Some e \<Rightarrow> j\<lparr>logs_path := Some (job_logs_path j), pc := PCrashed\<rparr>
             | None \<Rightarrow> j\<lparr>logs_path := Some (job_logs_path j), logs_fd := True, pc := POpened\<rparr>)) q
      else run_begin now r q)"

datatype outcome = Returned pyval | Raised exn | Cancelled

text \<open>
  The body of a job returns, raises or is cancelled. \<open>adapt\<close> is \<open>adapt_exception\<close>.
\<close>

definition run_body_returned :: "int \<Rightarrow> pyval \<Rightarrow> nat \<Rightarrow> jobs_queue \<Rightarrow> jobs_queue op_result" where
  "run_body_returned now v r q =
     (case set_state S_SUCCESS now ((job_of q r)\<lparr>j_result := v\<rparr>) of
        Inl e \<Rightarrow> (Inl e, upd_job r (\<lambda>j. j\<lparr>j_result := v\<rparr>) q)
      | Inr j1 \<Rightarrow>
          let q1 = upd_job r (\<lambda>_. j1) q in
          if percent (j_progress j1) \<noteq> 100
          then set_progress recursion_limit r (VInt 100) (VStr []) VNone q1 else (Inr (), q1))"

definition run_body_end :: "(exn \<Rightarrow> exn option) \<Rightarrow> int \<Rightarrow> outcome \<Rightarrow> nat \<Rightarrow> jobs_queue \<Rightarrow> jobs_queue" where
  "run_body_end adapt now out r q =
     upd_job r (\<lambda>j. j\<lparr>pc := PClosing\<rparr>)
       (let failed = (\<lambda>e. upd_job r (mark_failed now (case adapt e of None \<Rightarrow> e | Some e1 \<Rightarrow> e1))) in
        case out of
          Cancelled \<Rightarrow> upd_job r (mark_aborted now) q
        | Raised e \<Rightarrow> failed e q
        | Returned v \<Rightarrow>
            (case run_body_returned now v r q of (Inl e, q1) \<Rightarrow> failed e q1 | (Inr u, q1) \<Rightarrow> q1))"

text \<open>The excerpt of a log file: its first ten lines and, of the others, the last ten.\<close>

definition excerpt_line :: "string \<Rightarrow> string list \<times> string list \<Rightarrow> string list \<times> string list" where
  "excerpt_line line = (\<lambda>(head, tail).
     if length head < 10 then (head @ [line], tail)
     else (let t = tail @ [line] in (head, drop (length t - 10) t)))"

definition get_logs_excerpt :: "string list option \<Rightarrow> string" where
  "get_logs_excerpt file =
     (case file of
        None \<Rightarrow> ''Log file was removed''
      | Some lines \<Rightarrow>
          (case fold excerpt_line lines ([], []) of
             (head, tail) \<Rightarrow>
               if length lines > 20
               then concat head @ ''... '' @ str_of_nat (length lines - 20) @ '' more lines ...'' @ [CHR 0x0A] @ concat tail
               else concat (head @ tail)))"

definition run_cleanup :: "nat \<Rightarrow> jobs_queue \<Rightarrow> jobs_queue" where
  "run_cleanup r q =
     (let q1 = send_job_event ''CHANGED'' r (upd_job r (\<lambda>j. j\<lparr>on_finish_cb_called := True, pc := PEnded\<rparr>) q)
      in if opt_transient (j_options (job_of q r))
         then (case j_id (job_of q r) of None \<Rightarrow> q1 | Some i \<Rightarrow> deque_remove i q1) else q1)"

text \<open>
  The \<open>finally\<close> of \<open>run\<close>: logs and pipes are closed, then the lock is released and the job
  marked finished; a callback suspends it once more.
\<close>

definition run_finally :: "string list option \<Rightarrow> nat \<Rightarrow> jobs_queue \<Rightarrow> jobs_queue op_result" where
  "run_finally file r q =
     thenS (release_lock r
             (if logs_fd (job_of q r)
              then upd_job r (\<lambda>j. j\<lparr>logs_excerpt := Some (get_logs_excerpt file)\<rparr>) q else q))
       (\<lambda>q1. let q2 = upd_job r (\<lambda>j. j\<lparr>finished := True, pc := PReleased\<rparr>) q1
              in (Inr (), if on_finish_cb (job_of q2 r) then q2 else run_cleanup r q2))"

definition set_on_finish_cb :: "nat \<Rightarrow> jobs_queue \<Rightarrow> jobs_queue" where
  "set_on_finish_cb r q = upd_job r (\<lambda>j. j\<lparr>on_finish_cb := True\<rparr>) q"

text \<open>What \<open>wait(raise_error=True)\<close> gives once the job has finished; \<open>str_exn\<close> is \<open>str\<close>.\<close>

definition wait_result :: "(exn \<Rightarrow> string) \<Rightarrow> bool \<Rightarrow> job \<Rightarrow> exn + pyval" where
  "wait_result str_exn raise_error j =
     (if \<not> raise_error then Inr (j_result j)
      else case j_error j of
             None \<Rightarrow> Inr (j_result j)
           | Some e \<Rightarrow>
               if str_exn e = [] then Inr (j_result j)
               else (case e of CallError m n \<Rightarrow> Inl e | _ \<Rightarrow> Inl (CallError (str_exn e) EFAULT)))"

definition job_wrap :: "nat \<Rightarrow> nat \<Rightarrow> jobs_queue \<Rightarrow> jobs_queue op_result" where
  "job_wrap r sub q =
     (let p = j_progress (job_of q sub) in
      thenS (set_progress recursion_limit r (VInt (percent p)) (p_description p) (p_extra p) q)
        (\<lambda>q1. (Inr (), upd_job sub (\<lambda>j. j\<lparr>wrapped := wrapped j @ [r]\<rparr>) q1)))"

section \<open>Job methods of the core service\<close>

definition job_by_credential_and_id ::
  "auth_state \<Rightarrow> nat option \<Rightarrow> nat \<Rightarrow> job_access \<Rightarrow> jobs_queue \<Rightarrow> exn + nat" where
  "job_by_credential_and_id st credential job_id access q =
     (case map_of (deque_dict q) job_id of
        None \<Rightarrow> Inl KeyError
      | Some r \<Rightarrow>
          (case credential_access_error st (job_of q r) credential access of
             None \<Rightarrow> Inr r
           | Some msg \<Rightarrow> Inl (CallError msg EPERM)))"

definition job_by_app_and_id ::
  "auth_state \<Rightarrow> app option \<Rightarrow> nat \<Rightarrow> job_access \<Rightarrow> jobs_queue \<Rightarrow> exn + nat" where
  "job_by_app_and_id st app job_id access q =
     (case app of
        None \<Rightarrow>
          (case map_of (deque_dict q) job_id of
             None \<Rightarrow> Inl (CallError ''Job does not exist'' ENOENT)
           | Some r \<Rightarrow> Inr r)
      | Some a \<Rightarrow> job_by_credential_and_id st (app_cred a) job_id access q)"

definition job_abort :: "auth_state \<Rightarrow> app option \<Rightarrow> nat \<Rightarrow> jobs_queue \<Rightarrow> jobs_queue op_result" where
  "job_abort st app job_id q =
     (case job_by_app_and_id st app job_id ABORT q of
        Inl e \<Rightarrow> (Inl e, q)
      | Inr r \<Rightarrow> (Inr (), abort r q))"

definition job_update :: "nat \<Rightarrow> pyval dict \<Rightarrow> jobs_queue \<Rightarrow> jobs_queue op_result" where
  "job_update job_id pr q =
     (case map_of (deque_dict q) job_id of
        None \<Rightarrow> (Inl KeyError, q)
      | Some r \<Rightarrow>
          if pr = [] then (Inr (), q)
          else case dict_index pr ''percent'' of
                 Inl e \<Rightarrow> (Inl e, q)
               | Inr p \<Rightarrow>
                   set_progress recursion_limit r p (dict_get pr ''description'' VNone) (dict_get pr ''extra'' VNone) q)"

text \<open>\<open>encode\<close> is \<open>Job.__encode__\<close> as the rows of the query.\<close>

definition get_jobs ::
  "py_env \<Rightarrow> (bool \<Rightarrow> job \<Rightarrow> pyval) \<Rightarrow> auth_state \<Rightarrow> app option \<Rightarrow> pyval list \<Rightarrow> (string \<times> pyval) list option
     \<Rightarrow> bool option \<Rightarrow> jobs_queue \<Rightarrow> exn + pyval" where
  "get_jobs env encode st app filters options raw_result q =
     (let jobs = (case app of None \<Rightarrow> deque_dict q | Some a \<Rightarrow> for_credential st (app_cred a) READ q);
          raw = (case raw_result of Some b \<Rightarrow> b | None \<Rightarrow> app = None)
      in filter_list env (map (\<lambda>(i, r). encode raw (job_of q r)) jobs) filters options)"

section \<open>Jobs of the other controller\<close>

definition receive :: "job \<Rightarrow> jobs_queue \<Rightarrow> jobs_queue" where
  "receive j q =
     (let i = Suc (deque_count q); r = length (q_jobs q)
      in q\<lparr>q_jobs := q_jobs q @ [j\<lparr>j_id := Some i, j_lock := None, pc := PReceived\<rparr>], deque_count := i,
           deque_dict := AList.update i r (deque_dict q)\<rparr>)"

section \<open>Submitting a call\<close>

text \<open>The part of \<open>Middleware._call_prepare\<close> that makes a job of a call.\<close>

definition submit ::
  "auth_state \<Rightarrow> string \<Rightarrow> pyval list \<Rightarrow> job_options \<Rightarrow> string list \<Rightarrow> string option \<Rightarrow> int \<Rightarrow> jobs_queue
     \<Rightarrow> (exn + nat) \<times> jobs_queue" where
  "submit st method args options pipes app now q =
     (case Job method args options pipes app now of
        Inl e \<Rightarrow> (Inl e, q)
      | Inr j \<Rightarrow> queue_add st (length (q_jobs q)) (q\<lparr>q_jobs := q_jobs q @ [j]\<rparr>))"

end
