(* ===== verification/JobsProofs.thy ===== *)
theory JobsProofs
  imports Jobs
begin

text \<open>
  The queue of jobs as a state machine and its invariant: the queue, the locks, the wake-up
  event, the states of the jobs and the table. Every operation that only touches fields the
  invariant does not mention preserves it by one frame lemma; the remaining ones have a
  lemma each.
\<close>

section \<open>Store updates\<close>

lemma job_of_upd_job:
  "job_of (upd_job r f q) s = (if s = r \<and> r < length (q_jobs q) then f (job_of q r) else job_of q s)"
  by (simp add: upd_job_def nth_update_any)

lemma upd_job_simps [simp]:
  "length (q_jobs (upd_job r f q)) = length (q_jobs q)"
  "q_locks (upd_job r f q) = q_locks q"
  "deque_count (upd_job r f q) = deque_count q"
  "deque_dict (upd_job r f q) = deque_dict q"
  "q_queue (upd_job r f q) = q_queue q"
  "queue_event (upd_job r f q) = queue_event q"
  "job_locks (upd_job r f q) = job_locks q"
  "sent (upd_job r f q) = sent q"
  by (simp_all add: upd_job_def)

lemma upd_job_upd_job:
  "r < length (q_jobs q) \<Longrightarrow> upd_job r f (upd_job r g q) = upd_job r (\<lambda>j. f (g j)) q"
  by (simp add: upd_job_def)

lemma lock_of_upd_lock:
  "lock_of (upd_lock l f q) k = (if k = l \<and> l < length (q_locks q) then f (lock_of q l) else lock_of q k)"
  by (simp add: upd_lock_def nth_update_any)

lemma upd_lock_simps [simp]:
  "q_jobs (upd_lock l f q) = q_jobs q"
  "length (q_locks (upd_lock l f q)) = length (q_locks q)"
  "deque_count (upd_lock l f q) = deque_count q"
  "deque_dict (upd_lock l f q) = deque_dict q"
  "q_queue (upd_lock l f q) = q_queue q"
  "queue_event (upd_lock l f q) = queue_event q"
  "job_locks (upd_lock l f q) = job_locks q"
  by (simp_all add: upd_lock_def)

lemma send_job_event_simps [simp]:
  "q_jobs (send_job_event t r q) = q_jobs q"
  "q_locks (send_job_event t r q) = q_locks q"
  "deque_count (send_job_event t r q) = deque_count q"
  "deque_dict (send_job_event t r q) = deque_dict q"
  "q_queue (send_job_event t r q) = q_queue q"
  "queue_event (send_job_event t r q) = queue_event q"
  "job_locks (send_job_event t r q) = job_locks q"
  by (simp_all add: send_job_event_def)

lemma lock_ops_simps [simp]:
  "l_name (add_job r k) = l_name k" "l_locked (add_job r k) = l_locked k"
  "set (l_jobs (add_job r k)) = insert r (set (l_jobs k))"
  "l_name (remove_job r k) = l_name k" "l_locked (remove_job r k) = l_locked k"
  "set (l_jobs (remove_job r k)) = set (l_jobs k) - {r}"
  "l_name (lock_acquire k) = l_name k" "l_locked (lock_acquire k)" "l_jobs (lock_acquire k) = l_jobs k"
  "l_name (JobSharedLock n) = n" "\<not> l_locked (JobSharedLock n)" "l_jobs (JobSharedLock n) = []"
  by (auto simp: add_job_def remove_job_def lock_acquire_def JobSharedLock_def)

section \<open>The invariant\<close>

definition holding :: "job \<Rightarrow> bool" where
  "holding j \<longleftrightarrow> pc j \<in> {PHanded, POpened, PBody, PClosing, PCrashed}"

fun state_ok :: "run_pc \<Rightarrow> job_state \<Rightarrow> bool \<Rightarrow> bool \<Rightarrow> bool" where
  "state_ok PBody s fut fin \<longleftrightarrow> s = S_RUNNING \<and> fut \<and> \<not> fin"
| "state_ok PClosing s fut fin \<longleftrightarrow> s \<in> finished_states \<and> \<not> fin"
| "state_ok PReleased s fut fin \<longleftrightarrow> s \<in> finished_states \<and> fin"
| "state_ok PEnded s fut fin \<longleftrightarrow> s \<in> finished_states \<and> fin"
| "state_ok PReceived s fut fin \<longleftrightarrow> True"
| "state_ok p s fut fin \<longleftrightarrow> s = S_WAITING \<and> \<not> fut \<and> \<not> fin"

definition job_ok :: "job \<Rightarrow> bool" where
  "job_ok j \<longleftrightarrow> state_ok (pc j) (j_state j) (j_future j) (finished j)"

definition queue_ok :: "jobs_queue \<Rightarrow> bool" where
  "queue_ok q \<longleftrightarrow> distinct (q_queue q) \<and>
     (\<forall>r \<in> set (q_queue q). r < length (q_jobs q) \<and> pc (job_of q r) = PPending)"

definition states_ok :: "jobs_queue \<Rightarrow> bool" where
  "states_ok q \<longleftrightarrow> (\<forall>r < length (q_jobs q). job_ok (job_of q r))"

text \<open>A job that waits in the queue or has been handed out and not yet released.\<close>

definition live :: "jobs_queue \<Rightarrow> nat \<Rightarrow> bool" where
  "live q r \<longleftrightarrow> r \<in> set (q_queue q) \<or> r < length (q_jobs q) \<and> holding (job_of q r)"

definition locks_ok :: "jobs_queue \<Rightarrow> bool" where
  "locks_ok q \<longleftrightarrow>
     (\<forall>r < length (q_jobs q). \<forall>l. j_lock (job_of q r) = Some l \<longrightarrow>
        l < length (q_locks q) \<and> get_lock_name (job_of q r) = Inr (Some (l_name (lock_of q l)))) \<and>
     (\<forall>n l. map_of (job_locks q) n = Some l \<longrightarrow> l < length (q_locks q) \<and> l_name (lock_of q l) = n) \<and>
     (\<forall>r l. live q r \<longrightarrow> j_lock (job_of q r) = Some l \<longrightarrow>
        r \<in> set (l_jobs (lock_of q l)) \<and> map_of (job_locks q) (l_name (lock_of q l)) = Some l)"

lemma runnable_iff: "runnable q r \<longleftrightarrow> (\<forall>l. j_lock (job_of q r) = Some l \<longrightarrow> \<not> l_locked (lock_of q l))"
  by (simp add: runnable_def split: option.splits)

text \<open>A live job without a lock has no lock name: with \<open>locks_ok\<close>, locks are taken by name.\<close>

definition named :: "jobs_queue \<Rightarrow> bool" where
  "named q \<longleftrightarrow> (\<forall>r. live q r \<longrightarrow> j_lock (job_of q r) = None \<longrightarrow> get_lock_name (job_of q r) = Inr None)"

text \<open>Exactly the lock of a job that was handed out and not yet released is locked, and by that job alone.\<close>

definition exclusive :: "jobs_queue \<Rightarrow> bool" where
  "exclusive q \<longleftrightarrow>
     (\<forall>l < length (q_locks q). l_locked (lock_of q l) \<longleftrightarrow>
        (\<exists>r < length (q_jobs q). holding (job_of q r) \<and> j_lock (job_of q r) = Some l)) \<and>
     (\<forall>r < length (q_jobs q). \<forall>s < length (q_jobs q). \<forall>l.
        holding (job_of q r) \<and> j_lock (job_of q r) = Some l \<longrightarrow> holding (job_of q s) \<and> j_lock (job_of q s) = Some l \<longrightarrow> r = s)"

text \<open>No wake-up is lost: when a queued job could run, the event is set.\<close>

definition wake_ok :: "jobs_queue \<Rightarrow> bool" where
  "wake_ok q \<longleftrightarrow> (\<forall>r \<in> set (q_queue q). runnable q r \<longrightarrow> queue_event q)"

definition table_ok :: "jobs_queue \<Rightarrow> bool" where
  "table_ok q \<longleftrightarrow> dict_ok (deque_dict q) \<and>
     (\<forall>(i, r) \<in> set (deque_dict q). i \<le> deque_count q \<and> r < length (q_jobs q) \<and> j_id (job_of q r) = Some i) \<and>
     (\<forall>r < length (q_jobs q). \<forall>i. j_id (job_of q r) = Some i \<longrightarrow> i \<le> deque_count q)"

definition jobs_inv :: "jobs_queue \<Rightarrow> bool" where
  "jobs_inv q \<longleftrightarrow> queue_ok q \<and> states_ok q \<and> locks_ok q \<and> named q \<and> exclusive q \<and> wake_ok q \<and> table_ok q"

lemmas jobs_inv_defs = jobs_inv_def queue_ok_def states_ok_def locks_ok_def named_def exclusive_def wake_ok_def table_ok_def

lemma jobs_inv_new: "jobs_inv new_jobs_queue"
  by (simp add: jobs_inv_defs new_jobs_queue_def live_def)

lemma inv_lockD:
  assumes "jobs_inv q" and "live q r" and "j_lock (job_of q r) = Some l"
  shows "r \<in> set (l_jobs (lock_of q l))" "map_of (job_locks q) (l_name (lock_of q l)) = Some l"
    "l < length (q_locks q)" "r < length (q_jobs q)"
proof -
  from assms(1) have lo: "locks_ok q" and qo: "queue_ok q" by (simp_all add: jobs_inv_def)
  from lo assms(2,3) show "r \<in> set (l_jobs (lock_of q l))" "map_of (job_locks q) (l_name (lock_of q l)) = Some l"
    unfolding locks_ok_def by blast+
  with lo show "l < length (q_locks q)" unfolding locks_ok_def by blast
  from qo assms(2) show "r < length (q_jobs q)" by (auto simp: live_def queue_ok_def)
qed

lemma inv_lock_nameD:
  assumes "jobs_inv q" and "r < length (q_jobs q)" and "j_lock (job_of q r) = Some l"
  shows "l < length (q_locks q)" "get_lock_name (job_of q r) = Inr (Some (l_name (lock_of q l)))"
  using assms unfolding jobs_inv_def locks_ok_def by blast+

lemma inv_nameD:
  assumes "jobs_inv q" and "map_of (job_locks q) n = Some l"
  shows "l < length (q_locks q)" "l_name (lock_of q l) = n"
  using assms unfolding jobs_inv_def locks_ok_def by blast+

lemma inv_tableD:
  assumes "jobs_inv q" and "(i, r) \<in> set (deque_dict q)"
  shows "i \<le> deque_count q" "r < length (q_jobs q)" "j_id (job_of q r) = Some i"
  using assms by (auto simp: jobs_inv_def table_ok_def)

section \<open>The frame\<close>

definition core :: "job \<Rightarrow> job_options \<times> pyval list \<times> nat option \<times> nat option \<times> job_state \<times> bool \<times> bool \<times> bool \<times> run_pc" where
  "core j = (j_options j, j_args j, j_id j, j_lock j, j_state j, j_future j, finished j, aborted j, pc j)"

definition frame :: "jobs_queue \<Rightarrow> jobs_queue \<Rightarrow> bool" where
  "frame q q' \<longleftrightarrow> map core (q_jobs q') = map core (q_jobs q) \<and> q_locks q' = q_locks q \<and>
     deque_count q' = deque_count q \<and> deque_dict q' = deque_dict q \<and> q_queue q' = q_queue q \<and>
     queue_event q' = queue_event q \<and> job_locks q' = job_locks q"

lemma frame_refl [simp]: "frame q q"
  by (simp add: frame_def)

lemma frame_trans: "frame q q1 \<Longrightarrow> frame q1 q2 \<Longrightarrow> frame q q2"
  by (simp add: frame_def)

lemma frame_core: "frame q q' \<Longrightarrow> r < length (q_jobs q) \<Longrightarrow> core (job_of q' r) = core (job_of q r)"
  unfolding frame_def by (metis length_map nth_map)

lemma frame_length: "frame q q' \<Longrightarrow> length (q_jobs q') = length (q_jobs q)"
  unfolding frame_def by (metis length_map)

lemma get_lock_name_cong:
  "j_options j = j_options k \<Longrightarrow> j_args j = j_args k \<Longrightarrow> get_lock_name j = get_lock_name k"
  by (cases "opt_lock (j_options k)") (simp_all add: get_lock_name_def)

lemma frame_job:
  assumes "frame q q'" and "r < length (q_jobs q)"
  shows "j_lock (job_of q' r) = j_lock (job_of q r)" "pc (job_of q' r) = pc (job_of q r)"
    "j_id (job_of q' r) = j_id (job_of q r)" "j_state (job_of q' r) = j_state (job_of q r)"
    "job_ok (job_of q' r) = job_ok (job_of q r)" "holding (job_of q' r) = holding (job_of q r)"
    "get_lock_name (job_of q' r) = get_lock_name (job_of q r)"
    "j_options (job_of q' r) = j_options (job_of q r)" "j_args (job_of q' r) = j_args (job_of q r)"
  using frame_core [OF assms] by (simp_all add: core_def holding_def job_ok_def cong: get_lock_name_cong)

lemma frame_upd_job: "core (f (job_of q r)) = core (job_of q r) \<Longrightarrow> frame q (upd_job r f q)"
  by (simp add: frame_def upd_job_def map_update) (metis list_update_beyond list_update_same_conv length_map nth_map linorder_not_less)

lemma frame_send: "frame q (send_job_event t r q)"
  by (simp add: frame_def)

lemma frame_inv:
  assumes "frame q q'" and "jobs_inv q" shows "jobs_inv q'"
proof -
  note f = frame_job [OF assms(1)] frame_length [OF assms(1)]
  from assms(1) have same: "q_locks q' = q_locks q" "deque_count q' = deque_count q" "deque_dict q' = deque_dict q"
    "q_queue q' = q_queue q" "queue_event q' = queue_event q" "job_locks q' = job_locks q"
    by (simp_all add: frame_def)
  from assms(2) have qok: "queue_ok q" by (simp add: jobs_inv_def)
  then have queue: "queue_ok q'" by (auto simp: queue_ok_def same f)
  have states: "states_ok q'" using assms(2) by (auto simp: jobs_inv_def states_ok_def f)
  have live: "live q' r = live q r" "live q r \<Longrightarrow> r < length (q_jobs q)" for r
    using qok by (auto simp: live_def same f queue_ok_def)
  have locks: "locks_ok q' = locks_ok q" by (simp add: locks_ok_def same f live cong: imp_cong)
  have nm: "named q' = named q" by (simp add: named_def f live cong: imp_cong)
  have excl: "exclusive q' = exclusive q" by (simp add: exclusive_def same f cong: conj_cong)
  have wake: "wake_ok q' = wake_ok q"
    using qok by (auto simp: wake_ok_def same runnable_iff queue_ok_def f)
  have "table_ok q'"
    using assms(2) by (auto simp: jobs_inv_def table_ok_def same f)
  with assms(2) queue states show ?thesis by (simp add: jobs_inv_def locks nm excl wake)
qed


section \<open>Operations on one job\<close>

lemma inv_upd_job:
  assumes "jobs_inv q"
    and keep: "r < length (q_jobs q) \<Longrightarrow> j_lock (f (job_of q r)) = j_lock (job_of q r) \<and>
      j_id (f (job_of q r)) = j_id (job_of q r) \<and> j_options (f (job_of q r)) = j_options (job_of q r) \<and>
      j_args (f (job_of q r)) = j_args (job_of q r) \<and> holding (f (job_of q r)) = holding (job_of q r) \<and>
      (pc (f (job_of q r)) = PPending \<longleftrightarrow> pc (job_of q r) = PPending) \<and> job_ok (f (job_of q r))"
  shows "jobs_inv (upd_job r f q)"
proof -
  let ?q = "upd_job r f q"
  have f: "j_lock (job_of ?q s) = j_lock (job_of q s)" "j_id (job_of ?q s) = j_id (job_of q s)"
    "holding (job_of ?q s) = holding (job_of q s)" "pc (job_of ?q s) = PPending \<longleftrightarrow> pc (job_of q s) = PPending"
    "get_lock_name (job_of ?q s) = get_lock_name (job_of q s)" for s
    using keep by (auto simp: job_of_upd_job intro: get_lock_name_cong)
  have "states_ok ?q" using assms by (auto simp: states_ok_def job_of_upd_job jobs_inv_def)
  moreover have "live ?q s = live q s" for s by (simp add: live_def f)
  moreover have "runnable ?q s = runnable q s" for s by (simp add: runnable_iff f)
  ultimately show ?thesis using assms(1)
    by (simp add: jobs_inv_def queue_ok_def locks_ok_def named_def exclusive_def wake_ok_def table_ok_def f)
qed

lemma set_progress_frame: "frame q (snd (set_progress n r p d e q))"
proof (induction n arbitrary: r p d e q)
  case (Suc n)
  have loop: "frame q0 (snd (run_seq (\<lambda>w. set_progress n w p1 d1 e1) ws q0))" for p1 d1 e1 ws q0
  proof (induction ws arbitrary: q0)
    case (Cons w ws)
    show ?case
      using Suc.IH [of q0 w p1 d1 e1] Cons.IH [of "snd (set_progress n w p1 d1 e1 q0)"]
      by (cases "set_progress n w p1 d1 e1 q0"; cases "fst (set_progress n w p1 d1 e1 q0)")
        (auto intro: frame_trans)
  qed simp
  have upd: "frame q (upd_job r (\<lambda>j. j\<lparr>j_progress := pr\<rparr>) q)" for pr
    by (rule frame_upd_job) (simp add: core_def)
  show ?case
  proof (cases "merge_progress p d e (j_progress (job_of q r))")
    case (Inr pr)
    have "frame q (if pr \<noteq> j_progress (job_of q r)
        then send_job_event ''CHANGED'' r (upd_job r (\<lambda>j. j\<lparr>j_progress := pr\<rparr>) q)
        else upd_job r (\<lambda>j. j\<lparr>j_progress := pr\<rparr>) q)"
      using upd frame_trans [OF upd frame_send] by auto
    from frame_trans [OF this loop] Inr show ?thesis by (simp only: set_progress.simps sum.case Let_def)
  qed simp
qed simp

lemma set_description_frame: "frame q (set_description r d q)"
  by (auto simp: set_description_def core_def intro!: frame_trans [OF frame_upd_job frame_send])

lemma inv_job_ok: "jobs_inv q \<Longrightarrow> r < length (q_jobs q) \<Longrightarrow> job_ok (job_of q r)"
  by (simp add: jobs_inv_def states_ok_def)

lemma abort_inv:
  assumes "jobs_inv q" shows "jobs_inv (abort r q)"
proof -
  have "jobs_inv (upd_job r (\<lambda>j. j\<lparr>aborted := True\<rparr>) q)"
    by (rule inv_upd_job [OF assms]) (use inv_job_ok [OF assms] in \<open>auto simp: holding_def job_ok_def\<close>)
  with assms show ?thesis by (auto simp: abort_def)
qed

lemma job_wrap_frame: "frame q (snd (job_wrap r sub q))"
proof -
  obtain x q1 where sp: "set_progress recursion_limit r (VInt (percent (j_progress (job_of q sub))))
      (p_description (j_progress (job_of q sub))) (p_extra (j_progress (job_of q sub))) q = (x, q1)"
    by (metis surj_pair)
  then have "frame q q1" using set_progress_frame by (metis snd_conv)
  moreover have "frame q1 (upd_job sub (\<lambda>j. j\<lparr>wrapped := wrapped j @ [r]\<rparr>) q1)"
    by (rule frame_upd_job) (simp add: core_def)
  ultimately show ?thesis
    by (cases x) (auto simp: job_wrap_def Let_def sp intro: frame_trans)
qed

lemma set_on_finish_cb_frame: "frame q (set_on_finish_cb r q)"
  by (auto simp: set_on_finish_cb_def core_def intro!: frame_upd_job)

lemma set_state_cases:
  "set_state s now j = Inr k \<Longrightarrow> j_state k = s \<and> j_lock k = j_lock j \<and> j_id k = j_id j \<and> j_options k = j_options j \<and>
     j_args k = j_args j \<and> pc k = pc j \<and> j_future k = j_future j \<and> finished k = finished j \<and>
     j_progress k = j_progress j \<and> wrapped k = wrapped j \<and> aborted k = aborted j"
  by (auto simp: set_state_def Let_def split: if_splits)

text \<open>A job that waits may start, fail or be aborted; a job that runs may end.\<close>

lemma set_state_allowed:
  "j_state j = S_WAITING \<Longrightarrow> s \<in> {S_RUNNING, S_FAILED, S_ABORTED} \<Longrightarrow> \<exists>k. set_state s now j = Inr k"
  "j_state j = S_RUNNING \<Longrightarrow> s \<in> finished_states \<Longrightarrow> \<exists>k. set_state s now j = Inr k"
  by (auto simp: set_state_def finished_states_def Let_def)

lemma run_begin_inv:
  assumes "jobs_inv q" and "pc (job_of q r) \<in> {PHanded, POpened}" and "r < length (q_jobs q)"
  shows "jobs_inv (run_begin now r q)"
proof -
  let ?j = "job_of q r"
  from assms have w: "j_state ?j = S_WAITING" "\<not> finished ?j"
    by (auto simp: jobs_inv_def states_ok_def job_ok_def)
  obtain ka where ka: "set_state S_ABORTED now ?j = Inr ka" using set_state_allowed(1) [OF w(1)] by blast
  obtain kr where kr: "set_state S_RUNNING now ?j = Inr kr" using set_state_allowed(1) [OF w(1)] by blast
  note sa = set_state_cases [OF ka] and sr = set_state_cases [OF kr]
  show ?thesis
  proof (cases "aborted ?j")
    case True
    then show ?thesis using assms sa w
      by (auto simp: run_begin_def Let_def mark_aborted_def ka holding_def job_ok_def finished_states_def
          intro!: inv_upd_job)
  next
    case False
    have "jobs_inv (upd_job r (\<lambda>_. kr\<lparr>j_future := True, pc := PBody\<rparr>) q)"
      using assms sr w by (auto simp: holding_def job_ok_def intro!: inv_upd_job)
    with False show ?thesis
      by (auto simp: run_begin_def Let_def kr intro: frame_inv [OF frame_send])
  qed
qed

lemma run_start_inv:
  assumes "jobs_inv q" and "pc (job_of q r) = PHanded" and "r < length (q_jobs q)"
  shows "jobs_inv (run_start now err r q)"
proof (cases "opt_logs (j_options (job_of q r))")
  case True
  from assms have "job_ok (job_of q r)" by (auto simp: jobs_inv_def states_ok_def)
  with assms True show ?thesis
    by (auto simp: run_start_def holding_def job_ok_def split: option.splits intro!: inv_upd_job)
next
  case False
  with assms show ?thesis by (simp add: run_start_def run_begin_inv)
qed


text \<open>The body of a running job ends in a finished state, whatever its outcome.\<close>

lemma frame_upd_jobs:
  assumes "frame q q'" and "r < length (q_jobs q)" and "core (f (job_of q r)) = core (g (job_of q' r))"
  shows "frame (upd_job r f q) (upd_job r g q')"
  using assms by (simp add: frame_def upd_job_def map_update)

lemma mark_finished_core:
  "j_state j = S_RUNNING \<Longrightarrow> core ((mark_aborted now j)\<lparr>pc := p\<rparr>) = core (j\<lparr>j_state := S_ABORTED, pc := p\<rparr>)"
  "j_state j = S_RUNNING \<Longrightarrow> core ((mark_failed now e j)\<lparr>pc := p\<rparr>) = core (j\<lparr>j_state := S_FAILED, pc := p\<rparr>)"
  "j_state j \<in> finished_states \<Longrightarrow> mark_failed now e j = j"
  by (auto simp: mark_aborted_def mark_failed_def set_state_def finished_states_def core_def Let_def)

lemma run_body_returned_frame:
  assumes "j_state (job_of q r) = S_RUNNING" and "r < length (q_jobs q)"
  shows "frame (upd_job r (\<lambda>j. j\<lparr>j_state := S_SUCCESS\<rparr>) q) (snd (run_body_returned now v r q))"
proof -
  obtain k where k: "set_state S_SUCCESS now ((job_of q r)\<lparr>j_result := v\<rparr>) = Inr k"
    using set_state_allowed(2) [of "(job_of q r)\<lparr>j_result := v\<rparr>" S_SUCCESS now] assms(1)
    by (auto simp: finished_states_def)
  from set_state_cases [OF k]
  have "frame (upd_job r (\<lambda>j. j\<lparr>j_state := S_SUCCESS\<rparr>) q) (upd_job r (\<lambda>_. k) q)"
    by (intro frame_upd_jobs) (simp_all add: assms core_def)
  then show ?thesis
    by (auto simp: run_body_returned_def k Let_def intro: frame_trans [OF _ set_progress_frame])
qed

lemma run_body_end_frame:
  assumes "j_state (job_of q r) = S_RUNNING" and "r < length (q_jobs q)"
  shows "\<exists>s \<in> finished_states. frame (upd_job r (\<lambda>j. j\<lparr>j_state := s, pc := PClosing\<rparr>) q) (run_body_end adapt now out r q)"
proof (cases out)
  case Cancelled
  with assms have "frame (upd_job r (\<lambda>j. j\<lparr>j_state := S_ABORTED, pc := PClosing\<rparr>) q) (run_body_end adapt now out r q)"
    by (auto simp: run_body_end_def upd_job_upd_job mark_finished_core intro!: frame_upd_jobs)
  then show ?thesis by (auto simp: finished_states_def)
next
  case (Raised e)
  with assms have "frame (upd_job r (\<lambda>j. j\<lparr>j_state := S_FAILED, pc := PClosing\<rparr>) q) (run_body_end adapt now out r q)"
    by (auto simp: run_body_end_def Let_def upd_job_upd_job mark_finished_core intro!: frame_upd_jobs)
  then show ?thesis by (auto simp: finished_states_def)
next
  case (Returned v)
  obtain x q1 where x: "run_body_returned now v r q = (x, q1)" by (metis surj_pair)
  with run_body_returned_frame [OF assms] have f: "frame (upd_job r (\<lambda>j. j\<lparr>j_state := S_SUCCESS\<rparr>) q) q1"
    by (metis snd_conv)
  from frame_job(4) [OF f, of r] assms have s: "j_state (job_of q1 r) \<in> finished_states"
    by (simp add: job_of_upd_job finished_states_def)
  have "run_body_end adapt now out r q = upd_job r (\<lambda>j. j\<lparr>pc := PClosing\<rparr>) q1"
    using Returned x s assms frame_length [OF f]
    by (cases x) (simp_all add: run_body_end_def Let_def upd_job_upd_job mark_finished_core upd_job_def)
  moreover have "frame (upd_job r (\<lambda>j. j\<lparr>pc := PClosing\<rparr>) (upd_job r (\<lambda>j. j\<lparr>j_state := S_SUCCESS\<rparr>) q))
      (upd_job r (\<lambda>j. j\<lparr>pc := PClosing\<rparr>) q1)"
    using frame_core [OF f, of r] assms by (intro frame_upd_jobs [OF f]) (auto simp: core_def)
  ultimately show ?thesis using assms by (auto simp: upd_job_upd_job finished_states_def intro!: bexI [of _ S_SUCCESS])
qed

lemma run_body_end_inv:
  assumes "jobs_inv q" and "pc (job_of q r) = PBody" and "r < length (q_jobs q)"
  shows "jobs_inv (run_body_end adapt now out r q)"
proof -
  from inv_job_ok [OF assms(1,3)] assms(2) have run: "j_state (job_of q r) = S_RUNNING" "\<not> finished (job_of q r)"
    by (simp_all add: job_ok_def)
  from run_body_end_frame [OF run(1) assms(3)] obtain s where s: "s \<in> finished_states"
    and f: "frame (upd_job r (\<lambda>j. j\<lparr>j_state := s, pc := PClosing\<rparr>) q) (run_body_end adapt now out r q)"
    by blast
  have "jobs_inv (upd_job r (\<lambda>j. j\<lparr>j_state := s, pc := PClosing\<rparr>) q)"
    using assms s run by (intro inv_upd_job) (auto simp: holding_def job_ok_def)
  with f show ?thesis by (rule frame_inv)
qed


section \<open>Releasing a lock\<close>

text \<open>
  A job whose outcome is stored releases its lock without an error, and the state that
  results satisfies the invariant with the job released.
\<close>

definition lock_released :: "nat \<Rightarrow> nat \<Rightarrow> jobs_queue \<Rightarrow> jobs_queue" where
  "lock_released r l q =
     (let k = (remove_job r (lock_of q l))\<lparr>l_locked := False\<rparr>
      in q\<lparr>q_locks := (q_locks q)[l := k],
           job_locks := (if l_jobs k = [] then AList.delete (l_name k) (job_locks q) else job_locks q),
           queue_event := True\<rparr>)"

lemma release_lock_ok:
  assumes "jobs_inv q" and "r < length (q_jobs q)" and "holding (job_of q r)"
  shows "release_lock r q = (Inr (), case j_lock (job_of q r) of None \<Rightarrow> q | Some l \<Rightarrow> lock_released r l q)"
proof (cases "j_lock (job_of q r)")
  case (Some l)
  from assms Some have l: "l < length (q_locks q)" "l_locked (lock_of q l)"
    and n: "map_of (job_locks q) (l_name (lock_of q l)) = Some l"
    by (auto simp: jobs_inv_def locks_ok_def exclusive_def live_def)
  then show ?thesis
    by (simp add: release_lock_def Some lock_release_def Let_def upd_lock_def lock_released_def)
qed (simp add: release_lock_def)

lemma released_inv:
  assumes inv: "jobs_inv q" and r: "r < length (q_jobs q)" and c: "pc (job_of q r) = PClosing"
  defines "q1 \<equiv> upd_job r (\<lambda>j. j\<lparr>finished := True, pc := PReleased\<rparr>)
                  (case j_lock (job_of q r) of None \<Rightarrow> q | Some l \<Rightarrow> lock_released r l q)"
  shows "jobs_inv q1"
proof -
  have h: "holding (job_of q r)" using c by (simp add: holding_def)
  have nq: "r \<notin> set (q_queue q)" using inv c by (auto simp: jobs_inv_def queue_ok_def)
  have q1: "q_queue q1 = q_queue q" "length (q_jobs q1) = length (q_jobs q)" "deque_dict q1 = deque_dict q"
    "deque_count q1 = deque_count q" "length (q_locks q1) = length (q_locks q)"
    by (auto simp: q1_def lock_released_def Let_def split: option.splits)
  have jobs: "job_of q1 s = (if s = r then (job_of q r)\<lparr>finished := True, pc := PReleased\<rparr> else job_of q s)" for s
    using r by (auto simp: q1_def job_of_upd_job lock_released_def Let_def split: option.splits)
  have f: "j_lock (job_of q1 s) = j_lock (job_of q s)" "j_id (job_of q1 s) = j_id (job_of q s)"
    "get_lock_name (job_of q1 s) = get_lock_name (job_of q s)"
    "holding (job_of q1 s) \<longleftrightarrow> holding (job_of q s) \<and> s \<noteq> r" for s
    by (auto simp: jobs holding_def intro!: get_lock_name_cong)
  have lk: "l_name (lock_of q1 l) = l_name (lock_of q l)"
    "l_locked (lock_of q1 l) \<longleftrightarrow> l_locked (lock_of q l) \<and> j_lock (job_of q r) \<noteq> Some l"
    "set (l_jobs (lock_of q1 l)) = set (l_jobs (lock_of q l)) - (if j_lock (job_of q r) = Some l then {r} else {})"
    if "l < length (q_locks q)" for l
    using that by (auto simp: q1_def lock_released_def Let_def nth_update_any split: option.splits)
  have live: "live q1 s \<longleftrightarrow> live q s \<and> s \<noteq> r" for s using nq by (auto simp: live_def q1 f)
  have lb: "l < length (q_locks q)" if "s < length (q_jobs q)" "j_lock (job_of q s) = Some l" for s l
    using inv that by (auto simp: jobs_inv_def locks_ok_def)
  have lv: "s < length (q_jobs q)" if "live q s" for s
    using inv that by (auto simp: jobs_inv_def queue_ok_def live_def)
  have "queue_ok q1" using inv nq by (auto simp: jobs_inv_def queue_ok_def q1 jobs)
  moreover have "states_ok q1"
    using inv inv_job_ok [OF inv r] c by (auto simp: jobs_inv_def states_ok_def q1 jobs job_ok_def)
  moreover have "exclusive q1"
    using inv h r unfolding jobs_inv_def exclusive_def by (auto simp: q1 f lk)
  moreover have "wake_ok q1"
  proof (cases "j_lock (job_of q r)")
    case None
    with inv show ?thesis using lb nq
      by (auto simp: wake_ok_def q1_def runnable_iff job_of_upd_job jobs_inv_def split: if_splits)
  next
    case (Some l)
    then show ?thesis by (simp add: wake_ok_def q1_def lock_released_def Let_def)
  qed
  moreover have "table_ok q1" using inv by (auto simp: jobs_inv_def table_ok_def q1 f)
  moreover have "named q1" using inv by (auto simp: jobs_inv_def named_def live f)
  moreover have "locks_ok q1" unfolding locks_ok_def
  proof (intro conjI allI impI)
    fix s l assume "s < length (q_jobs q1)" and "j_lock (job_of q1 s) = Some l"
    with inv lb show "l < length (q_locks q1)" "get_lock_name (job_of q1 s) = Inr (Some (l_name (lock_of q1 l)))"
      by (auto simp: q1 f lk jobs_inv_def locks_ok_def)
  next
    fix n l assume "map_of (job_locks q1) n = Some l"
    then have "map_of (job_locks q) n = Some l"
      by (auto simp: q1_def lock_released_def Let_def dict_simps split: option.splits if_splits)
    with inv show "l < length (q_locks q1)" "l_name (lock_of q1 l) = n"
      by (auto simp: q1 lk jobs_inv_def locks_ok_def)
  next
    fix s l assume s: "live q1 s" "j_lock (job_of q1 s) = Some l"
    then have sl: "live q s" "s \<noteq> r" "j_lock (job_of q s) = Some l" by (auto simp: live f)
    with inv have m: "s \<in> set (l_jobs (lock_of q l))" "map_of (job_locks q) (l_name (lock_of q l)) = Some l"
      by (auto simp: jobs_inv_def locks_ok_def)
    have l: "l < length (q_locks q)" using lb [OF lv [OF sl(1)] sl(3)] .
    with m sl show mem: "s \<in> set (l_jobs (lock_of q1 l))" by (auto simp: lk)
    show "map_of (job_locks q1) (l_name (lock_of q1 l)) = Some l"
    proof (cases "j_lock (job_of q r)")
      case (Some l')
      have l': "l' < length (q_locks q)" using lb [OF r Some] .
      have lr: "live q r" using r h by (simp add: live_def)
      have same: "l' = l" if "l_name (lock_of q l') = l_name (lock_of q l)"
        using inv_lockD(2) [OF inv lr Some] m(2) that by (metis option.inject)
      have "job_locks q1 = (if l_jobs (lock_of q1 l') = [] then AList.delete (l_name (lock_of q l')) (job_locks q) else job_locks q)"
        using Some l' by (simp add: q1_def lock_released_def Let_def)
      moreover have "l_jobs (lock_of q1 l') \<noteq> []" if "l_name (lock_of q l') = l_name (lock_of q l)"
        using mem same [OF that] by auto
      ultimately show ?thesis using m(2) by (auto simp: lk(1) [OF l] map_of_delete)
    qed (use m in \<open>simp add: q1_def\<close>)
  qed
  ultimately show ?thesis by (simp add: jobs_inv_def)
qed


lemma table_update_simps [simp]:
  "queue_ok (q\<lparr>deque_dict := d, deque_count := c\<rparr>) = queue_ok q"
  "states_ok (q\<lparr>deque_dict := d, deque_count := c\<rparr>) = states_ok q"
  "locks_ok (q\<lparr>deque_dict := d, deque_count := c\<rparr>) = locks_ok q"
  "named (q\<lparr>deque_dict := d, deque_count := c\<rparr>) = named q"
  "exclusive (q\<lparr>deque_dict := d, deque_count := c\<rparr>) = exclusive q"
  "wake_ok (q\<lparr>deque_dict := d, deque_count := c\<rparr>) = wake_ok q"
  by (simp_all add: queue_ok_def states_ok_def locks_ok_def named_def exclusive_def wake_ok_def live_def runnable_iff)

lemma inv_set_dict:
  assumes "jobs_inv q" and "dict_ok d" and "set d \<subseteq> set (deque_dict q)"
  shows "jobs_inv (q\<lparr>deque_dict := d\<rparr>)"
  using assms table_update_simps [where q = q and d = d and c = "deque_count q"] by (auto simp: jobs_inv_def table_ok_def)

lemma deque_remove_inv: "jobs_inv q \<Longrightarrow> jobs_inv (deque_remove i q)"
  unfolding deque_remove_def
  by (rule inv_set_dict) (auto simp: jobs_inv_def table_ok_def dict_ok_delete, auto simp: AList.delete_eq)

lemma run_cleanup_inv:
  assumes "jobs_inv q" and "pc (job_of q r) = PReleased" and "r < length (q_jobs q)"
  shows "jobs_inv (run_cleanup r q)"
proof -
  have "jobs_inv (upd_job r (\<lambda>j. j\<lparr>on_finish_cb_called := True, pc := PEnded\<rparr>) q)"
    using assms inv_job_ok [OF assms(1,3)] by (intro inv_upd_job) (auto simp: holding_def job_ok_def)
  from frame_inv [OF frame_send this] show ?thesis
    by (auto simp: run_cleanup_def Let_def deque_remove_inv split: option.splits)
qed

lemma run_cleanup_job:
  "finished (job_of (run_cleanup r q) s) = finished (job_of q s)"
  "j_state (job_of (run_cleanup r q) s) = j_state (job_of q s)"
  by (auto simp: run_cleanup_def Let_def deque_remove_def job_of_upd_job split: option.splits)

lemma run_finally_ok:
  assumes "jobs_inv q" and "pc (job_of q r) = PClosing" and "r < length (q_jobs q)"
  shows "fst (run_finally file r q) = Inr ()" "jobs_inv (snd (run_finally file r q))"
    "finished (job_of (snd (run_finally file r q)) r)"
proof -
  let ?q = "if logs_fd (job_of q r) then upd_job r (\<lambda>j. j\<lparr>logs_excerpt := Some (get_logs_excerpt file)\<rparr>) q else q"
  have f: "frame q ?q" by (auto simp: core_def intro: frame_upd_job)
  note inv = frame_inv [OF f assms(1)]
  have r: "r < length (q_jobs ?q)" and c: "pc (job_of ?q r) = PClosing"
    using frame_length [OF f] frame_job(2) [OF f assms(3)] assms by simp_all
  let ?q1 = "upd_job r (\<lambda>j. j\<lparr>finished := True, pc := PReleased\<rparr>)
      (case j_lock (job_of ?q r) of None \<Rightarrow> ?q | Some l \<Rightarrow> lock_released r l ?q)"
  have rl: "release_lock r ?q = (Inr (), case j_lock (job_of ?q r) of None \<Rightarrow> ?q | Some l \<Rightarrow> lock_released r l ?q)"
    using release_lock_ok [OF inv r] c by (simp add: holding_def)
  have eq: "run_finally file r q = (Inr (), if on_finish_cb (job_of ?q1 r) then ?q1 else run_cleanup r ?q1)"
    unfolding run_finally_def rl by (simp add: Let_def)
  note i1 = released_inv [OF inv r c]
  have jobs: "length (q_jobs ?q1) = length (q_jobs ?q)" "pc (job_of ?q1 r) = PReleased" "finished (job_of ?q1 r)"
    using r assms(3) by (auto simp: job_of_upd_job lock_released_def Let_def split: option.splits)
  have "jobs_inv (run_cleanup r ?q1)" using run_cleanup_inv [OF i1 jobs(2)] jobs(1) r by simp
  with eq i1 show "fst (run_finally file r q) = Inr ()" "jobs_inv (snd (run_finally file r q))" by simp_all
  show "finished (job_of (snd (run_finally file r q)) r)"
    using jobs(3) by (simp add: eq run_cleanup_job)
qed

section \<open>The scheduler\<close>

lemma queue_run_inv:
  assumes inv: "jobs_inv q" shows "jobs_inv (queue_run q)"
proof (cases "queue_event q")
  case ev: True
  show ?thesis
  proof (cases "find (runnable q) (q_queue q)")
    case None
    then have "\<not> runnable q r" if "r \<in> set (q_queue q)" for r using that by (auto simp: find_None_iff)
    with inv have "jobs_inv (q\<lparr>queue_event := False\<rparr>)"
      by (auto simp: jobs_inv_defs live_def runnable_iff)
    with ev None show ?thesis by (simp add: queue_run_def queue_next_def)
  next
    case (Some r)
    then have r: "r \<in> set (q_queue q)" "runnable q r" by (auto simp: find_Some_iff)
    define q1 where "q1 = queue_run q"
    have rn: "r < length (q_jobs q)" "pc (job_of q r) = PPending" "distinct (q_queue q)"
      using inv r by (auto simp: jobs_inv_def queue_ok_def)
    have ql: "length (q_jobs q1) = length (q_jobs q)" "length (q_locks q1) = length (q_locks q)"
      "job_locks q1 = job_locks q" "deque_dict q1 = deque_dict q" "deque_count q1 = deque_count q"
      "q_queue q1 = remove1 r (q_queue q)" "q_queue q1 \<noteq> [] \<Longrightarrow> queue_event q1"
      using ev Some by (auto simp: q1_def queue_run_def queue_next_def Let_def split: option.splits)
    have jobs: "job_of q1 s = (if s = r then (job_of q r)\<lparr>pc := PHanded\<rparr> else job_of q s)" for s
      using ev Some rn by (auto simp: q1_def queue_run_def queue_next_def Let_def job_of_upd_job split: option.splits)
    have f: "j_lock (job_of q1 s) = j_lock (job_of q s)" "j_id (job_of q1 s) = j_id (job_of q s)"
      "get_lock_name (job_of q1 s) = get_lock_name (job_of q s)"
      "holding (job_of q1 s) \<longleftrightarrow> holding (job_of q s) \<or> s = r" for s
      by (auto simp: jobs holding_def intro!: get_lock_name_cong)
    have lk: "l_name (lock_of q1 l) = l_name (lock_of q l)" "l_jobs (lock_of q1 l) = l_jobs (lock_of q l)"
      "l_locked (lock_of q1 l) \<longleftrightarrow> l_locked (lock_of q l) \<or> j_lock (job_of q r) = Some l"
      if "l < length (q_locks q)" for l
      using ev Some that
      by (auto simp: q1_def queue_run_def queue_next_def Let_def lock_of_upd_lock split: option.splits)
    have live: "live q1 s = live q s" for s using r rn by (auto simp: live_def ql f)
    have qs: "set (q_queue q1) = set (q_queue q) - {r}" using rn(3) by (simp add: ql)
    have free: "\<not> holding (job_of q s)" if "s < length (q_jobs q)" "j_lock (job_of q s) = Some l"
        "j_lock (job_of q r) = Some l" for s l
      using inv r(2) rn(1) that by (auto simp: jobs_inv_def exclusive_def runnable_iff locks_ok_def)
    have "queue_ok q1" using inv by (auto simp: jobs_inv_def queue_ok_def qs ql(1,6) jobs)
    moreover have "states_ok q1"
      using inv inv_job_ok [OF inv rn(1)] rn by (auto simp: jobs_inv_def states_ok_def ql(1) jobs job_ok_def)
    moreover have "locks_ok q1"
      using inv inv_lockD [OF inv] by (auto simp: locks_ok_def jobs_inv_def ql f lk live)
    moreover have "exclusive q1" unfolding exclusive_def
      using inv free rn(1) by (auto simp: jobs_inv_def exclusive_def ql(1,2) f lk)
    moreover have "wake_ok q1" using ql(7) by (fastforce simp: wake_ok_def)
    moreover have "table_ok q1" using inv by (auto simp: jobs_inv_def table_ok_def ql f)
    moreover have "named q1" using inv by (simp add: jobs_inv_def named_def live f)
    ultimately show ?thesis unfolding q1_def [symmetric] by (simp add: jobs_inv_def)
  qed
qed (simp add: queue_run_def inv)


section \<open>Submitting a job\<close>

lemma job_of_append:
  "s < length (q_jobs q) \<Longrightarrow> job_of (q\<lparr>q_jobs := q_jobs q @ [j]\<rparr>) s = job_of q s"
  "job_of (q\<lparr>q_jobs := q_jobs q @ [j]\<rparr>) (length (q_jobs q)) = j"
  by (simp_all add: nth_append)

lemma append_job_parts:
  assumes inv: "jobs_inv q" and j: "j_lock j = None" "\<not> holding j" "job_ok j"
  shows "queue_ok (q\<lparr>q_jobs := q_jobs q @ [j]\<rparr>)" "states_ok (q\<lparr>q_jobs := q_jobs q @ [j]\<rparr>)"
    "locks_ok (q\<lparr>q_jobs := q_jobs q @ [j]\<rparr>)" "exclusive (q\<lparr>q_jobs := q_jobs q @ [j]\<rparr>)"
    "wake_ok (q\<lparr>q_jobs := q_jobs q @ [j]\<rparr>)" "named (q\<lparr>q_jobs := q_jobs q @ [j]\<rparr>)"
proof -
  let ?q = "q\<lparr>q_jobs := q_jobs q @ [j]\<rparr>"
  from inv have qo: "queue_ok q" by (simp add: jobs_inv_def)
  then have inq: "s < length (q_jobs q)" if "s \<in> set (q_queue q)" for s using that by (simp add: queue_ok_def)
  show "queue_ok ?q" using qo by (auto simp: queue_ok_def nth_append)
  show "states_ok ?q" using inv j(3) by (auto simp: states_ok_def jobs_inv_def nth_append less_Suc_eq)
  have live: "live ?q s = live q s" for s using j(2) inq by (auto simp: live_def nth_append less_Suc_eq)
  have lv: "s < length (q_jobs q)" if "live q s" for s using that inq by (auto simp: live_def)
  show "locks_ok ?q"
    using inv j(1) unfolding jobs_inv_def locks_ok_def by (auto simp: live nth_append less_Suc_eq dest: lv)
  show "exclusive ?q"
    using inv j unfolding jobs_inv_def exclusive_def by (auto simp: nth_append less_Suc_eq)
  show "named ?q" using inv lv by (auto simp: jobs_inv_def named_def live nth_append)
  show "wake_ok ?q" using inv inq by (auto simp: jobs_inv_def wake_ok_def runnable_iff nth_append)
qed

lemma append_job_inv:
  assumes inv: "jobs_inv q" and j: "j_lock j = None" "\<not> holding j" "job_ok j" "j_id j = None"
  shows "jobs_inv (q\<lparr>q_jobs := q_jobs q @ [j]\<rparr>)"
proof -
  have "table_ok (q\<lparr>q_jobs := q_jobs q @ [j]\<rparr>)"
    using inv j(4) by (fastforce simp: jobs_inv_def table_ok_def nth_append less_Suc_eq)
  with append_job_parts [OF inv j(1-3)] show ?thesis by (simp add: jobs_inv_def)
qed

lemma receive_inv:
  assumes inv: "jobs_inv q" shows "jobs_inv (receive j q)"
proof -
  define i where "i = Suc (deque_count q)"
  define j' where "j' = j\<lparr>j_id := Some i, j_lock := None, pc := PReceived\<rparr>"
  let ?q = "q\<lparr>q_jobs := q_jobs q @ [j']\<rparr>"
  have eq: "receive j q = ?q\<lparr>deque_dict := AList.update i (length (q_jobs q)) (deque_dict q), deque_count := i\<rparr>"
    by (simp add: receive_def Let_def i_def j'_def)
  have new: "i \<notin> fst ` set (deque_dict q)" using inv by (force simp: jobs_inv_def table_ok_def i_def)
  have "table_ok (receive j q)"
    using inv new by (fastforce simp: eq jobs_inv_def table_ok_def nth_append less_Suc_eq update_new_append i_def j'_def)
  moreover have "j_lock j' = None" "\<not> holding j'" "job_ok j'" by (simp_all add: j'_def holding_def job_ok_def)
  from append_job_parts [OF inv this] have "queue_ok (receive j q)" "states_ok (receive j q)" "locks_ok (receive j q)"
    "exclusive (receive j q)" "wake_ok (receive j q)" "named (receive j q)"
    unfolding eq table_update_simps .
  ultimately show ?thesis by (simp add: jobs_inv_def)
qed


text \<open>A job that was built and not queued yet.\<close>

definition fresh :: "nat \<Rightarrow> jobs_queue \<Rightarrow> bool" where
  "fresh r q \<longleftrightarrow> r < length (q_jobs q) \<and> pc (job_of q r) = PPending \<and> r \<notin> set (q_queue q) \<and> j_id (job_of q r) = None"

lemma new_lock_inv:
  assumes inv: "jobs_inv q" and new: "map_of (job_locks q) name = None"
  shows "jobs_inv (q\<lparr>q_locks := q_locks q @ [JobSharedLock name],
           job_locks := AList.update name (length (q_locks q)) (job_locks q)\<rparr>)" (is "jobs_inv ?q")
proof -
  have bound: "l < length (q_locks q)" if "r < length (q_jobs q)" "j_lock (job_of q r) = Some l" for r l
    using inv that by (auto simp: jobs_inv_def locks_ok_def)
  have live: "live ?q r = live q r" for r by (simp add: live_def)
  have run: "runnable ?q r = runnable q r" if "r < length (q_jobs q)" for r
    using bound [OF that] by (auto simp: runnable_iff nth_append)
  have "queue_ok ?q" "states_ok ?q" "table_ok ?q" "named ?q"
    using inv by (simp_all add: jobs_inv_def queue_ok_def states_ok_def table_ok_def named_def live)
  moreover have "wake_ok ?q" using inv run by (auto simp: wake_ok_def jobs_inv_def queue_ok_def)
  moreover have "exclusive ?q"
    using inv bound by (fastforce simp: jobs_inv_def exclusive_def nth_append less_Suc_eq)
  moreover have "locks_ok ?q" unfolding locks_ok_def
  proof (intro conjI allI impI)
    fix r l assume "r < length (q_jobs ?q)" "j_lock (job_of ?q r) = Some l"
    with inv bound show "l < length (q_locks ?q)" "get_lock_name (job_of ?q r) = Inr (Some (l_name (lock_of ?q l)))"
      by (fastforce simp: jobs_inv_def locks_ok_def nth_append)+
  next
    fix n l assume "map_of (job_locks ?q) n = Some l"
    with inv show "l < length (q_locks ?q)" "l_name (lock_of ?q l) = n"
      by (fastforce simp: map_of_update jobs_inv_def locks_ok_def nth_append less_Suc_eq split: if_splits)+
  next
    fix r l assume "live ?q r" and "j_lock (job_of ?q r) = Some l"
    then have "live q r" "j_lock (job_of q r) = Some l" by (simp_all add: live)
    from inv_lockD [OF inv this] new
    show "r \<in> set (l_jobs (lock_of ?q l))" "map_of (job_locks ?q) (l_name (lock_of ?q l)) = Some l"
      by (auto simp: map_of_update nth_append)
  qed
  ultimately show ?thesis by (simp add: jobs_inv_def)
qed

lemma attach_inv:
  assumes inv: "jobs_inv q" and r: "fresh r q" and name: "get_lock_name (job_of q r) = Inr (Some name)"
    and l: "map_of (job_locks q) name = Some l"
  shows "jobs_inv (upd_job r (\<lambda>j. j\<lparr>j_lock := Some l\<rparr>) (upd_lock l (add_job r) q))"
proof -
  define q1 where "q1 = upd_job r (\<lambda>j. j\<lparr>j_lock := Some l\<rparr>) (upd_lock l (add_job r) q)"
  from r have rn: "r < length (q_jobs q)" "pc (job_of q r) = PPending" "r \<notin> set (q_queue q)"
    by (simp_all add: fresh_def)
  then have nh: "\<not> holding (job_of q r)" by (simp add: holding_def)
  note ll = inv_nameD [OF inv l]
  have ql: "length (q_jobs q1) = length (q_jobs q)" "length (q_locks q1) = length (q_locks q)"
    "job_locks q1 = job_locks q" "deque_dict q1 = deque_dict q" "deque_count q1 = deque_count q"
    "q_queue q1 = q_queue q" "queue_event q1 = queue_event q"
    by (simp_all add: q1_def)
  have jobs: "job_of q1 s = (if s = r then (job_of q r)\<lparr>j_lock := Some l\<rparr> else job_of q s)" for s
    using rn by (simp add: q1_def job_of_upd_job)
  have f: "holding (job_of q1 s) = holding (job_of q s)" "pc (job_of q1 s) = pc (job_of q s)"
    "j_id (job_of q1 s) = j_id (job_of q s)" "get_lock_name (job_of q1 s) = get_lock_name (job_of q s)"
    "s \<noteq> r \<Longrightarrow> j_lock (job_of q1 s) = j_lock (job_of q s)" "j_lock (job_of q1 r) = Some l" for s
    by (auto simp: jobs holding_def intro: get_lock_name_cong)
  have lk: "l_name (lock_of q1 k) = l_name (lock_of q k)" "l_locked (lock_of q1 k) = l_locked (lock_of q k)"
    "set (l_jobs (lock_of q k)) \<subseteq> set (l_jobs (lock_of q1 k))" for k
    by (auto simp: q1_def lock_of_upd_lock)
  have live: "live q1 s = live q s" for s by (auto simp: live_def f ql)
  have notlive: "\<not> live q r" using rn nh by (simp add: live_def)
  have run: "runnable q1 s = runnable q s" if "s \<noteq> r" for s using that by (simp add: runnable_iff f lk(2))
  have key: "holding (job_of q s) \<and> j_lock (job_of q1 s) = Some k \<longleftrightarrow>
      holding (job_of q s) \<and> j_lock (job_of q s) = Some k" for s k
    using nh by (cases "s = r") (auto simp: f)
  have "queue_ok q1" "table_ok q1"
    using inv by (simp_all add: jobs_inv_def queue_ok_def table_ok_def f ql)
  moreover have "states_ok q1" using inv by (auto simp: jobs_inv_def states_ok_def jobs job_ok_def ql)
  moreover have "named q1"
    using inv notlive f(5) unfolding jobs_inv_def named_def live f(4) by metis
  moreover have "wake_ok q1"
    using inv rn(3) run unfolding jobs_inv_def wake_ok_def ql by metis
  moreover have "exclusive q1 = exclusive q"
    unfolding exclusive_def f(1) key lk(2) ql ..
  then have "exclusive q1" using inv by (simp add: jobs_inv_def)
  moreover have "locks_ok q1" unfolding locks_ok_def
  proof (intro conjI allI impI)
    fix s k assume s: "s < length (q_jobs q1)" "j_lock (job_of q1 s) = Some k"
    have "k < length (q_locks q) \<and> get_lock_name (job_of q s) = Inr (Some (l_name (lock_of q k)))"
    proof (cases "s = r")
      case True
      then have "k = l" using s(2) f(6) by simp
      with True name ll show ?thesis by simp
    next
      case False
      then have "s < length (q_jobs q)" "j_lock (job_of q s) = Some k" using s f(5) ql(1) by simp_all
      from inv_lock_nameD [OF inv this] show ?thesis by blast
    qed
    then show "k < length (q_locks q1)" "get_lock_name (job_of q1 s) = Inr (Some (l_name (lock_of q1 k)))"
      by (simp_all add: f(4) lk ql)
  next
    fix n k assume "map_of (job_locks q1) n = Some k"
    with inv_nameD [OF inv, of n k] show "k < length (q_locks q1)" "l_name (lock_of q1 k) = n"
      by (simp_all add: lk ql)
  next
    fix s k assume "live q1 s" and "j_lock (job_of q1 s) = Some k"
    then have "live q s" "s \<noteq> r" "j_lock (job_of q1 s) = Some k" using notlive by (auto simp: live)
    then have s: "live q s" "j_lock (job_of q s) = Some k" using f(5) by simp_all
    from inv_lockD [OF inv s] lk(3) [of k]
    show "s \<in> set (l_jobs (lock_of q1 k))" "map_of (job_locks q1) (l_name (lock_of q1 k)) = Some k"
      by (auto simp: lk(1) ql)
  qed
  ultimately show ?thesis by (simp add: jobs_inv_def q1_def)
qed

text \<open>What \<open>handle_lock\<close> leaves of a fresh job: registered with the lock of its name, if it has one.\<close>

definition attached :: "nat \<Rightarrow> jobs_queue \<Rightarrow> bool" where
  "attached r q \<longleftrightarrow>
     (j_lock (job_of q r) = None \<longrightarrow> get_lock_name (job_of q r) = Inr None) \<and> (\<forall>l. j_lock (job_of q r) = Some l \<longrightarrow>
     r \<in> set (l_jobs (lock_of q l)) \<and> map_of (job_locks q) (l_name (lock_of q l)) = Some l)"

lemma handle_lock_ok:
  assumes inv: "jobs_inv q" and r: "fresh r q" and n: "j_lock (job_of q r) = None"
  shows "jobs_inv (snd (handle_lock r q))" "fresh r (snd (handle_lock r q))"
    "fst (handle_lock r q) = Inr () \<Longrightarrow> attached r (snd (handle_lock r q))"
proof -
  have "jobs_inv (snd (handle_lock r q)) \<and> fresh r (snd (handle_lock r q)) \<and>
      (fst (handle_lock r q) = Inr () \<longrightarrow> attached r (snd (handle_lock r q)))"
  proof (cases "get_lock_name (job_of q r)")
    case (Inr nm)
    show ?thesis
    proof (cases nm)
      case (Some name)
      define q0 where "q0 = (case map_of (job_locks q) name of Some l \<Rightarrow> q | None \<Rightarrow>
          q\<lparr>q_locks := q_locks q @ [JobSharedLock name],
            job_locks := AList.update name (length (q_locks q)) (job_locks q)\<rparr>)"
      define l where "l = (case map_of (job_locks q) name of Some l \<Rightarrow> l | None \<Rightarrow> length (q_locks q))"
      have q0: "jobs_inv q0" "fresh r q0" "get_lock_name (job_of q0 r) = Inr (Some name)"
          "map_of (job_locks q0) name = Some l"
        using inv r Inr Some new_lock_inv [OF inv, of name]
        by (auto simp: q0_def l_def fresh_def map_of_update split: option.splits)
      then have l: "l < length (q_locks q0)" "l_name (lock_of q0 l) = name" by (auto simp: jobs_inv_def locks_ok_def)
      have "handle_lock r q = (Inr (), upd_job r (\<lambda>j. j\<lparr>j_lock := Some l\<rparr>) (upd_lock l (add_job r) q0))"
        using Inr Some by (simp add: handle_lock_def q0_def l_def split: option.splits)
      with attach_inv [OF q0] q0(2,4) l show ?thesis
        by (auto simp: fresh_def attached_def job_of_upd_job lock_of_upd_lock)
    qed (use inv r n Inr in \<open>simp add: handle_lock_def attached_def\<close>)
  qed (use inv r n in \<open>simp add: handle_lock_def attached_def\<close>)
  then show "jobs_inv (snd (handle_lock r q))" "fresh r (snd (handle_lock r q))"
    "fst (handle_lock r q) = Inr () \<Longrightarrow> attached r (snd (handle_lock r q))"
    by blast+
qed

text \<open>The table after the eviction that precedes an insertion.\<close>

definition evicted :: "jobs_queue \<Rightarrow> (nat \<times> nat) list" where
  "evicted q =
     (if length (deque_dict q) > deque_maxlen
      then (case find (\<lambda>(k, o1). j_state (job_of q o1) \<in> finished_states) (deque_dict q) of
              Some (k, o1) \<Rightarrow> AList.delete k (deque_dict q) | None \<Rightarrow> deque_dict q)
      else deque_dict q)"

lemma evicted_subset: "set (evicted q) \<subseteq> set (deque_dict q)"
  by (auto simp: evicted_def AList.delete_eq split: option.splits if_splits)

lemma evicted_ok: "dict_ok (deque_dict q) \<Longrightarrow> dict_ok (evicted q)"
  by (auto simp: evicted_def dict_ok_delete split: option.splits)

lemma deque_add_eq:
  "deque_add r q = (upd_job r (\<lambda>j. j\<lparr>j_id := Some (Suc (deque_count q))\<rparr>) q)
     \<lparr>deque_dict := AList.update (Suc (deque_count q)) r (evicted q), deque_count := Suc (deque_count q)\<rparr>"
proof -
  let ?f = "\<lambda>j. j\<lparr>j_id := Some (Suc (deque_count q))\<rparr>"
  have "j_state (job_of (upd_job r ?f (q\<lparr>deque_count := c\<rparr>)) s) = j_state (job_of q s)" for s c
    by (simp add: job_of_upd_job)
  then show ?thesis
    by (simp add: deque_add_def Let_def evicted_def deque_remove_def upd_job_def split: option.splits)
qed

lemma enqueue_inv:
  assumes inv: "jobs_inv q" and r: "fresh r q" and at: "attached r q"
  shows "jobs_inv (enqueue r q)"
proof -
  define q1 where "q1 = enqueue r q"
  let ?i = "Suc (deque_count q)"
  from r have rn: "r < length (q_jobs q)" "pc (job_of q r) = PPending" "r \<notin> set (q_queue q)" "j_id (job_of q r) = None"
    by (simp_all add: fresh_def)
  have ql: "length (q_jobs q1) = length (q_jobs q)" "q_locks q1 = q_locks q" "job_locks q1 = job_locks q"
    "deque_dict q1 = AList.update ?i r (evicted q)" "deque_count q1 = ?i" "q_queue q1 = q_queue q @ [r]" "queue_event q1"
    by (simp_all add: q1_def enqueue_def Let_def deque_add_eq)
  have jobs: "job_of q1 s = (if s = r then (job_of q r)\<lparr>j_id := Some ?i\<rparr> else job_of q s)" for s
    using rn(1) by (simp add: q1_def enqueue_def Let_def deque_add_eq job_of_upd_job)
  have f: "holding (job_of q1 s) = holding (job_of q s)" "pc (job_of q1 s) = pc (job_of q s)"
    "j_lock (job_of q1 s) = j_lock (job_of q s)" "get_lock_name (job_of q1 s) = get_lock_name (job_of q s)" for s
    by (auto simp: jobs holding_def intro: get_lock_name_cong)
  have live: "live q1 s \<longleftrightarrow> live q s \<or> s = r" for s by (auto simp: live_def f ql)
  have new: "?i \<notin> fst ` set (evicted q)"
    using inv_tableD(1) [OF inv] subsetD [OF evicted_subset] by fastforce
  have old: "(k, s) \<in> set (evicted q) \<Longrightarrow> k \<le> deque_count q \<and> s < length (q_jobs q) \<and> j_id (job_of q s) = Some k" for k s
    using inv_tableD [OF inv] subsetD [OF evicted_subset] by blast
  have "queue_ok q1" using inv rn by (auto simp: jobs_inv_def queue_ok_def ql f)
  moreover have "states_ok q1" using inv by (auto simp: jobs_inv_def states_ok_def ql jobs job_ok_def)
  moreover have "named q1" using inv at by (auto simp: jobs_inv_def named_def live f attached_def)
  moreover have "exclusive q1" using inv by (simp add: jobs_inv_def exclusive_def ql f)
  moreover have "wake_ok q1" by (simp add: wake_ok_def ql)
  moreover have "locks_ok q1" unfolding locks_ok_def
  proof (intro conjI allI impI)
    fix s l assume "live q1 s" and "j_lock (job_of q1 s) = Some l"
    then show "s \<in> set (l_jobs (lock_of q1 l))" "map_of (job_locks q1) (l_name (lock_of q1 l)) = Some l"
      using at inv_lockD(1,2) [OF inv] by (auto simp: live f ql attached_def)
  qed (use inv in \<open>auto simp: jobs_inv_def locks_ok_def ql f\<close>)
  moreover have "dict_ok (deque_dict q1)"
    unfolding ql using inv by (intro dict_ok_update evicted_ok) (simp add: jobs_inv_def table_ok_def)
  then have "table_ok q1"
    using inv old new rn unfolding table_ok_def
    by (auto simp: ql jobs update_new_append jobs_inv_def table_ok_def le_Suc_eq)
  ultimately show ?thesis by (simp add: jobs_inv_def q1_def)
qed

lemma queue_add_inv:
  assumes "jobs_inv q" and "fresh r q" and "j_lock (job_of q r) = None"
  shows "jobs_inv (snd (queue_add st r q))"
proof -
  obtain x q1 where h: "handle_lock r q = (x, q1)" by (metis surj_pair)
  with handle_lock_ok [OF assms] have q1: "jobs_inv q1" "fresh r q1" "x = Inr () \<Longrightarrow> attached r q1" by simp_all
  then show ?thesis
    using enqueue_inv [OF q1(1,2)] by (auto simp: queue_add_def h split: sum.splits option.splits)
qed

lemma Job_fields:
  assumes "Job method args options pipes app now = Inr j"
  shows "j_lock j = None" "pc j = PPending" "j_id j = None" "job_ok j" "\<not> holding j" "j_options j = options"
    "j_method j = method" "j_app j = app" "j_args j = args"
  using assms by (auto simp: Job_def Let_def bindE_eq_Inr_iff job_ok_def holding_def)

lemma submit_inv:
  assumes "jobs_inv q" shows "jobs_inv (snd (submit st method args options pipes app now q))"
proof (cases "Job method args options pipes app now")
  case (Inr j)
  note j = Job_fields [OF Inr]
  let ?q = "q\<lparr>q_jobs := q_jobs q @ [j]\<rparr>"
  have "jobs_inv ?q" using append_job_inv [OF assms j(1,5,4,3)] .
  moreover have "fresh (length (q_jobs q)) ?q"
    using assms j by (auto simp: fresh_def jobs_inv_def queue_ok_def)
  ultimately show ?thesis using queue_add_inv j(1) by (simp add: submit_def Inr)
qed (use assms in \<open>simp add: submit_def\<close>)


section \<open>The system\<close>

text \<open>
  Everything that may happen between two suspensions, in any order: calls that submit a job,
  a turn of the scheduler, the segments of \<open>Job.run\<close> of each job, and what callers, methods
  and the other controller do to jobs. A segment happens only where \<open>run\<close> is suspended.
\<close>

datatype job_op =
    Submit auth_state string "pyval list" job_options "string list" "string option" int
  | Turn
  | Start int "exn option" nat
  | Begin int nat
  | BodyEnd "exn \<Rightarrow> exn option" int outcome nat
  | Finally "string list option" nat
  | Cleanup nat
  | Abort nat
  | Progress nat nat pyval pyval pyval
  | Describe nat pyval
  | Wrap nat nat
  | Callback nat
  | Receive job

definition at_pc :: "jobs_queue \<Rightarrow> nat \<Rightarrow> run_pc \<Rightarrow> bool" where
  "at_pc q r p \<longleftrightarrow> r < length (q_jobs q) \<and> pc (job_of q r) = p"

fun job_step :: "job_op \<Rightarrow> jobs_queue \<Rightarrow> jobs_queue op_result" where
  "job_step (Submit st m a opts p app now) q =
     (case submit st m a opts p app now q of (Inl e, q1) \<Rightarrow> (Inl e, q1) | (Inr r, q1) \<Rightarrow> (Inr (), q1))"
| "job_step Turn q = (Inr (), queue_run q)"
| "job_step (Start now err r) q = (Inr (), if at_pc q r PHanded then run_start now err r q else q)"
| "job_step (Begin now r) q = (Inr (), if at_pc q r POpened then run_begin now r q else q)"
| "job_step (BodyEnd adapt now out r) q = (Inr (), if at_pc q r PBody then run_body_end adapt now out r q else q)"
| "job_step (Finally file r) q = (if at_pc q r PClosing then run_finally file r q else (Inr (), q))"
| "job_step (Cleanup r) q = (Inr (), if at_pc q r PReleased then run_cleanup r q else q)"
| "job_step (Abort r) q = (Inr (), abort r q)"
| "job_step (Progress n r p d e) q = set_progress n r p d e q"
| "job_step (Describe r d) q = (Inr (), set_description r d q)"
| "job_step (Wrap r sub) q = job_wrap r sub q"
| "job_step (Callback r) q = (Inr (), set_on_finish_cb r q)"
| "job_step (Receive j) q = (Inr (), receive j q)"

abbreviation jobs_reach :: "jobs_queue \<Rightarrow> bool" where
  "jobs_reach \<equiv> reach (\<lambda>q. q = new_jobs_queue) (command_step job_step)"

lemma job_step_submit: "snd (job_step (Submit st m a opts p app now) q) = snd (submit st m a opts p app now q)"
  by (auto split: prod.splits sum.splits)

lemma job_step_inv: "jobs_inv q \<Longrightarrow> jobs_inv (snd (job_step c q))"
proof (cases c)
  case (Submit st m a opts p app now)
  then show "jobs_inv q \<Longrightarrow> ?thesis" using submit_inv job_step_submit by simp
qed (auto simp: at_pc_def queue_run_inv run_start_inv run_begin_inv run_body_end_inv run_finally_ok run_cleanup_inv
      receive_inv abort_inv intro: frame_inv set_progress_frame set_description_frame job_wrap_frame set_on_finish_cb_frame)

interpretation jobs: inductive_invariant "\<lambda>q. q = new_jobs_queue" "command_step job_step" jobs_inv
  by unfold_locales (auto simp: command_step_def jobs_inv_new job_step_inv)

section \<open>The life of a job\<close>

text \<open>
  What one operation may do to a job: its options, arguments, identifier and lock are fixed
  once they are set, an abortion is not taken back, and it moves along \<open>run\<close> with the state
  changes listed here and no other.
\<close>

inductive moves :: "bool \<Rightarrow> run_pc \<times> job_state \<Rightarrow> run_pc \<times> job_state \<Rightarrow> bool" for ab :: bool where
  stay: "moves ab x x"
| hand_out: "moves ab (PPending, s) (PHanded, s)"
| log_opened: "moves ab (PHanded, s) (POpened, s)"
| log_failed: "moves ab (PHanded, s) (PCrashed, s)"
| begins: "\<not> ab \<Longrightarrow> p \<in> {PHanded, POpened} \<Longrightarrow> moves ab (p, S_WAITING) (PBody, S_RUNNING)"
| begins_aborted: "ab \<Longrightarrow> p \<in> {PHanded, POpened} \<Longrightarrow> moves ab (p, S_WAITING) (PClosing, S_ABORTED)"
| ends: "s \<in> finished_states \<Longrightarrow> moves ab (PBody, S_RUNNING) (PClosing, s)"
| releases: "p \<in> {PReleased, PEnded} \<Longrightarrow> moves ab (PClosing, s) (p, s)"
| returns: "moves ab (PReleased, s) (PEnded, s)"

definition evolves :: "job \<Rightarrow> job \<Rightarrow> bool" where
  "evolves j k \<longleftrightarrow> j_options k = j_options j \<and> j_args k = j_args j \<and> (j_id j \<noteq> None \<longrightarrow> j_id k = j_id j) \<and>
     (j_lock j \<noteq> None \<longrightarrow> j_lock k = j_lock j) \<and> (aborted j \<longrightarrow> aborted k) \<and>
     moves (aborted j) (pc j, j_state j) (pc k, j_state k)"

lemma evolves_refl [simp]: "evolves j j"
  by (simp add: evolves_def moves.intros)


lemma frame_evolves: "frame q q' \<Longrightarrow> r < length (q_jobs q) \<Longrightarrow> evolves (job_of q r) (job_of q' r)"
  using frame_core [of q q' r] by (simp add: core_def evolves_def moves.stay)

lemma evolves_upd_job: "evolves (job_of q r) (f (job_of q r)) \<Longrightarrow> evolves (job_of q s) (job_of (upd_job r f q) s)"
  by (simp add: job_of_upd_job)

lemma run_begin_evolves:
  assumes "jobs_inv q" and "pc (job_of q r) \<in> {PHanded, POpened}" and "r < length (q_jobs q)"
  shows "evolves (job_of q s) (job_of (run_begin now r q) s)"
proof -
  let ?j = "job_of q r"
  from assms have w: "j_state ?j = S_WAITING"
    by (auto simp: jobs_inv_def states_ok_def job_ok_def)
  obtain ka where ka: "set_state S_ABORTED now ?j = Inr ka" using set_state_allowed(1) [OF w] by blast
  obtain kr where kr: "set_state S_RUNNING now ?j = Inr kr" using set_state_allowed(1) [OF w] by blast
  have "evolves ?j (ka\<lparr>pc := PClosing\<rparr>)" if "aborted ?j"
    using that set_state_cases [OF ka] w assms(2) by (auto simp: evolves_def intro: begins_aborted)
  moreover have "evolves ?j (kr\<lparr>j_future := True, pc := PBody\<rparr>)" if "\<not> aborted ?j"
    using that set_state_cases [OF kr] w assms(2) by (auto simp: evolves_def intro: begins)
  ultimately show ?thesis
    by (auto simp: run_begin_def Let_def mark_aborted_def ka kr job_of_upd_job)
qed

lemma run_start_evolves:
  assumes "jobs_inv q" and "pc (job_of q r) = PHanded" and "r < length (q_jobs q)"
  shows "evolves (job_of q s) (job_of (run_start now err r q) s)"
  using assms run_begin_evolves [OF assms(1) _ assms(3)]
  by (auto simp: run_start_def job_of_upd_job evolves_def intro: moves.intros split: option.splits)

lemma run_body_end_evolves:
  assumes "jobs_inv q" and "pc (job_of q r) = PBody" and "r < length (q_jobs q)" and "s < length (q_jobs q)"
  shows "evolves (job_of q s) (job_of (run_body_end adapt now out r q) s)"
proof -
  from inv_job_ok [OF assms(1,3)] assms(2) have run: "j_state (job_of q r) = S_RUNNING"
    by (simp add: job_ok_def)
  from run_body_end_frame [OF run assms(3)] obtain t where t: "t \<in> finished_states"
    and f: "frame (upd_job r (\<lambda>j. j\<lparr>j_state := t, pc := PClosing\<rparr>) q) (run_body_end adapt now out r q)" by blast
  have "core (job_of (run_body_end adapt now out r q) s) = core (job_of (upd_job r (\<lambda>j. j\<lparr>j_state := t, pc := PClosing\<rparr>) q) s)"
    using frame_core [OF f] assms(4) by simp
  then show ?thesis using assms(2,3) run t
    by (auto simp: core_def evolves_def job_of_upd_job intro: moves.intros split: if_splits)
qed

lemma release_lock_jobs: "q_jobs (snd (release_lock r q)) = q_jobs q"
  by (auto simp: release_lock_def Let_def split: option.splits sum.splits)

lemma run_cleanup_evolves:
  "pc (job_of q r) = PReleased \<Longrightarrow> evolves (job_of q s) (job_of (run_cleanup r q) s)"
  by (auto simp: run_cleanup_def Let_def deque_remove_def job_of_upd_job evolves_def split: option.splits intro: moves.intros)

lemma run_finally_evolves:
  assumes "pc (job_of q r) = PClosing" and "r < length (q_jobs q)"
  shows "evolves (job_of q s) (job_of (snd (run_finally file r q)) s)"
proof -
  let ?q = "if logs_fd (job_of q r) then upd_job r (\<lambda>j. j\<lparr>logs_excerpt := Some (get_logs_excerpt file)\<rparr>) q else q"
  obtain x q1 where rl: "release_lock r ?q = (x, q1)" by (metis surj_pair)
  with release_lock_jobs [of r ?q] have jobs: "q_jobs q1 = q_jobs ?q" by simp
  show ?thesis
    using assms by (cases x)
      (auto simp: run_finally_def rl Let_def jobs job_of_upd_job run_cleanup_def deque_remove_def evolves_def
        split: option.splits intro: moves.intros)
qed


lemma queue_run_evolves:
  assumes "jobs_inv q" shows "evolves (job_of q s) (job_of (queue_run q) s)"
proof (cases "queue_event q")
  case True
  show ?thesis
  proof (cases "find (runnable q) (q_queue q)")
    case (Some r)
    then have "r \<in> set (q_queue q)" by (auto simp: find_Some_iff)
    with assms have "pc (job_of q r) = PPending" by (auto simp: jobs_inv_def queue_ok_def)
    with True Some show ?thesis
      by (auto simp: queue_run_def queue_next_def Let_def job_of_upd_job evolves_def intro: moves.intros split: option.splits)
  qed (simp add: queue_run_def queue_next_def)
qed (simp add: queue_run_def)

text \<open>Submitting a job leaves the jobs that are there alone.\<close>

lemma queue_add_jobs: "s \<noteq> r \<Longrightarrow> job_of (snd (queue_add st r q)) s = job_of q s"
  "length (q_jobs (snd (queue_add st r q))) = length (q_jobs q)"
proof -
  have h: "s \<noteq> r \<Longrightarrow> job_of (snd (handle_lock r q)) s = job_of q s"
    "length (q_jobs (snd (handle_lock r q))) = length (q_jobs q)"
    by (auto simp: handle_lock_def job_of_upd_job split: sum.splits option.splits)
  have e: "s \<noteq> r \<Longrightarrow> job_of (enqueue r q1) s = job_of q1 s" "length (q_jobs (enqueue r q1)) = length (q_jobs q1)" for q1
    by (simp_all add: enqueue_def Let_def deque_add_eq job_of_upd_job)
  obtain x q1 where "handle_lock r q = (x, q1)" by (metis surj_pair)
  with h e [of q1] show "s \<noteq> r \<Longrightarrow> job_of (snd (queue_add st r q)) s = job_of q s"
    "length (q_jobs (snd (queue_add st r q))) = length (q_jobs q)"
    by (auto simp: queue_add_def split: sum.splits option.splits)
qed

lemma submit_jobs:
  assumes "s < length (q_jobs q)"
  shows "job_of (snd (submit st m a opts p app now q)) s = job_of q s"
    "length (q_jobs q) \<le> length (q_jobs (snd (submit st m a opts p app now q)))"
  using assms by (auto simp: submit_def queue_add_jobs nth_append split: sum.splits)

lemma job_step_evolves:
  assumes "jobs_inv q" and "s < length (q_jobs q)"
  shows "evolves (job_of q s) (job_of (snd (job_step c q)) s)"
proof (cases c)
  case (Submit st m a opts p app now)
  then show ?thesis using submit_jobs [OF assms(2)] job_step_submit by simp
next
  case (Abort r)
  then show ?thesis by (auto simp: abort_def evolves_def job_of_upd_job moves.stay)
next
  case (Receive j)
  with assms(2) show ?thesis by (simp add: receive_def Let_def nth_append)
qed (use assms in \<open>auto simp: at_pc_def queue_run_evolves run_start_evolves run_begin_evolves run_body_end_evolves
      run_finally_evolves run_cleanup_evolves
      intro: frame_evolves set_progress_frame set_description_frame job_wrap_frame set_on_finish_cb_frame\<close>)

lemma run_finally_length: "length (q_jobs (snd (run_finally lns r q))) = length (q_jobs q)"
proof -
  let ?q = "if logs_fd (job_of q r) then upd_job r (\<lambda>j. j\<lparr>logs_excerpt := Some (get_logs_excerpt lns)\<rparr>) q else q"
  obtain x q1 where rl: "release_lock r ?q = (x, q1)" by (metis surj_pair)
  with release_lock_jobs [of r ?q] have "q_jobs q1 = q_jobs ?q" by simp
  then show ?thesis
    by (cases x) (auto simp: run_finally_def rl Let_def run_cleanup_def deque_remove_def split: option.splits)
qed

lemma job_step_length: "length (q_jobs q) \<le> length (q_jobs (snd (job_step c q)))"
proof (cases c)
  case (Submit st m a opts p app now)
  show ?thesis unfolding Submit job_step_submit
    by (auto simp: submit_def queue_add_jobs split: sum.splits)
next
  case (Progress n r p d e)
  then show ?thesis using frame_length [OF set_progress_frame] by simp
next
  case (Wrap r sub)
  then show ?thesis using frame_length [OF job_wrap_frame] by simp
next
  case (BodyEnd adapt now out r)
  have "length (q_jobs (run_body_end adapt now out r q)) = length (q_jobs q)"
  proof -
    have "length (q_jobs (snd (run_body_returned now v r q))) = length (q_jobs q)" for v
      using frame_length [OF set_progress_frame]
      by (auto simp: run_body_returned_def Let_def split: sum.splits)
    then show ?thesis
      by (auto simp: run_body_end_def Let_def split: outcome.splits prod.splits sum.splits)
        (metis snd_conv)+
  qed
  then show ?thesis by (simp add: BodyEnd)
next
  case (Finally lns r)
  then show ?thesis using run_finally_length by simp
qed (auto simp: queue_run_def queue_next_def Let_def run_start_def run_begin_def run_cleanup_def deque_remove_def abort_def
      set_description_def set_on_finish_cb_def receive_def split: option.splits sum.splits)

text \<open>Along every run of the system.\<close>

abbreviation job_steps :: "jobs_queue \<Rightarrow> jobs_queue \<Rightarrow> bool" where
  "job_steps \<equiv> (command_step job_step)\<^sup>*\<^sup>*"

lemma job_steps_stable:
  assumes steps: "job_steps q q'" and reach: "jobs_reach q" and r: "r < length (q_jobs q)" and P: "P (job_of q r)"
    and keep: "\<And>j k. P j \<Longrightarrow> job_ok j \<Longrightarrow> evolves j k \<Longrightarrow> P k"
  shows "r < length (q_jobs q') \<and> P (job_of q' r)"
  using steps
proof (induction rule: rtranclp_induct)
  case (step q1 q2)
  then obtain c where c: "q2 = snd (job_step c q1)" by (auto simp: command_step_def)
  from jobs.reach_inv [OF reach_rtranclp [OF reach step.hyps(1)]] have inv: "jobs_inv q1" .
  with step.IH show ?case
    using keep [OF _ inv_job_ok [OF inv] job_step_evolves [OF inv]] job_step_length [of q1 c] by (auto simp: c)
qed (use r P in simp)

end
