(* ===== verification/JobProperties.thy ===== *)
theory JobProperties
  imports JobsProofs
begin

text \<open>
  What the job queue guarantees: exclusion of jobs that share a lock, no lost wake-up, order
  within a lock, absence of deadlock, the life of a job and its limits, and who may abort a
  job; and where it does not do what its documentation says.
\<close>

section \<open>A run of the queue\<close>

text \<open>Two jobs with the same lock, of which the first has begun.\<close>

definition demo_options :: job_options where
  "demo_options = default_options\<lparr>opt_lock := ConstLock (Some ''pool''), lock_queue_size := Some 1\<rparr>"

definition demo_auth :: auth_state where
  "demo_auth = \<lparr>creds = [], toks = [], tokens = [], sessions = [], apps = [], aal_level = AA_LEVEL1,
     otpw = new_otp_manager, revoked_keys = []\<rparr>"

definition demo_submit :: job_op where
  "demo_submit = Submit demo_auth ''pool.scrub'' [] demo_options [] None 0"

definition demo_q :: jobs_queue where
  "demo_q = snd (run_seq job_step [demo_submit, Turn, Start 1 None 0, demo_submit] new_jobs_queue)"

lemmas job_evals = demo_q_def demo_submit_def demo_options_def default_options_def new_jobs_queue_def submit_def Job_def
  Let_def queue_add_def handle_lock_def get_lock_name_def admission_def queued_with_def enqueue_def deque_add_def
  deque_maxlen_def upd_job_def upd_lock_def send_job_event_def JobSharedLock_def add_job_def queue_run_def
  queue_next_def runnable_def lock_acquire_def at_pc_def run_start_def run_begin_def set_state_def finished_states_def

lemma demo_q_reach: "jobs_reach demo_q"
  unfolding demo_q_def by (rule run_seq_reach) simp

lemma demo_q_jobs:
  "length (q_jobs demo_q) = 2" "q_queue demo_q = [1]" "pc (job_of demo_q 0) = PBody" "pc (job_of demo_q 1) = PPending"
  "j_lock (job_of demo_q 0) = Some 0" "j_lock (job_of demo_q 1) = Some 0" "j_state (job_of demo_q 0) = S_RUNNING"
  "j_state (job_of demo_q 1) = S_WAITING"
  "opt_lock (j_options (job_of demo_q 0)) = ConstLock (Some ''pool'')"
  "deque_dict demo_q = [(1, 0), (2, 1)]" "j_app (job_of demo_q 0) = None"
  by (simp_all add: job_evals)

text \<open>The queue with one job that waits, and with one whose body has failed.\<close>

definition demo_waiting :: jobs_queue where
  "demo_waiting = snd (run_seq job_step [demo_submit] new_jobs_queue)"

definition demo_failed :: jobs_queue where
  "demo_failed = snd (run_seq job_step [BodyEnd (\<lambda>e. None) 2 (Raised KeyError) 0] demo_q)"

lemma demo_reach: "jobs_reach demo_waiting" "jobs_reach demo_failed"
  unfolding demo_waiting_def demo_failed_def
  by (rule run_seq_reach, simp) (rule reach_rtranclp [OF demo_q_reach run_seq_steps])

lemma demo_waiting_jobs:
  "length (q_jobs demo_waiting) = 1" "q_queue demo_waiting = [0]" "pc (job_of demo_waiting 0) = PPending"
  "j_lock (job_of demo_waiting 0) = Some 0" "j_state (job_of demo_waiting 0) = S_WAITING"
  "runnable demo_waiting 0" "j_future (job_of demo_waiting 0) = False"
  by (simp_all add: demo_waiting_def job_evals)

lemma demo_failed_jobs: "length (q_jobs demo_failed) = 2" "j_state (job_of demo_failed 0) = S_FAILED" "pc (job_of demo_failed 0) = PClosing"
  by (simp_all add: demo_failed_def demo_q_jobs at_pc_def run_body_end_def Let_def job_of_upd_job mark_failed_def
      set_state_def finished_states_def)

section \<open>Exclusion\<close>

text \<open>
  C2. A lock excludes: in every reachable state at most one job with a given lock name has been
  handed out by the scheduler and has not yet released its lock; in particular two running
  jobs never share a lock, whatever calls, abortions and failures came before.
\<close>

theorem running_jobs_exclude:
  assumes "jobs_reach q" and "r < length (q_jobs q)" and "s < length (q_jobs q)"
    and "holding (job_of q r)" and "holding (job_of q s)"
    and "get_lock_name (job_of q r) = Inr (Some name)" and "get_lock_name (job_of q s) = Inr (Some name)"
  shows "r = s"
proof -
  note inv = jobs.reach_inv [OF assms(1)]
  have live: "live q r" "live q s" using assms by (simp_all add: live_def)
  obtain k l where k: "j_lock (job_of q r) = Some k" and l: "j_lock (job_of q s) = Some l"
    using inv live assms(6,7) unfolding jobs_inv_def named_def by (metis Inr_inject option.exhaust option.distinct(1))
  have "l_name (lock_of q k) = name" "l_name (lock_of q l) = name"
    using inv_lock_nameD(2) [OF inv assms(2) k] inv_lock_nameD(2) [OF inv assms(3) l] assms(6,7) by (metis Inr_inject option.inject)+
  then have "k = l"
    using inv_lockD(2) [OF inv live(1) k] inv_lockD(2) [OF inv live(2) l] by (metis option.inject)
  with inv assms(2-5) k l show ?thesis unfolding jobs_inv_def exclusive_def by blast
qed

theorem running_jobs_exclude_witness:
  "jobs_reach demo_q \<and> holding (job_of demo_q 0) \<and> get_lock_name (job_of demo_q 0) = Inr (Some ''pool'') \<and> (0::nat) = 0"
  using running_jobs_exclude [OF demo_q_reach, of 0 0 "''pool''"] demo_q_reach
  by (simp add: demo_q_jobs holding_def get_lock_name_def)

text \<open>
  No wake-up is lost: when some queued job could run, the event of the scheduler is set and
  its next turn hands out a job, the first of the queue whose lock is free.
\<close>

theorem runnable_job_is_handed_out:
  assumes "jobs_reach q" and "r \<in> set (q_queue q)" and "runnable q r"
  shows "queue_event q \<and> (\<exists>s pre post. q_queue q = pre @ s # post \<and> q_queue (queue_run q) = pre @ post \<and>
    pc (job_of (queue_run q) s) = PHanded \<and> filter (runnable q) pre = [])"
proof -
  note inv = jobs.reach_inv [OF assms(1)]
  with assms(2,3) have ev: "queue_event q" by (auto simp: jobs_inv_def wake_ok_def)
  from assms(2,3) obtain s where f: "find (runnable q) (q_queue q) = Some s"
    by (metis find_None_iff option.exhaust)
  then obtain i where i: "i < length (q_queue q)" "q_queue q ! i = s" "\<forall>k < i. \<not> runnable q (q_queue q ! k)"
    by (auto simp: find_Some_iff)
  let ?pre = "take i (q_queue q)" and ?post = "drop (Suc i) (q_queue q)"
  have split: "q_queue q = ?pre @ s # ?post" using i id_take_nth_drop by metis
  have "distinct (q_queue q)" "s < length (q_jobs q)"
    using inv i by (auto simp: jobs_inv_def queue_ok_def)
  then have rm: "remove1 s (q_queue q) = ?pre @ ?post"
    by (subst split, subst (asm) split) (simp add: remove1_append)
  have "filter (runnable q) ?pre = []" using i(1,3) by (auto simp: filter_empty_conv in_set_conv_nth)
  moreover have "q_queue (queue_run q) = ?pre @ ?post" "pc (job_of (queue_run q) s) = PHanded"
    using ev f rm \<open>s < length (q_jobs q)\<close>
    by (auto simp: queue_run_def queue_next_def Let_def job_of_upd_job split: option.splits)
  ultimately show ?thesis using split ev by blast
qed

theorem runnable_job_is_handed_out_witness:
  "queue_event demo_waiting \<and> (\<exists>s pre post. q_queue demo_waiting = pre @ s # post \<and>
    q_queue (queue_run demo_waiting) = pre @ post \<and> pc (job_of (queue_run demo_waiting) s) = PHanded \<and>
    filter (runnable demo_waiting) pre = [])"
  by (rule runnable_job_is_handed_out [OF demo_reach(1), of 0]) (simp_all add: demo_waiting_jobs)

text \<open>
  C27. Jobs of one lock run in the order of their submission: the scheduler never hands out a
  job while an earlier one in the queue has the same lock, or has none.
\<close>

theorem lock_order_is_fifo:
  assumes "jobs_reach q" and "queue_next q = (Some r, q')"
  shows "\<exists>pre post. q_queue q = pre @ r # post \<and> q_queue q' = pre @ post \<and>
    {None, j_lock (job_of q r)} \<inter> (\<lambda>s. j_lock (job_of q s)) ` set pre = {}"
proof -
  note inv = jobs.reach_inv [OF assms(1)]
  from assms(2) have f: "find (runnable q) (q_queue q) = Some r"
    by (auto simp: queue_next_def Let_def split: option.splits if_splits)
  then obtain i where i: "i < length (q_queue q)" "q_queue q ! i = r" "runnable q r"
    "\<forall>k < i. \<not> runnable q (q_queue q ! k)"
    by (auto simp: find_Some_iff)
  let ?pre = "take i (q_queue q)" and ?post = "drop (Suc i) (q_queue q)"
  have split: "q_queue q = ?pre @ r # ?post" using i id_take_nth_drop by metis
  have "distinct (q_queue q)" using inv by (simp add: jobs_inv_def queue_ok_def)
  then have rm: "remove1 r (q_queue q) = ?pre @ ?post"
    by (subst split, subst (asm) split) (simp add: remove1_append)
  have "\<not> runnable q s" if "s \<in> set ?pre" for s using that i(1,4) by (auto simp: in_set_conv_nth)
  with i(3) have "{None, j_lock (job_of q r)} \<inter> (\<lambda>s. j_lock (job_of q s)) ` set ?pre = {}"
    by (force simp: runnable_iff)
  moreover have "q_queue q' = ?pre @ ?post"
    using assms(2) f rm by (auto simp: queue_next_def Let_def split: option.splits if_splits)
  ultimately show ?thesis using split by blast
qed

theorem lock_order_is_fifo_witness:
  "\<exists>pre post. q_queue demo_waiting = pre @ 0 # post \<and> q_queue (snd (queue_next demo_waiting)) = pre @ post \<and>
    {None, j_lock (job_of demo_waiting 0)} \<inter> (\<lambda>s. j_lock (job_of demo_waiting s)) ` set pre = {}"
proof -
  have "queue_next demo_waiting = (Some 0, snd (queue_next demo_waiting))"
    by (simp add: queue_next_def demo_waiting_jobs Let_def)
  then show ?thesis by (rule lock_order_is_fifo [OF demo_reach(1)])
qed

section \<open>The life of a job\<close>

lemma evolves_finished: "evolves j k \<Longrightarrow> j_state j \<in> finished_states \<Longrightarrow> j_state k = j_state j"
  by (auto simp: evolves_def finished_states_def elim!: moves.cases)

text \<open>
  The states of a job: one operation leaves the state of a job alone or takes it from
  waiting to running, from waiting to aborted when the job was aborted before it began, or
  from running to one of the finished states.
\<close>

theorem job_states_follow_diagram:
  assumes "jobs_reach q" and "r < length (q_jobs q)"
  shows "(j_state (job_of q r), j_state (job_of (snd (job_step c q)) r)) \<in>
    Id \<union> {(S_WAITING, S_RUNNING), (S_WAITING, S_ABORTED)} \<union> {S_RUNNING} \<times> finished_states"
  using job_step_evolves [OF jobs.reach_inv [OF assms(1)] assms(2), of c]
  by (auto simp: evolves_def elim: moves.cases)

theorem job_states_follow_diagram_witness:
  "(j_state (job_of demo_q 0), j_state (job_of (snd (job_step (BodyEnd (\<lambda>e. None) 2 Cancelled 0) demo_q)) 0)) \<in>
    Id \<union> {(S_WAITING, S_RUNNING), (S_WAITING, S_ABORTED)} \<union> {S_RUNNING} \<times> finished_states"
  by (rule job_states_follow_diagram [OF demo_q_reach]) (simp add: demo_q_jobs)

text \<open>
  The outcome of a job is final: in every continuation a finished job keeps its state.
\<close>

theorem finished_job_is_final:
  assumes "jobs_reach q" and "r < length (q_jobs q)" and "j_state (job_of q r) = s" and "s \<in> finished_states"
    and "job_steps q q'"
  shows "r < length (q_jobs q') \<and> j_state (job_of q' r) = s"
  by (rule job_steps_stable [OF assms(5,1,2), of "\<lambda>j. j_state j = s"])
    (use assms(3,4) in \<open>auto dest: evolves_finished\<close>)

theorem finished_job_is_final_witness:
  "0 < length (q_jobs (snd (run_seq job_step [Finally None 0, Turn] demo_failed))) \<and>
   j_state (job_of (snd (run_seq job_step [Finally None 0, Turn] demo_failed)) 0) = S_FAILED"
  by (rule finished_job_is_final [OF demo_reach(2) _ _ _ run_seq_steps])
    (simp_all add: demo_failed_jobs finished_states_def)

text \<open>
  C28. An abortion that comes before the body has begun is honoured: a waiting job that is
  aborted never runs, in any continuation.
\<close>

theorem aborted_job_never_runs:
  assumes "jobs_reach q" and "r < length (q_jobs q)" and "j_state (job_of q r) = S_WAITING"
    and "pc (job_of q r) \<noteq> PReceived" and "job_steps (abort r q) q'"
  shows "r < length (q_jobs q') \<and> j_state (job_of q' r) \<in> {S_WAITING, S_ABORTED}"
proof -
  have "j_future (job_of q r) = False"
    using inv_job_ok [OF jobs.reach_inv [OF assms(1)] assms(2)] assms(3,4)
    by (cases "pc (job_of q r)") (auto simp: job_ok_def finished_states_def)
  then have ab: "aborted (job_of (abort r q) r)" "j_state (job_of (abort r q) r) = S_WAITING"
    "length (q_jobs (abort r q)) = length (q_jobs q)"
    using assms(2,3) by (simp_all add: abort_def job_of_upd_job)
  have reach: "jobs_reach (abort r q)"
    using reach_step [OF assms(1), of "abort r q"] command_stepI [of job_step q "Abort r"] by simp
  have "r < length (q_jobs q') \<and> aborted (job_of q' r) \<and> j_state (job_of q' r) \<in> {S_WAITING, S_ABORTED}"
    by (rule job_steps_stable [OF assms(5) reach, of r "\<lambda>j. aborted j \<and> j_state j \<in> {S_WAITING, S_ABORTED}"])
      (use ab assms(2) in \<open>auto simp: evolves_def elim!: moves.cases\<close>)
  then show ?thesis by blast
qed


theorem aborted_job_never_runs_witness:
  "0 < length (q_jobs (snd (run_seq job_step [Turn, Start 1 None 0] (abort 0 demo_waiting)))) \<and>
   j_state (job_of (snd (run_seq job_step [Turn, Start 1 None 0] (abort 0 demo_waiting))) 0) \<in> {S_WAITING, S_ABORTED}"
  by (rule aborted_job_never_runs [OF demo_reach(1) _ _ _ run_seq_steps]) (simp_all add: demo_waiting_jobs)

text \<open>
  C29. A log file that cannot be opened costs the lock: an exception of \<open>start_logging\<close> leaves \<open>run\<close>
  before its \<open>try\<close>, so the job never releases its lock, and no job that waits for that lock
  becomes runnable in any continuation.
\<close>

theorem failed_log_open_holds_lock:
  assumes "jobs_reach q" and "r < length (q_jobs q)" and "pc (job_of q r) = PHanded" and "j_lock (job_of q r) = Some l"
    and "opt_logs (j_options (job_of q r))" and "job_steps (run_start now (Some e) r q) q'"
    and "j_lock (job_of q' s) = Some l"
  shows "\<not> runnable q' s"
proof -
  let ?q = "run_start now (Some e) r q"
  have reach: "jobs_reach ?q"
    using reach_step [OF assms(1), of ?q] command_stepI [of job_step q "Start now (Some e) r"] assms(2,3)
    by (simp add: at_pc_def)
  have r: "r < length (q_jobs ?q)" "pc (job_of ?q r) = PCrashed" "j_lock (job_of ?q r) = Some l"
    using assms(2-5) by (simp_all add: run_start_def job_of_upd_job)
  have "r < length (q_jobs q') \<and> pc (job_of q' r) = PCrashed \<and> j_lock (job_of q' r) = Some l"
    by (rule job_steps_stable [OF assms(6) reach r(1), of "\<lambda>j. pc j = PCrashed \<and> j_lock j = Some l"])
      (use r in \<open>auto simp: evolves_def elim!: moves.cases\<close>)
  moreover note inv = jobs.reach_inv [OF reach_rtranclp [OF reach assms(6)]]
  ultimately have "l_locked (lock_of q' l)"
    using inv_lock_nameD(1) [OF inv] unfolding jobs_inv_def exclusive_def
    by (metis (no_types, lifting) holding_def insertCI)
  with assms(7) show ?thesis by (auto simp: runnable_iff)
qed

text \<open>A job with a lock and a log file, handed out.\<close>

definition demo_logged :: jobs_queue where
  "demo_logged = snd (run_seq job_step
     [Submit demo_auth ''cloudsync.sync'' [] (demo_options\<lparr>opt_logs := True\<rparr>) [] None 0, Turn] new_jobs_queue)"

lemma demo_logged_facts:
  "jobs_reach demo_logged" "length (q_jobs demo_logged) = 1" "pc (job_of demo_logged 0) = PHanded"
  "j_lock (job_of demo_logged 0) = Some 0" "opt_logs (j_options (job_of demo_logged 0))"
  "j_lock (job_of (run_start 1 (Some KeyError) 0 demo_logged) 0) = Some 0"
  subgoal unfolding demo_logged_def by (rule run_seq_reach) simp
  by (simp_all add: demo_logged_def job_evals)

theorem failed_log_open_holds_lock_witness:
  "\<not> runnable (run_start 1 (Some KeyError) 0 demo_logged) 0"
  by (rule failed_log_open_holds_lock [OF demo_logged_facts(1) _ _ demo_logged_facts(4,5) rtranclp.rtrancl_refl demo_logged_facts(6)])
    (simp_all add: demo_logged_facts)

section \<open>Admission\<close>

lemma replacement_queued: "replacement st q j rs = Inr a \<Longrightarrow> a \<in> set rs"
  by (induction rs) (auto split: if_splits option.splits)

lemma enqueue_queued:
  assumes "r < length (q_jobs q)"
  shows "queued_with (enqueue r q) (j_lock (job_of q r)) = queued_with q (j_lock (job_of q r)) @ [r]"
    "j_lock (job_of (enqueue r q) s) = j_lock (job_of q s)"
proof -
  show same: "j_lock (job_of (enqueue r q) s) = j_lock (job_of q s)" for s
    by (simp add: enqueue_def Let_def deque_add_eq job_of_upd_job)
  show "queued_with (enqueue r q) (j_lock (job_of q r)) = queued_with q (j_lock (job_of q r)) @ [r]"
    unfolding queued_with_def same by (simp add: enqueue_def Let_def deque_add_eq)
qed

text \<open>
  The limit of a lock: right after a job is accepted whose \<open>lock_queue_size\<close> is \<open>k > 0\<close>, at most
  \<open>k\<close> jobs of its lock wait in the queue.
\<close>

theorem accepted_within_limit:
  assumes "jobs_reach q" and "submit st m args opts pipes app now q = (Inr (length (q_jobs q)), q')"
    and "lock_queue_size opts = Some k" and "0 < k"
  shows "length (q_jobs q) \<in> set (q_queue q') \<and>
    int (length (queued_with q' (j_lock (job_of q' (length (q_jobs q)))))) \<le> k"
proof -
  let ?r = "length (q_jobs q)"
  note inv = jobs.reach_inv [OF assms(1)]
  from assms(2) obtain j where j: "Job m args opts pipes app now = Inr j"
    and add: "queue_add st ?r (q\<lparr>q_jobs := q_jobs q @ [j]\<rparr>) = (Inr ?r, q')"
    by (auto simp: submit_def split: sum.splits)
  note jf = Job_fields [OF j]
  let ?q0 = "q\<lparr>q_jobs := q_jobs q @ [j]\<rparr>"
  obtain x q1 where h: "handle_lock ?r ?q0 = (x, q1)" by (metis surj_pair)
  have fresh: "fresh ?r ?q0" using inv jf by (auto simp: fresh_def jobs_inv_def queue_ok_def)
  from handle_lock_ok(2) [OF append_job_inv [OF inv jf(1,5,4,3)] fresh] h jf(1) have r: "fresh ?r q1" by simp
  have opts: "j_options (job_of q1 ?r) = opts"
    using h jf(6) by (auto simp: handle_lock_def job_of_upd_job split: sum.splits option.splits)
  from add h obtain a where ad: "admission st ?r q1 = Inr a" and q': "case a of Some b \<Rightarrow> b = ?r | None \<Rightarrow> q' = enqueue ?r q1"
    by (auto simp: queue_add_def split: sum.splits option.splits)
  have "a = None"
  proof (cases a)
    case (Some b)
    with ad q' have "?r \<in> set (q_queue q1)"
      by (auto simp: admission_def Let_def bindE_eq_Inr_iff queued_with_def split: option.splits if_splits dest!: replacement_queued)
    with r show ?thesis by (simp add: fresh_def)
  qed
  with ad opts assms(3,4) have "int (length (queued_with q1 (j_lock (job_of q1 ?r)))) < k"
    by (auto simp: admission_def Let_def bindE_eq_Inr_iff split: if_splits)
  with q' \<open>a = None\<close> enqueue_queued [of ?r q1] r show ?thesis
    by (auto simp: fresh_def queued_with_def enqueue_def Let_def)
qed


theorem accepted_within_limit_witness:
  "length (q_jobs new_jobs_queue) \<in> set (q_queue (snd (submit demo_auth ''pool.scrub'' [] demo_options [] None 0 new_jobs_queue))) \<and>
   int (length (queued_with (snd (submit demo_auth ''pool.scrub'' [] demo_options [] None 0 new_jobs_queue))
     (j_lock (job_of (snd (submit demo_auth ''pool.scrub'' [] demo_options [] None 0 new_jobs_queue)) (length (q_jobs new_jobs_queue)))))) \<le> 1"
proof -
  have "submit demo_auth ''pool.scrub'' [] demo_options [] None 0 new_jobs_queue =
      (Inr (length (q_jobs new_jobs_queue)), snd (submit demo_auth ''pool.scrub'' [] demo_options [] None 0 new_jobs_queue))"
    by (simp add: job_evals)
  from accepted_within_limit [OF reach_init this] show ?thesis
    by (simp add: demo_options_def default_options_def)
qed

text \<open>
  Jobs without a lock share the limit of one: when five of them wait, a further call of any
  method with the default options is not queued, and its caller gets the last of the queued
  jobs instead, a job of another method.
\<close>

theorem lockless_job_is_replaced:
  assumes "jobs_reach q" and "5 \<le> length (queued_with q None)"
  shows "fst (submit st m args default_options [] None now q) = Inr (last (queued_with q None)) \<and>
    q_queue (snd (submit st m args default_options [] None now q)) = q_queue q"
proof -
  note inv = jobs.reach_inv [OF assms(1)]
  obtain j where j: "Job m args default_options [] None now = Inr j"
    by (simp add: Job_def Let_def default_options_def)
  note jf = Job_fields [OF j]
  let ?q = "q\<lparr>q_jobs := q_jobs q @ [j]\<rparr>"
  have "queued_with ?q None = queued_with q None"
    using inv by (auto simp: queued_with_def jobs_inv_def queue_ok_def nth_append intro: filter_cong)
  moreover obtain a rs where rv: "rev (queued_with q None) = a # rs" using assms(2) by (cases "rev (queued_with q None)") auto
  from rv have "last (queued_with q None) = a" by (metis hd_rev list.sel(1))
  with rv jf(8) have "replacement st ?q j (rev (queued_with q None)) = Inr (last (queued_with q None))"
    by (simp only: replacement.simps) (simp add: job_credentials_def credential_is_limited_to_own_jobs_def)
  moreover have "submit st m args default_options [] None now q = queue_add st (length (q_jobs q)) ?q"
    by (simp add: submit_def j)
  moreover have "opt_lock default_options = ConstLock None" "lock_queue_size default_options = Some 5"
    by (simp_all add: default_options_def)
  ultimately show ?thesis using assms(2) jf
    by (simp add: queue_add_def handle_lock_def get_lock_name_def admission_def Let_def)
qed

definition demo_lockless :: jobs_queue where
  "demo_lockless = snd (run_seq job_step (replicate 5 (Submit demo_auth ''core.bulk'' [] default_options [] None 0)) new_jobs_queue)"

lemma demo_lockless_facts: "jobs_reach demo_lockless" "queued_with demo_lockless None = [0, 1, 2, 3, 4]"
  subgoal unfolding demo_lockless_def by (rule run_seq_reach) simp
  by (simp add: demo_lockless_def eval_nat_numeral job_evals)

theorem lockless_job_is_replaced_witness:
  "fst (submit demo_auth ''mail.send'' [] default_options [] None 1 demo_lockless) = Inr (last (queued_with demo_lockless None)) \<and>
    q_queue (snd (submit demo_auth ''mail.send'' [] default_options [] None 1 demo_lockless)) = q_queue demo_lockless"
  by (rule lockless_job_is_replaced [OF demo_lockless_facts(1)]) (simp add: demo_lockless_facts)

section \<open>Access\<close>

text \<open>
  A user without full administrative privileges may abort only a job of the same user.
\<close>

theorem only_owner_aborts:
  assumes "job_abort st (Some a) i q = (Inr (), q')" and "credential_is_limited_to_own_jobs st (app_cred a)"
  shows "\<exists>r owner. map_of (deque_dict q) i = Some r \<and> credential_username st (job_credentials st (job_of q r)) = Some owner \<and>
    credential_username st (app_cred a) = Some owner \<and> q' = abort r q"
proof -
  from assms obtain r c where r: "map_of (deque_dict q) i = Some r" "q' = abort r q" and c: "app_cred a = Some c"
    and acc: "credential_access_error st (job_of q r) (Some c) ABORT = None"
    by (auto simp: job_abort_def job_by_app_and_id_def job_by_credential_and_id_def credential_is_limited_to_own_jobs_def
        split: sum.splits option.splits)
  from acc assms(2) c obtain u owner where "session_user st c = Some u"
      "credential_username st (job_credentials st (job_of q r)) = Some owner" "credential_username st (Some c) = Some owner"
    by (auto simp: credential_access_error_def credential_is_limited_to_own_jobs_def split: option.splits if_splits)
  with r c show ?thesis by auto
qed

text \<open>A user who may abort a job of its own.\<close>

definition demo_user :: user where
  "demo_user = \<lparr>username = ''alice'', account_attributes = [],
     u_privilege = \<lparr>c_roles = [], c_allowlist = [], c_web_shell = False, c_webui_access = True\<rparr>\<rparr>"

definition demo_app :: app where
  "demo_app = \<lparr>app_origin = None, authenticated = True, app_cred = Some 0, next_mech = None, auth_data = None\<rparr>"

definition demo_session :: auth_state where
  "demo_session = demo_auth\<lparr>creds := [UserC (new_user_cred LoginPassword demo_user None 0)], apps := [(''s'', demo_app)]\<rparr>"

definition demo_owned :: jobs_queue where
  "demo_owned = snd (submit demo_session ''pool.scrub'' [] demo_options [] (Some ''s'') 0 new_jobs_queue)"

lemma demo_owned_facts:
  "deque_dict demo_owned = [(1, 0)]" "j_app (job_of demo_owned 0) = Some ''s''" "read_roles (j_options (job_of demo_owned 0)) = []"
  by (simp_all add: demo_owned_def job_evals)

lemma demo_session_facts:
  "session_user demo_session 0 = Some (new_user_cred LoginPassword demo_user None 0)"
  "map_of (apps demo_session) ''s'' = Some demo_app" "app_cred demo_app = Some 0"
  "\<not> credential_has_full_admin demo_session 0" "uc_user (new_user_cred LoginPassword demo_user None 0) = demo_user"
  by (simp_all add: demo_session_def session_user_def demo_app_def credential_has_full_admin_def new_user_cred_def
      demo_user_def Allowlist_def ALLOW_LIST_FULL_ADMIN_def)

theorem only_owner_aborts_witness:
  "\<exists>r owner. map_of (deque_dict demo_owned) 1 = Some r \<and>
    credential_username demo_session (job_credentials demo_session (job_of demo_owned r)) = Some owner \<and>
    credential_username demo_session (app_cred demo_app) = Some owner \<and> abort 0 demo_owned = abort r demo_owned"
proof (rule only_owner_aborts)
  show "job_abort demo_session (Some demo_app) 1 demo_owned = (Inr (), abort 0 demo_owned)"
    by (simp add: job_abort_def job_by_app_and_id_def job_by_credential_and_id_def credential_access_error_def
        credential_username_def job_credentials_def demo_owned_facts demo_session_facts)
  show "credential_is_limited_to_own_jobs demo_session (app_cred demo_app)"
    by (simp add: credential_is_limited_to_own_jobs_def demo_session_facts)
qed

section \<open>Logs and the table\<close>

text \<open>
  The excerpt of a log is the log itself up to twenty lines, and otherwise its first and its
  last ten lines around a line that counts the rest.
\<close>

lemma last_append:
  "drop (length (drop (length x - k) x @ y) - k) (drop (length x - k) x @ y) = drop (length (x @ y) - k) (x @ y)"
  by (cases "length x \<le> k") (simp_all add: add.commute)

lemma fold_excerpt_tail:
  "length h = 10 \<Longrightarrow> length t \<le> 10 \<Longrightarrow> fold excerpt_line ls (h, t) = (h, drop (length (t @ ls) - 10) (t @ ls))"
proof (induction ls arbitrary: t)
  case (Cons l ls)
  let ?t = "drop (length (t @ [l]) - 10) (t @ [l])"
  have "fold excerpt_line (l # ls) (h, t) = fold excerpt_line ls (h, ?t)"
    using Cons.prems by (simp add: excerpt_line_def Let_def)
  also have "\<dots> = (h, drop (length (?t @ ls) - 10) (?t @ ls))"
    using Cons.IH [of ?t] Cons.prems by simp
  finally show ?case unfolding last_append by simp
qed simp

lemma fold_excerpt:
  "length h \<le> 10 \<Longrightarrow> fold excerpt_line ls (h, []) =
     (take 10 (h @ ls), drop (length (drop 10 (h @ ls)) - 10) (drop 10 (h @ ls)))"
proof (induction ls arbitrary: h)
  case (Cons l ls)
  show ?case
  proof (cases "length h < 10")
    case True
    with Cons.IH [of "h @ [l]"] show ?thesis by (simp add: excerpt_line_def)
  next
    case False
    with Cons.prems have "length h = 10" by simp
    with fold_excerpt_tail [of h "[]" "l # ls"] show ?thesis by simp
  qed
qed simp

theorem excerpt_keeps_both_ends:
  "get_logs_excerpt (Some ls) =
     (if length ls \<le> 20 then concat ls
      else concat (take 10 ls) @ ''... '' @ str_of_nat (length ls - 20) @ '' more lines ...'' @ [CHR 0x0A] @
        concat (drop (length ls - 10) ls))"
proof -
  have "fold excerpt_line ls ([], []) = (take 10 ls, drop (length ls - 20) (drop 10 ls))"
    using fold_excerpt [of "[]" ls] by simp
  moreover have "length ls \<le> 20 \<Longrightarrow> concat (take 10 ls) @ concat (drop 10 ls) = concat ls"
    by (metis append_take_drop_id concat_append)
  ultimately show ?thesis by (auto simp: get_logs_excerpt_def)
qed


lemma find_SomeD: "find P xs = Some x \<Longrightarrow> x \<in> set xs \<and> P x"
  by (auto simp: find_Some_iff)

lemma find_finished:
  assumes "jobs_inv q" and "(i, r) \<in> set (deque_dict q)" and "j_state (job_of q r) \<notin> finished_states"
  shows "(i, r) \<in> set (evicted q)"
proof (cases "find (\<lambda>(k, o1). j_state (job_of q o1) \<in> finished_states) (deque_dict q)")
  case (Some ks)
  obtain k s where ks: "ks = (k, s)" by (cases ks)
  with Some have s: "j_state (job_of q s) \<in> finished_states" "(k, s) \<in> set (deque_dict q)"
    using find_SomeD [of _ "deque_dict q" "(k, s)"] by fastforce+
  have "k \<noteq> i"
    using s assms by (auto simp: jobs_inv_def table_ok_def dest: eq_key_imp_eq_value)
  with assms(2) show ?thesis by (auto simp: evicted_def Some ks AList.delete_eq)
qed (use assms(2) in \<open>simp add: evicted_def\<close>)

lemma length_evicted:
  assumes "dict_ok (deque_dict q)" and "(k, s) \<in> set (deque_dict q)" and "j_state (job_of q s) \<in> finished_states"
    and "length (deque_dict q) > deque_maxlen"
  shows "length (evicted q) = length (deque_dict q) - 1"
proof -
  from assms(2,3) obtain k' s' where f: "find (\<lambda>(k, o1). j_state (job_of q o1) \<in> finished_states) (deque_dict q) = Some (k', s')"
    by (metis (no_types, lifting) case_prodI find_None_iff not_None_eq surj_pair)
  then have "k' \<in> fst ` set (deque_dict q)" using find_SomeD by (metis fst_conv imageI)
  with length_delete_present [OF assms(1)] show ?thesis by (simp add: evicted_def f assms(4))
qed

lemma submit_table:
  assumes "jobs_inv q"
  shows "deque_dict (snd (submit st m args opts pipes app now q)) = deque_dict q \<or>
    deque_dict (snd (submit st m args opts pipes app now q)) =
      AList.update (Suc (deque_count q)) (length (q_jobs q)) (evicted q)"
proof (cases "Job m args opts pipes app now")
  case (Inr j)
  let ?q = "q\<lparr>q_jobs := q_jobs q @ [j]\<rparr>" and ?r = "length (q_jobs q)"
  obtain x q1 where h: "handle_lock ?r ?q = (x, q1)" by (metis surj_pair)
  have same: "deque_dict q1 = deque_dict q" "deque_count q1 = deque_count q"
    using h by (auto simp: handle_lock_def split: sum.splits option.splits)
  have st: "s < ?r \<Longrightarrow> j_state (job_of q1 s) = j_state (job_of q s)" for s
    using h by (auto simp: handle_lock_def job_of_upd_job nth_append split: sum.splits option.splits)
  have "find (\<lambda>(k, o1). j_state (job_of q1 o1) \<in> finished_states) (deque_dict q) =
      find (\<lambda>(k, o1). j_state (job_of q o1) \<in> finished_states) (deque_dict q)"
    using st inv_tableD(2) [OF assms] by (intro find_cong) auto
  then have "evicted q1 = evicted q" by (simp add: evicted_def same split: option.splits)
  then have "deque_dict (enqueue ?r q1) = AList.update (Suc (deque_count q)) ?r (evicted q)"
    by (simp add: enqueue_def Let_def deque_add_eq same)
  with same h show ?thesis
    by (auto simp: submit_def Inr queue_add_def split: sum.splits option.splits)
qed (simp add: submit_def)

text \<open>
  The table is bounded by dropping finished jobs: submitting a job never drops an unfinished
  job from the table, and while some finished job is in it the table does not grow beyond
  \<open>deque_maxlen\<close> + 1 entries.
\<close>

theorem table_drops_finished_only:
  assumes "jobs_reach q" and "(i, r) \<in> set (deque_dict q)" and "j_state (job_of q r) \<notin> finished_states"
    and "(k, s) \<in> set (deque_dict q)" and "j_state (job_of q s) \<in> finished_states"
  shows "(i, r) \<in> set (deque_dict (snd (submit st m args opts pipes app now q))) \<and>
    length (deque_dict (snd (submit st m args opts pipes app now q))) \<le> max (Suc deque_maxlen) (length (deque_dict q))"
proof -
  note inv = jobs.reach_inv [OF assms(1)]
  from inv have ok: "dict_ok (deque_dict q)" by (simp add: jobs_inv_def table_ok_def)
  have new: "Suc (deque_count q) \<notin> fst ` set (evicted q)"
    using inv_tableD(1) [OF inv] subsetD [OF evicted_subset] by fastforce
  have "length (evicted q) \<le> max deque_maxlen (length (deque_dict q) - 1)"
    using length_evicted [OF ok assms(4,5)] by (cases "length (deque_dict q) > deque_maxlen") (auto simp: evicted_def)
  moreover have "length (deque_dict q) \<noteq> 0" using assms(2) by auto
  ultimately show ?thesis
    using submit_table [OF inv, of st m args opts pipes app now] find_finished [OF inv assms(2,3)] assms(2) new
    by (auto simp: update_new_append)
qed


lemma demo_failed_table: "deque_dict demo_failed = [(1, 0), (2, 1)]" "j_state (job_of demo_failed 1) = S_WAITING"
  by (simp_all add: demo_failed_def demo_q_jobs at_pc_def run_body_end_def Let_def job_of_upd_job del: One_nat_def)

theorem table_drops_finished_only_witness:
  "(2, 1) \<in> set (deque_dict (snd (submit demo_auth ''mail.send'' [] default_options [] None 3 demo_failed))) \<and>
   length (deque_dict (snd (submit demo_auth ''mail.send'' [] default_options [] None 3 demo_failed)))
     \<le> max (Suc deque_maxlen) (length (deque_dict demo_failed))"
  by (rule table_drops_finished_only [OF demo_reach(2), of 2 1 1 0])
    (simp_all add: demo_failed_table demo_failed_jobs finished_states_def del: One_nat_def)

section \<open>Absence of deadlock\<close>

text \<open>How many segments of \<open>run\<close> are left for a job.\<close>

fun segments_left :: "run_pc \<Rightarrow> nat" where
  "segments_left PPending = 6"
| "segments_left PHanded = 5"
| "segments_left POpened = 4"
| "segments_left PBody = 3"
| "segments_left PClosing = 2"
| "segments_left PReleased = 1"
| "segments_left p = 0"

definition work :: "jobs_queue \<Rightarrow> nat" where
  "work q = (\<Sum>r < length (q_jobs q). segments_left (pc (job_of q r)))"

lemma moves_segments: "moves ab (p, s) (p', s') \<Longrightarrow> p' = p \<or> segments_left p' < segments_left p"
  by (erule moves.cases) auto

lemma work_decreases:
  assumes "jobs_inv q" and "r < length (q_jobs q)" and "length (q_jobs (snd (job_step c q))) = length (q_jobs q)"
    and "pc (job_of (snd (job_step c q)) r) \<noteq> pc (job_of q r)"
  shows "work (snd (job_step c q)) < work q"
proof -
  have m: "pc (job_of (snd (job_step c q)) s) = pc (job_of q s) \<or>
      segments_left (pc (job_of (snd (job_step c q)) s)) < segments_left (pc (job_of q s))"
    if "s < length (q_jobs q)" for s
    using job_step_evolves [OF assms(1) that, of c] moves_segments unfolding evolves_def by blast
  show ?thesis unfolding work_def assms(3)
    by (rule sum_strict_mono_ex1) (use m assms(2,4) in \<open>fastforce\<close>)+
qed

text \<open>A step that goes on with a job, leaves the other jobs where they are and crashes none.\<close>

definition advances :: "jobs_queue \<Rightarrow> jobs_queue \<Rightarrow> bool" where
  "advances q q1 \<longleftrightarrow> command_step job_step q q1 \<and> work q1 < work q \<and>
     (PCrashed \<notin> pc ` set (q_jobs q) \<longrightarrow> PCrashed \<notin> pc ` set (q_jobs q1)) \<and>
     (\<forall>s. live q s \<longrightarrow> live q1 s \<or> s < length (q_jobs q1) \<and> finished (job_of q1 s) \<and> pc (job_of q1 s) \<in> {PReleased, PEnded})"

lemma advancesI:
  assumes "jobs_inv q" and "q1 = snd (job_step c q)" and "r < length (q_jobs q)" and "length (q_jobs q1) = length (q_jobs q)"
    and "pc (job_of q1 r) \<noteq> pc (job_of q r)" and "pc (job_of q1 r) \<noteq> PCrashed"
    and "holding (job_of q1 r) \<or> finished (job_of q1 r) \<and> pc (job_of q1 r) \<in> {PReleased, PEnded}"
    and other: "\<And>s. s \<noteq> r \<Longrightarrow> pc (job_of q1 s) = pc (job_of q s)" and "set (q_queue q) \<subseteq> insert r (set (q_queue q1))"
  shows "advances q q1"
proof -
  have "live q s \<Longrightarrow> s \<noteq> r \<Longrightarrow> live q1 s" for s
    using other [of s] assms(4,9) by (auto simp: live_def holding_def)
  moreover have "live q1 r \<or> finished (job_of q1 r) \<and> pc (job_of q1 r) \<in> {PReleased, PEnded}"
    using assms(3,4,7) by (auto simp: live_def)
  moreover have "PCrashed \<notin> pc ` set (q_jobs q1)" if "PCrashed \<notin> pc ` set (q_jobs q)"
  proof
    assume "PCrashed \<in> pc ` set (q_jobs q1)"
    then obtain s where s: "s < length (q_jobs q)" "pc (job_of q1 s) = PCrashed"
      using assms(4) by (auto simp: in_set_conv_nth)
    with assms(6) other [of s] have "pc (job_of q s) = PCrashed" by (cases "s = r") auto
    with s(1) that show False by (metis imageI nth_mem)
  qed
  moreover have "command_step job_step q q1" "work q1 < work q"
    using command_stepI [of job_step q c] work_decreases [OF assms(1,3), of c] assms(2,4,5) by simp_all
  ultimately show ?thesis using assms(3,4) unfolding advances_def by metis
qed


lemma run_begin_job: "s \<noteq> r \<Longrightarrow> job_of (run_begin now r q) s = job_of q s"
  "q_queue (run_begin now r q) = q_queue q" "length (q_jobs (run_begin now r q)) = length (q_jobs q)"
  "r < length (q_jobs q) \<Longrightarrow> pc (job_of (run_begin now r q) r) \<in> {PBody, PClosing}"
  by (auto simp: run_begin_def Let_def job_of_upd_job split: sum.splits)

lemma run_start_job: "s \<noteq> r \<Longrightarrow> job_of (run_start now None r q) s = job_of q s"
  "q_queue (run_start now None r q) = q_queue q" "length (q_jobs (run_start now None r q)) = length (q_jobs q)"
  "r < length (q_jobs q) \<Longrightarrow> pc (job_of (run_start now None r q) r) \<in> {POpened, PBody, PClosing}"
  using run_begin_job [where r = r and now = now and q = q] by (auto simp: run_start_def job_of_upd_job)

lemma run_cancelled_job:
  "s \<noteq> r \<Longrightarrow> job_of (run_body_end adapt now Cancelled r q) s = job_of q s"
  "q_queue (run_body_end adapt now Cancelled r q) = q_queue q"
  "length (q_jobs (run_body_end adapt now Cancelled r q)) = length (q_jobs q)"
  "r < length (q_jobs q) \<Longrightarrow> pc (job_of (run_body_end adapt now Cancelled r q) r) = PClosing"
  by (auto simp: run_body_end_def Let_def job_of_upd_job)

lemma run_finally_job:
  assumes "jobs_inv q" and "pc (job_of q r) = PClosing" and "r < length (q_jobs q)"
  shows "s \<noteq> r \<Longrightarrow> job_of (snd (run_finally lns r q)) s = job_of q s"
    "q_queue (snd (run_finally lns r q)) = q_queue q"
    "pc (job_of (snd (run_finally lns r q)) r) \<in> {PReleased, PEnded}"
proof -
  let ?q = "if logs_fd (job_of q r) then upd_job r (\<lambda>j. j\<lparr>logs_excerpt := Some (get_logs_excerpt lns)\<rparr>) q else q"
  obtain x q1 where rl: "release_lock r ?q = (x, q1)" by (metis surj_pair)
  with release_lock_jobs [of r ?q] have jobs: "q_jobs q1 = q_jobs ?q" by simp
  have "q_queue (snd (release_lock r ?q)) = q_queue ?q"
    by (auto simp: release_lock_def Let_def split: option.splits sum.splits)
  with rl have queue: "q_queue q1 = q_queue q" by simp
  have x: "x = Inr ()" using run_finally_ok(1) [OF assms, of lns] by (cases x) (auto simp: run_finally_def rl)
  show "s \<noteq> r \<Longrightarrow> job_of (snd (run_finally lns r q)) s = job_of q s"
    "q_queue (snd (run_finally lns r q)) = q_queue q"
    "pc (job_of (snd (run_finally lns r q)) r) \<in> {PReleased, PEnded}"
    using assms(3) by (auto simp: run_finally_def rl x Let_def jobs queue job_of_upd_job run_cleanup_def deque_remove_def split: option.splits)
qed

text \<open>Some job can go on as long as one is queued or handed out and none has crashed.\<close>

lemma some_job_advances:
  assumes inv: "jobs_inv q" and no: "PCrashed \<notin> pc ` set (q_jobs q)" and live: "live q r"
  shows "\<exists>q1. advances q q1"
proof (cases "\<exists>r < length (q_jobs q). holding (job_of q r)")
  case True
  then obtain r where r: "r < length (q_jobs q)" "holding (job_of q r)" by blast
  then have "pc (job_of q r) \<noteq> PCrashed" using no by (metis imageI nth_mem)
  with r consider "pc (job_of q r) = PHanded" | "pc (job_of q r) = POpened" | "pc (job_of q r) = PBody" | "pc (job_of q r) = PClosing"
    by (auto simp: holding_def)
  then show ?thesis
  proof cases
    case 1
    from run_start_job [where r = r and now = 0 and q = q] r 1 have "advances q (run_start 0 None r q)"
      by (intro advancesI [OF inv, of _ "Start 0 None r" r]) (auto simp: at_pc_def holding_def)
    then show ?thesis by blast
  next
    case 2
    from run_begin_job [where r = r and now = 0 and q = q] r 2 have "advances q (run_begin 0 r q)"
      by (intro advancesI [OF inv, of _ "Begin 0 r" r]) (auto simp: at_pc_def holding_def)
    then show ?thesis by blast
  next
    case 3
    from run_cancelled_job [where r = r and adapt = "\<lambda>e. None" and now = 0 and q = q] r 3 have "advances q (run_body_end (\<lambda>e. None) 0 Cancelled r q)"
      by (intro advancesI [OF inv, of _ "BodyEnd (\<lambda>e. None) 0 Cancelled r" r]) (auto simp: at_pc_def holding_def)
    then show ?thesis by blast
  next
    case 4
    have "length (q_jobs (snd (run_finally None r q))) = length (q_jobs q)"
      by (rule run_finally_length)
    with run_finally_job [OF inv 4 r(1), where lns = None] run_finally_ok(3) [OF inv 4 r(1), of None] r 4
    have "advances q (snd (run_finally None r q))"
      by (intro advancesI [OF inv, of _ "Finally None r" r]) (auto simp: at_pc_def holding_def)
    then show ?thesis by blast
  qed
next
  case False
  with live have q: "r \<in> set (q_queue q)" by (auto simp: live_def)
  then have rn: "r < length (q_jobs q)" using inv by (auto simp: jobs_inv_def queue_ok_def)
  have "\<not> l_locked (lock_of q l)" if "l < length (q_locks q)" for l
    using inv False that by (auto simp: jobs_inv_def exclusive_def)
  then have "runnable q r" using inv_lock_nameD(1) [OF inv rn] by (simp add: runnable_iff)
  then have ev: "queue_event q" using inv q by (auto simp: jobs_inv_def wake_ok_def)
  from \<open>runnable q r\<close> q obtain s where f: "find (runnable q) (q_queue q) = Some s" by (metis find_None_iff option.exhaust)
  then have s: "s \<in> set (q_queue q)" using find_SomeD by metis
  with inv have sn: "s < length (q_jobs q)" "pc (job_of q s) = PPending" by (auto simp: jobs_inv_def queue_ok_def)
  have "q_queue (queue_run q) = remove1 s (q_queue q)" "length (q_jobs (queue_run q)) = length (q_jobs q)"
    "job_of (queue_run q) t = (if t = s then (job_of q s)\<lparr>pc := PHanded\<rparr> else job_of q t)" for t
    using ev f sn by (auto simp: queue_run_def queue_next_def Let_def job_of_upd_job split: option.splits)
  with sn have "advances q (queue_run q)"
    by (intro advancesI [OF inv, of _ Turn s]) (auto simp: holding_def intro: ccontr dest: in_set_remove1 [THEN iffD2, rotated])
  then show ?thesis by blast
qed


lemma advances_drain:
  assumes "jobs_reach q" and "PCrashed \<notin> pc ` set (q_jobs q)"
  shows "\<exists>q'. job_steps q q' \<and> (\<forall>r. \<not> live q' r) \<and>
    (\<forall>r. live q r \<longrightarrow> r < length (q_jobs q') \<and> j_state (job_of q' r) \<in> finished_states)"
  using assms
proof (induction "work q" arbitrary: q rule: less_induct)
  case less
  note inv = jobs.reach_inv [OF less.prems(1)]
  show ?case
  proof (cases "\<exists>r. live q r")
    case True
    then obtain r where "live q r" ..
    from some_job_advances [OF inv less.prems(2) this] obtain q1 where adv: "advances q q1" ..
    then have step: "command_step job_step q q1" and no: "PCrashed \<notin> pc ` set (q_jobs q1)" and w: "work q1 < work q"
      using less.prems(2) unfolding advances_def by metis+
    have reach: "jobs_reach q1" using reach_step [OF less.prems(1) step] .
    from less.hyps [OF w reach no] obtain q' where q': "job_steps q1 q'" "\<forall>r. \<not> live q' r"
      and fin: "\<forall>r. live q1 r \<longrightarrow> r < length (q_jobs q') \<and> j_state (job_of q' r) \<in> finished_states" by blast
    have "r < length (q_jobs q') \<and> j_state (job_of q' r) \<in> finished_states" if "live q r" for r
    proof (cases "live q1 r")
      case False
      with adv that have r: "r < length (q_jobs q1)" "pc (job_of q1 r) \<in> {PReleased, PEnded}"
        unfolding advances_def by blast+
      with inv_job_ok [OF jobs.reach_inv [OF reach] r(1)] have "j_state (job_of q1 r) \<in> finished_states"
        by (auto simp: job_ok_def)
      then show ?thesis
        by (intro job_steps_stable [OF q'(1) reach r(1), of "\<lambda>j. j_state j \<in> finished_states"]) (auto dest: evolves_finished)
    qed (use fin in blast)
    with q' step show ?thesis by (meson converse_rtranclp_into_rtranclp)
  qed blast
qed




end
