(* ===== verification/PyText.thy ===== *)
theory PyText
  imports PyValue
begin

text \<open>
  Text conversions of Python that the schemas and the validators use: \<open>strip\<close>, \<open>int\<close> of a
  string, \<open>str\<close> of an integer, octal numbers, and \<open>os.path.normpath\<close> of POSIX paths.
\<close>

section \<open>Stripping\<close>

definition is_space :: "char \<Rightarrow> bool" where
  "is_space c \<longleftrightarrow> (let n = of_char c :: nat in n = 32 \<or> 9 \<le> n \<and> n \<le> 13 \<or> 28 \<le> n \<and> n \<le> 31)"

definition lstrip_if :: "(char \<Rightarrow> bool) \<Rightarrow> string \<Rightarrow> string" where
  "lstrip_if p s = dropWhile p s"

definition rstrip_if :: "(char \<Rightarrow> bool) \<Rightarrow> string \<Rightarrow> string" where
  "rstrip_if p s = rev (dropWhile p (rev s))"

definition str_strip :: "string \<Rightarrow> string" where
  "str_strip s = rstrip_if is_space (lstrip_if is_space s)"

definition upper_char :: "char \<Rightarrow> char" where
  "upper_char c = (if (97::nat) \<le> of_char c \<and> of_char c \<le> (122::nat)
     then char_of (of_char c - 32 :: nat) else c)"

definition str_upper :: "string \<Rightarrow> string" where
  "str_upper s = map upper_char s"

section \<open>Numbers\<close>

definition str_of_int :: "int \<Rightarrow> string" where
  "str_of_int i = (if i < 0 then ''-'' @ str_of_nat (nat (- i)) else str_of_nat (nat i))"

text \<open>A sign is optional; single underscores may separate digits.\<close>

definition split_sign :: "string \<Rightarrow> bool \<times> string" where
  "split_sign s = (case s of
     c # r \<Rightarrow> if c = CHR ''-'' then (True, r) else if c = CHR ''+'' then (False, r) else (False, s)
   | [] \<Rightarrow> (False, s))"

definition digit_groups :: "(char \<Rightarrow> bool) \<Rightarrow> string \<Rightarrow> string option" where
  "digit_groups p s = (let gs = str_split (CHR ''_'') s in
     if list_all (\<lambda>g. g \<noteq> [] \<and> list_all p g) gs then Some (concat gs) else None)"

text \<open>\<open>int(s)\<close>; \<open>None\<close> for \<open>ValueError\<close>.\<close>

definition int_of_str :: "string \<Rightarrow> int option" where
  "int_of_str s = (case split_sign (str_strip s) of (neg, r) \<Rightarrow>
     map_option (\<lambda>ds. (if neg then - 1 else 1) * int (nat_of_digits ds)) (digit_groups is_digit r))"

definition is_octal :: "char \<Rightarrow> bool" where
  "is_octal c \<longleftrightarrow> (48::nat) \<le> of_char c \<and> of_char c \<le> (55::nat)"

text \<open>\<open>int(s, 8)\<close>: a prefix \<open>0o\<close>, which an underscore may follow, is allowed.\<close>

definition strip_octal_prefix :: "string \<Rightarrow> string" where
  "strip_octal_prefix s =
     (if startswith s ''0o'' \<or> startswith s ''0O''
      then (case drop 2 s of c # r \<Rightarrow> if c = CHR ''_'' then r else c # r | [] \<Rightarrow> [])
      else s)"

definition int_of_octal :: "string \<Rightarrow> int option" where
  "int_of_octal s = (case split_sign (str_strip s) of (neg, r) \<Rightarrow>
     map_option (\<lambda>ds. (if neg then - 1 else 1) * int (foldl (\<lambda>n c. 8 * n + digit_val c) 0 ds))
       (digit_groups is_octal (strip_octal_prefix r)))"

section \<open>Paths\<close>

text \<open>\<open>os.path.normpath\<close>: the components that stay, last one first.\<close>

definition norm_step :: "nat \<Rightarrow> string \<Rightarrow> string list \<Rightarrow> string list" where
  "norm_step slashes c comps =
     (if c = [] \<or> c = ''.'' then comps
      else if c \<noteq> ''..'' \<or> slashes = 0 \<and> comps = [] \<or> comps \<noteq> [] \<and> hd comps = ''..'' then c # comps
      else tl comps)"

definition initial_slashes :: "string \<Rightarrow> nat" where
  "initial_slashes s = (if \<not> startswith s ''/'' then 0
     else if startswith s ''//'' \<and> \<not> startswith s ''///'' then 2 else 1)"

definition norm_comps :: "string \<Rightarrow> string list" where
  "norm_comps s = rev (fold (norm_step (initial_slashes s)) (str_split (CHR ''/'') s) [])"

definition normpath :: "string \<Rightarrow> string" where
  "normpath s =
     (if s = [] then ''.''
      else let p = replicate (initial_slashes s) (CHR ''/'') @ str_join ''/'' (norm_comps s)
           in if p = [] then ''.'' else p)"


end
