(* ===== verification/Validators.thy ===== *)
theory Validators
  imports PyText Filters
begin

text \<open>
  The validators of \<open>validators.py\<close> that schemas attach to their attributes. A validator
  raises \<open>ValueError\<close> on a value it rejects; messages keep their constant part. Validators
  that only ask the standard library or another service (addresses, netmasks, URLs, UUIDs,
  addresses in use) are \<open>Other\<close> with that question as their argument; its answer is the message
  of the \<open>ValueError\<close>, if there is one. Regular expressions are those of \<open>py_env\<close>.
\<close>

datatype validator =
    Email bool
  | Exact pyval
  | Match string
  | NotMatch string
  | Or "validator list"
  | Range "int option" "int option" "pyval list"
  | QueryFilters
  | QueryOptions
  | Unique
  | Time
  | PasswordComplexity "string list" "int option"
  | Other "pyval \<Rightarrow> string option"

abbreviation invalid :: "string \<Rightarrow> exn + 'a" where
  "invalid msg \<equiv> Inl (ValueError msg)"

definition email_call :: "bool \<Rightarrow> pyval \<Rightarrow> exn + unit" where
  "email_call allow_empty v =
     (if v = VNone \<or> allow_empty \<and> \<not> truthy v then Inr ()
      else case v of
        VStr s \<Rightarrow>
          if length s > 254 then invalid ''Maximum length is {self.max_path} characters.''
          else if CHR ''@'' \<notin> set s then invalid ''Missing '@' symbol.''
          else let domain = rev (takeWhile (\<lambda>c. c \<noteq> CHR ''@'') (rev s))
               in if length domain + 1 = length s then invalid ''Missing local part of email string''
                  else if domain = [] then invalid ''Missing domain part of email string''
                  else Inr ()
      | VList xs \<Rightarrow> if length xs > 254 then invalid ''Maximum length is {self.max_path} characters.'' else Inl AttributeError
      | VDict d \<Rightarrow> if length d > 254 then invalid ''Maximum length is {self.max_path} characters.'' else Inl AttributeError
      | _ \<Rightarrow> Inl TypeError)"

text \<open>A pattern that does not compile cannot be attached to a schema; it counts as no match.\<close>

definition regex_match :: "py_env \<Rightarrow> string \<Rightarrow> pyval \<Rightarrow> exn + bool" where
  "regex_match env pattern v =
     (case v of VStr s \<Rightarrow> Inr (re_match env pattern s = Some True) | _ \<Rightarrow> Inl TypeError)"

definition range_call :: "int option \<Rightarrow> int option \<Rightarrow> pyval list \<Rightarrow> pyval \<Rightarrow> exn + unit" where
  "range_call lo hi excl v0 =
     (if v0 = VNone then Inr ()
      else let v = (case v0 of VStr s \<Rightarrow> VInt (int (length s)) | _ \<Rightarrow> v0) in
        if list_ex (\<lambda>x. py_eq x v) excl
        then invalid '' is a reserved for internal use. Please select another value.''
        else bindE (case lo of None \<Rightarrow> Inr False | Some m \<Rightarrow> py_lt v (VInt m)) (\<lambda>low.
          if low then invalid ''Should be ''
          else bindE (case hi of None \<Rightarrow> Inr False | Some m \<Rightarrow> py_lt (VInt m) v) (\<lambda>high.
            if high then invalid ''Should be '' else Inr ())))"

definition Port :: "pyval list \<Rightarrow> validator" where
  "Port excl = Range (Some 1) (Some 65535) excl"

text \<open>\<open>value.count(item)\<close> of a string counts non-overlapping occurrences of a character.\<close>

definition py_count :: "pyval \<Rightarrow> pyval \<Rightarrow> exn + nat" where
  "py_count v item =
     (case v of
        VList xs \<Rightarrow> Inr (length (filter (\<lambda>x. py_eq x item) xs))
      | VStr s \<Rightarrow> (case item of VStr [c] \<Rightarrow> Inr (count_list s c) | _ \<Rightarrow> Inl TypeError)
      | _ \<Rightarrow> Inl AttributeError)"

definition unique_call :: "pyval \<Rightarrow> exn + unit" where
  "unique_call v =
     bindE (py_iter v) (foldE (\<lambda>_ item. bindE (py_count v item) (\<lambda>n.
       if n > 1 then invalid ''Duplicate values are not allowed: '' else Inr ())) ())"

definition time_call :: "pyval \<Rightarrow> exn + unit" where
  "time_call v =
     (case v of
        VStr s \<Rightarrow>
          (case str_split (CHR '':'') s of
             [hours, minutes] \<Rightarrow>
               (case (int_of_str hours, int_of_str minutes) of
                  (Some h, Some m) \<Rightarrow>
                    if 0 \<le> h \<and> h \<le> 23 \<and> 0 \<le> m \<and> m \<le> 59 then Inr () else invalid ''hour or minute must be in range''
                | _ \<Rightarrow> invalid ''invalid literal for int() with base 10'')
           | _ \<Rightarrow> invalid ''Time should be in 24 hour format like \"18:00\"'')
      | _ \<Rightarrow> Inl AttributeError)"

section \<open>Password complexity\<close>

definition ascii_lowercase :: "char \<Rightarrow> bool" where
  "ascii_lowercase c \<longleftrightarrow> (97::nat) \<le> of_char c \<and> of_char c \<le> (122::nat)"

definition ascii_uppercase :: "char \<Rightarrow> bool" where
  "ascii_uppercase c \<longleftrightarrow> (65::nat) \<le> of_char c \<and> of_char c \<le> (90::nat)"

definition punctuation :: "char \<Rightarrow> bool" where
  "punctuation c \<longleftrightarrow> (let n = of_char c :: nat in
     33 \<le> n \<and> n \<le> 47 \<or> 58 \<le> n \<and> n \<le> 64 \<or> 91 \<le> n \<and> n \<le> 96 \<or> 123 \<le> n \<and> n \<le> 126)"

text \<open>The categories in the order in which they are tested, with what they say when one is missing.\<close>

definition password_categories :: "(string \<times> (char \<Rightarrow> bool) \<times> string) list" where
  "password_categories =
     [(''ASCII_LOWER'', ascii_lowercase, ''Must contain at least one lowercase character. ''),
      (''ASCII_UPPER'', ascii_uppercase, ''Must contain at least one uppercase character. ''),
      (''DIGIT'', is_digit, ''Must contain at least one numeric digit (0-9). ''),
      (''SPECIAL'', punctuation, ''Must contain at least one special character (!, $, #, %, etc.). '')]"

text \<open>One category: \<open>cnt\<close> and \<open>errstr\<close> so far.\<close>

definition password_step ::
  "string list \<Rightarrow> int option \<Rightarrow> string \<Rightarrow> (string \<times> (char \<Rightarrow> bool) \<times> string) \<Rightarrow> int \<times> string \<Rightarrow> int \<times> string" where
  "password_step required_types required_cnt s = (\<lambda>(t, p, msg) (cnt, errstr).
     if t \<notin> set required_types then (cnt, errstr)
     else if list_ex p s then (cnt + 1, errstr)
     else (cnt, if required_cnt = None then errstr @ msg else errstr))"

text \<open>The value is a string or \<open>None\<close>.\<close>

definition password_call :: "string list \<Rightarrow> int option \<Rightarrow> pyval \<Rightarrow> exn + unit" where
  "password_call required_types required_cnt v =
     bindE (case v of VNone \<Rightarrow> Inr [] | VStr s \<Rightarrow> Inr s | _ \<Rightarrow> Inl TypeError) (\<lambda>s.
       case (if s \<noteq> [] \<and> required_types \<noteq> []
             then fold (password_step required_types required_cnt s) password_categories (0, [])
             else (0, [])) of
         (cnt, errstr) \<Rightarrow>
           if (case required_cnt of None \<Rightarrow> False | Some n \<Rightarrow> n \<noteq> 0 \<and> n > cnt)
           then invalid ''Must contain at least the required number of categories''
           else if errstr \<noteq> [] then invalid errstr
           else Inr ())"

section \<open>Calling a validator\<close>

definition query_options_call :: "pyval \<Rightarrow> exn + unit" where
  "query_options_call v =
     (case v of
        VNone \<Rightarrow> Inr ()
      | VDict d \<Rightarrow> bindE (validate_options (Some d)) (\<lambda>_. Inr ())
      | _ \<Rightarrow> Inl AttributeError)"

text \<open>\<open>Or\<close>: the first validator that accepts decides; only \<open>ValueError\<close> is caught.\<close>

fun or_call :: "(pyval \<Rightarrow> exn + unit) list \<Rightarrow> string list \<Rightarrow> pyval \<Rightarrow> exn + unit" where
  "or_call [] errors v = invalid (str_join '' or '' errors)"
| "or_call (f # fs) errors v =
     (case f v of
        Inr u \<Rightarrow> Inr ()
      | Inl (ValueError msg) \<Rightarrow> or_call fs (errors @ [msg]) v
      | Inl e \<Rightarrow> Inl e)"

primrec run_validator :: "py_env \<Rightarrow> validator \<Rightarrow> pyval \<Rightarrow> exn + unit" where
  "run_validator env (Email e) = email_call e"
| "run_validator env (Exact x) = (\<lambda>v. if py_eq v x then Inr () else invalid ''Should be '')"
| "run_validator env (Match p) = (\<lambda>v. if v = VNone then Inr () else
     bindE (regex_match env p v) (\<lambda>b. if b then Inr () else invalid ''Value does not match pattern''))"
| "run_validator env (NotMatch p) = (\<lambda>v. if v = VNone then Inr () else
     bindE (regex_match env p v) (\<lambda>b. if b then invalid ''Value matches pattern'' else Inr ()))"
| "run_validator env (Or vs) = or_call (map (run_validator env) vs) []"
| "run_validator env (Range lo hi excl) = range_call lo hi excl"
| "run_validator env QueryFilters = (\<lambda>v. bindE (py_iter v) (\<lambda>fs. bindE (validate_filters env 0 [] fs) (\<lambda>_. Inr ())))"
| "run_validator env QueryOptions = query_options_call"
| "run_validator env Unique = unique_call"
| "run_validator env Time = time_call"
| "run_validator env (PasswordComplexity ts n) = password_call ts n"
| "run_validator env (Other f) = (\<lambda>v. case f v of None \<Rightarrow> Inr () | Some msg \<Rightarrow> invalid msg)"

end
