(* ===== verification/Schema.thy ===== *)
theory Schema
  imports Validators Errors
begin

text \<open>
  The schema language of \<open>schema/\<close>, with which methods declare their arguments: cleaning a
  value (defaults, conversions, unknown keys), validating it, and dumping it with private
  values redacted; and the wrapper of \<open>schema/processor.py\<close> that runs the arguments of a call
  through their schemas.

  An argument is \<open>None\<close> for \<open>NOT_PROVIDED\<close> and \<open>Some v\<close> otherwise. \<open>Error\<close> of the schemas is
  \<open>SchemaError\<close>. Schemas are modelled after resolution (\<open>Ref\<close> and \<open>Patch\<close> replaced by what they
  stand for). The attribute classes that parse addresses, dates, SIDs and distinguished names
  with a library, and those that look at the file system, are left out. Cleaning in the code
  updates dictionaries and lists in place; callers pass a deep copy, and the result is what is
  modelled.
\<close>

section \<open>Schemas\<close>

record common =
  a_name :: string
  has_default :: bool
  default :: pyval
  required :: bool
  nullable :: bool
  allow_empty :: bool
  is_private :: bool
  editable :: bool
  validators :: "validator list"

record dict_opts =
  additional_attrs :: bool
  conditional_defaults :: "(string \<times> (pyval list \<times> string list)) list"
  private_keys :: "string list"
  update :: bool

datatype schema =
    SAny common
  | SBool common
  | SInt common "pyval list option"
  | SStr common "pyval list option" nat
  | SPath common "pyval list option" nat bool
  | SNetbios common "pyval list option" nat string
  | SUnixPerm common "pyval list option" nat
  | SUsername common
  | SDict common dict_opts "(string \<times> schema) list"
  | SList common "pyval list option" bool "schema list"
  | SOr common "schema list"

text \<open>Python's \<open>str\<close> of values that are not strings or integers is an argument.\<close>

record schema_env = py_env +
  se_str :: "pyval \<Rightarrow> string"

definition py_str :: "schema_env \<Rightarrow> pyval \<Rightarrow> string" where
  "py_str env v = (case v of VStr s \<Rightarrow> s | VInt i \<Rightarrow> str_of_int i | _ \<Rightarrow> se_str env v)"

definition REDACTED_VALUE :: pyval where "REDACTED_VALUE = VStr ''********''"

definition schema_error :: "common \<Rightarrow> string \<Rightarrow> exn + 'a" where
  "schema_error c msg = Inl (SchemaError (a_name c) msg EINVAL)"

fun common_of :: "schema \<Rightarrow> common" where
  "common_of (SAny c) = c"
| "common_of (SBool c) = c"
| "common_of (SInt c e) = c"
| "common_of (SStr c e n) = c"
| "common_of (SPath c e n f) = c"
| "common_of (SNetbios c e n r) = c"
| "common_of (SUnixPerm c e n) = c"
| "common_of (SUsername c) = c"
| "common_of (SDict c os as) = c"
| "common_of (SList c e u is) = c"
| "common_of (SOr c ss) = c"

text \<open>\<open>required\<close> of \<open>OROperator\<close> is computed from its alternatives.\<close>

primrec is_required :: "schema \<Rightarrow> bool" where
  "is_required (SAny c) = required c"
| "is_required (SBool c) = required c"
| "is_required (SInt c e) = required c"
| "is_required (SStr c e n) = required c"
| "is_required (SPath c e n f) = required c"
| "is_required (SNetbios c e n r) = required c"
| "is_required (SUnixPerm c e n) = required c"
| "is_required (SUsername c) = required c"
| "is_required (SDict c os as) = required c"
| "is_required (SList c e u is) = required c"
| "is_required (SOr c ss) = list_ex (\<lambda>b. b) (map is_required ss)"

section \<open>Cleaning\<close>

definition attr_clean :: "common \<Rightarrow> pyval option \<Rightarrow> exn + pyval" where
  "attr_clean c v =
     (if v = Some VNone \<and> \<not> nullable c then schema_error c ''null not allowed''
      else bindE (case v of
                    Some x \<Rightarrow> Inr x
                  | None \<Rightarrow> if has_default c then Inr (default c) else schema_error c ''attribute required'') (\<lambda>x.
        if \<not> editable c \<and> \<not> py_eq x (default c) then schema_error c ''Field is not editable.'' else Inr x))"

definition enum_clean :: "common \<Rightarrow> pyval list option \<Rightarrow> pyval option \<Rightarrow> exn + pyval" where
  "enum_clean c enum v =
     bindE (attr_clean c v) (\<lambda>x.
       case enum of
         None \<Rightarrow> Inr x
       | Some choices \<Rightarrow>
           if x = VNone \<and> nullable c then Inr x
           else if list_all (\<lambda>y. list_ex (\<lambda>z. py_eq z y) choices) (case x of VList ys \<Rightarrow> ys | _ \<Rightarrow> [x]) then Inr x
           else schema_error c ''Invalid choice'')"

definition bool_clean :: "common \<Rightarrow> pyval option \<Rightarrow> exn + pyval" where
  "bool_clean c v =
     bindE (attr_clean c v) (\<lambda>x.
       case x of VNone \<Rightarrow> Inr x | VBool b \<Rightarrow> Inr x | _ \<Rightarrow> schema_error c ''Not a boolean'')"

definition int_clean :: "common \<Rightarrow> pyval list option \<Rightarrow> pyval option \<Rightarrow> exn + pyval" where
  "int_clean c enum v =
     bindE (enum_clean c enum v) (\<lambda>x.
       case x of
         VNone \<Rightarrow> Inr x
       | VInt i \<Rightarrow> Inr x
       | VStr s \<Rightarrow> (case int_of_str s of Some i \<Rightarrow> Inr (VInt i) | None \<Rightarrow> schema_error c ''Not an integer'')
       | _ \<Rightarrow> schema_error c ''Not an integer'')"

definition str_clean :: "common \<Rightarrow> pyval list option \<Rightarrow> pyval option \<Rightarrow> exn + pyval" where
  "str_clean c enum v =
     bindE (enum_clean c enum v) (\<lambda>x.
       case (case x of VInt i \<Rightarrow> VStr (str_of_int i) | _ \<Rightarrow> x) of
         VNone \<Rightarrow> Inr VNone
       | VStr s \<Rightarrow> if \<not> allow_empty c \<and> str_strip s = [] then schema_error c ''Empty value not allowed'' else Inr (VStr s)
       | _ \<Rightarrow> schema_error c ''Not a string'')"

definition is_slash :: "char \<Rightarrow> bool" where
  "is_slash ch \<longleftrightarrow> ch = CHR ''/''"

definition path_clean :: "common \<Rightarrow> pyval list option \<Rightarrow> bool \<Rightarrow> pyval option \<Rightarrow> exn + pyval" where
  "path_clean c enum forwarding_slash v =
     bindE (str_clean c enum v) (\<lambda>x.
       case x of
         VStr s \<Rightarrow>
           let s1 = str_strip s;
               s2 = (if forwarding_slash then rstrip_if is_slash s1 else rstrip_if is_slash (lstrip_if is_slash s1))
           in Inr (VStr (normpath (str_strip s2)))
       | _ \<Rightarrow> Inr x)"

definition netbios_clean :: "common \<Rightarrow> pyval list option \<Rightarrow> pyval option \<Rightarrow> exn + pyval" where
  "netbios_clean c enum v =
     bindE (str_clean c enum v) (\<lambda>x. case x of VStr s \<Rightarrow> Inr (VStr (str_upper (str_strip s))) | _ \<Rightarrow> Inr x)"

subsection \<open>Dictionaries\<close>

type_synonym cleaner = "pyval option \<Rightarrow> exn + pyval"

text \<open>\<open>_clean_attr\<close>: the errors of an attribute are collected under the name of the dictionary.\<close>

definition clean_attr ::
  "string \<Rightarrow> cleaner \<Rightarrow> pyval option \<Rightarrow> validation_error list \<Rightarrow> exn + (pyval \<times> validation_error list)" where
  "clean_attr name cl v verrors =
     (case cl v of
        Inr x \<Rightarrow> Inr (x, verrors)
      | Inl (SchemaError a msg n) \<Rightarrow> Inr (VNone, verrors_add_errno (name @ ''.'' @ a) msg n verrors)
      | Inl (ValidationErrors es) \<Rightarrow> Inr (VNone, verrors_add_child name es verrors)
      | Inl e \<Rightarrow> Inl e)"

text \<open>The loop over the given keys; \<open>cls\<close> has the cleaner of each attribute.\<close>

definition clean_key ::
  "string \<Rightarrow> bool \<Rightarrow> cleaner dict \<Rightarrow> pyval dict \<times> validation_error list \<Rightarrow> string \<times> pyval
     \<Rightarrow> exn + (pyval dict \<times> validation_error list)" where
  "clean_key name additional cls = (\<lambda>(data, verrors) (key, value).
     case map_of cls key of
       None \<Rightarrow>
         if additional then Inr (data, verrors)
         else Inr (data, verrors_add (name @ ''.'' @ key) ''Field was not expected'' verrors)
     | Some cl \<Rightarrow>
         bindE (clean_attr name cl (Some value) verrors) (\<lambda>(x, verrors1). Inr (AList.update key x data, verrors1)))"

text \<open>
  \<open>get_defaults\<close>: the attributes that are missing, not skipped, and required or with a default.
\<close>

definition default_step ::
  "string \<Rightarrow> cleaner dict \<Rightarrow> string set \<Rightarrow> bool \<Rightarrow> pyval dict \<times> validation_error list \<Rightarrow> string \<times> schema
     \<Rightarrow> exn + (pyval dict \<times> validation_error list)" where
  "default_step name cls skip check_required = (\<lambda>(data, verrors) (key, s).
     if key \<notin> fst ` set data \<and> key \<notin> skip \<and> (check_required \<and> is_required s \<or> has_default (common_of s))
     then (case map_of cls key of
             None \<Rightarrow> Inr (data, verrors)
           | Some cl \<Rightarrow>
               bindE (clean_attr name cl None verrors) (\<lambda>(x, verrors1). Inr (AList.update key x data, verrors1)))
     else Inr (data, verrors))"

definition get_defaults ::
  "string \<Rightarrow> cleaner dict \<Rightarrow> (string \<times> schema) list \<Rightarrow> pyval dict \<Rightarrow> string set \<Rightarrow> validation_error list \<Rightarrow> bool
     \<Rightarrow> exn + (pyval dict \<times> validation_error list)" where
  "get_defaults name cls attrs data skip verrors check_required =
     foldE (default_step name cls skip check_required) (data, verrors) attrs"

text \<open>\<open>get_attrs_to_skip\<close>: the conditions are filters on the data completed by its defaults.\<close>

definition skip_step ::
  "py_env \<Rightarrow> pyval dict \<Rightarrow> string set \<Rightarrow> string \<times> (pyval list \<times> string list) \<Rightarrow> exn + string set" where
  "skip_step env check_data skip = (\<lambda>(attr, (filters, attrs)).
     bindE (filter_list env [VDict check_data] filters None) (\<lambda>rv.
       Inr (if truthy rv then skip else skip \<union> set attrs)))"

definition get_attrs_to_skip ::
  "py_env \<Rightarrow> string \<Rightarrow> dict_opts \<Rightarrow> cleaner dict \<Rightarrow> (string \<times> schema) list \<Rightarrow> pyval dict \<Rightarrow> exn + string set" where
  "get_attrs_to_skip env name opts cls attrs data =
     bindE (if update opts then Inr (data, []) else get_defaults name cls attrs data {} [] False) (\<lambda>(check_data, _).
       foldE (skip_step env check_data) {} (conditional_defaults opts))"

definition dict_clean ::
  "py_env \<Rightarrow> common \<Rightarrow> dict_opts \<Rightarrow> cleaner dict \<Rightarrow> (string \<times> schema) list \<Rightarrow> pyval option \<Rightarrow> exn + pyval" where
  "dict_clean env c opts cls attrs v =
     bindE (attr_clean c v) (\<lambda>x.
       case x of
         VNone \<Rightarrow> Inr (if nullable c then VNone else default c)
       | VDict d \<Rightarrow>
           bindE (foldE (clean_key (a_name c) (additional_attrs opts) cls) (d, []) d) (\<lambda>(data, verrors).
             bindE (if update opts then Inr (data, verrors)
                    else bindE (get_attrs_to_skip env (a_name c) opts cls attrs data) (\<lambda>skip.
                      get_defaults (a_name c) cls attrs data skip verrors True)) (\<lambda>(data1, verrors1).
               bindE (verrors_check verrors1) (\<lambda>_. Inr (VDict data1))))
       | _ \<Rightarrow> schema_error c ''A dict was expected'')"

subsection \<open>Lists and alternatives\<close>

text \<open>The first schema that cleans the item decides; only schema errors are caught.\<close>

fun first_clean :: "cleaner list \<Rightarrow> pyval \<Rightarrow> exn + pyval option" where
  "first_clean [] v = Inr None"
| "first_clean (cl # cls) v =
     (case cl (Some v) of
        Inr x \<Rightarrow> Inr (Some x)
      | Inl (SchemaError a msg n) \<Rightarrow> first_clean cls v
      | Inl (ValidationErrors es) \<Rightarrow> first_clean cls v
      | Inl e \<Rightarrow> Inl e)"

definition list_clean :: "common \<Rightarrow> pyval list option \<Rightarrow> cleaner list \<Rightarrow> pyval option \<Rightarrow> exn + pyval" where
  "list_clean c enum cls v =
     bindE (enum_clean c enum v) (\<lambda>x.
       case x of
         VNone \<Rightarrow> Inr (default c)
       | VList xs \<Rightarrow>
           if \<not> allow_empty c \<and> xs = [] then schema_error c ''Empty value not allowed''
           else if cls = [] then Inr x
           else bindE (mapE (\<lambda>v. bindE (first_clean cls v) (\<lambda>r. case r of
                  Some y \<Rightarrow> Inr y
                | None \<Rightarrow> schema_error c ''Item is not valid per list types'')) xs) (\<lambda>ys. Inr (VList ys))
       | _ \<Rightarrow> schema_error c ''Not a list'')"

text \<open>
  \<open>OROperator.clean\<close> hands each alternative a deep copy. A deep copy of the marker
  \<open>NOT_PROVIDED\<close> is a new object that is not the marker.
\<close>

definition deepcopy_arg :: "pyval option \<Rightarrow> pyval" where
  "deepcopy_arg v = (case v of Some x \<Rightarrow> x | None \<Rightarrow> VObj [])"

definition or_clean :: "common \<Rightarrow> cleaner list \<Rightarrow> pyval option \<Rightarrow> exn + pyval" where
  "or_clean c cls v =
     (if has_default c \<and> (case v of Some x \<Rightarrow> py_eq x (default c) | None \<Rightarrow> False) then Inr (default c)
      else bindE (first_clean cls (deepcopy_arg v)) (\<lambda>r. case r of
             Some x \<Rightarrow> Inr x
           | None \<Rightarrow> schema_error c ''Result does not match specified schema''))"

fun clean :: "schema_env \<Rightarrow> schema \<Rightarrow> cleaner" where
  "clean env (SAny c) = attr_clean c"
| "clean env (SBool c) = bool_clean c"
| "clean env (SInt c enum) = int_clean c enum"
| "clean env (SStr c enum n) = str_clean c enum"
| "clean env (SPath c enum n fs) = path_clean c enum fs"
| "clean env (SNetbios c enum n re) = netbios_clean c enum"
| "clean env (SUnixPerm c enum n) = str_clean c enum"
| "clean env (SUsername c) = attr_clean c"
| "clean env (SDict c opts attrs) = dict_clean (py_env.truncate env) c opts (map (\<lambda>(k, s). (k, clean env s)) attrs) attrs"
| "clean env (SList c enum u items) = list_clean c enum (map (clean env) items)"
| "clean env (SOr c ss) = or_clean c (map (clean env) ss)"

section \<open>Validation\<close>

type_synonym validation = "pyval \<Rightarrow> exn + unit"

text \<open>\<open>Attribute.validate\<close>: every validator runs; what is not a \<open>ValueError\<close> propagates.\<close>

definition validator_step :: "py_env \<Rightarrow> string \<Rightarrow> pyval \<Rightarrow> validation_error list \<Rightarrow> validator \<Rightarrow> exn + validation_error list" where
  "validator_step env name v verrors f =
     (case run_validator env f v of
        Inr u \<Rightarrow> Inr verrors
      | Inl (ValueError msg) \<Rightarrow> Inr (verrors_add name msg verrors)
      | Inl e \<Rightarrow> Inl e)"

definition attr_validate :: "py_env \<Rightarrow> common \<Rightarrow> validation" where
  "attr_validate env c v =
     bindE (foldE (validator_step env (a_name c) v) [] (validators c)) verrors_check"

definition str_validate :: "schema_env \<Rightarrow> common \<Rightarrow> nat \<Rightarrow> validation" where
  "str_validate env c max_length v =
     (if v = VNone then Inr ()
      else if truthy v \<and> length (py_str env v) > max_length
      then Inl (ValidationErrors (verrors_add (a_name c) ''The value may not be longer than the maximum'' []))
      else attr_validate (py_env.truncate env) c v)"

definition MS_RESERVED_WORDS :: "string list" where
  "MS_RESERVED_WORDS = map str_casefold
     [''ANONYMOUS'', ''AUTHENTICATED USER'', ''BATCH'', ''BUILTIN'', ''DIALUP'', ''DOMAIN'', ''ENTERPRISE'',
      ''INTERACTIVE'', ''INTERNET'', ''LOCAL'', ''NETWORK'', ''NULL'', ''PROXY'', ''RESTRICTED'', ''SELF'',
      ''SERVER'', ''USERS'', ''WORLD'']"

definition RFC_852_RESERVED_WORDS :: "string list" where
  "RFC_852_RESERVED_WORDS = map str_casefold [''GATEWAY'', ''GW'', ''TAC'']"

definition RESERVED_WORDS :: "string list" where
  "RESERVED_WORDS = MS_RESERVED_WORDS @ RFC_852_RESERVED_WORDS"

definition netbios_validate :: "schema_env \<Rightarrow> common \<Rightarrow> nat \<Rightarrow> string \<Rightarrow> validation" where
  "netbios_validate env c max_length re v =
     (case v of
        VNone \<Rightarrow> Inr ()
      | VStr s \<Rightarrow>
          let e1 = (if re_match env re s = Some True then [] else verrors_add (a_name c) ''Invalid NetBIOS name.'' []);
              e2 = (if str_casefold s \<in> set RESERVED_WORDS
                    then verrors_add (a_name c) ''NetBIOS names may not be one of following reserved names'' e1 else e1)
          in bindE (verrors_check e2) (\<lambda>_. str_validate env c max_length v)
      | _ \<Rightarrow> Inl TypeError)"

definition unixperm_validate :: "schema_env \<Rightarrow> common \<Rightarrow> nat \<Rightarrow> validation" where
  "unixperm_validate env c max_length v =
     (case v of
        VNone \<Rightarrow> Inr ()
      | VStr s \<Rightarrow>
          (case int_of_octal s of
             None \<Rightarrow> invalid ''Not a valid integer. Must be between 000 and 777''
           | Some mode \<Rightarrow>
               if mode mod 512 \<noteq> mode then invalid ''Please supply a value between 000 and 777''
               else str_validate env c max_length v)
      | _ \<Rightarrow> Inl TypeError)"

definition valid_start :: "char \<Rightarrow> bool" where
  "valid_start ch \<longleftrightarrow> ascii_lowercase ch \<or> ascii_uppercase ch \<or> ch = CHR ''_''"

definition valid_char :: "char \<Rightarrow> bool" where
  "valid_char ch \<longleftrightarrow> ascii_lowercase ch \<or> ascii_uppercase ch \<or> is_digit ch \<or> ch \<in> {CHR ''_'', CHR ''-'', CHR ''$'', CHR ''.''}"

definition username_validate :: "schema_env \<Rightarrow> common \<Rightarrow> validation" where
  "username_validate env c v =
     (let val = py_str env v in
      if val = [] then schema_error c ''Username must be at least 1 character in length''
      else if length val > 32 then schema_error c ''Username cannot exceed 32 characters in length''
      else if \<not> valid_start (hd val) then schema_error c ''Username must start with a letter or an underscore''
      else if CHR ''$'' \<in> set val \<and> last val \<noteq> CHR ''$'' then schema_error c ''Username must end with a dollar sign character''
      else if list_ex (\<lambda>ch. \<not> valid_char ch) val then schema_error c ''Valid characters for a username''
      else attr_validate (py_env.truncate env) c (VStr val))"

text \<open>The attributes of a dictionary; only \<open>ValidationErrors\<close> is caught.\<close>

definition validate_key ::
  "string \<Rightarrow> pyval \<Rightarrow> validation_error list \<Rightarrow> string \<times> validation \<Rightarrow> exn + validation_error list" where
  "validate_key name v verrors = (\<lambda>(key, f).
     bindE (py_contains v (VStr key)) (\<lambda>present.
       if \<not> present then Inr verrors
       else bindE (case v of VDict d \<Rightarrow> dict_index d key | _ \<Rightarrow> Inl TypeError) (\<lambda>x.
         case f x of
           Inr u \<Rightarrow> Inr verrors
         | Inl (ValidationErrors es) \<Rightarrow> Inr (verrors_add_child name es verrors)
         | Inl e \<Rightarrow> Inl e)))"

definition dict_validate :: "py_env \<Rightarrow> common \<Rightarrow> (string \<times> validation) list \<Rightarrow> validation" where
  "dict_validate env c fs v =
     (if v = VNone then Inr ()
      else bindE (attr_validate env c v) (\<lambda>_.
        bindE (foldE (validate_key (a_name c) v) [] fs) verrors_check))"

text \<open>The items of a list: the first schema that accepts decides.\<close>

fun validate_item :: "string \<Rightarrow> validation list \<Rightarrow> validation_error list \<Rightarrow> pyval \<Rightarrow> exn + validation_error list" where
  "validate_item prefx [] errs v = Inr errs"
| "validate_item prefx (f # fs) errs v =
     (case f v of
        Inr u \<Rightarrow> Inr []
      | Inl (ValidationErrors es) \<Rightarrow> validate_item prefx fs (verrors_add_child prefx es errs) v
      | Inl e \<Rightarrow> Inl e)"

text \<open>
  What stands for an item in the set of seen items: a dictionary becomes the sorted tuple of
  its entries. The loop variable is rebound to it, so the schemas of the items see the tuple.
\<close>

definition unique_item :: "pyval \<Rightarrow> pyval" where
  "unique_item v =
     (case v of VDict d \<Rightarrow> VList (map (\<lambda>(k, x). VList [VStr k, x]) (sort_key fst d)) | _ \<Rightarrow> v)"

definition item_hashable :: "pyval \<Rightarrow> bool" where
  "item_hashable v = (case v of VDict d \<Rightarrow> list_all (\<lambda>(k, x). hashable x) d | _ \<Rightarrow> hashable v)"

definition list_step ::
  "string \<Rightarrow> bool \<Rightarrow> validation list \<Rightarrow> pyval list \<times> nat \<times> validation_error list \<Rightarrow> pyval
     \<Rightarrow> exn + (pyval list \<times> nat \<times> validation_error list)" where
  "list_step name unique fs = (\<lambda>(seen, i, verrors) v.
     let prefx = name @ ''.'' @ str_of_nat i in
     if unique \<and> \<not> item_hashable v then Inl TypeError
     else let w = (if unique then unique_item v else v);
              verrors1 = (if unique \<and> list_ex (\<lambda>y. py_eq y w) seen
                          then verrors_add prefx ''This value is not unique.'' verrors else verrors);
              seen1 = (if unique then w # seen else seen)
          in bindE (validate_item prefx fs [] w) (\<lambda>errs. Inr (seen1, Suc i, verrors_extend errs verrors1)))"

definition list_validate :: "py_env \<Rightarrow> common \<Rightarrow> bool \<Rightarrow> validation list \<Rightarrow> validation" where
  "list_validate env c unique fs v =
     (if v = VNone then Inr ()
      else bindE (py_iter v) (\<lambda>xs.
        bindE (foldE (list_step (a_name c) unique fs) ([], 0, []) xs) (\<lambda>(seen, i, verrors).
          bindE (verrors_check verrors) (\<lambda>_. attr_validate env c v))))"

text \<open>\<open>OROperator.validate\<close>: an alternative that raises \<open>TypeError\<close> is passed over in silence.\<close>

fun or_validate :: "validation list \<Rightarrow> validation_error list \<Rightarrow> validation" where
  "or_validate [] errs v = verrors_check errs"
| "or_validate (f # fs) errs v =
     (case f v of
        Inr u \<Rightarrow> Inr ()
      | Inl TypeError \<Rightarrow> or_validate fs errs v
      | Inl (ValidationErrors es) \<Rightarrow> or_validate fs (verrors_extend es errs) v
      | Inl e \<Rightarrow> Inl e)"

fun validate :: "schema_env \<Rightarrow> schema \<Rightarrow> validation" where
  "validate env (SAny c) = attr_validate (py_env.truncate env) c"
| "validate env (SBool c) = attr_validate (py_env.truncate env) c"
| "validate env (SInt c enum) = attr_validate (py_env.truncate env) c"
| "validate env (SStr c enum n) = str_validate env c n"
| "validate env (SPath c enum n fs) = str_validate env c n"
| "validate env (SNetbios c enum n re) = netbios_validate env c n re"
| "validate env (SUnixPerm c enum n) = unixperm_validate env c n"
| "validate env (SUsername c) = username_validate env c"
| "validate env (SDict c opts attrs) = dict_validate (py_env.truncate env) c (map (\<lambda>(k, s). (k, validate env s)) attrs)"
| "validate env (SList c enum u items) = list_validate (py_env.truncate env) c u (map (validate env) items)"
| "validate env (SOr c ss) = or_validate (map (validate env) ss) []"

section \<open>Dumping\<close>

primrec has_private :: "schema \<Rightarrow> bool" where
  "has_private (SAny c) = is_private c"
| "has_private (SBool c) = is_private c"
| "has_private (SInt c e) = is_private c"
| "has_private (SStr c e n) = is_private c"
| "has_private (SPath c e n f) = is_private c"
| "has_private (SNetbios c e n r) = is_private c"
| "has_private (SUnixPerm c e n) = is_private c"
| "has_private (SUsername c) = is_private c"
| "has_private (SDict c opts attrs) = (is_private c \<or> list_ex snd (map (map_prod id has_private) attrs))"
| "has_private (SList c e u items) = (is_private c \<or> list_ex (\<lambda>b. b) (map has_private items))"
| "has_private (SOr c ss) = (is_private c \<or> list_ex (\<lambda>b. b) (map has_private ss))"

type_synonym dumper = "pyval \<Rightarrow> exn + pyval"

definition attr_dump :: "common \<Rightarrow> dumper" where
  "attr_dump c v = Inr (if is_private c then REDACTED_VALUE else v)"

definition dump_key :: "string list \<Rightarrow> (string \<times> dumper) list \<Rightarrow> string \<times> pyval \<Rightarrow> exn + (string \<times> pyval)" where
  "dump_key pkeys ds = (\<lambda>(key, x).
     if key \<in> set pkeys then Inr (key, REDACTED_VALUE)
     else case map_of ds key of
            None \<Rightarrow> Inr (key, x)
          | Some f \<Rightarrow> bindE (f x) (\<lambda>y. Inr (key, y)))"

definition dict_dump :: "common \<Rightarrow> dict_opts \<Rightarrow> (string \<times> dumper) list \<Rightarrow> dumper" where
  "dict_dump c opts ds v =
     (if is_private c then Inr REDACTED_VALUE
      else case v of
             VDict d \<Rightarrow> bindE (mapE (dump_key (private_keys opts) ds) d) (\<lambda>d1. Inr (VDict d1))
           | _ \<Rightarrow> Inr v)"

text \<open>
  An item of a list with several item schemas: it is dumped when exactly one of them accepts
  it, and redacted otherwise.
\<close>

fun dump_choice :: "(bool \<times> dumper) list \<Rightarrow> pyval \<Rightarrow> pyval \<Rightarrow> exn + pyval" where
  "dump_choice [] entry x = Inr entry"
| "dump_choice ((ok, f) # cs) entry x =
     (if \<not> ok then dump_choice cs entry x
      else if \<not> py_eq entry REDACTED_VALUE then Inr REDACTED_VALUE
      else bindE (f x) (\<lambda>y. dump_choice cs y x))"

definition list_dump :: "common \<Rightarrow> bool \<Rightarrow> (cleaner \<times> validation \<times> dumper) list \<Rightarrow> dumper" where
  "list_dump c priv cs v =
     (if is_private c then Inr REDACTED_VALUE
      else if \<not> truthy v \<or> cs = [] \<or> \<not> priv then Inr v
      else bindE (py_iter v) (\<lambda>xs.
        case cs of
          [(cl, va, f)] \<Rightarrow> bindE (mapE f xs) (\<lambda>ys. Inr (VList ys))
        | _ \<Rightarrow> bindE (mapE (\<lambda>x. dump_choice
                 (map (\<lambda>(cl, va, f). (\<not> isl (bindE (cl (Some x)) va), f)) cs) REDACTED_VALUE x) xs)
               (\<lambda>ys. Inr (VList ys))))"

text \<open>\<open>OROperator.dump\<close>: the first alternative that cleans the value dumps it; otherwise it is returned as it is.\<close>

fun or_dump :: "(cleaner \<times> dumper) list \<Rightarrow> dumper" where
  "or_dump [] v = Inr v"
| "or_dump ((cl, f) # cs) v =
     (case cl (Some v) of
        Inr x \<Rightarrow> f v
      | Inl (SchemaError a msg n) \<Rightarrow> or_dump cs v
      | Inl (ValidationErrors es) \<Rightarrow> or_dump cs v
      | Inl e \<Rightarrow> Inl e)"

fun dump :: "schema_env \<Rightarrow> schema \<Rightarrow> dumper" where
  "dump env (SAny c) = attr_dump c"
| "dump env (SBool c) = attr_dump c"
| "dump env (SInt c e) = attr_dump c"
| "dump env (SStr c e n) = attr_dump c"
| "dump env (SPath c e n f) = attr_dump c"
| "dump env (SNetbios c e n r) = attr_dump c"
| "dump env (SUnixPerm c e n) = attr_dump c"
| "dump env (SUsername c) = attr_dump c"
| "dump env (SDict c opts attrs) = dict_dump c opts (map (\<lambda>(k, s). (k, dump env s)) attrs)"
| "dump env (SList c e u items) =
     list_dump c (has_private (SList c e u items))
       (zip (map (clean env) items) (zip (map (validate env) items) (map (dump env) items)))"
| "dump env (SOr c ss) = or_dump (zip (map (clean env) ss) (map (dump env) ss))"

section \<open>The arguments of a call\<close>

definition clean_and_validate_arg ::
  "schema_env \<Rightarrow> validation_error list \<Rightarrow> schema \<Rightarrow> pyval option \<Rightarrow> exn + (pyval \<times> validation_error list)" where
  "clean_and_validate_arg env verrors s v =
     (case bindE (clean env s v) (\<lambda>x. bindE (validate env s x) (\<lambda>_. Inr x)) of
        Inr x \<Rightarrow> Inr (x, verrors)
      | Inl (SchemaError a msg n) \<Rightarrow> Inr (VNone, verrors_add_errno a msg n verrors)
      | Inl (ValidationErrors es) \<Rightarrow> Inr (VNone, verrors_extend es verrors)
      | Inl e \<Rightarrow> Inl e)"

definition arg_step ::
  "schema_env \<Rightarrow> pyval list \<times> validation_error list \<Rightarrow> schema \<times> pyval option \<Rightarrow> exn + (pyval list \<times> validation_error list)" where
  "arg_step env = (\<lambda>(xs, verrors) (s, v).
     bindE (clean_and_validate_arg env verrors s v) (\<lambda>(x, verrors1). Inr (xs @ [x], verrors1)))"

text \<open>
  \<open>clean_and_validate_args\<close>: \<open>args\<close> are the positional arguments after those the framework
  supplies, \<open>names\<close> the parameters of the method that have a schema, \<open>deprecated\<close> the adaptors of
  old signatures. The result has one value per schema: the positional arguments and then the
  parameters that are passed by keyword.
\<close>

definition adapt_args :: "((pyval list \<Rightarrow> bool) \<times> (pyval list \<Rightarrow> pyval list)) list \<Rightarrow> pyval list \<Rightarrow> pyval list" where
  "adapt_args deprecated args = fold (\<lambda>(check, adapt) as. if check as then adapt as else as) deprecated args"

definition clean_and_validate_args ::
  "schema_env \<Rightarrow> ((pyval list \<Rightarrow> bool) \<times> (pyval list \<Rightarrow> pyval list)) list \<Rightarrow> schema list \<Rightarrow> string list \<Rightarrow> pyval list
     \<Rightarrow> pyval dict \<Rightarrow> exn + pyval list" where
  "clean_and_validate_args env deprecated schemas names args kwargs =
     (let args1 = adapt_args deprecated args in
      if length args1 > length schemas then Inl (CallError ''Too many arguments'' EFAULT)
      else let vals = map Some args1 @ map (map_of kwargs) (drop (length args1) names)
           in bindE (foldE (arg_step env) ([], []) (zip schemas vals)) (\<lambda>(xs, verrors).
                bindE (verrors_check verrors) (\<lambda>_. Inr xs)))"

text \<open>\<open>validate_return_type\<close> with the results of the method as a list.\<close>

definition validate_return_type :: "schema_env \<Rightarrow> schema list \<Rightarrow> pyval list \<Rightarrow> exn + unit" where
  "validate_return_type env schemas results =
     (if schemas = [] then (if results = [VNone] then Inr () else invalid ''Return schema missing'')
      else bindE (foldE (arg_step env) ([], []) (zip schemas (map Some results))) (\<lambda>(xs, verrors). verrors_check verrors))"

text \<open>
  \<open>validate_schema\<close> of \<open>validators.py\<close>: plugins check nested attributes against a dictionary
  called \<open>attributes\<close>, whose name is removed from the errors.
\<close>

fun strip_attributes :: "validation_error list \<Rightarrow> exn + validation_error list" where
  "strip_attributes [] = Inr []"
| "strip_attributes ((a, msg, n) # es) =
     (if \<not> startswith a ''attributes.'' then invalid ''Got an invalid attribute name''
      else bindE (strip_attributes es) (\<lambda>rest. Inr ((drop (length ''attributes.'') a, msg, n) # rest)))"

definition validate_schema ::
  "schema_env \<Rightarrow> common \<Rightarrow> dict_opts \<Rightarrow> (string \<times> schema) list \<Rightarrow> pyval \<Rightarrow> exn + validation_error list" where
  "validate_schema env c opts attrs data =
     (let s = SDict (c\<lparr>a_name := ''attributes''\<rparr>) opts attrs in
      case clean env s (Some data) of
        Inl (SchemaError a msg n) \<Rightarrow> strip_attributes (verrors_add_errno a msg n [])
      | Inl (ValidationErrors es) \<Rightarrow> strip_attributes (verrors_extend es [])
      | Inl e \<Rightarrow> Inl e
      | Inr x \<Rightarrow>
          (case validate env s x of
             Inr u \<Rightarrow> strip_attributes []
           | Inl (ValidationErrors es) \<Rightarrow> strip_attributes (verrors_extend es [])
           | Inl e \<Rightarrow> Inl e))"

end
