(* ===== verification/Raises.thy ===== *)
theory Raises
  imports Filters
begin

text \<open>
  Which exceptions a computation can raise, with rules for the combinators, and that the
  query filters never raise \<open>ValidationErrors\<close>: what a schema collects while it evaluates
  conditional defaults are its own errors.
\<close>

definition no_verrors :: "exn + 'a \<Rightarrow> bool" where
  "no_verrors r \<longleftrightarrow> (\<forall>es. r \<noteq> Inl (ValidationErrors es))"

named_theorems no_verrors_intros \<open>computations that do not raise \<open>ValidationErrors\<close>\<close>

lemma no_verrors_Inr [simp, no_verrors_intros]: "no_verrors (Inr x)"
  by (simp add: no_verrors_def)

lemma no_verrors_Inl [simp]: "no_verrors (Inl e) \<longleftrightarrow> (\<forall>es. e \<noteq> ValidationErrors es)"
  by (simp add: no_verrors_def)

lemma no_verrors_bindE [no_verrors_intros]:
  "no_verrors m \<Longrightarrow> (\<And>x. m = Inr x \<Longrightarrow> no_verrors (f x)) \<Longrightarrow> no_verrors (bindE m f)"
  by (cases m) (auto simp: no_verrors_def)

lemma no_verrors_foldE [no_verrors_intros]:
  "(\<And>s x. x \<in> set xs \<Longrightarrow> no_verrors (f s x)) \<Longrightarrow> no_verrors (foldE f s xs)"
  by (induction xs arbitrary: s) (auto intro!: no_verrors_intros)

lemma no_verrors_mapE [no_verrors_intros]:
  "(\<And>x. x \<in> set xs \<Longrightarrow> no_verrors (f x)) \<Longrightarrow> no_verrors (mapE f xs)"
  by (induction xs) (auto intro!: no_verrors_intros)

lemma no_verrors_anyE [no_verrors_intros]:
  "(\<And>x. x \<in> set xs \<Longrightarrow> no_verrors (f x)) \<Longrightarrow> no_verrors (anyE f xs)"
  by (induction xs) (auto intro!: no_verrors_intros)

lemma no_verrors_allE [no_verrors_intros]:
  "(\<And>x. x \<in> set xs \<Longrightarrow> no_verrors (f x)) \<Longrightarrow> no_verrors (allE f xs)"
  by (induction xs) (auto intro!: no_verrors_intros)

section \<open>Python operators\<close>

lemma no_verrors_py_iter [no_verrors_intros]: "no_verrors (py_iter v)"
  by (cases v) auto

lemma no_verrors_py_lt [no_verrors_intros]: "no_verrors (py_lt x y)"
  by (induction x y rule: py_lt.induct) (auto split: option.splits)

lemma no_verrors_py_contains [no_verrors_intros]: "no_verrors (py_contains x y)"
  by (cases x) (auto split: pyval.splits)

lemma no_verrors_seq_items [no_verrors_intros]: "no_verrors (seq_items v)"
  by (cases v) auto

lemma no_verrors_branch_head [no_verrors_intros]: "no_verrors (branch_head v)"
  by (cases v rule: branch_head.cases) auto

lemma no_verrors_op_code [no_verrors_intros]: "no_verrors (op_code v)"
  by (cases v rule: op_code.cases) auto

section \<open>Filters\<close>

lemma no_verrors_validate_operand [no_verrors_intros]: "no_verrors (validate_operand env op f0 f2 maps operand)"
  by (auto simp: validate_operand_def Let_def split: option.splits pyval.splits)

lemma no_verrors_validate_condition [no_verrors_intros]: "no_verrors (validate_condition env maps f0 f1 f2)"
  unfolding validate_condition_def by (rule no_verrors_bindE) (auto intro!: no_verrors_intros split: prod.splits)

lemma no_verrors_validate_filters [no_verrors_intros]: "no_verrors (validate_filters env depth maps filters)"
proof (induction env depth maps filters rule: validate_filters.induct)
  case (1 env depth maps filters)
  then show ?case
    by (subst validate_filters.simps) (auto intro!: no_verrors_intros split: list.splits)
qed

lemma no_verrors_partition_path [no_verrors_intros]: "no_verrors (partition_path s)"
proof -
  have "no_verrors (partition_loop rv s)" for rv
  proof (induction rv s rule: partition_loop.induct)
    case (1 rv s)
    then show ?case by (subst partition_loop.simps) (auto split: prod.splits)
  qed
  then show ?thesis by (simp add: partition_path_def)
qed

lemma no_verrors_get_impl_loop [no_verrors_intros]: "no_verrors (get_impl_loop cur right)"
proof (induction cur right rule: get_impl_loop.induct)
  case (1 cur right)
  then show ?case
    by (subst get_impl_loop.simps) (auto intro!: no_verrors_intros split: prod.splits option.splits pyval.splits)
qed

lemma no_verrors_source_getter [no_verrors_intros]: "no_verrors (source_getter g i name)"
  by (auto simp: source_getter_def get_impl_def get_attr_def path_str_def
      intro!: no_verrors_intros split: option.splits getter.splits pyval.splits)

lemma no_verrors_casefold [no_verrors_intros]: "no_verrors (casefold v)"
  by (cases v) (auto intro!: no_verrors_intros split: pyval.splits)

lemma no_verrors_opmap: "map_of (opmap env) op = Some fn \<Longrightarrow> no_verrors (fn x y)"
  by (auto simp: opmap_def py_le_def op_re_def op_in_def op_rin_def op_nin_def op_rnin_def
      op_startswith_def op_notstartswith_def op_endswith_def op_notendswith_def str_method_def notE_def
      intro!: no_verrors_intros split: if_splits pyval.splits option.splits)

lemma no_verrors_apply_op [no_verrors_intros]: "no_verrors (apply_op env op source v)"
  unfolding apply_op_def
  by (rule no_verrors_bindE) (auto intro!: no_verrors_intros dest: no_verrors_opmap split: option.splits prod.splits)

lemma no_verrors_filterop [no_verrors_intros]: "no_verrors (filterop env g i name op v)"
proof (induction env g i name op v rule: filterop.induct)
  case (1 env g i name op v)
  then show ?case
    by (subst filterop.simps) (auto intro!: no_verrors_intros split: filter_get_result.splits option.splits)
qed

lemma no_verrors_eval_condition [no_verrors_intros]: "no_verrors (eval_condition env g maps item items)"
  by (auto simp: eval_condition_def map_lookup_def intro!: no_verrors_intros split: list.splits option.splits)

lemma no_verrors_eval_filter [no_verrors_intros]: "no_verrors (eval_filter env g maps item f)"
proof (induction env g maps item f rule: eval_filter.induct)
  case (1 env g maps item f)
  then show ?case
    by (subst eval_filter.simps) (auto intro!: no_verrors_intros split: list.splits)
qed

lemma no_verrors_do_filters [no_verrors_intros]: "no_verrors (do_filters env lst filters [] False maps)"
proof -
  have "no_verrors (do_filters_loop env filters [] False maps g lst)" for g
    by (induction lst arbitrary: g) (auto simp: Let_def intro!: no_verrors_intros)
  then show ?thesis by (simp add: do_filters_def)
qed

lemma no_verrors_filter_list [no_verrors_intros]: "no_verrors (filter_list env lst filters None)"
  by (auto simp: filter_list_def validate_options_def finish_list_def do_order_def Let_def intro!: no_verrors_intros)

end
