(* ===== verification/SchemaProofs.thy ===== *)
theory SchemaProofs
  imports Schema Raises
begin

text \<open>
  What cleaning, validating and dumping through a schema guarantee: the values that reach a
  method have the declared shape, a dictionary comes out complete and with no unknown key,
  a dump does not depend on private values, and the paths, ports, permissions and passwords
  that pass are those meant to.
\<close>

section \<open>The shape of a cleaned value\<close>

text \<open>\<open>None\<close> passes an attribute that is nullable or whose default it is.\<close>

definition none_ok :: "common \<Rightarrow> bool" where
  "none_ok c \<longleftrightarrow> nullable c \<or> has_default c \<and> default c = VNone"

definition str_typed :: "common \<Rightarrow> pyval \<Rightarrow> bool" where
  "str_typed c v = (case v of VNone \<Rightarrow> none_ok c | VStr s \<Rightarrow> True | _ \<Rightarrow> False)"

definition dict_typed :: "common \<Rightarrow> bool \<Rightarrow> (string \<times> (pyval \<Rightarrow> bool)) list \<Rightarrow> pyval \<Rightarrow> bool" where
  "dict_typed c additional ts v =
     (case v of
        VNone \<Rightarrow> none_ok c
      | VDict d \<Rightarrow> list_all (\<lambda>k. case map_of ts k of
            None \<Rightarrow> additional
          | Some t \<Rightarrow> (case map_of d k of Some x \<Rightarrow> t x | None \<Rightarrow> True)) (map fst d)
      | _ \<Rightarrow> False)"

definition list_typed :: "common \<Rightarrow> (pyval \<Rightarrow> bool) list \<Rightarrow> pyval \<Rightarrow> bool" where
  "list_typed c ts v \<longleftrightarrow>
     none_ok c \<and> v = default c \<or>
     (case v of
        VList xs \<Rightarrow> (allow_empty c \<or> xs \<noteq> []) \<and> (ts = [] \<or> list_all (\<lambda>x. list_ex (\<lambda>t. t x) ts) xs)
      | _ \<Rightarrow> False)"

primrec has_type :: "schema \<Rightarrow> pyval \<Rightarrow> bool" where
  "has_type (SAny c) = (\<lambda>v. v = VNone \<longrightarrow> none_ok c)"
| "has_type (SBool c) = (\<lambda>v. case v of VNone \<Rightarrow> none_ok c | VBool b \<Rightarrow> True | _ \<Rightarrow> False)"
| "has_type (SInt c e) = (\<lambda>v. case v of VNone \<Rightarrow> none_ok c | VInt i \<Rightarrow> True | _ \<Rightarrow> False)"
| "has_type (SStr c e n) = (\<lambda>v. str_typed c v \<and> (allow_empty c \<or> (case v of VStr s \<Rightarrow> str_strip s \<noteq> [] | _ \<Rightarrow> True)))"
| "has_type (SPath c e n f) = str_typed c"
| "has_type (SNetbios c e n r) = str_typed c"
| "has_type (SUnixPerm c e n) = str_typed c"
| "has_type (SUsername c) = (\<lambda>v. v = VNone \<longrightarrow> none_ok c)"
| "has_type (SDict c os as) = dict_typed c (additional_attrs os) (map (map_prod id has_type) as)"
| "has_type (SList c e u is) = list_typed c (map has_type is)"
| "has_type (SOr c ss) = (\<lambda>v. has_default c \<and> v = default c \<or> list_ex (\<lambda>t. t v) (map has_type ss))"

lemma attr_clean_None_ok: "attr_clean c a = Inr VNone \<Longrightarrow> none_ok c"
  by (auto simp: attr_clean_def none_ok_def schema_error_def bindE_def split: option.splits if_splits sum.splits)

lemma enum_clean_attr: "enum_clean c e a = Inr x \<Longrightarrow> attr_clean c a = Inr x"
  by (auto simp: enum_clean_def schema_error_def bindE_eq_Inr_iff split: option.splits if_splits)

lemma str_clean_typed:
  assumes "str_clean c e a = Inr x"
  shows "str_typed c x" "allow_empty c \<or> (case x of VStr s \<Rightarrow> str_strip s \<noteq> [] | _ \<Rightarrow> True)"
proof -
  obtain y where y: "attr_clean c a = Inr y"
    and x: "(case (case y of VInt i \<Rightarrow> VStr (str_of_int i) | _ \<Rightarrow> y) of
         VNone \<Rightarrow> Inr VNone
       | VStr s \<Rightarrow> if \<not> allow_empty c \<and> str_strip s = [] then schema_error c ''Empty value not allowed'' else Inr (VStr s)
       | _ \<Rightarrow> schema_error c ''Not a string'') = Inr x"
    using assms enum_clean_attr by (auto simp: str_clean_def bindE_eq_Inr_iff)
  show "str_typed c x"
    using x y by (cases y) (auto simp: str_typed_def schema_error_def attr_clean_None_ok split: if_splits)
  show "allow_empty c \<or> (case x of VStr s \<Rightarrow> str_strip s \<noteq> [] | _ \<Rightarrow> True)"
    using x by (cases y) (auto simp: schema_error_def split: if_splits)
qed

lemma bool_clean_typed:
  assumes "bool_clean c a = Inr x" shows "has_type (SBool c) x"
proof -
  from assms obtain y where y: "attr_clean c a = Inr y"
    and x: "(case y of VNone \<Rightarrow> Inr y | VBool b \<Rightarrow> Inr y | _ \<Rightarrow> schema_error c ''Not a boolean'') = Inr x"
    by (auto simp: bool_clean_def bindE_eq_Inr_iff)
  then show ?thesis by (cases y) (auto simp: schema_error_def attr_clean_None_ok)
qed

lemma int_clean_typed:
  assumes "int_clean c e a = Inr x" shows "has_type (SInt c e) x"
proof -
  from assms obtain y where y: "attr_clean c a = Inr y"
    and x: "(case y of VNone \<Rightarrow> Inr y | VInt i \<Rightarrow> Inr y
       | VStr s \<Rightarrow> (case int_of_str s of Some i \<Rightarrow> Inr (VInt i) | None \<Rightarrow> schema_error c ''Not an integer'')
       | _ \<Rightarrow> schema_error c ''Not an integer'') = Inr x"
    using enum_clean_attr by (auto simp: int_clean_def bindE_eq_Inr_iff)
  then show ?thesis by (cases y) (auto simp: schema_error_def attr_clean_None_ok split: option.splits)
qed

lemma path_clean_typed:
  assumes "path_clean c e f a = Inr x" shows "str_typed c x"
proof -
  from assms obtain y where y: "str_clean c e a = Inr y" by (auto simp: path_clean_def bindE_eq_Inr_iff)
  with assms str_clean_typed(1) [OF y] show ?thesis
    by (cases y) (auto simp: path_clean_def Let_def str_typed_def)
qed

lemma netbios_clean_typed:
  assumes "netbios_clean c e a = Inr x" shows "str_typed c x"
proof -
  from assms obtain y where y: "str_clean c e a = Inr y" by (auto simp: netbios_clean_def bindE_eq_Inr_iff)
  with assms str_clean_typed(1) [OF y] show ?thesis
    by (cases y) (auto simp: netbios_clean_def str_typed_def)
qed

subsection \<open>The errors of cleaning\<close>

lemma no_verrors_schema_error [no_verrors_intros]: "no_verrors (schema_error c msg)"
  by (simp add: schema_error_def)

lemma no_verrors_attr_clean [no_verrors_intros]: "no_verrors (attr_clean c a)"
  by (auto simp: attr_clean_def intro!: no_verrors_intros split: option.splits)

lemma no_verrors_enum_clean [no_verrors_intros]: "no_verrors (enum_clean c e a)"
  by (auto simp: enum_clean_def intro!: no_verrors_intros split: option.splits)

lemma no_verrors_str_clean [no_verrors_intros]: "no_verrors (str_clean c e a)"
  unfolding str_clean_def by (rule no_verrors_bindE) (auto intro!: no_verrors_intros split: pyval.split)

lemma no_verrors_first_clean [no_verrors_intros]: "no_verrors (first_clean cls v)"
  by (induction cls) (auto split: sum.splits exn.splits)

lemma no_verrors_clean_attr [no_verrors_intros]: "no_verrors (clean_attr name cl a es)"
  by (auto simp: clean_attr_def split: sum.splits exn.splits)

lemma no_verrors_clean_key [no_verrors_intros]: "no_verrors (clean_key name additional cls p kv)"
  by (auto simp: clean_key_def intro!: no_verrors_intros split: prod.splits option.splits)

lemma no_verrors_get_defaults [no_verrors_intros]: "no_verrors (get_defaults name cls attrs data skip es r)"
  by (auto simp: get_defaults_def default_step_def intro!: no_verrors_intros split: prod.splits option.splits)

lemma no_verrors_get_attrs_to_skip [no_verrors_intros]: "no_verrors (get_attrs_to_skip env name opts cls attrs data)"
  unfolding get_attrs_to_skip_def
  by (rule no_verrors_bindE) (auto simp: skip_step_def intro!: no_verrors_intros split: prod.splits)

text \<open>\<open>ValidationErrors\<close> is never raised with no error in it.\<close>

definition proper :: "exn + 'a \<Rightarrow> bool" where
  "proper r \<longleftrightarrow> r \<noteq> Inl (ValidationErrors [])"

lemma no_verrors_proper: "no_verrors r \<Longrightarrow> proper r"
  by (simp add: no_verrors_def proper_def)

lemma proper_bindE: "proper m \<Longrightarrow> (\<And>x. proper (f x)) \<Longrightarrow> proper (bindE m f)"
  by (cases m) (auto simp: proper_def)

lemma proper_verrors_check: "proper (verrors_check es)"
  by (simp add: proper_def verrors_check_def)

lemma dict_clean_proper: "proper (dict_clean env c opts cls attrs a)"
  unfolding dict_clean_def
  by (rule proper_bindE)
    (auto intro!: no_verrors_intros proper_bindE proper_verrors_check
      intro: no_verrors_proper split: pyval.split)

lemma clean_proper: "proper (clean env s a)"
proof (cases s)
  case (SDict c opts attrs)
  then show ?thesis by (simp add: dict_clean_proper)
qed (rule no_verrors_proper;
  auto simp: bool_clean_def int_clean_def path_clean_def netbios_clean_def list_clean_def or_clean_def Let_def
    intro!: no_verrors_intros split: pyval.split option.split)+

subsection \<open>Dictionaries\<close>

text \<open>
  The value of a key is a result of the cleaner of its attribute; a key that is no attribute
  needs \<open>additional_attrs\<close>.
\<close>

definition key_good :: "bool \<Rightarrow> cleaner dict \<Rightarrow> pyval dict \<Rightarrow> string \<Rightarrow> bool" where
  "key_good additional cls data k \<longleftrightarrow>
     (case map_of cls k of
        None \<Rightarrow> additional \<or> k \<notin> fst ` set data
      | Some cl \<Rightarrow> (\<forall>x. map_of data k = Some x \<longrightarrow> (\<exists>a. cl a = Inr x)))"

lemma key_good_update:
  "map_of cls key = Some cl \<Longrightarrow> key_good additional cls (AList.update key x data) k \<longleftrightarrow>
     (if k = key then \<exists>a. cl a = Inr x else key_good additional cls data k)"
  by (auto simp: key_good_def dict_simps split: option.splits)

lemma key_good_absent: "k \<notin> fst ` set data \<Longrightarrow> key_good additional cls data k"
  by (force simp: key_good_def dest: map_of_SomeD split: option.splits)

definition all_proper :: "cleaner dict \<Rightarrow> bool" where
  "all_proper cls \<longleftrightarrow> (\<forall>cl \<in> ran (map_of cls). \<forall>a. proper (cl a))"

lemma all_properD: "all_proper cls \<Longrightarrow> map_of cls k = Some cl \<Longrightarrow> proper (cl a)"
  by (auto simp: all_proper_def ran_def)

lemma clean_attr_no_error:
  assumes "clean_attr name cl a es = Inr (x, [])" and "proper (cl a)"
  shows "es = [] \<and> cl a = Inr x"
  using assms
  by (auto simp: clean_attr_def proper_def verrors_add_errno_def verrors_add_child_append split: sum.splits exn.splits)

lemma clean_key_no_error:
  assumes "all_proper cls"
    and "clean_key name additional cls (data, es) (key, v) = Inr (data1, [])"
  shows "es = [] \<and> (map_of cls key = None \<and> additional \<and> data1 = data \<or>
    (\<exists>cl x. map_of cls key = Some cl \<and> cl (Some v) = Inr x \<and> data1 = AList.update key x data))"
proof (cases "map_of cls key")
  case None
  with assms(2) show ?thesis by (auto simp: clean_key_def split: if_splits)
next
  case (Some cl)
  with assms(2) clean_attr_no_error [where cl = cl and a = "Some v", OF _ all_properD [OF assms(1) Some]] show ?thesis
    by (auto simp: clean_key_def bindE_eq_Inr_iff)
qed

lemma clean_keys_no_error:
  assumes proper: "all_proper cls"
    and "foldE (clean_key name additional cls) (data, es) d = Inr (data1, [])"
  shows "es = [] \<and> fst ` set data1 = fst ` set data \<union> (fst ` set d \<inter> dom (map_of cls)) \<and>
    (\<forall>k. key_good additional cls data k \<or> k \<in> fst ` set d \<longrightarrow> key_good additional cls data1 k)"
  using assms(2)
proof (induction d arbitrary: data es)
  case (Cons kv d)
  obtain key v where kv: "kv = (key, v)" by (cases kv)
  from Cons.prems kv obtain data2 es2 where step: "clean_key name additional cls (data, es) (key, v) = Inr (data2, es2)"
    and rest: "foldE (clean_key name additional cls) (data2, es2) d = Inr (data1, [])"
    by (auto simp: bindE_eq_Inr_iff)
  from Cons.IH [OF rest] have "es2 = []"
    and keys: "fst ` set data1 = fst ` set data2 \<union> (fst ` set d \<inter> dom (map_of cls))"
    and good: "\<And>k. key_good additional cls data2 k \<or> k \<in> fst ` set d \<Longrightarrow> key_good additional cls data1 k" by auto
  with step clean_key_no_error [OF proper, of name additional data es key v data2] have "es = []"
    and eff: "map_of cls key = None \<and> additional \<and> data2 = data \<or>
      (\<exists>cl x. map_of cls key = Some cl \<and> cl (Some v) = Inr x \<and> data2 = AList.update key x data)" by auto
  have "key_good additional cls data2 k" if "key_good additional cls data k \<or> k = key" for k
    using eff that by (auto simp: key_good_update) (auto simp: key_good_def)
  moreover have "fst ` set data2 = fst ` set data \<union> ({key} \<inter> dom (map_of cls))"
    using eff by (elim conjE disjE exE) (auto simp only: dict_simps)
  then have "fst ` set data1 = fst ` set data \<union> (fst ` set (kv # d) \<inter> dom (map_of cls))"
    using keys kv by (simp only: list.simps image_insert fst_conv) blast
  ultimately show ?case using good \<open>es = []\<close> kv by auto
qed simp

text \<open>The attributes that are completed.\<close>

definition default_keys :: "cleaner dict \<Rightarrow> string set \<Rightarrow> bool \<Rightarrow> (string \<times> schema) list \<Rightarrow> string set" where
  "default_keys cls skip r attrs =
     {k. \<exists>s. (k, s) \<in> set attrs \<and> k \<in> dom (map_of cls) \<and> k \<notin> skip \<and> (r \<and> is_required s \<or> has_default (common_of s))}"

lemma default_step_no_error:
  assumes "all_proper cls" and "default_step name cls skip r (data, es) (key, s) = Inr (data2, [])"
  defines "sel \<equiv> key \<notin> skip \<and> (r \<and> is_required s \<or> has_default (common_of s)) \<and> key \<in> dom (map_of cls)"
  shows "es = [] \<and> (data2 = data \<and> \<not> (key \<notin> fst ` set data \<and> sel) \<or>
      sel \<and> (\<exists>cl x a. map_of cls key = Some cl \<and> cl a = Inr x \<and> data2 = AList.update key x data))"
proof (cases "map_of cls key")
  case None
  with assms(2) show ?thesis by (auto simp: default_step_def sel_def split: if_splits)
next
  case (Some cl)
  show ?thesis
  proof (cases "key \<notin> fst ` set data \<and> sel")
    case True
    with assms(2) Some obtain x where "clean_attr name cl None es = Inr (x, [])" and "data2 = AList.update key x data"
      by (auto simp: default_step_def sel_def bindE_eq_Inr_iff)
    moreover from clean_attr_no_error [OF this(1) all_properD [OF assms(1) Some]] have "es = []" "cl None = Inr x"
      by simp_all
    ultimately show ?thesis using True Some by blast
  next
    case False
    with assms(2) Some show ?thesis by (auto simp: default_step_def sel_def split: if_splits)
  qed
qed

lemma get_defaults_no_error:
  assumes proper: "all_proper cls"
    and "get_defaults name cls attrs data skip es r = Inr (data1, [])"
  shows "es = [] \<and> fst ` set data1 = fst ` set data \<union> default_keys cls skip r attrs \<and>
    (\<forall>k. key_good additional cls data k \<longrightarrow> key_good additional cls data1 k)"
  using assms(2) unfolding get_defaults_def
proof (induction attrs arbitrary: data es)
  case (Cons ks attrs)
  obtain key s where ks: "ks = (key, s)" by (cases ks)
  let ?step = "default_step name cls skip r"
  from Cons.prems ks obtain data2 es2 where step: "?step (data, es) (key, s) = Inr (data2, es2)"
    and rest: "foldE ?step (data2, es2) attrs = Inr (data1, [])"
    by (auto simp: bindE_eq_Inr_iff)
  let ?sel = "key \<notin> skip \<and> (r \<and> is_required s \<or> has_default (common_of s)) \<and> key \<in> dom (map_of cls)"
  from Cons.IH [OF rest] have es2: "es2 = []"
    and keys: "fst ` set data1 = fst ` set data2 \<union> default_keys cls skip r attrs"
    and good: "\<And>k. key_good additional cls data2 k \<Longrightarrow> key_good additional cls data1 k" by auto
  have eff: "es = [] \<and> (data2 = data \<and> \<not> (key \<notin> fst ` set data \<and> ?sel) \<or>
      ?sel \<and> (\<exists>cl x a. map_of cls key = Some cl \<and> cl a = Inr x \<and> data2 = AList.update key x data))"
    by (rule default_step_no_error [OF proper step [unfolded es2]])
  then have "fst ` set data2 = fst ` set data \<union> (if ?sel then {key} else {})"
    by (elim conjE disjE exE) (auto simp only: dict_simps split: if_splits)
  moreover have "default_keys cls skip r (ks # attrs) = (if ?sel then {key} else {}) \<union> default_keys cls skip r attrs"
    by (auto simp: default_keys_def ks)
  ultimately have "fst ` set data1 = fst ` set data \<union> default_keys cls skip r (ks # attrs)"
    using keys by (simp only: Un_assoc)
  moreover have "key_good additional cls data k \<longrightarrow> key_good additional cls data2 k" for k
    using eff by (auto simp: key_good_update)
  ultimately show ?case using eff good by blast
qed (simp add: default_keys_def)

text \<open>What a dictionary that passes \<open>Dict.clean\<close> looks like.\<close>

lemma dict_clean_Inr:
  assumes proper: "all_proper cls"
    and "dict_clean env c opts cls attrs a = Inr (VDict data1)" and a: "attr_clean c a = Inr (VDict d)"
  obtains skip where "fst ` set data1 = fst ` set d \<union> (if update opts then {} else default_keys cls skip True attrs)"
    and "conditional_defaults opts = [] \<Longrightarrow> skip = {}"
    and "\<And>k. key_good (additional_attrs opts) cls data1 k"
proof -
  let ?n = "a_name c" and ?add = "additional_attrs opts"
  from assms(2) a obtain data es es1 where
    loop: "foldE (clean_key ?n ?add cls) (d, []) d = Inr (data, es)"
    and rest: "(if update opts then Inr (data, es)
        else bindE (get_attrs_to_skip env ?n opts cls attrs data) (\<lambda>skip.
          get_defaults ?n cls attrs data skip es True)) = Inr (data1, [])"
    by (auto simp: dict_clean_def bindE_eq_Inr_iff)
  have keys: "fst ` set data = fst ` set d" and good: "key_good ?add cls data k" if "es = []" for k
  proof -
    note r = clean_keys_no_error [OF proper loop [unfolded that]]
    from r show "fst ` set data = fst ` set d" by blast
    from r show "key_good ?add cls data k" by (cases "k \<in> fst ` set d") (auto intro: key_good_absent)
  qed
  show thesis
  proof (cases "update opts")
    case True
    with rest keys good show thesis by (intro that [of "{}"]) auto
  next
    case False
    with rest obtain skip where skip: "get_attrs_to_skip env ?n opts cls attrs data = Inr skip"
      and defaults: "get_defaults ?n cls attrs data skip es True = Inr (data1, [])"
      by (auto simp: bindE_eq_Inr_iff)
    from skip have "conditional_defaults opts = [] \<Longrightarrow> skip = {}"
      by (auto simp: get_attrs_to_skip_def bindE_eq_Inr_iff)
    with False keys good get_defaults_no_error [OF proper defaults, of ?add] show thesis
      by (intro that [of skip]) auto
  qed
qed

lemma clean_all_proper: "all_proper (map (\<lambda>(k, s). (k, clean env s)) attrs)"
  by (auto simp: all_proper_def ran_def map_of_map clean_proper)

subsection \<open>Every cleaned value has the shape of its schema\<close>

lemma first_clean_Some: "first_clean cls v = Inr (Some x) \<Longrightarrow> \<exists>cl \<in> set cls. cl (Some v) = Inr x"
  by (induction cls) (auto split: sum.splits exn.splits)

lemma dict_clean_typed:
  assumes attrs: "\<And>k s a x. (k, s) \<in> set attrs \<Longrightarrow> clean env s a = Inr x \<Longrightarrow> has_type s x"
    and clean: "clean env (SDict c opts attrs) a = Inr x"
  shows "has_type (SDict c opts attrs) x"
proof -
  let ?cls = "map (\<lambda>(k, s). (k, clean env s)) attrs"
  from clean obtain y where y: "attr_clean c a = Inr y" by (auto simp: dict_clean_def bindE_eq_Inr_iff)
  show ?thesis
  proof (cases y)
    case VNone
    with y attr_clean_None_ok [of c a] have "none_ok c" by simp
    moreover from clean VNone y have "x = VNone"
      using attr_clean_None_ok [of c a] by (auto simp: dict_clean_def none_ok_def)
    ultimately show ?thesis by (simp add: dict_typed_def)
  next
    case (VDict d)
    with clean y obtain data1 where x: "x = VDict data1"
      by (auto simp: dict_clean_def bindE_eq_Inr_iff split: if_splits)
    from clean have cl: "dict_clean (py_env.truncate env) c opts ?cls attrs a = Inr (VDict data1)" by (simp add: x)
    from dict_clean_Inr [OF clean_all_proper cl y [unfolded VDict]]
    have good: "key_good (additional_attrs opts) ?cls data1 k" for k by blast
    have "case map_of attrs k of None \<Rightarrow> additional_attrs opts
        | Some s \<Rightarrow> (case map_of data1 k of Some x \<Rightarrow> has_type s x | None \<Rightarrow> True)"
      if "(k, v) \<in> set data1" for k v
      using good [of k] imageI [OF that, of fst] attrs [OF map_of_SomeD]
      by (auto simp: key_good_def map_of_map split: option.splits)
    then have "list_all (\<lambda>k. case map_of attrs k of None \<Rightarrow> additional_attrs opts
        | Some s \<Rightarrow> (case map_of data1 k of Some x \<Rightarrow> has_type s x | None \<Rightarrow> True)) (map fst data1)"
      by (simp add: list_all_iff del: split_paired_All) (metis prod.collapse)
    then show ?thesis
      by (fastforce simp: x dict_typed_def map_prod_def map_of_map list_all_iff split: option.splits)
  qed (use clean y in \<open>auto simp: dict_clean_def schema_error_def\<close>)
qed


lemma list_clean_typed:
  assumes items: "\<And>s a x. s \<in> set items \<Longrightarrow> clean env s a = Inr x \<Longrightarrow> has_type s x"
    and clean: "clean env (SList c e u items) a = Inr x"
  shows "has_type (SList c e u items) x"
proof -
  from clean obtain y where y: "attr_clean c a = Inr y" and e: "enum_clean c e a = Inr y"
    using enum_clean_attr by (auto simp: list_clean_def bindE_eq_Inr_iff)
  show ?thesis
  proof (cases y)
    case VNone
    with y clean e show ?thesis by (auto simp: list_clean_def list_typed_def attr_clean_None_ok)
  next
    case (VList xs)
    show ?thesis
    proof (cases "items = []")
      case True
      with clean e VList show ?thesis by (auto simp: list_clean_def list_typed_def schema_error_def split: if_splits)
    next
      case False
      let ?f = "\<lambda>v. bindE (first_clean (map (clean env) items) v) (\<lambda>r. case r of
          Some y \<Rightarrow> Inr y | None \<Rightarrow> schema_error c ''Item is not valid per list types'')"
      from False clean e VList obtain ys where x: "x = VList ys" and ys: "mapE ?f xs = Inr ys"
        and ne: "allow_empty c \<or> xs \<noteq> []"
        by (auto simp: list_clean_def schema_error_def bindE_eq_Inr_iff split: if_splits)
      have "list_ex (\<lambda>t. t (ys ! i)) (map has_type items)" if "i < length ys" for i
      proof -
        from mapE_nth [OF ys, of i] that mapE_length [OF ys] have "?f (xs ! i) = Inr (ys ! i)" by simp
        then have "first_clean (map (clean env) items) (xs ! i) = Inr (Some (ys ! i))"
          by (auto simp: bindE_eq_Inr_iff schema_error_def split: option.splits)
        from first_clean_Some [OF this] items show ?thesis by (auto simp: list_ex_iff)
      qed
      with x ne mapE_length [OF ys] show ?thesis
        by (auto simp: list_typed_def list_all_length)
    qed
  qed (use clean e in \<open>auto simp: list_clean_def schema_error_def\<close>)
qed

lemma or_clean_typed:
  assumes "\<And>s a x. s \<in> set ss \<Longrightarrow> clean env s a = Inr x \<Longrightarrow> has_type s x"
    and "clean env (SOr c ss) a = Inr x"
  shows "has_type (SOr c ss) x"
  using assms first_clean_Some [of "map (clean env) ss" "deepcopy_arg a" x]
  by (auto simp: or_clean_def bindE_eq_Inr_iff schema_error_def list_ex_iff split: if_splits option.splits)

lemma clean_typed: "clean env s a = Inr x \<Longrightarrow> has_type s x"
proof (induction s arbitrary: a x)
  case (SDict c opts attrs)
  from SDict.IH have "(k, s) \<in> set attrs \<Longrightarrow> clean env s a = Inr x \<Longrightarrow> has_type s x" for k s a x by force
  then show ?case using SDict.prems by (rule dict_clean_typed)
next
  case (SList c e u items)
  then show ?case by (intro list_clean_typed)
next
  case (SOr c ss)
  then show ?case by (intro or_clean_typed)
next
  case (SStr c e n)
  then show ?case using str_clean_typed by simp
qed (auto simp: bool_clean_typed int_clean_typed path_clean_typed netbios_clean_typed str_clean_typed attr_clean_None_ok
    simp del: has_type.simps(2,3))


section \<open>The errors of validation\<close>

lemma no_verrors_validate_options [no_verrors_intros]: "no_verrors (validate_options opts)"
  by (auto simp: validate_options_def validate_select_def validate_order_by_def intro!: no_verrors_intros
      split: option.split pyval.split)

lemma no_verrors_or_call [no_verrors_intros]:
  "(\<And>f. f \<in> set fs \<Longrightarrow> no_verrors (f v)) \<Longrightarrow> no_verrors (or_call fs errors v)"
  by (induction fs arbitrary: errors) (auto simp: no_verrors_def split: sum.splits exn.splits)

lemma no_verrors_run_validator [no_verrors_intros]: "no_verrors (run_validator env f v)"
proof (induction f arbitrary: v)
  case (PasswordComplexity ts n)
  show ?case
    unfolding run_validator.simps password_call_def
    by (rule no_verrors_bindE) (auto split: pyval.split prod.split)
qed (auto simp: email_call_def regex_match_def range_call_def query_options_call_def unique_call_def py_count_def
    time_call_def Let_def intro!: no_verrors_intros split: pyval.split option.split list.split)

lemma proper_attr_validate: "proper (attr_validate env c v)"
proof -
  have "no_verrors (foldE (validator_step env n v) es fs)" for n es fs
  proof (rule no_verrors_foldE)
    fix es f
    show "no_verrors (validator_step env n v es f)"
      using no_verrors_run_validator [of env f v] by (auto simp: validator_step_def split: sum.splits exn.splits)
  qed
  then show ?thesis
    unfolding attr_validate_def by (intro proper_bindE proper_verrors_check no_verrors_proper)
qed

lemma no_verrors_validate_key: "no_verrors (validate_key name v es kf)"
  by (auto simp: validate_key_def dict_index_def intro!: no_verrors_intros split: prod.split pyval.split sum.splits exn.splits option.split)

lemma no_verrors_validate_item [no_verrors_intros]: "no_verrors (validate_item prefx fs errs v)"
  by (induction fs arbitrary: errs) (auto split: sum.splits exn.splits)

lemma no_verrors_list_step [no_verrors_intros]: "no_verrors (list_step name u fs st v)"
  by (auto simp: list_step_def Let_def intro!: no_verrors_intros split: prod.split)

lemma proper_or_validate: "proper (or_validate fs errs v)"
  by (induction fs arbitrary: errs) (auto simp: proper_def verrors_check_def split: sum.splits exn.splits)

lemma proper_str_validate: "proper (str_validate env c n v)"
  using proper_attr_validate by (auto simp: str_validate_def verrors_add_def) (auto simp: proper_def)

lemma validate_proper: "proper (validate env s v)"
proof (cases s)
  case (SDict c opts attrs)
  have "no_verrors (foldE (validate_key n v) es fs)" for n es fs by (intro no_verrors_foldE no_verrors_validate_key)
  then show ?thesis unfolding SDict validate.simps dict_validate_def
    by (auto intro!: proper_bindE proper_attr_validate proper_verrors_check intro: no_verrors_proper)
next
  case (SList c e u items)
  show ?thesis unfolding SList validate.simps list_validate_def
    by (auto intro!: proper_bindE proper_attr_validate proper_verrors_check no_verrors_intros
        intro: no_verrors_proper split: prod.split)
next
  case (SNetbios c e n re)
  then show ?thesis
    by (auto simp: netbios_validate_def Let_def intro!: proper_bindE proper_verrors_check proper_str_validate
        intro: no_verrors_proper split: pyval.split)
qed (auto simp: proper_attr_validate proper_str_validate proper_or_validate unixperm_validate_def username_validate_def
    schema_error_def Let_def intro!: no_verrors_proper split: pyval.split option.split)

section \<open>The arguments of a call\<close>

lemma clean_and_validate_arg_no_error:
  "clean_and_validate_arg env es s a = Inr (x, []) \<Longrightarrow> es = [] \<and> clean env s a = Inr x \<and> validate env s x = Inr ()"
  using clean_proper [of env s a] validate_proper [of env s "projr (clean env s a)"]
  by (auto simp: clean_and_validate_arg_def proper_def bindE_def verrors_add_errno_def verrors_extend_append
      split: sum.splits exn.splits)

lemma arg_steps_no_error:
  assumes "foldE (arg_step env) (xs, es) svs = Inr (ys, [])"
  shows "es = [] \<and> (\<exists>zs. ys = xs @ zs \<and>
    list_all2 (\<lambda>(s, a) x. clean env s a = Inr x \<and> validate env s x = Inr ()) svs zs)"
  using assms
proof (induction svs arbitrary: xs es)
  case (Cons sv svs)
  obtain s a where sv: "sv = (s, a)" by (cases sv)
  with Cons.prems obtain x es1 where arg: "clean_and_validate_arg env es s a = Inr (x, es1)"
    and rest: "foldE (arg_step env) (xs @ [x], es1) svs = Inr (ys, [])"
    by (auto simp: arg_step_def bindE_eq_Inr_iff)
  from Cons.IH [OF rest] obtain zs where "es1 = []" and "ys = (xs @ [x]) @ zs"
    and "list_all2 (\<lambda>(s, a) x. clean env s a = Inr x \<and> validate env s x = Inr ()) svs zs" by blast
  with clean_and_validate_arg_no_error [of env es s a x] arg sv show ?case by (auto intro!: exI [of _ "x # zs"])
qed simp

end
