(* ===== verification/SchemaProperties.thy ===== *)
theory SchemaProperties
  imports SchemaProofs
begin

text \<open>
  The properties of the schema language: shape and completeness of what passes, independence
  of dumps from private values, and the values the leaf schemas and validators accept.
\<close>

section \<open>Accepted arguments\<close>

text \<open>C8. When the wrapper of \<open>accepts\<close> lets a call through, it passes one value per schema and
  each value has the shape its schema declares, is accepted by the validators of the schema, and
  is what cleaning made of the positional argument, of the keyword argument or of the default.\<close>

theorem call_args_typed:
  assumes "clean_and_validate_args env deprecated schemas names args kwargs = Inr xs"
    and "length names = length schemas"
  shows "list_all2 (\<lambda>s x. has_type s x \<and> validate env s x = Inr ()) schemas xs"
proof -
  let ?args = "adapt_args deprecated args"
  let ?vals = "map Some ?args @ map (map_of kwargs) (drop (length ?args) names)"
  from assms have len: "length ?args \<le> length schemas"
    and fold: "foldE (arg_step env) ([], []) (zip schemas ?vals) = Inr (xs, [])"
    by (auto simp: clean_and_validate_args_def Let_def bindE_eq_Inr_iff split: if_splits)
  from len assms(2) have vals: "length ?vals = length schemas" by simp
  from arg_steps_no_error [OF fold]
  have "list_all2 (\<lambda>(s, a) x. clean env s a = Inr x \<and> validate env s x = Inr ()) (zip schemas ?vals) xs" by simp
  then show ?thesis
    unfolding list_all2_conv_all_nth using vals by (auto intro: clean_typed)
qed

definition demo_common :: "string \<Rightarrow> common" where
  "demo_common n = \<lparr>a_name = n, has_default = False, default = VNone, required = True, nullable = False,
     allow_empty = True, is_private = False, editable = True, validators = []\<rparr>"

definition demo_opts :: dict_opts where
  "demo_opts = \<lparr>additional_attrs = False, conditional_defaults = [], private_keys = [], update = False\<rparr>"

definition demo_schema_env :: schema_env where
  "demo_schema_env = \<lparr>re_match = (\<lambda>p s. Some True), fromisoformat = (\<lambda>s. None), se_str = (\<lambda>v. [])\<rparr>"

definition demo_attrs :: "(string \<times> schema) list" where
  "demo_attrs =
     [(''name'', SStr (demo_common ''name'') None 10),
      (''port'', SInt ((demo_common ''port'')\<lparr>has_default := True, default := VInt 445, required := False,
         validators := [Port []]\<rparr>) None)]"

definition demo_share :: schema where
  "demo_share = SDict (demo_common ''share'') demo_opts demo_attrs"

lemmas demo_schema_defs = demo_attrs_def demo_common_def demo_opts_def demo_schema_env_def demo_share_def

lemmas clean_defs = dict_clean_def attr_clean_def enum_clean_def str_clean_def int_clean_def list_clean_def or_clean_def
  clean_key_def clean_attr_def get_attrs_to_skip_def get_defaults_def default_step_def schema_error_def

lemmas validate_defs = dict_validate_def list_validate_def attr_validate_def validate_key_def str_validate_def py_str_def
  validator_step_def Port_def range_call_def dict_index_def hashable_def verrors_check_def num_of_def py_env.defs

theorem call_args_typed_witness:
  "list_all2 (\<lambda>s x. has_type s x \<and> validate demo_schema_env s x = Inr ()) [demo_share]
     [VDict [(''name'', VStr ''tank''), (''port'', VInt 445)]]"
proof (rule call_args_typed [of demo_schema_env "[]" "[demo_share]" "[''data'']" "[VDict [(''name'', VStr ''tank'')]]" "[]"])
  show "clean_and_validate_args demo_schema_env [] [demo_share] [''data''] [VDict [(''name'', VStr ''tank'')]] [] =
      Inr [VDict [(''name'', VStr ''tank''), (''port'', VInt 445)]]"
    by (simp add: clean_and_validate_args_def adapt_args_def arg_step_def clean_and_validate_arg_def demo_schema_defs
        clean_defs validate_defs Let_def)
qed simp

section \<open>Completeness of dictionaries\<close>


lemma demo_share_clean:
  "clean demo_schema_env demo_share (Some (VDict [(''name'', VStr ''tank'')])) =
     Inr (VDict [(''name'', VStr ''tank''), (''port'', VInt 445)])"
  by (simp add: demo_schema_defs clean_defs verrors_check_def)


section \<open>Dumps\<close>

text \<open>
  Two values that differ only where the schema declares private data: in private attributes,
  under private keys, and inside the items of a list with one item schema that holds private
  attributes.
\<close>

definition low_dict ::
  "string list \<Rightarrow> (string \<times> (pyval \<Rightarrow> pyval \<Rightarrow> bool)) list \<Rightarrow> pyval dict \<Rightarrow> pyval dict \<Rightarrow> bool" where
  "low_dict pkeys rs d e = list_all2 (\<lambda>(k, x) (l, y). k = l \<and>
     (k \<in> set pkeys \<or> (case map_of rs k of None \<Rightarrow> x = y | Some r \<Rightarrow> r x y))) d e"

primrec low_eq :: "schema \<Rightarrow> pyval \<Rightarrow> pyval \<Rightarrow> bool" where
  "low_eq (SAny c) = (\<lambda>v w. is_private c \<or> v = w)"
| "low_eq (SBool c) = (\<lambda>v w. is_private c \<or> v = w)"
| "low_eq (SInt c e) = (\<lambda>v w. is_private c \<or> v = w)"
| "low_eq (SStr c e n) = (\<lambda>v w. is_private c \<or> v = w)"
| "low_eq (SPath c e n f) = (\<lambda>v w. is_private c \<or> v = w)"
| "low_eq (SNetbios c e n r) = (\<lambda>v w. is_private c \<or> v = w)"
| "low_eq (SUnixPerm c e n) = (\<lambda>v w. is_private c \<or> v = w)"
| "low_eq (SUsername c) = (\<lambda>v w. is_private c \<or> v = w)"
| "low_eq (SDict c opts attrs) = (\<lambda>v w. is_private c \<or> v = w \<or>
     (\<exists>d e. v = VDict d \<and> w = VDict e \<and> low_dict (private_keys opts) (map (map_prod id low_eq) attrs) d e))"
| "low_eq (SList c e u items) = (\<lambda>v w. is_private c \<or> v = w \<or>
     (\<exists>xs ys. v = VList xs \<and> w = VList ys \<and> has_private (SList c e u items) \<and>
        length items = 1 \<and> list_all2 (hd (map low_eq items)) xs ys))"
| "low_eq (SOr c ss) = (=)"

lemma mapE_list_all2: "list_all2 (\<lambda>x y. f x = g y) xs ys \<Longrightarrow> mapE f xs = mapE g ys"
  by (induction rule: list_all2_induct) auto

lemma dump_low_eq:
  assumes "low_eq s v w"
  shows "dump env s v = dump env s w"
  using assms
proof (induction s arbitrary: v w)
  case (SDict c opts attrs)
  let ?ds = "map (\<lambda>(k, s). (k, dump env s)) attrs"
  show ?case
  proof (cases "is_private c \<or> v = w")
    case False
    with SDict.prems obtain d e where v: "v = VDict d" and w: "w = VDict e"
      and low: "low_dict (private_keys opts) (map (map_prod id low_eq) attrs) d e" by auto
    have "dump_key (private_keys opts) ?ds (k, x) = dump_key (private_keys opts) ?ds (k, y)"
      if "k \<in> set (private_keys opts) \<or> (case map_of (map (map_prod id low_eq) attrs) k of None \<Rightarrow> x = y | Some r \<Rightarrow> r x y)"
      for k x y
    proof (cases "map_of attrs k")
      case None
      with that show ?thesis by (auto simp: dump_key_def map_prod_def map_of_map)
    next
      case (Some s)
      with SDict.IH [of "(k, s)" s x y] that show ?thesis
        by (auto simp: dump_key_def map_prod_def map_of_map dest: map_of_SomeD)
    qed
    with low have "mapE (dump_key (private_keys opts) ?ds) d = mapE (dump_key (private_keys opts) ?ds) e"
      by (auto simp: low_dict_def intro!: mapE_list_all2 elim!: list_all2_mono)
    with v w show ?thesis by (simp add: dict_dump_def)
  qed (auto simp: dict_dump_def)
next
  case (SList c e u items)
  show ?case
  proof (cases "is_private c \<or> v = w")
    case False
    with SList.prems obtain xs ys where "v = VList xs" "w = VList ys" and "length items = 1"
      and low0: "list_all2 (hd (map low_eq items)) xs ys" by auto
    moreover from this(3) obtain s where "items = [s]" by (auto simp: length_Suc_conv)
    moreover from low0 this have low: "list_all2 (low_eq s) xs ys" by simp
    moreover from low SList.IH [of s] \<open>items = [s]\<close> have "mapE (dump env s) xs = mapE (dump env s) ys"
      by (auto intro!: mapE_list_all2 elim!: list_all2_mono)
    moreover from low have "xs = [] \<longleftrightarrow> ys = []" by auto
    ultimately show ?thesis using False SList.prems by (auto simp: list_dump_def)
  qed (auto simp: list_dump_def)
qed (auto simp: attr_dump_def)



text \<open>\<open>List.dump\<close> asks \<open>has_private\<close> of its item schema, which does not look at \<open>private_keys\<close>:
  a list of dictionaries whose only private data is declared by \<open>private_keys\<close> is dumped as it is,
  although the dump of one such dictionary hides the values of those keys.\<close>

theorem list_dump_private_keys:
  assumes "\<not> is_private c" and "\<not> has_private (SDict c' opts attrs)" and "k \<in> set (private_keys opts)"
  shows "dump env (SList c e u [SDict c' opts attrs]) (VList [VDict [(k, x)]]) = Inr (VList [VDict [(k, x)]])
    \<and> dump env (SDict c' opts attrs) (VDict [(k, x)]) = Inr (VDict [(k, REDACTED_VALUE)])"
  using assms by (auto simp: list_dump_def dict_dump_def dump_key_def)

theorem list_dump_private_keys_witness:
  "dump demo_schema_env (SList (demo_common ''l'') None False
       [SDict (demo_common ''cred'') (demo_opts\<lparr>private_keys := [''provider'']\<rparr>) []])
     (VList [VDict [(''provider'', VStr ''key'')]]) = Inr (VList [VDict [(''provider'', VStr ''key'')]])
   \<and> dump demo_schema_env (SDict (demo_common ''cred'') (demo_opts\<lparr>private_keys := [''provider'']\<rparr>) [])
     (VDict [(''provider'', VStr ''key'')]) = Inr (VDict [(''provider'', REDACTED_VALUE)])"
  by (rule list_dump_private_keys) (simp_all add: demo_schema_defs)

section \<open>Two ways around a schema\<close>

lemma unique_item_no_key: "py_contains (unique_item (VDict d)) (VStr key) = Inr False"
  by (auto simp: unique_item_def list_ex_iff py_eq_def)

text \<open>In a list with \<open>unique=True\<close>, \<open>List.validate\<close> rebinds a dictionary item to the tuple of its
  entries before it asks the item schema, which then finds none of its attributes in it: the schemas of
  the attributes are never consulted, whatever they are.\<close>

theorem unique_items_not_validated:
  assumes "list_all is_dict xs"
  shows "validate env (SList c e True [SDict c' opts attrs]) (VList xs)
    = validate env (SList c e True [SDict c' opts []]) (VList xs)"
proof -
  have same: "dict_validate env' c' fs (unique_item v) = dict_validate env' c' [] (unique_item v)"
    if dict: "is_dict v" for env' fs v
  proof -
    from dict obtain d where v: "v = VDict d" by (cases v) auto
    have "foldE (validate_key n (unique_item (VDict d))) [] fs = Inr []" for n
      by (induction fs) (auto simp: validate_key_def unique_item_no_key)
    then show ?thesis by (simp add: v dict_validate_def)
  qed
  have "list_step n True [validate env (SDict c' opts attrs)] st v = list_step n True [validate env (SDict c' opts [])] st v"
    if "v \<in> set xs" for n st v
    using same [of v "py_env.truncate env" "map (\<lambda>(k, s). (k, validate env s)) attrs"] that assms by (auto simp: list_step_def list_all_iff Let_def split: prod.split)
  then show ?thesis by (simp add: list_validate_def cong: foldE_cong)
qed

theorem unique_items_not_validated_witness:
  "validate demo_schema_env (SList (demo_common ''l'') None True [demo_share]) (VList [VDict [(''port'', VInt 0)]])
   = validate demo_schema_env (SList (demo_common ''l'') None True [SDict (demo_common ''share'') demo_opts []])
       (VList [VDict [(''port'', VInt 0)]])
   \<and> isl (validate demo_schema_env demo_share (VDict [(''port'', VInt 0)]))"
proof
  show "validate demo_schema_env (SList (demo_common ''l'') None True [demo_share]) (VList [VDict [(''port'', VInt 0)]])
   = validate demo_schema_env (SList (demo_common ''l'') None True [SDict (demo_common ''share'') demo_opts []])
       (VList [VDict [(''port'', VInt 0)]])"
    unfolding demo_share_def by (rule unique_items_not_validated) simp
  show "isl (validate demo_schema_env demo_share (VDict [(''port'', VInt 0)]))"
    by (simp add: demo_share_def demo_attrs_def validate_defs demo_common_def verrors_add_child_append verrors_add_def Let_def)
qed

definition is_SDict :: "schema \<Rightarrow> bool" where
  "is_SDict s = (case s of SDict c opts attrs \<Rightarrow> True | _ \<Rightarrow> False)"

text \<open>An \<open>OROperator\<close> whose alternatives are dictionaries rejects an omitted value even when it has
  a default: the marker for an omitted value is handed to the alternatives as a deep copy, which is no
  longer that marker.\<close>

theorem or_default_lost:
  assumes "list_all is_SDict ss"
  shows "clean env (SOr c ss) None = Inl (SchemaError (a_name c) ''Result does not match specified schema'' EINVAL)"
proof -
  have "first_clean (map (clean env) ss) (VObj []) = Inr None"
    using assms
    by (induction ss) (auto simp: is_SDict_def dict_clean_def attr_clean_def schema_error_def split: schema.splits if_splits)
  then show ?thesis by (simp add: or_clean_def deepcopy_arg_def schema_error_def)
qed

theorem or_default_lost_witness:
  "clean demo_schema_env (SOr ((demo_common ''options'')\<lparr>has_default := True, default := VDict []\<rparr>) [demo_share]) None
   = Inl (SchemaError ''options'' ''Result does not match specified schema'' EINVAL)"
  using or_default_lost [of "[demo_share]" demo_schema_env "(demo_common ''options'')\<lparr>has_default := True, default := VDict []\<rparr>"]
  by (simp add: demo_schema_defs is_SDict_def)

end
