(* ===== verification/LeafProperties.thy ===== *)
theory LeafProperties
  imports SchemaProofs
begin

text \<open>
  What the schemas of leaves and the validators accept: paths, ports, permissions, user names,
  passwords, and integers given as text.
\<close>

section \<open>Paths\<close>

lemma norm_fold_no_parent:
  assumes "slashes \<noteq> 0" and "''..'' \<notin> set comps"
  shows "''..'' \<notin> set (fold (norm_step slashes) cs comps)"
  using assms(2)
proof (induction cs arbitrary: comps)
  case (Cons c cs)
  have "''..'' \<notin> set (norm_step slashes c comps)"
    using Cons.prems assms(1) by (cases comps) (auto simp: norm_step_def)
  with Cons.IH show ?case by simp
qed simp

lemma norm_fold_no_slash:
  "\<forall>c \<in> set cs \<union> set comps. x \<notin> set c \<Longrightarrow> \<forall>c \<in> set (fold (norm_step n) cs comps). x \<notin> set c"
proof (induction cs arbitrary: comps)
  case (Cons c cs)
  have "\<forall>d \<in> set cs \<union> set (norm_step n c comps). x \<notin> set d"
    using Cons.prems by (cases comps) (auto simp: norm_step_def)
  with Cons.IH show ?case by simp
qed simp

lemma str_split_slashes: "str_split c (replicate n c @ r) = replicate n [] @ str_split c r"
  by (induction n) (auto simp: str_split_append_sep [of c "[]", simplified])

lemma normpath_absolute:
  assumes "startswith s ''/''"
  shows "startswith (normpath s) ''/'' \<and> ''..'' \<notin> set (str_split (CHR ''/'') (normpath s))"
proof -
  let ?n = "initial_slashes s"
  from assms have n: "?n \<noteq> 0" and s: "s \<noteq> []" by (auto simp: initial_slashes_def)
  have p: "normpath s = replicate ?n (CHR ''/'') @ str_join ''/'' (norm_comps s)"
    using n s by (cases ?n) (auto simp: normpath_def Let_def)
  have "''..'' \<notin> set (norm_comps s)"
    using norm_fold_no_parent [OF n, of "[]"] by (simp add: norm_comps_def)
  moreover have "\<forall>d \<in> set (norm_comps s). CHR ''/'' \<notin> set d"
    using norm_fold_no_slash [of "str_split (CHR ''/'') s" "[]" "CHR ''/''"] str_split_parts
    by (auto simp: norm_comps_def)
  ultimately have "''..'' \<notin> set (str_split (CHR ''/'') (str_join ''/'' (norm_comps s)))"
    by (cases "norm_comps s = []") (auto simp: str_split_join)
  then show ?thesis using n by (cases ?n) (auto simp: p str_split_slashes)
qed

text \<open>
  Stripping slashes from the right keeps the first character of a path that has anything but
  slashes in it.
\<close>

lemma rstrip_if_keeps:
  "rstrip_if p (c # r) \<noteq> [] \<Longrightarrow> \<exists>r'. rstrip_if p (c # r) = c # r'"
  by (auto simp: rstrip_if_def dropWhile_append intro: exI [of _ "rev (dropWhile p (rev r))"] split: if_splits)

lemma rstrip_if_head: "\<not> p c \<Longrightarrow> \<exists>r'. rstrip_if p (c # r) = c # r'"
  by (rule rstrip_if_keeps) (auto simp: rstrip_if_def dropWhile_append)

lemma lstrip_if_id: "\<not> p c \<Longrightarrow> lstrip_if p (c # r) = c # r"
  by (simp add: lstrip_if_def)

lemma str_strip_keeps: "\<not> is_space c \<Longrightarrow> \<exists>r'. str_strip (c # r) = c # r'"
  using rstrip_if_head by (simp add: str_strip_def lstrip_if_id)

text \<open>A \<open>Path\<close> that starts with a slash is cleaned to a path that starts with a slash and has no
  component \<open>..\<close>, unless it consists of slashes only: the code strips those from the right and
  \<open>os.path.normpath\<close> turns the empty rest into \<open>.\<close>, so the root directory becomes the current one.\<close>

theorem path_clean_no_parent:
  assumes "path_clean c enum True (Some (VStr s)) = Inr (VStr p)" and "startswith (str_strip s) ''/''"
  shows "if list_all is_slash (str_strip s) then p = ''.''
    else startswith p ''/'' \<and> ''..'' \<notin> set (str_split (CHR ''/'') p)"
proof -
  from assms(1) obtain s0 where "str_clean c enum (Some (VStr s)) = Inr (VStr s0)" and "s0 = s"
    by (auto simp: path_clean_def str_clean_def enum_clean_def attr_clean_def schema_error_def bindE_eq_Inr_iff Let_def
        split: if_splits option.splits)
  with assms(1) have p: "p = normpath (str_strip (rstrip_if is_slash (str_strip s)))"
    by (auto simp: path_clean_def Let_def)
  from assms(2) obtain r where r: "str_strip s = CHR ''/'' # r" by (cases "str_strip s") auto
  show ?thesis
  proof (cases "list_all is_slash (str_strip s)")
    case True
    then have "rstrip_if is_slash (str_strip s) = []" by (auto simp: rstrip_if_def list_all_iff)
    then have "p = normpath (str_strip [])" using p by (simp only:)
    with True show ?thesis by (simp add: str_strip_def [of "[]"] rstrip_if_def lstrip_if_def normpath_def)
  next
    case False
    then have "rstrip_if is_slash (str_strip s) \<noteq> []" by (auto simp: rstrip_if_def list_all_iff dropWhile_eq_Nil_conv)
    then obtain r1 where "rstrip_if is_slash (str_strip s) = CHR ''/'' # r1" using rstrip_if_keeps r by metis
    moreover have "\<not> is_space (CHR ''/'')" by (simp add: is_space_def)
    ultimately obtain r2 where "str_strip (rstrip_if is_slash (str_strip s)) = CHR ''/'' # r2"
      using str_strip_keeps by metis
    then have "startswith (str_strip (rstrip_if is_slash (str_strip s))) ''/''" by simp
    from normpath_absolute [OF this] False show ?thesis unfolding p by simp
  qed
qed

definition demo_attr :: common where
  "demo_attr = \<lparr>a_name = ''path'', has_default = False, default = VNone, required = True, nullable = False,
     allow_empty = True, is_private = False, editable = True, validators = []\<rparr>"

theorem path_clean_no_parent_witness:
  "(if list_all is_slash (str_strip ''/mnt/../etc/'') then ''/etc'' = ''.''
    else startswith ''/etc'' ''/'' \<and> ''..'' \<notin> set (str_split (CHR ''/'') ''/etc''))
   \<and> (if list_all is_slash (str_strip ''//'') then ''.'' = (''.'' :: string)
    else startswith ''.'' ''/'' \<and> ''..'' \<notin> set (str_split (CHR ''/'') ''.''))"
proof
  have "path_clean demo_attr None True (Some (VStr ''/mnt/../etc/'')) = Inr (VStr ''/etc'')"
    by (simp add: path_clean_def str_clean_def enum_clean_def attr_clean_def demo_attr_def str_strip_def lstrip_if_def
        rstrip_if_def is_space_def is_slash_def normpath_def initial_slashes_def norm_comps_def norm_step_def Let_def)
  then show "if list_all is_slash (str_strip ''/mnt/../etc/'') then ''/etc'' = ''.''
    else startswith ''/etc'' ''/'' \<and> ''..'' \<notin> set (str_split (CHR ''/'') ''/etc'')"
    by (rule path_clean_no_parent) (simp add: str_strip_def lstrip_if_def rstrip_if_def is_space_def Let_def)
  have "path_clean demo_attr None True (Some (VStr ''//'')) = Inr (VStr ''.'')"
    by (simp add: path_clean_def str_clean_def enum_clean_def attr_clean_def demo_attr_def str_strip_def lstrip_if_def
        rstrip_if_def is_space_def is_slash_def normpath_def Let_def)
  then show "if list_all is_slash (str_strip ''//'') then ''.'' = (''.'' :: string)
    else startswith ''.'' ''/'' \<and> ''..'' \<notin> set (str_split (CHR ''/'') ''.'')"
    by (rule path_clean_no_parent) (simp add: str_strip_def lstrip_if_def rstrip_if_def is_space_def Let_def)
qed

section \<open>Numbers\<close>

lemma digits_not_space: "is_digit c \<Longrightarrow> \<not> is_space c"
  by (auto simp: is_digit_def is_space_def Let_def)

lemma str_strip_no_space: "\<forall>c \<in> set s. \<not> is_space c \<Longrightarrow> str_strip s = s"
proof -
  assume s: "\<forall>c \<in> set s. \<not> is_space c"
  then have "dropWhile is_space s = s" "dropWhile is_space (rev s) = rev s"
    by (auto simp: dropWhile_eq_self_iff hd_rev)
  then show ?thesis by (simp add: str_strip_def lstrip_if_def rstrip_if_def)
qed

lemma digit_groups_str_of_nat: "digit_groups is_digit (str_of_nat n) = Some (str_of_nat n)"
proof -
  have "CHR ''_'' \<notin> set (str_of_nat n)" using str_of_nat_digits by (fastforce simp: is_digit_def)
  then have "str_split (CHR ''_'') (str_of_nat n) = [str_of_nat n]" by (rule str_split_no_sep)
  then show ?thesis using str_of_nat_digits [of _ n] by (simp add: digit_groups_def list_all_iff)
qed

lemma int_of_str_of_int: "int_of_str (str_of_int i) = Some i"
proof -
  have "\<forall>c \<in> set (str_of_int i). \<not> is_space c"
    using str_of_nat_digits digits_not_space by (auto simp: str_of_int_def is_space_def)
  then have strip: "str_strip (str_of_int i) = str_of_int i" by (rule str_strip_no_space)
  have "split_sign (str_of_nat n) = (False, str_of_nat n)" for n
  proof -
    obtain c r where s: "str_of_nat n = c # r" by (cases "str_of_nat n") auto
    with str_of_nat_digits [of c n] have "is_digit c" by simp
    then have "c \<noteq> CHR ''-''" "c \<noteq> CHR ''+''" by (auto simp: is_digit_def)
    with s show ?thesis by (simp add: split_sign_def)
  qed
  then have "split_sign (str_of_int i) = (i < 0, str_of_nat (nat \<bar>i\<bar>))"
    by (cases "i < 0") (simp_all add: str_of_int_def, simp add: split_sign_def)
  then show ?thesis by (simp add: int_of_str_def strip digit_groups_str_of_nat nat_of_str_of_nat)
qed

text \<open>A number survives the text form: \<open>Str.clean\<close> turns an integer into its decimal text, and
  \<open>Int.clean\<close> turns that text back into the same integer, with no bound on its size.\<close>

theorem int_text_roundtrip:
  assumes "str_clean c None (Some (VInt i)) = Inr v" and "editable c'"
  shows "int_clean c' None (Some v) = Inr (VInt i)"
  using assms
  by (auto simp: str_clean_def int_clean_def enum_clean_def attr_clean_def schema_error_def int_of_str_of_int
      bindE_eq_Inr_iff split: if_splits)

theorem int_text_roundtrip_witness:
  "int_clean demo_attr None (Some (VStr ''-7'')) = Inr (VInt (- 7))"
  by (rule int_text_roundtrip [of demo_attr])
    (simp_all add: str_clean_def enum_clean_def attr_clean_def demo_attr_def str_of_int_def str_of_nat.simps
      char_of_def bit_simps Let_def)

section \<open>Bounds\<close>

text \<open>A \<open>UnixPerm\<close> is accepted only when it is the octal text of a number of nine bits, and a
  \<open>Port\<close> exactly when it lies between 1 and 65535 and is not excluded.\<close>

theorem perm_and_port_bounds:
  assumes "validate env (SUnixPerm c e n) (VStr s) = Inr ()"
  shows "(\<exists>mode. int_of_octal s = Some mode \<and> 0 \<le> mode \<and> mode \<le> 511)
    \<and> (run_validator penv (Port excl) (VInt i) = Inr () \<longleftrightarrow>
        1 \<le> i \<and> i \<le> 65535 \<and> \<not> list_ex (\<lambda>x. py_eq x (VInt i)) excl)"
proof
  from assms obtain mode where "int_of_octal s = Some mode" and "mode mod 512 = mode"
    by (auto simp: unixperm_validate_def split: option.splits if_splits)
  then show "\<exists>mode. int_of_octal s = Some mode \<and> 0 \<le> mode \<and> mode \<le> 511"
    using pos_mod_bound [of 512 mode] pos_mod_sign [of 512 mode] by (intro exI [of _ mode]) auto
  show "run_validator penv (Port excl) (VInt i) = Inr () \<longleftrightarrow>
        1 \<le> i \<and> i \<le> 65535 \<and> \<not> list_ex (\<lambda>x. py_eq x (VInt i)) excl"
    by (auto simp: Port_def range_call_def Let_def num_of_def)
qed

theorem perm_and_port_bounds_witness:
  "(\<exists>mode. int_of_octal ''755'' = Some mode \<and> 0 \<le> mode \<and> mode \<le> 511)
    \<and> (run_validator (py_env.make (\<lambda>p s. None) (\<lambda>s. None)) (Port [VInt 20049]) (VInt 0) = Inr () \<longleftrightarrow>
        1 \<le> (0::int) \<and> (0::int) \<le> 65535 \<and> \<not> list_ex (\<lambda>x. py_eq x (VInt 0)) [VInt 20049])"
proof (rule perm_and_port_bounds)
  show "validate \<lparr>re_match = \<lambda>p s. None, fromisoformat = \<lambda>s. None, se_str = \<lambda>v. []\<rparr> (SUnixPerm demo_attr None 10) (VStr ''755'') = Inr ()"
    by (simp add: unixperm_validate_def int_of_octal_def str_strip_def lstrip_if_def rstrip_if_def is_space_def
        split_sign_def strip_octal_prefix_def digit_groups_def is_octal_def digit_val_def str_validate_def py_str_def
        attr_validate_def demo_attr_def verrors_check_def Let_def)
qed

section \<open>Passwords\<close>

definition categories_met :: "string list \<Rightarrow> string \<Rightarrow> (string \<times> (char \<Rightarrow> bool) \<times> string) list" where
  "categories_met ts s = filter (\<lambda>(t, p, m). list_ex p s) (filter (\<lambda>(t, p, m). t \<in> set ts) password_categories)"

lemma password_fold:
  assumes "list_all (\<lambda>(t, p, m). m \<noteq> []) cats"
  shows "fst (fold (password_step ts n s) cats (k, err)) =
      k + int (length (filter (\<lambda>(t, p, m). list_ex p s) (filter (\<lambda>(t, p, m). t \<in> set ts) cats)))
    \<and> (snd (fold (password_step ts n s) cats (k, err)) = [] \<longleftrightarrow>
        err = [] \<and> (n \<noteq> None \<or> list_all (\<lambda>(t, p, m). list_ex p s) (filter (\<lambda>(t, p, m). t \<in> set ts) cats)))"
  using assms by (induction cats arbitrary: k err) (auto simp: password_step_def split: if_splits)

text \<open>With no count, \<open>PasswordComplexity\<close> accepts a password exactly when it is empty or has a
  character of every required category; with a count \<open>n\<close>, exactly when it has characters of at least
  \<open>n\<close> of the required categories.\<close>

theorem password_complexity:
  "(password_call ts None (VStr s) = Inr () \<longleftrightarrow>
      s = [] \<or> list_all (\<lambda>(t, p, m). list_ex p s) (filter (\<lambda>(t, p, m). t \<in> set ts) password_categories))
   \<and> (password_call ts (Some n) (VStr s) = Inr () \<longleftrightarrow>
      n \<le> (if s = [] then 0 else int (length (categories_met ts s))))"
proof -
  have msgs: "list_all (\<lambda>(t, p, m). m \<noteq> []) password_categories" by (simp add: password_categories_def)
  note f = password_fold [OF msgs, of ts _ s 0 "[]"]
  have "ts = [] \<Longrightarrow> filter (\<lambda>(t, p, m). t \<in> set ts) password_categories = []" by simp
  then show ?thesis
    using f [of None] f [of "Some n"]
    by (cases "fold (password_step ts None s) password_categories (0, [])";
        cases "fold (password_step ts (Some n) s) password_categories (0, [])")
      (auto simp: password_call_def categories_met_def split: if_splits)
qed

end
