(* ===== verification/Alerts.thy ===== *)
theory Alerts
  imports Systems Filters
begin

text \<open>
  The alerts of \<open>plugins/alert.py\<close> with the classes of \<open>alert/base.py\<close> and the schedules of
  \<open>alert/schedule.py\<close>: the list of current alerts that the alert sources refresh, the policies
  that compare it with what was reported before, the notifications and events that result, the
  dismissal of alerts, one-shot alerts, the blocking of sources, and the table the alerts are
  flushed to.

  Alert objects are shared between the current list and the snapshots of the policies, and some
  operations change them in place. An object is a record with its identity in \<open>al_oid\<close>;
  \<open>set_object\<close> changes every reference to it. Two objects are equal to Python when all fields but
  the identity are. What the classes of alerts, the sources, the other node and the services do is
  in the environment; instants are integers (microseconds) and the clock stands still during an
  operation. Log messages are left out.
\<close>

section \<open>Alerts and their classes\<close>

datatype alert_level = INFO | NOTICE | WARNING | ERROR | CRITICAL | ALERT | EMERGENCY

definition alert_levels :: "(string \<times> alert_level) list" where
  "alert_levels = [(''INFO'', INFO), (''NOTICE'', NOTICE), (''WARNING'', WARNING), (''ERROR'', ERROR),
     (''CRITICAL'', CRITICAL), (''ALERT'', ALERT), (''EMERGENCY'', EMERGENCY)]"

primrec level_value :: "alert_level \<Rightarrow> int" where
  "level_value INFO = 1"
| "level_value NOTICE = 2"
| "level_value WARNING = 3"
| "level_value ERROR = 4"
| "level_value CRITICAL = 5"
| "level_value ALERT = 6"
| "level_value EMERGENCY = 7"

record alert_class =
  kl_name :: string
  kl_level :: alert_level
  kl_title :: string
  kl_text :: "string option"
  kl_products :: "string list"
  kl_proactive_support :: bool
  kl_proactive_support_notify_gone :: bool
  kl_one_shot :: bool
  kl_deleted_automatically :: bool
  kl_expires_after :: "int option"
  kl_dismissable :: bool

record alert =
  al_oid :: nat
  al_uuid :: "string option"
  al_source :: "string option"
  al_klass :: alert_class
  al_args :: pyval
  al_key :: string
  al_datetime :: "int option"
  al_last_occurrence :: "int option"
  al_node :: "string option"
  al_dismissed :: bool
  al_mail :: "pyval option"
  al_text :: string

text \<open>\<open>Alert.__init__\<close> with the arguments the callers in this file give; \<open>dumps\<close> is \<open>json.dumps\<close>.\<close>

definition class_text :: "alert_class \<Rightarrow> string" where
  "class_text k = (case kl_text k of Some t \<Rightarrow> if t = [] then kl_title k else t | None \<Rightarrow> kl_title k)"

definition new_alert :: "(pyval \<Rightarrow> string) \<Rightarrow> alert_class \<Rightarrow> pyval \<Rightarrow> alert" where
  "new_alert dumps k args =
     \<lparr>al_oid = 0, al_uuid = None, al_source = None, al_klass = k, al_args = args, al_key = dumps args,
      al_datetime = None, al_last_occurrence = None, al_node = None, al_dismissed = False, al_mail = None,
      al_text = class_text k\<rparr>"

definition alert_eq :: "alert \<Rightarrow> alert \<Rightarrow> bool" where
  "alert_eq a b \<longleftrightarrow> a\<lparr>al_oid := 0\<rparr> = b\<lparr>al_oid := 0\<rparr>"

text \<open>\<open>list.remove\<close>: the first element that is equal.\<close>

fun remove_eq :: "alert \<Rightarrow> alert list \<Rightarrow> alert list" where
  "remove_eq a [] = []"
| "remove_eq a (b # bs) = (if alert_eq b a then bs else b # remove_eq a bs)"

definition alert_in :: "alert \<Rightarrow> alert list \<Rightarrow> bool" where
  "alert_in a xs = list_ex (alert_eq a) xs"

text \<open>What makes two alerts the same alert.\<close>

definition identity :: "alert \<Rightarrow> string option \<times> string option \<times> alert_class \<times> string" where
  "identity a = (al_node a, al_source a, al_klass a, al_key a)"

text \<open>\<open>SimpleOneShotAlertClass\<close>.\<close>

definition simple_create :: "(pyval \<Rightarrow> string) \<Rightarrow> alert_class \<Rightarrow> pyval \<Rightarrow> alert" where
  "simple_create dumps k args = new_alert dumps k args"

definition item_of :: "pyval \<Rightarrow> string \<Rightarrow> exn + pyval" where
  "item_of v k = (case v of VDict d \<Rightarrow> dict_index d k | _ \<Rightarrow> Inl TypeError)"

definition simple_delete :: "string list option \<Rightarrow> alert list \<Rightarrow> pyval \<Rightarrow> exn + alert list" where
  "simple_delete ks alerts query =
     bindE (mapE (\<lambda>a. bindE (case ks of
         None \<Rightarrow> Inr (\<not> py_eq (al_args a) query)
       | Some ks \<Rightarrow> anyE (\<lambda>k. bindE (item_of (al_args a) k) (\<lambda>x. bindE (item_of query k) (\<lambda>y. Inr (\<not> py_eq x y)))) ks)
       (\<lambda>b. Inr (a, b))) alerts) (\<lambda>ps. Inr (map fst (filter snd ps)))"

section \<open>Schedules\<close>

definition DATETIME_MIN :: int where "DATETIME_MIN = - 62135596800000000"

definition HOUR :: int where "HOUR = 3600000000"

datatype schedule = IntervalSchedule int | CrontabSchedule int

primrec should_run :: "(int \<Rightarrow> int) \<Rightarrow> schedule \<Rightarrow> int \<Rightarrow> int \<Rightarrow> bool" where
  "should_run utcoffset (IntervalSchedule interval) now last_run \<longleftrightarrow> last_run + interval \<le> now"
| "should_run utcoffset (CrontabSchedule hour) now last_run \<longleftrightarrow>
     last_run = DATETIME_MIN \<or>
     (let local_now = now + utcoffset now; local_last_run = last_run + utcoffset last_run
      in local_now div HOUR mod 24 = hour \<and> local_last_run div (24 * HOUR) \<noteq> local_now div (24 * HOUR))"

section \<open>Policies\<close>

type_synonym snapshot = "(string option \<times> alert) list"

record alert_policy =
  last_key_value :: "int option"
  last_key_value_alerts :: snapshot

definition new_policy :: alert_policy where
  "new_policy = \<lparr>last_key_value = None, last_key_value_alerts = []\<rparr>"

text \<open>The keys of the policies of \<open>initialize\<close>: the instant, the hour, the day and nothing.\<close>

definition policy_key :: "string \<Rightarrow> int \<Rightarrow> int option" where
  "policy_key name now =
     (if name = ''IMMEDIATELY'' then Some now
      else if name = ''HOURLY'' then Some (now div HOUR)
      else if name = ''DAILY'' then Some (now div (24 * HOUR))
      else None)"

definition POLICIES :: "string list" where
  "POLICIES = [''IMMEDIATELY'', ''HOURLY'', ''DAILY'', ''NEVER'']"

definition by_uuid :: "alert list \<Rightarrow> snapshot" where
  "by_uuid alerts = fold (\<lambda>a. AList.update (al_uuid a) a) alerts []"

definition receive_alerts ::
  "string \<Rightarrow> int \<Rightarrow> alert list \<Rightarrow> alert_policy \<Rightarrow> alert list \<times> alert list \<times> alert_policy" where
  "receive_alerts name now alerts0 p =
     (let alerts = by_uuid alerts0; key = policy_key name now in
      if key \<noteq> last_key_value p
      then (filter (\<lambda>a. al_uuid a \<notin> fst ` set alerts) (map snd (last_key_value_alerts p)),
            filter (\<lambda>a. al_uuid a \<notin> fst ` set (last_key_value_alerts p)) (map snd alerts),
            \<lparr>last_key_value = key, last_key_value_alerts = alerts\<rparr>)
      else ([], [], p))"

definition policy_delete_alert :: "alert \<Rightarrow> alert_policy \<Rightarrow> alert_policy" where
  "policy_delete_alert a p = p\<lparr>last_key_value_alerts := AList.delete (al_uuid a) (last_key_value_alerts p)\<rparr>"

section \<open>Environment and state\<close>

text \<open>What \<open>check\<close> of a source does, with \<open>None\<close> and a single alert already made a list.\<close>

datatype check_result = Checked "alert list" | Unavailable | CheckFailed string

text \<open>A row carries the name of its class; the call of the other node may fail in three ways.\<close>

type_synonym alert_row = "string \<times> alert"

datatype remote_result =
    RemoteRows "alert_row list"
  | RemoteCallError string nat
  | RemoteReserveFD
  | RemoteFailed string

record alert_source =
  so_name :: string
  so_products :: "string list"
  so_failover_related :: bool
  so_run_on_backup_node :: bool
  so_schedule :: schedule
  so_check :: check_result
  so_run_time :: int
  so_remote :: remote_result

text \<open>The settings of a class of alerts; absent keys are \<open>None\<close>.\<close>

record class_config =
  cc_level :: "alert_level option"
  cc_policy :: "string option"
  cc_proactive_support :: "bool option"

record alert_service =
  sv_name :: string
  sv_level :: alert_level
  sv_available :: bool

record failover =
  fo_licensed :: bool
  fo_node :: string
  fo_status :: string
  fo_in_progress :: bool
  fo_remote_ok :: "(bool \<times> bool \<times> bool) option"

record alert_env =
  e_now :: int
  e_monotonic :: int
  e_ready :: bool
  e_enterprise :: bool
  e_failover :: failover
  e_product_type :: string
  e_classes :: "(string \<times> class_config) list"
  e_class_by_name :: "(string \<times> alert_class) list"
  e_sources :: "alert_source list"
  e_services :: "alert_service list"
  e_support_available :: bool
  e_ticket_failed :: "pyval option"
  e_unavailable_errno :: nat
  e_uuid4 :: "nat \<Rightarrow> string"
  e_utcoffset :: "int \<Rightarrow> int"
  e_dumps :: "pyval \<Rightarrow> string"
  e_create :: "string \<Rightarrow> pyval \<Rightarrow> exn + alert option"
  e_delete :: "string \<Rightarrow> alert list \<Rightarrow> pyval \<Rightarrow> exn + alert list"
  e_dismiss :: "string \<Rightarrow> alert list \<Rightarrow> alert \<Rightarrow> exn + alert list"

datatype alert_event = Added string alert | Changed string alert | Removed string

datatype alert_job = SendAlerts | OneshotCreate string pyval

record run_stats =
  rs_last :: "int list"
  rs_max :: int
  rs_total_count :: nat
  rs_total_time :: int

text \<open>A notification: the service, the policy, the current, the gone and the new alerts.\<close>

type_synonym notification = "string \<times> string \<times> alert list \<times> alert list \<times> alert list"

record alert_state =
  st_node :: string
  st_alerts :: "alert list"
  st_policies :: "(string \<times> alert_policy) list"
  st_last_run :: "string \<Rightarrow> int"
  st_blocked_sources :: "string \<Rightarrow> string set"
  st_sources_locks :: "(string \<times> (string \<times> int)) list"
  st_blocked_failover_until :: int
  st_sources_errors :: "string set"
  st_run_times :: "string \<Rightarrow> run_stats"
  st_send_on_ready :: bool
  st_events :: "alert_event list"
  st_sent :: "notification list"
  st_mails :: "pyval list"
  st_tickets :: "(alert list \<times> alert list) list"
  st_jobs :: "alert_job list"
  st_db :: "alert_row list"
  st_uuids :: nat
  st_oids :: nat

section \<open>Levels, policies and visibility of an alert\<close>

definition class_of :: "alert_env \<Rightarrow> alert \<Rightarrow> class_config" where
  "class_of env a = (case map_of (e_classes env) (kl_name (al_klass a)) of
     Some c \<Rightarrow> c | None \<Rightarrow> \<lparr>cc_level = None, cc_policy = None, cc_proactive_support = None\<rparr>)"

definition get_alert_level :: "alert_env \<Rightarrow> alert \<Rightarrow> alert_level" where
  "get_alert_level env a = (case cc_level (class_of env a) of Some l \<Rightarrow> l | None \<Rightarrow> kl_level (al_klass a))"

definition DEFAULT_POLICY :: string where "DEFAULT_POLICY = ''IMMEDIATELY''"

definition get_alert_policy :: "alert_env \<Rightarrow> alert \<Rightarrow> string" where
  "get_alert_policy env a = (case cc_policy (class_of env a) of Some p \<Rightarrow> p | None \<Rightarrow> DEFAULT_POLICY)"

definition should_show_alert :: "alert_env \<Rightarrow> alert \<Rightarrow> bool" where
  "should_show_alert env a \<longleftrightarrow>
     e_product_type env \<in> set (kl_products (al_klass a)) \<and> cc_policy (class_of env a) \<noteq> Some ''NEVER''"

text \<open>\<open>list\<close>: by descending level, then title, then time; equal ones in the order of the list.\<close>

definition list_before :: "alert_env \<Rightarrow> alert \<Rightarrow> alert \<Rightarrow> bool" where
  "list_before env a b \<longleftrightarrow>
     (let la = level_value (get_alert_level env a); lb = level_value (get_alert_level env b);
          ta = kl_title (al_klass a); tb = kl_title (al_klass b)
      in lb < la \<or> la = lb \<and> (ta < tb \<or> ta = tb \<and> the (al_datetime a) < the (al_datetime b)))"

definition alert_list :: "alert_env \<Rightarrow> alert_state \<Rightarrow> alert list" where
  "alert_list env st = filter (should_show_alert env) (isort_by (list_before env) (st_alerts st))"

section \<open>Objects\<close>

definition set_in :: "alert \<Rightarrow> alert \<Rightarrow> alert" where
  "set_in a b = (if al_oid b = al_oid a then a else b)"

definition map_policies :: "(alert_policy \<Rightarrow> alert_policy) \<Rightarrow> alert_state \<Rightarrow> alert_state" where
  "map_policies f st = st\<lparr>st_policies := map (\<lambda>(n, p). (n, f p)) (st_policies st)\<rparr>"

definition set_object :: "alert \<Rightarrow> alert_state \<Rightarrow> alert_state" where
  "set_object a st =
     map_policies (\<lambda>p. p\<lparr>last_key_value_alerts := map (\<lambda>(u, b). (u, set_in a b)) (last_key_value_alerts p)\<rparr>)
       (st\<lparr>st_alerts := map (set_in a) (st_alerts st)\<rparr>)"

text \<open>New objects get identities that were not used before.\<close>

definition adopt :: "alert list \<Rightarrow> alert_state \<Rightarrow> alert list \<times> alert_state" where
  "adopt xs st = (map (\<lambda>(i, a). a\<lparr>al_oid := st_oids st + i\<rparr>) (List.enumerate 0 xs), st\<lparr>st_oids := st_oids st + length xs\<rparr>)"

definition emit :: "alert_event \<Rightarrow> alert_state \<Rightarrow> alert_state" where
  "emit e st = st\<lparr>st_events := st_events st @ [e]\<rparr>"

definition add_job :: "alert_job \<Rightarrow> alert_state \<Rightarrow> alert_state" where
  "add_job j st = st\<lparr>st_jobs := st_jobs st @ [j]\<rparr>"

definition id_of :: "alert \<Rightarrow> string" where
  "id_of a = (case al_uuid a of Some u \<Rightarrow> u | None \<Rightarrow> ''None'')"

section \<open>Running the sources\<close>

text \<open>\<open>__should_run_or_send_alerts\<close>.\<close>

definition should_run_or_send_alerts :: "alert_env \<Rightarrow> bool" where
  "should_run_or_send_alerts env \<longleftrightarrow>
     e_ready env \<and>
     \<not> (fo_licensed (e_failover env) \<and> (fo_status (e_failover env) = ''BACKUP'' \<or> fo_in_progress (e_failover env)))"

record failover_info =
  this_node :: string
  other_node :: string
  run_on_backup_node :: bool
  run_failover_related :: bool

definition get_failover_info :: "alert_env \<Rightarrow> alert_state \<Rightarrow> failover_info" where
  "get_failover_info env st =
     (let fo = e_failover env;
          related = (fo_licensed fo \<and> st_blocked_failover_until st < e_monotonic env);
          swap = (fo_licensed fo \<and> fo_node fo \<noteq> ''A'')
      in \<lparr>this_node = (if swap then ''B'' else ''A''), other_node = (if swap then ''A'' else ''B''),
          run_on_backup_node = (related \<and> fo_remote_ok fo = Some (True, True, True)),
          run_failover_related = related\<rparr>)"

text \<open>\<open>__handle_locked_alert_source\<close>: the alerts of a blocked source are kept, per node.\<close>

definition handle_locked_alert_source ::
  "string \<Rightarrow> string \<Rightarrow> string \<Rightarrow> alert_state \<Rightarrow> alert list \<times> alert list \<times> bool" where
  "handle_locked_alert_source name this other st =
     (let locked = (st_blocked_sources st name \<noteq> {}); mine = filter (\<lambda>a. al_source a = Some name) (st_alerts st)
      in if locked
         then (filter (\<lambda>a. al_node a = Some this) mine,
               filter (\<lambda>a. al_node a \<noteq> Some this \<and> al_node a = Some other) mine, locked)
         else ([], [], locked))"

definition record_run :: "int \<Rightarrow> run_stats \<Rightarrow> run_stats" where
  "record_run t rs = \<lparr>rs_last = drop (length (rs_last rs) - 9) (rs_last rs) @ [t], rs_max = max (rs_max rs) t,
     rs_total_count = rs_total_count rs + 1, rs_total_time = rs_total_time rs + t\<rparr>"

text \<open>The first alert of each key stays.\<close>

fun unique_keys :: "string set \<Rightarrow> alert list \<Rightarrow> alert list" where
  "unique_keys ks [] = []"
| "unique_keys ks (a # as) =
     (if al_key a \<in> ks then unique_keys ks as else a # unique_keys (insert (al_key a) ks) as)"

definition FAILED_CLASS :: alert_class where
  "FAILED_CLASS = \<lparr>kl_name = ''AlertSourceRunFailed'', kl_level = CRITICAL, kl_title = ''Alert Check Failed'',
     kl_text = Some ''Failed to check for alert %(source_name)s: %(traceback)s'',
     kl_products = [''COMMUNITY_EDITION'', ''ENTERPRISE''], kl_proactive_support = False,
     kl_proactive_support_notify_gone = False, kl_one_shot = False, kl_deleted_automatically = False,
     kl_expires_after = None, kl_dismissable = False\<rparr>"

definition FAILED_ON_BACKUP_CLASS :: alert_class where
  "FAILED_ON_BACKUP_CLASS = FAILED_CLASS\<lparr>kl_name := ''AlertSourceRunFailedOnBackupNode'',
     kl_title := ''Alert Check Failed (Standby Controller)'',
     kl_text := Some ''Failed to check for alert %(source_name)s on standby controller: %(traceback)s''\<rparr>"

definition failure_args :: "string \<Rightarrow> string \<Rightarrow> pyval" where
  "failure_args name msg = VDict [(''source_name'', VStr name), (''traceback'', VStr msg)]"

text \<open>\<open>__run_source\<close>; \<open>None\<close> stands for \<open>UnavailableException\<close>.\<close>

definition run_source :: "alert_env \<Rightarrow> alert_source \<Rightarrow> alert_state \<Rightarrow> alert list option \<times> alert_state" where
  "run_source env src st =
     (let name = so_name src;
          st1 = st\<lparr>st_run_times := (st_run_times st)(name := record_run (so_run_time src) (st_run_times st name))\<rparr>
      in case so_check src of
           Unavailable \<Rightarrow> (None, st1)
         | CheckFailed msg \<Rightarrow>
             (Some (map (al_source_update (\<lambda>_. Some name))
                (unique_keys {} [new_alert (e_dumps env) FAILED_CLASS (failure_args name msg)])),
              st1\<lparr>st_sources_errors := insert name (st_sources_errors st1)\<rparr>)
         | Checked xs \<Rightarrow>
             (Some (map (al_source_update (\<lambda>_. Some name)) (unique_keys {} xs)),
              st1\<lparr>st_sources_errors := st_sources_errors st1 - {name}\<rparr>))"

text \<open>\<open>__run_other_node_alert_source\<close>: the rows of the other node with the class they name.\<close>

definition NETWORK_ERRORS :: "nat list" where "NETWORK_ERRORS = [110, 103, 111, 104, 112, 113]"

definition remote_alert :: "alert_env \<Rightarrow> alert_row \<Rightarrow> exn + alert" where
  "remote_alert env = (\<lambda>(kname, a).
     case map_of (e_class_by_name env) kname of
       None \<Rightarrow> Inl KeyError
     | Some k \<Rightarrow> Inr (a\<lparr>al_uuid := None, al_klass := k, al_node := None,
         al_last_occurrence := (if al_last_occurrence a = None then al_datetime a else al_last_occurrence a),
         al_text := class_text k\<rparr>))"

definition backup_failed :: "alert_env \<Rightarrow> string \<Rightarrow> string \<Rightarrow> alert list" where
  "backup_failed env name msg =
     [(new_alert (e_dumps env) FAILED_ON_BACKUP_CLASS (failure_args name msg))\<lparr>al_source := Some name\<rparr>]"

text \<open>The text of the \<open>KeyError\<close>: the first class name that is not known, quoted.\<close>

definition missing_class :: "alert_env \<Rightarrow> alert_row list \<Rightarrow> string" where
  "missing_class env rows =
     (case find (\<lambda>(kname, a). map_of (e_class_by_name env) kname = None) rows of
        Some (kname, a) \<Rightarrow> CHR 0x27 # kname @ [CHR 0x27]
      | None \<Rightarrow> [])"

definition run_other_node_alert_source :: "alert_env \<Rightarrow> alert_source \<Rightarrow> alert list" where
  "run_other_node_alert_source env src =
     (case so_remote src of
        RemoteRows rows \<Rightarrow>
          (case mapE (remote_alert env) rows of
             Inr xs \<Rightarrow> xs
           | Inl e \<Rightarrow> backup_failed env (so_name src) (missing_class env rows))
      | RemoteCallError msg errno \<Rightarrow>
          if errno \<in> set NETWORK_ERRORS \<or> errno = e_unavailable_errno env then [] else backup_failed env (so_name src) msg
      | RemoteReserveFD \<Rightarrow> []
      | RemoteFailed msg \<Rightarrow> backup_failed env (so_name src) msg)"

text \<open>
  \<open>__handle_alert\<close>: an alert that is already there keeps its identifier, the time it was first
  seen and its dismissal; a new one gets a new identifier.
\<close>

definition handle_alert :: "alert_env \<Rightarrow> alert \<Rightarrow> alert_state \<Rightarrow> alert \<times> alert_state" where
  "handle_alert env a st =
     (case find (\<lambda>b. identity b = identity a) (st_alerts st) of
        None \<Rightarrow>
          (a\<lparr>al_uuid := Some (e_uuid4 env (st_uuids st)),
             al_datetime := Some (case al_datetime a of Some t \<Rightarrow> t | None \<Rightarrow> e_now env),
             al_last_occurrence := Some (e_now env), al_dismissed := False\<rparr>,
           st\<lparr>st_uuids := Suc (st_uuids st)\<rparr>)
      | Some b \<Rightarrow>
          (a\<lparr>al_uuid := al_uuid b, al_datetime := al_datetime b,
             al_last_occurrence := Some (e_now env), al_dismissed := al_dismissed b\<rparr>, st))"

definition handle_on_node :: "alert_env \<Rightarrow> string \<Rightarrow> alert \<Rightarrow> alert_state \<Rightarrow> alert \<times> alert_state" where
  "handle_on_node env node a st =
     (case handle_alert env (a\<lparr>al_node := Some node\<rparr>) st of (b, st1) \<Rightarrow> (b, set_object b st1))"

text \<open>The loop over \<open>zip_longest\<close> of the alerts of this and of the other node.\<close>

fun handle_both ::
  "alert_env \<Rightarrow> string \<Rightarrow> string \<Rightarrow> alert list \<Rightarrow> alert list \<Rightarrow> alert_state
     \<Rightarrow> alert list \<times> alert list \<times> alert_state" where
  "handle_both env this other [] [] st = ([], [], st)"
| "handle_both env this other (t # ts) [] st =
     (case handle_on_node env this t st of (t1, st1) \<Rightarrow>
      case handle_both env this other ts [] st1 of (ts1, ps1, st2) \<Rightarrow> (t1 # ts1, ps1, st2))"
| "handle_both env this other [] (p # ps) st =
     (case handle_on_node env other p st of (p1, st1) \<Rightarrow>
      case handle_both env this other [] ps st1 of (ts1, ps1, st2) \<Rightarrow> (ts1, p1 # ps1, st2))"
| "handle_both env this other (t # ts) (p # ps) st =
     (case handle_on_node env this t st of (t1, st1) \<Rightarrow>
      case handle_on_node env other p st1 of (p1, st2) \<Rightarrow>
      case handle_both env this other ts ps st2 of (ts1, ps1, st3) \<Rightarrow> (t1 # ts1, p1 # ps1, st3))"

text \<open>The alerts of one source that is due, from the source or, when it is blocked, from the list.\<close>

definition source_alerts ::
  "alert_env \<Rightarrow> failover_info \<Rightarrow> alert_source \<Rightarrow> alert_state \<Rightarrow> alert list \<times> alert list \<times> alert_state" where
  "source_alerts env fi src st =
     (case handle_locked_alert_source (so_name src) (this_node fi) (other_node fi) st of (this, other, locked) \<Rightarrow>
        if locked then (this, other, st)
        else case run_source env src st of (r, st1) \<Rightarrow>
          case adopt (case r of Some xs \<Rightarrow> xs | None \<Rightarrow> this) st1 of (this1, st2) \<Rightarrow>
          case adopt (if run_on_backup_node fi \<and> so_run_on_backup_node src
                      then run_other_node_alert_source env src else other) st2 of (other1, st3) \<Rightarrow>
            (this1, other1, st3))"

definition run_alert_source :: "alert_env \<Rightarrow> failover_info \<Rightarrow> alert_source \<Rightarrow> alert_state \<Rightarrow> alert_state" where
  "run_alert_source env fi src st =
     (if e_product_type env \<notin> set (so_products src) then st
      else if so_failover_related src \<and> \<not> run_failover_related fi then st
      else if \<not> should_run (e_utcoffset env) (so_schedule src) (e_now env) (st_last_run st (so_name src)) then st
      else let st1 = st\<lparr>st_last_run := (st_last_run st)(so_name src := e_now env)\<rparr> in
        case source_alerts env fi src st1 of (this, other, st2) \<Rightarrow>
        case handle_both env (this_node fi) (other_node fi) this other st2 of (this1, other1, st3) \<Rightarrow>
          st3\<lparr>st_alerts := filter (\<lambda>a. al_source a \<noteq> Some (so_name src)) (st_alerts st3) @ this1 @ other1\<rparr>)"

section \<open>Blocking sources\<close>

definition unblock_source :: "string \<Rightarrow> alert_state \<Rightarrow> alert_state" where
  "unblock_source lock st =
     (case map_of (st_sources_locks st) lock of
        None \<Rightarrow> st
      | Some (name, expires) \<Rightarrow>
          st\<lparr>st_sources_locks := AList.delete lock (st_sources_locks st),
             st_blocked_sources := (st_blocked_sources st)(name := st_blocked_sources st name - {lock})\<rparr>)"

definition block_source :: "alert_env \<Rightarrow> string \<Rightarrow> int \<Rightarrow> alert_state \<Rightarrow> (exn + string) \<times> alert_state" where
  "block_source env name timeout st =
     (if name \<notin> so_name ` set (e_sources env) then (Inl (CallError ''Invalid alert source'' EFAULT), st)
      else let lock = e_uuid4 env (st_uuids st) in
        (Inr lock,
         st\<lparr>st_uuids := Suc (st_uuids st),
            st_blocked_sources := (st_blocked_sources st)(name := insert lock (st_blocked_sources st name)),
            st_sources_locks := AList.update lock (name, e_monotonic env + timeout) (st_sources_locks st)\<rparr>))"

definition block_failover_alerts :: "alert_env \<Rightarrow> alert_state \<Rightarrow> alert_state" where
  "block_failover_alerts env st = st\<lparr>st_blocked_failover_until := e_monotonic env + 900\<rparr>"

definition alert_source_clear_run :: "alert_env \<Rightarrow> string \<Rightarrow> alert_state \<Rightarrow> alert_state op_result" where
  "alert_source_clear_run env name st =
     (if name \<notin> so_name ` set (e_sources env) then (Inl (CallError ''Alert source not found.'' ENOENT), st)
      else (Inr (), st\<lparr>st_last_run := (st_last_run st)(name := DATETIME_MIN)\<rparr>))"

definition expire_locks :: "alert_env \<Rightarrow> alert_state \<Rightarrow> alert_state" where
  "expire_locks env st =
     fold (\<lambda>(lock, name, expires) st. if expires \<le> e_monotonic env then unblock_source lock st else st)
       (st_sources_locks st) st"

definition run_alerts :: "alert_env \<Rightarrow> alert_state \<Rightarrow> alert_state" where
  "run_alerts env st =
     (let fi = get_failover_info env st in fold (run_alert_source env fi) (e_sources env) (expire_locks env st))"

section \<open>Processing\<close>

definition should_expire_alert :: "alert_env \<Rightarrow> alert \<Rightarrow> bool" where
  "should_expire_alert env a \<longleftrightarrow>
     kl_one_shot (al_klass a) \<and>
     (case kl_expires_after (al_klass a) of
        None \<Rightarrow> False
      | Some d \<Rightarrow> (case al_last_occurrence a of Some t \<Rightarrow> t < e_now env - d | None \<Rightarrow> False))"

definition expire_alerts :: "alert_env \<Rightarrow> alert_state \<Rightarrow> alert_state" where
  "expire_alerts env st = st\<lparr>st_alerts := filter (\<lambda>a. \<not> should_expire_alert env a) (st_alerts st)\<rparr>"

text \<open>\<open>process_alerts\<close>; \<open>still\<close> is the answer of the second test, after the sources have run.\<close>

definition process_alerts :: "alert_env \<Rightarrow> bool \<Rightarrow> alert_state \<Rightarrow> alert_state" where
  "process_alerts env still st =
     (if \<not> should_run_or_send_alerts env then st
      else case adopt (st_alerts st) st of (valid_alerts, st0) \<Rightarrow>
        let st1 = expire_alerts env (run_alerts env st0)
        in if \<not> still then st1\<lparr>st_alerts := valid_alerts\<rparr> else add_job SendAlerts st1)"

section \<open>Notifications\<close>

text \<open>A gone and a new alert of the same class and key cancel out.\<close>

fun cancel_pairs :: "alert list \<Rightarrow> alert list \<Rightarrow> alert list \<Rightarrow> alert list \<times> alert list" where
  "cancel_pairs [] gone new = (gone, new)"
| "cancel_pairs (g # gs) gone new =
     (case find (\<lambda>n. al_klass g = al_klass n \<and> al_key g = al_key n) new of
        None \<Rightarrow> cancel_pairs gs gone new
      | Some n \<Rightarrow> cancel_pairs gs (remove_eq g gone) (remove_eq n new))"

definition for_service :: "alert_env \<Rightarrow> alert_service \<Rightarrow> alert \<Rightarrow> bool" where
  "for_service env sv a \<longleftrightarrow>
     e_product_type env \<in> set (kl_products (al_klass a)) \<and>
     level_value (sv_level sv) \<le> level_value (get_alert_level env a)"

definition notify_service ::
  "alert_env \<Rightarrow> string \<Rightarrow> alert list \<Rightarrow> alert list \<Rightarrow> alert_service \<Rightarrow> alert_state \<Rightarrow> alert_state" where
  "notify_service env policy gone new sv st =
     (let service_alerts = filter (\<lambda>a. for_service env sv a \<and> get_alert_policy env a \<noteq> ''NEVER'') (st_alerts st);
          service_gone = filter (\<lambda>a. for_service env sv a \<and> get_alert_policy env a = policy) gone;
          service_new = filter (\<lambda>a. for_service env sv a \<and> get_alert_policy env a = policy) new
      in case cancel_pairs service_gone service_gone service_new of (service_gone1, service_new1) \<Rightarrow>
        if service_gone1 = [] \<and> service_new1 = [] then st
        else if \<not> sv_available sv then st
        else let current = filter (\<lambda>a. \<not> al_dismissed a) service_alerts;
                 gone2 = filter (\<lambda>a. \<not> al_dismissed a) service_gone1;
                 new2 = filter (\<lambda>a. \<not> al_dismissed a) service_new1
             in if current = [] \<and> gone2 = [] \<and> new2 = [] then st
                else st\<lparr>st_sent := st_sent st @ [(sv_name sv, policy, current, gone2, new2)]\<rparr>)"

definition proactive :: "alert_env \<Rightarrow> alert \<Rightarrow> bool" where
  "proactive env a \<longleftrightarrow> kl_proactive_support (al_klass a) \<and> cc_proactive_support (class_of env a) \<noteq> Some False"

text \<open>The ticket for the vendor: what is reported, and the one-shot alert when that fails.\<close>

definition proactive_support :: "alert_env \<Rightarrow> alert list \<Rightarrow> alert list \<Rightarrow> alert_state \<Rightarrow> alert_state" where
  "proactive_support env gone new st =
     (let gone1 = filter (\<lambda>a. proactive env a \<and> kl_proactive_support_notify_gone (al_klass a)) gone;
          new1 = filter (proactive env) new
      in if \<not> e_enterprise env \<or> gone1 = [] \<and> new1 = [] \<or> \<not> e_support_available env then st
         else let st1 = st\<lparr>st_tickets := st_tickets st @ [(gone1, new1)]\<rparr>
              in case e_ticket_failed env of
                   None \<Rightarrow> st1
                 | Some args \<Rightarrow> add_job (OneshotCreate ''AutomaticAlertFailed'' args) st1)"

definition announce :: "alert_env \<Rightarrow> alert list \<Rightarrow> alert list \<Rightarrow> alert_state \<Rightarrow> alert_state" where
  "announce env gone new st =
     (let st1 = fold (\<lambda>a. emit (Removed (id_of a))) (filter (should_show_alert env) gone) st;
          st2 = fold (\<lambda>a. emit (Added (id_of a) a)) (filter (should_show_alert env) new) st1;
          st3 = st2\<lparr>st_mails := st_mails st2 @ List.map_filter (\<lambda>a. case al_mail a of Some m \<Rightarrow> if truthy m then Some m else None | None \<Rightarrow> None) new\<rparr>
      in proactive_support env gone new st3)"

definition set_policy :: "string \<Rightarrow> alert_policy \<Rightarrow> alert_state \<Rightarrow> alert_state" where
  "set_policy name p st = st\<lparr>st_policies := AList.update name p (st_policies st)\<rparr>"

definition send_policy :: "alert_env \<Rightarrow> string \<Rightarrow> alert_state \<Rightarrow> alert_state" where
  "send_policy env name st =
     (case map_of (st_policies st) name of
        None \<Rightarrow> st
      | Some p \<Rightarrow>
          (case receive_alerts name (e_now env) (st_alerts st) p of (gone, new, p1) \<Rightarrow>
            let st1 = fold (notify_service env name gone new) (e_services env) (set_policy name p1 st)
            in if name = ''IMMEDIATELY'' then announce env gone new st1 else st1))"

definition send_alerts :: "alert_env \<Rightarrow> alert_state \<Rightarrow> alert_state" where
  "send_alerts env st =
     (if \<not> e_ready env then st\<lparr>st_send_on_ready := True\<rparr>
      else fold (send_policy env) (map fst (st_policies st)) st)"

text \<open>The subscription to \<open>system.ready\<close>.\<close>

definition event_system :: "alert_state \<Rightarrow> alert_state" where
  "event_system st = (if st_send_on_ready st then add_job SendAlerts st else st)"

section \<open>Dismissal\<close>

definition alert_by_uuid :: "string \<Rightarrow> alert_state \<Rightarrow> alert option" where
  "alert_by_uuid uuid st = find (\<lambda>a. al_uuid a = Some uuid) (st_alerts st)"

definition delete_on_dismiss :: "alert \<Rightarrow> alert_state \<Rightarrow> alert_state" where
  "delete_on_dismiss a st =
     (let removed = list_ex (\<lambda>b. alert_eq b a) (st_alerts st);
          st1 = map_policies (policy_delete_alert a) (st\<lparr>st_alerts := remove_eq a (st_alerts st)\<rparr>)
      in if removed then emit (Removed (id_of a)) st1 else st1)"

definition changed :: "alert_env \<Rightarrow> alert \<Rightarrow> alert_state \<Rightarrow> alert_state" where
  "changed env a st = (if should_show_alert env a then emit (Changed (id_of a) a) st else st)"

definition dismiss :: "alert_env \<Rightarrow> string \<Rightarrow> alert_state \<Rightarrow> alert_state op_result" where
  "dismiss env uuid st =
     (case alert_by_uuid uuid st of
        None \<Rightarrow> (Inr (), st)
      | Some a \<Rightarrow>
          if kl_dismissable (al_klass a)
          then let related = fst (bisect (\<lambda>b. al_node b = al_node a \<and> al_klass b = al_klass a) (st_alerts st))
               in (case e_dismiss env (kl_name (al_klass a)) related a of
                     Inl e \<Rightarrow> (Inl e, st)
                   | Inr left_alerts \<Rightarrow>
                       (Inr (), fold delete_on_dismiss (filter (\<lambda>b. \<not> alert_in b left_alerts) related) st))
          else if kl_one_shot (al_klass a) \<and> \<not> kl_deleted_automatically (al_klass a)
          then (Inr (), delete_on_dismiss a st)
          else let a1 = a\<lparr>al_dismissed := True\<rparr> in (Inr (), changed env a1 (set_object a1 st)))"

definition restore :: "alert_env \<Rightarrow> string \<Rightarrow> alert_state \<Rightarrow> alert_state" where
  "restore env uuid st =
     (case alert_by_uuid uuid st of
        None \<Rightarrow> st
      | Some a \<Rightarrow> let a1 = a\<lparr>al_dismissed := False\<rparr> in changed env a1 (set_object a1 st))"

section \<open>The table of alerts\<close>

definition alert_row :: "alert \<Rightarrow> alert_row" where
  "alert_row a = (kl_name (al_klass a), a\<lparr>al_oid := 0, al_mail := None\<rparr>)"

definition flush_alerts :: "alert_env \<Rightarrow> alert_state \<Rightarrow> alert_state" where
  "flush_alerts env st =
     (if fo_licensed (e_failover env) \<and> fo_status (e_failover env) = ''BACKUP'' then st
      else st\<lparr>st_db := map alert_row (st_alerts st)\<rparr>)"

text \<open>
  A row becomes an alert again when its source and its class still exist. Rows whose identifier
  was seen are dropped; the others are grouped by class. The code then asks
  \<open>isinstance(klass, OneShotAlertClass)\<close> of the class, which is never an instance of it, before
  it would call \<open>load\<close>: the groups are taken over as they are.
\<close>

definition load_row :: "alert_env \<Rightarrow> alert_row \<Rightarrow> alert option" where
  "load_row env = (\<lambda>(kname, a).
     if al_source a \<notin> {None, Some []} \<and> al_source a \<notin> (\<lambda>s. Some (so_name s)) ` set (e_sources env) then None
     else case map_of (e_class_by_name env) kname of
       None \<Rightarrow> None
     | Some k \<Rightarrow> Some (a\<lparr>al_klass := k, al_mail := None,
         al_last_occurrence := (if al_last_occurrence a = None then al_datetime a else al_last_occurrence a),
         al_text := (if al_text a = [] then class_text k else al_text a)\<rparr>))"

fun unique_uuids :: "string option set \<Rightarrow> alert list \<Rightarrow> alert list" where
  "unique_uuids us [] = []"
| "unique_uuids us (a # as) =
     (if al_uuid a \<in> us then unique_uuids us as else a # unique_uuids (insert (al_uuid a) us) as)"

definition by_class :: "alert list \<Rightarrow> (string \<times> alert list) list" where
  "by_class xs = fold (\<lambda>a m. AList.update (kl_name (al_klass a)) (dict_get m (kl_name (al_klass a)) [] @ [a]) m) xs []"

definition load_alerts :: "alert_env \<Rightarrow> alert_row list \<Rightarrow> alert list" where
  "load_alerts env db = concat (map snd (by_class (unique_uuids {} (List.map_filter (load_row env) db))))"

definition initial_node :: "alert_env \<Rightarrow> string" where
  "initial_node env = (if e_enterprise env \<and> fo_node (e_failover env) = ''B'' then ''B'' else ''A'')"

definition initialize :: "alert_env \<Rightarrow> bool \<Rightarrow> alert_state \<Rightarrow> alert_state" where
  "initialize env load st =
     (let st1 = st\<lparr>st_node := initial_node env, st_alerts := []\<rparr>;
          st2 = (if load
                 then (case adopt (load_alerts env (st_db st1)) st1 of (xs, st') \<Rightarrow> st'\<lparr>st_alerts := xs\<rparr>)
                 else flush_alerts env st1)
      in st2\<lparr>st_last_run := (\<lambda>_. DATETIME_MIN),
             st_policies := map (\<lambda>n. (n, snd (snd (receive_alerts n (e_now env) (st_alerts st2) new_policy)))) POLICIES\<rparr>)"

section \<open>One-shot alerts\<close>

definition oneshot_class :: "alert_env \<Rightarrow> string \<Rightarrow> exn + alert_class" where
  "oneshot_class env kname =
     (case map_of (e_class_by_name env) kname of
        None \<Rightarrow> Inl (CallError ''Invalid alert class'' EFAULT)
      | Some k \<Rightarrow> if kl_one_shot k then Inr k else Inl (CallError ''Alert class is not a one-shot alert class'' EFAULT))"

definition add_oneshot :: "alert_env \<Rightarrow> alert \<Rightarrow> alert_state \<Rightarrow> alert_state" where
  "add_oneshot env a0 st =
     (case adopt [a0\<lparr>al_source := Some [], al_node := Some (st_node st)\<rparr>] st of (xs, st1) \<Rightarrow>
      case handle_alert env (hd xs) st1 of (a, st2) \<Rightarrow>
        add_job SendAlerts (st2\<lparr>st_alerts := filter (\<lambda>b. al_uuid b \<noteq> al_uuid a) (st_alerts st2) @ [a]\<rparr>))"

definition oneshot_create :: "alert_env \<Rightarrow> string \<Rightarrow> pyval \<Rightarrow> alert_state \<Rightarrow> alert_state op_result" where
  "oneshot_create env kname args st =
     (case bindE (oneshot_class env kname) (\<lambda>k. e_create env kname args) of
        Inl e \<Rightarrow> (Inl e, st)
      | Inr None \<Rightarrow> (Inr (), st)
      | Inr (Some a) \<Rightarrow> (Inr (), add_oneshot env a st))"

text \<open>The loop of \<open>oneshot_delete\<close> over the classes; \<open>deleted\<close> says whether an alert went.\<close>

definition delete_class ::
  "alert_env \<Rightarrow> pyval \<Rightarrow> string \<Rightarrow> bool \<times> alert_state \<Rightarrow> (bool \<times> alert_state) op_result" where
  "delete_class env query kname = (\<lambda>(deleted, st).
     case oneshot_class env kname of
       Inl e \<Rightarrow> (Inl e, (deleted, st))
     | Inr k \<Rightarrow>
         let related = fst (bisect (\<lambda>a. al_node a = Some (st_node st) \<and> al_klass a = k) (st_alerts st)) in
         (case e_delete env kname related query of
            Inl e \<Rightarrow> (Inl e, (deleted, st))
          | Inr left_alerts \<Rightarrow>
              let gone = filter (\<lambda>a. \<not> alert_in a left_alerts) related
              in (Inr (), (deleted \<or> gone \<noteq> [], st\<lparr>st_alerts := fold remove_eq gone (st_alerts st)\<rparr>))))"

definition oneshot_delete :: "alert_env \<Rightarrow> string list \<Rightarrow> pyval \<Rightarrow> alert_state \<Rightarrow> alert_state op_result" where
  "oneshot_delete env knames query st =
     (case run_seq (delete_class env query) knames (False, st) of
        (Inl e, (deleted, st1)) \<Rightarrow> (Inl e, st1)
      | (Inr u, (deleted, st1)) \<Rightarrow>
          (Inr (), if deleted then add_job SendAlerts (flush_alerts env st1) else st1))"

end
