(* ===== verification/AlertsProofs.thy ===== *)
theory AlertsProofs
  imports Alerts
begin

text \<open>
  The invariant of the alert state: current alerts have different identifiers and are different
  alerts, identifiers come from the supply, and objects that share an identifier or an object
  identity are the same alert, in the current list and in the snapshots of the policies alike.
\<close>

section \<open>Tags\<close>

text \<open>What the invariant needs to know of an object, and of the whole state.\<close>

type_synonym tag = "nat \<times> string option \<times> string option \<times> string option \<times> alert_class \<times> string"

definition tag :: "alert \<Rightarrow> tag" where
  "tag a = (al_oid a, al_uuid a, identity a)"

lemma tag_eq_iff: "tag a = tag b \<longleftrightarrow> al_oid a = al_oid b \<and> al_uuid a = al_uuid b \<and> identity a = identity b"
  by (simp add: tag_def)

definition snapshots :: "alert_state \<Rightarrow> alert set" where
  "snapshots st = (\<Union>p \<in> snd ` set (st_policies st). snd ` set (last_key_value_alerts p))"

definition store :: "alert_state \<Rightarrow> alert set" where
  "store st = set (st_alerts st) \<union> snapshots st"

definition policy_tags :: "alert_policy \<Rightarrow> (string option \<times> tag) list" where
  "policy_tags p = map (\<lambda>(u, a). (u, tag a)) (last_key_value_alerts p)"

definition tags :: "alert_state \<Rightarrow> tag list \<times> (string \<times> (string option \<times> tag) list) list \<times> nat \<times> nat" where
  "tags st = (map tag (st_alerts st), map (\<lambda>(n, p). (n, policy_tags p)) (st_policies st), st_uuids st, st_oids st)"

definition policy_ok :: "alert_policy \<Rightarrow> bool" where
  "policy_ok p \<longleftrightarrow> distinct (map fst (last_key_value_alerts p)) \<and> (\<forall>(u, a) \<in> set (last_key_value_alerts p). al_uuid a = u)"

definition coherent :: "(nat \<Rightarrow> string) \<Rightarrow> nat \<Rightarrow> nat \<Rightarrow> alert set \<Rightarrow> bool" where
  "coherent uuid4 n m S \<longleftrightarrow>
     (\<forall>x \<in> S. al_oid x < m \<and> (\<exists>i < n. al_uuid x = Some (uuid4 i))) \<and>
     (\<forall>x \<in> S. \<forall>y \<in> S. (al_oid x = al_oid y \<longrightarrow> al_uuid x = al_uuid y) \<and> (al_uuid x = al_uuid y \<longrightarrow> identity x = identity y))"

definition alerts_inv :: "(nat \<Rightarrow> string) \<Rightarrow> alert_state \<Rightarrow> bool" where
  "alerts_inv uuid4 st \<longleftrightarrow>
     distinct (map al_uuid (st_alerts st)) \<and>
     distinct (map identity (st_alerts st)) \<and>
     (\<forall>p \<in> snd ` set (st_policies st). policy_ok p) \<and>
     map fst (st_policies st) = POLICIES \<and>
     coherent uuid4 (st_uuids st) (st_oids st) (store st)"

text \<open>The invariant is a property of the tags.\<close>

definition tags_inv :: "(nat \<Rightarrow> string) \<Rightarrow> tag list \<times> (string \<times> (string option \<times> tag) list) list \<times> nat \<times> nat \<Rightarrow> bool" where
  "tags_inv uuid4 = (\<lambda>(ts, ps, n, m).
     distinct (map (\<lambda>t. fst (snd t)) ts) \<and> distinct (map (\<lambda>t. snd (snd t)) ts) \<and>
     (\<forall>p \<in> snd ` set ps. distinct (map fst p) \<and> (\<forall>(u, t) \<in> set p. fst (snd t) = u)) \<and>
     map fst ps = POLICIES \<and>
     (let all = set ts \<union> (\<Union>p \<in> snd ` set ps. snd ` set p) in
       (\<forall>t \<in> all. fst t < m \<and> (\<exists>i < n. fst (snd t) = Some (uuid4 i))) \<and>
       (\<forall>t \<in> all. \<forall>s \<in> all. (fst t = fst s \<longrightarrow> fst (snd t) = fst (snd s)) \<and> (fst (snd t) = fst (snd s) \<longrightarrow> snd (snd t) = snd (snd s)))))"

lemma tags_inv_iff: "tags_inv uuid4 (tags st) \<longleftrightarrow> alerts_inv uuid4 st"
proof -
  have all: "set (map tag (st_alerts st)) \<union> (\<Union>p \<in> snd ` set (map (\<lambda>(n, p). (n, policy_tags p)) (st_policies st)). snd ` set p) = tag ` store st"
    by (force simp: store_def snapshots_def policy_tags_def image_Un image_UN)
  have pol: "(\<forall>p \<in> snd ` set (map (\<lambda>(n, p). (n, policy_tags p)) (st_policies st)). distinct (map fst p) \<and> (\<forall>(u, t) \<in> set p. fst (snd t) = u))
    \<longleftrightarrow> (\<forall>p \<in> snd ` set (st_policies st). policy_ok p)"
    by (auto simp: policy_ok_def policy_tags_def tag_def comp_def case_prod_unfold)
  show ?thesis
    unfolding tags_inv_def tags_def alerts_inv_def coherent_def Let_def prod.case all pol
    by (simp add: tag_def comp_def case_prod_unfold image_iff ball_simps) 
qed

lemma tags_inv_cong: "tags st = tags st' \<Longrightarrow> alerts_inv uuid4 st \<longleftrightarrow> alerts_inv uuid4 st'"
  by (metis tags_inv_iff)

text \<open>States with the same objects; only the supply of identifiers may differ.\<close>

definition same_store :: "alert_state \<Rightarrow> alert_state \<Rightarrow> bool" where
  "same_store st st' \<longleftrightarrow> map tag (st_alerts st') = map tag (st_alerts st) \<and>
     map (\<lambda>(n, p). (n, policy_tags p)) (st_policies st') = map (\<lambda>(n, p). (n, policy_tags p)) (st_policies st) \<and>
     st_oids st' = st_oids st"

lemma same_store_refl [simp]: "same_store st st"
  by (simp add: same_store_def)

lemma same_store_trans: "same_store st st1 \<Longrightarrow> same_store st1 st2 \<Longrightarrow> same_store st st2"
  by (simp add: same_store_def)

lemma ball_supply_mono:
  fixes n n' :: nat
  shows "\<forall>t \<in> A. P t \<and> (\<exists>i < n. Q t i) \<Longrightarrow> n \<le> n' \<Longrightarrow> \<forall>t \<in> A. P t \<and> (\<exists>i < n'. Q t i)"
  by (meson order.strict_trans2)

lemma tags_inv_mono: "tags_inv uuid4 (ts, ps, n, m) \<Longrightarrow> n \<le> n' \<Longrightarrow> tags_inv uuid4 (ts, ps, n', m)"
  unfolding tags_inv_def Let_def prod.case
  by (elim conjE, intro conjI) (assumption | erule (1) ball_supply_mono)+

lemma same_store_inv:
  assumes "same_store st st'" and "st_uuids st \<le> st_uuids st'" and "alerts_inv uuid4 st"
  shows "alerts_inv uuid4 st'"
proof -
  from assms(1) have t: "tags st' = (fst (tags st), fst (snd (tags st)), st_uuids st', st_oids st)"
    by (simp add: same_store_def tags_def)
  moreover have "tags st = (fst (tags st), fst (snd (tags st)), st_uuids st, st_oids st)" by (simp add: tags_def)
  ultimately show ?thesis
    using tags_inv_mono [OF _ assms(2)] assms(3) by (metis tags_inv_iff)
qed

lemma same_store_tags: "same_store st st' \<Longrightarrow> tag ` store st' = tag ` store st"
proof -
  have all: "tag ` store s = set (map tag (st_alerts s)) \<union> (\<Union>p \<in> snd ` set (map (\<lambda>(n, p). (n, policy_tags p)) (st_policies s)). snd ` set p)" for s
    by (force simp: store_def snapshots_def policy_tags_def image_Un image_UN)
  show "same_store st st' \<Longrightarrow> ?thesis" unfolding all by (simp only: same_store_def)
qed

lemma set_object_same:
  assumes "\<And>x. x \<in> store st \<Longrightarrow> al_oid x = al_oid b \<Longrightarrow> tag x = tag b"
  shows "same_store st (set_object b st)"
proof -
  have in_store: "tag (set_in b x) = tag x" if "x \<in> store st" for x
    using assms [OF that] by (auto simp: set_in_def)
  moreover have "a \<in> store st" if "(n, p) \<in> set (st_policies st)" "(u, a) \<in> set (last_key_value_alerts p)" for n p u a
    using that by (force simp: store_def snapshots_def)
  ultimately show ?thesis
    by (auto simp: same_store_def set_object_def map_policies_def policy_tags_def store_def)
qed

section \<open>Handling the alerts of a source\<close>

definition known :: "alert_state \<Rightarrow> ((string option \<times> string option \<times> alert_class \<times> string) \<times> string option) set" where
  "known st = (\<lambda>a. (identity a, al_uuid a)) ` set (st_alerts st)"

lemma known_same: "same_store st st' \<Longrightarrow> known st' = known st"
proof -
  have "known s = (\<lambda>t. (snd (snd t), fst (snd t))) ` set (map tag (st_alerts s))" for s
    by (auto simp: known_def tag_def image_image)
  then show "same_store st st' \<Longrightarrow> ?thesis" by (simp only: same_store_def)
qed

text \<open>
  A handled alert has the identifier of the alert it is, when that is in the list, and one from
  the supply otherwise.
\<close>

definition handled :: "(nat \<Rightarrow> string) \<Rightarrow> alert_state \<Rightarrow> alert_state \<Rightarrow> alert list \<Rightarrow> bool" where
  "handled uuid4 st st' rs \<longleftrightarrow>
     same_store st st' \<and> st_uuids st \<le> st_uuids st' \<and>
     (\<forall>r \<in> set rs. (identity r, al_uuid r) \<in> known st \<or>
        identity r \<notin> fst ` known st \<and> (\<exists>i. st_uuids st \<le> i \<and> i < st_uuids st' \<and> al_uuid r = Some (uuid4 i))) \<and>
     distinct (map al_uuid (filter (\<lambda>r. identity r \<notin> fst ` known st) rs))"

lemma handled_Nil [simp]: "handled uuid4 st st []"
  by (simp add: handled_def)

lemma handled_perm: "handled uuid4 st st' rs \<Longrightarrow> mset rs = mset rs' \<Longrightarrow> handled uuid4 st st' rs'"
proof -
  assume h: "handled uuid4 st st' rs" and m: "mset rs = mset rs'"
  then have "mset (map al_uuid (filter (\<lambda>r. identity r \<notin> fst ` known st) rs')) =
      mset (map al_uuid (filter (\<lambda>r. identity r \<notin> fst ` known st) rs))" by simp
  then have "distinct (map al_uuid (filter (\<lambda>r. identity r \<notin> fst ` known st) rs'))"
    using h mset_eq_imp_distinct_iff unfolding handled_def by blast
  with h mset_eq_setD [OF m] show ?thesis by (simp add: handled_def)
qed

lemma handled_append:
  assumes "inj uuid4" and "handled uuid4 st st1 rs1" and "handled uuid4 st1 st2 rs2"
  shows "handled uuid4 st st2 (rs1 @ rs2)"
proof -
  have k: "known st1 = known st" using assms(2) by (auto simp: handled_def dest: known_same)
  have "al_uuid r1 \<noteq> al_uuid r2"
    if "r1 \<in> set rs1" "r2 \<in> set rs2" "identity r1 \<notin> fst ` known st" "identity r2 \<notin> fst ` known st" for r1 r2
  proof -
    have notin: "(identity r, u) \<notin> known st" if "identity r \<notin> fst ` known st" for r u using that by force
    from that assms(2) notin obtain i where "i < st_uuids st1" "al_uuid r1 = Some (uuid4 i)"
      unfolding handled_def by blast
    moreover from that assms(3) k notin obtain j where "st_uuids st1 \<le> j" "al_uuid r2 = Some (uuid4 j)"
      unfolding handled_def by blast
    ultimately show ?thesis using assms(1) by (auto dest: injD)
  qed
  then have "distinct (map al_uuid (filter (\<lambda>r. identity r \<notin> fst ` known st) (rs1 @ rs2)))"
    using assms(2,3) k by (auto simp: handled_def)
  moreover have "\<forall>r \<in> set (rs1 @ rs2). (identity r, al_uuid r) \<in> known st \<or>
        identity r \<notin> fst ` known st \<and> (\<exists>i. st_uuids st \<le> i \<and> i < st_uuids st2 \<and> al_uuid r = Some (uuid4 i))"
  proof
    fix r assume "r \<in> set (rs1 @ rs2)"
    then consider "r \<in> set rs1" | "r \<in> set rs2" by auto
    then show "(identity r, al_uuid r) \<in> known st \<or>
        identity r \<notin> fst ` known st \<and> (\<exists>i. st_uuids st \<le> i \<and> i < st_uuids st2 \<and> al_uuid r = Some (uuid4 i))"
      using assms(2) assms(3) [unfolded handled_def k] unfolding handled_def
      by cases (meson order.strict_trans2 order.trans)+
  qed
  ultimately show ?thesis
    using assms(2,3) same_store_trans unfolding handled_def by auto
qed

definition ident_on :: "string \<Rightarrow> alert \<Rightarrow> string option \<times> string option \<times> alert_class \<times> string" where
  "ident_on node a = (Some node, al_source a, al_klass a, al_key a)"

lemma identity_on [simp]: "identity (a\<lparr>al_node := Some node\<rparr>) = ident_on node a"
  by (simp add: identity_def ident_on_def)

text \<open>An alert to be handled is a new object, or one of the list that is on that node already.\<close>

definition admissible :: "alert_state \<Rightarrow> string \<Rightarrow> alert \<Rightarrow> bool" where
  "admissible st node a \<longleftrightarrow>
     al_oid a \<notin> al_oid ` store st \<or> tag a \<in> set (map tag (st_alerts st)) \<and> al_node a = Some node"

lemma admissible_same: "same_store st st' \<Longrightarrow> admissible st' node a \<longleftrightarrow> admissible st node a"
proof -
  assume s: "same_store st st'"
  have "al_oid ` store x = fst ` tag ` store x" for x by (auto simp: tag_def image_image)
  with same_store_tags [OF s] have "al_oid ` store st' = al_oid ` store st" by simp
  with s show ?thesis by (auto simp: admissible_def same_store_def simp del: set_map)
qed

lemma handle_alert_spec:
  assumes "handle_alert env a st = (r, st')"
  shows "identity r = identity a \<and> al_oid r = al_oid a \<and> al_klass r = al_klass a \<and> al_source r = al_source a \<and>
    ((\<exists>b \<in> set (st_alerts st). identity b = identity a \<and> al_uuid r = al_uuid b \<and> al_datetime r = al_datetime b \<and>
        al_dismissed r = al_dismissed b \<and> st' = st) \<or>
     (identity a \<notin> identity ` set (st_alerts st) \<and> al_uuid r = Some (e_uuid4 env (st_uuids st)) \<and>
        st' = st\<lparr>st_uuids := Suc (st_uuids st)\<rparr>))"
proof (cases "find (\<lambda>b. identity b = identity a) (st_alerts st)")
  case None
  then have "identity a \<notin> identity ` set (st_alerts st)" by (auto simp: find_None_iff)
  with None assms show ?thesis by (auto simp: handle_alert_def identity_def)
next
  case (Some b)
  then have b: "b \<in> set (st_alerts st)" "identity b = identity a" by (auto simp: find_Some_iff)
  from Some assms have r: "r = a\<lparr>al_uuid := al_uuid b, al_datetime := al_datetime b,
      al_last_occurrence := Some (e_now env), al_dismissed := al_dismissed b\<rparr>" and st': "st' = st"
    by (simp_all add: handle_alert_def)
  have "identity r = identity a" by (simp add: r identity_def)
  moreover have "\<exists>c \<in> set (st_alerts st). identity c = identity a \<and> al_uuid r = al_uuid c \<and> al_datetime r = al_datetime c \<and>
      al_dismissed r = al_dismissed c \<and> st' = st"
    using b st' by (intro bexI [of _ b]) (simp_all add: r)
  ultimately show ?thesis by (simp add: r)
qed

lemma fst_known: "fst ` known st = identity ` set (st_alerts st)"
  by (auto simp: known_def image_image)

lemma store_supply_update [simp]:
  "store (st\<lparr>st_uuids := n\<rparr>) = store st" "same_store st (st\<lparr>st_uuids := n\<rparr>)" "known (st\<lparr>st_uuids := n\<rparr>) = known st"
  by (simp_all add: store_def snapshots_def same_store_def known_def)

lemma handle_on_node_spec:
  assumes "alerts_inv (e_uuid4 env) st" and "admissible st node a" and h: "handle_on_node env node a st = (r, st')"
  shows "handled (e_uuid4 env) st st' [r]" "identity r = ident_on node a" "al_oid r = al_oid a"
proof -
  obtain st1 where ha: "handle_alert env (a\<lparr>al_node := Some node\<rparr>) st = (r, st1)" and st': "st' = set_object r st1"
    using h by (auto simp: handle_on_node_def split: prod.splits)
  note spec = handle_alert_spec [OF ha, simplified]
  show ident: "identity r = ident_on node a" "al_oid r = al_oid a" using spec by simp_all
  have st1: "same_store st st1" "store st1 = store st" "st_uuids st \<le> st_uuids st1" using spec by auto
  have "tag x = tag r" if x: "x \<in> store st1" "al_oid x = al_oid r" for x
  proof -
    have "al_oid a \<in> al_oid ` store st" using x st1(2) ident(2) by (metis imageI)
    with assms(2) obtain a' where a': "a' \<in> set (st_alerts st)" "tag a' = tag a" and "al_node a = Some node"
      by (auto simp: admissible_def image_iff)
    then have id: "identity a' = identity r" using ident(1) by (auto simp: tag_def identity_def ident_on_def)
    then obtain b where "b \<in> set (st_alerts st)" "identity b = identity r" "al_uuid r = al_uuid b"
      using spec a'(1) ident(1) by (metis imageI)
    then have "b = a'" using assms(1) id a'(1) unfolding alerts_inv_def by (metis distinct_map inj_onD)
    then have tag: "tag a' = tag r" using a'(2) id \<open>al_uuid r = al_uuid b\<close> ident(2) by (simp add: tag_def)
    moreover have "tag x = tag a'"
    proof -
      have "x \<in> store st" "a' \<in> store st" using x st1(2) a'(1) by (auto simp: store_def)
      with assms(1) have "al_oid x = al_oid a' \<longrightarrow> al_uuid x = al_uuid a'" "al_uuid x = al_uuid a' \<longrightarrow> identity x = identity a'"
        unfolding alerts_inv_def coherent_def by blast+
      moreover have "al_oid x = al_oid a'" using x(2) tag by (simp add: tag_eq_iff)
      ultimately show ?thesis by (simp add: tag_eq_iff)
    qed
    ultimately show ?thesis by simp
  qed
  then have "same_store st1 st'" unfolding st' by (rule set_object_same)
  moreover have "st_uuids st' = st_uuids st1" by (simp add: st' set_object_def map_policies_def)
  moreover have "(identity r, al_uuid r) \<in> known st \<or>
      identity r \<notin> fst ` known st \<and> al_uuid r = Some (e_uuid4 env (st_uuids st)) \<and> st_uuids st1 = Suc (st_uuids st)"
    unfolding fst_known ident(1) known_def using spec by (auto intro: rev_image_eqI)
  ultimately show "handled (e_uuid4 env) st st' [r]"
    using st1 same_store_trans [OF st1(1)] unfolding handled_def by auto
qed


lemma handled_inv: "handled uuid4 st st' rs \<Longrightarrow> alerts_inv uuid4 st \<Longrightarrow> alerts_inv uuid4 st'"
  by (auto simp: handled_def intro: same_store_inv)

lemma handled_same: "handled uuid4 st st' rs \<Longrightarrow> same_store st st'"
  by (simp add: handled_def)

lemma handle_next:
  assumes "inj (e_uuid4 env)" and "alerts_inv (e_uuid4 env) st" and "admissible st node a"
    and "handle_on_node env node a st = (r, st1)"
  shows "alerts_inv (e_uuid4 env) st1" "\<And>node' xs. list_all (admissible st1 node') xs \<longleftrightarrow> list_all (admissible st node') xs"
    and "\<And>st' rs. handled (e_uuid4 env) st1 st' rs \<Longrightarrow> handled (e_uuid4 env) st st' (r # rs)"
    and "identity r = ident_on node a" "al_oid r = al_oid a"
proof -
  note h = handle_on_node_spec [OF assms(2-4)]
  show "identity r = ident_on node a" "al_oid r = al_oid a" using h by simp_all
  show "alerts_inv (e_uuid4 env) st1" using handled_inv [OF h(1) assms(2)] .
  show "list_all (admissible st1 node') xs \<longleftrightarrow> list_all (admissible st node') xs" for node' xs
    using admissible_same [OF handled_same [OF h(1)]] by (simp add: list_all_iff)
  show "handled (e_uuid4 env) st st' (r # rs)" if "handled (e_uuid4 env) st1 st' rs" for st' rs
    using handled_append [OF assms(1) h(1) that] by simp
qed

lemma handle_both_spec:
  assumes "inj (e_uuid4 env)" and "alerts_inv (e_uuid4 env) st"
    and "list_all (admissible st this) ts" and "list_all (admissible st other) ps"
    and "handle_both env this other ts ps st = (ts1, ps1, st')"
  shows "handled (e_uuid4 env) st st' (ts1 @ ps1) \<and>
    map identity ts1 = map (ident_on this) ts \<and> map identity ps1 = map (ident_on other) ps \<and>
    map al_oid ts1 = map al_oid ts \<and> map al_oid ps1 = map al_oid ps"
  using assms
proof (induction env this other ts ps st arbitrary: ts1 ps1 st' rule: handle_both.induct)
  case (2 env this other t ts st)
  obtain t1 st1 where t: "handle_on_node env this t st = (t1, st1)" by (cases "handle_on_node env this t st")
  then obtain ts2 where r: "handle_both env this other ts [] st1 = (ts2, ps1, st')" "ts1 = t1 # ts2"
    using "2.prems" by (auto split: prod.splits)
  from "2.prems" have "admissible st this t" by simp
  note n = handle_next [OF "2.prems"(1,2) this t]
  from "2.IH" [OF t [symmetric] "2.prems"(1) n(1) _ _ r(1)] "2.prems"(3) n(2)
  have IH: "handled (e_uuid4 env) st1 st' (ts2 @ ps1) \<and> map identity ts2 = map (ident_on this) ts \<and>
    ps1 = [] \<and> map al_oid ts2 = map al_oid ts" by auto
  then show ?case using n(3) [of st' "ts2 @ ps1"] n(4,5) by (auto simp: r(2))
next
  case (3 env this other p ps st)
  obtain p1 st1 where p: "handle_on_node env other p st = (p1, st1)" by (cases "handle_on_node env other p st")
  then obtain ps2 where r: "handle_both env this other [] ps st1 = (ts1, ps2, st')" "ps1 = p1 # ps2"
    using "3.prems" by (auto split: prod.splits)
  from "3.prems" have "admissible st other p" by simp
  note n = handle_next [OF "3.prems"(1,2) this p]
  from "3.IH" [OF p [symmetric] "3.prems"(1) n(1) _ _ r(1)] "3.prems"(4) n(2)
  have IH: "handled (e_uuid4 env) st1 st' (ts1 @ ps2) \<and> ts1 = [] \<and> map identity ps2 = map (ident_on other) ps \<and>
    map al_oid ps2 = map al_oid ps" by auto
  then show ?case using n(3) [of st' "ts1 @ ps2"] n(4,5) by (auto simp: r(2))
next
  case (4 env this other t ts p ps st)
  obtain t1 st1 where t: "handle_on_node env this t st = (t1, st1)" by (cases "handle_on_node env this t st")
  obtain p1 st2 where p: "handle_on_node env other p st1 = (p1, st2)" by (cases "handle_on_node env other p st1")
  from "4.prems" t p obtain ts2 ps2 where r: "handle_both env this other ts ps st2 = (ts2, ps2, st')"
    and eq: "ts1 = t1 # ts2" "ps1 = p1 # ps2" by (auto split: prod.splits)
  from "4.prems" have a: "admissible st this t" by simp
  note n = handle_next [OF "4.prems"(1,2) a t]
  from "4.prems" n(2) [of other "[p]"] have b: "admissible st1 other p" by simp
  note m = handle_next [OF "4.prems"(1) n(1) b p]
  from "4.IH" [OF t [symmetric] p [symmetric] "4.prems"(1) m(1) _ _ r] "4.prems" n(2) m(2)
  have IH: "handled (e_uuid4 env) st2 st' (ts2 @ ps2) \<and>
    map identity ts2 = map (ident_on this) ts \<and> map identity ps2 = map (ident_on other) ps \<and>
    map al_oid ts2 = map al_oid ts \<and> map al_oid ps2 = map al_oid ps" by simp
  then have "handled (e_uuid4 env) st st' (t1 # p1 # ts2 @ ps2)" using n(3) m(3) by blast
  then have "handled (e_uuid4 env) st st' (ts1 @ ps1)" by (rule handled_perm) (simp add: eq)
  with IH n(4,5) m(4,5) show ?case by (simp add: eq)
qed simp_all

lemma coherent_mono: "coherent uuid4 n m S \<Longrightarrow> T \<subseteq> S \<Longrightarrow> n \<le> n' \<Longrightarrow> m \<le> m' \<Longrightarrow> coherent uuid4 n' m' T"
  unfolding coherent_def by (meson order.strict_trans2 subsetD)

lemma coherent_uuid: "coherent uuid4 n m S \<Longrightarrow> x \<in> S \<Longrightarrow> y \<in> S \<Longrightarrow> al_uuid x = al_uuid y \<Longrightarrow> identity x = identity y"
  unfolding coherent_def by blast

lemma coherent_oid: "coherent uuid4 n m S \<Longrightarrow> x \<in> S \<Longrightarrow> y \<in> S \<Longrightarrow> al_oid x = al_oid y \<Longrightarrow> al_uuid x = al_uuid y"
  unfolding coherent_def by blast

lemma distinct_uuids:
  "coherent uuid4 n m (set xs) \<Longrightarrow> distinct (map identity xs) \<Longrightarrow> distinct (map al_uuid xs)"
  unfolding distinct_map inj_on_def using coherent_uuid by (metis distinct_map)

text \<open>Adding handled alerts to the objects of a state.\<close>

lemma handled_coherent:
  assumes inj: "inj uuid4" and inv: "alerts_inv uuid4 st" and h: "handled uuid4 st st' rs"
    and oids: "\<And>r. r \<in> set rs \<Longrightarrow> al_oid r < st_oids st \<and>
      (al_oid r \<notin> al_oid ` store st \<or> (\<exists>a \<in> set (st_alerts st). al_oid a = al_oid r \<and> identity a = identity r))"
    and dist: "distinct (map al_oid rs)"
  shows "coherent uuid4 (st_uuids st') (st_oids st') (store st' \<union> set rs)"
proof -
  have ss: "same_store st st'" and le: "st_uuids st \<le> st_uuids st'" using h by (auto simp: handled_def)
  have st': "alerts_inv uuid4 st'" using handled_inv [OF h inv] .
  then have coh: "coherent uuid4 (st_uuids st') (st_oids st') (store st')" by (simp add: alerts_inv_def)
  have tags: "tag ` store st' = tag ` store st" using same_store_tags [OF ss] .
  have known': "known st' = known st" using known_same [OF ss] .
  text \<open>Each result has the identity and identifier of an alert of the list or a fresh identifier.\<close>
  have cases: "(\<exists>b \<in> store st'. al_uuid r = al_uuid b \<and> identity r = identity b) \<or>
      identity r \<notin> fst ` known st \<and> (\<exists>i. st_uuids st \<le> i \<and> i < st_uuids st' \<and> al_uuid r = Some (uuid4 i))"
    if "r \<in> set rs" for r
  proof -
    have "\<exists>b \<in> store st'. al_uuid r = al_uuid b \<and> identity r = identity b" if "(identity r, al_uuid r) \<in> known st"
      using that unfolding known' [symmetric] by (auto simp: known_def store_def)
    moreover from h that have "(identity r, al_uuid r) \<in> known st \<or> identity r \<notin> fst ` known st \<and>
        (\<exists>i. st_uuids st \<le> i \<and> i < st_uuids st' \<and> al_uuid r = Some (uuid4 i))" by (simp add: handled_def)
    ultimately show ?thesis by (elim disjE) simp_all
  qed
  have old: "\<exists>i < st_uuids st. al_uuid x = Some (uuid4 i)" if "x \<in> store st'" for x
  proof -
    have "tag x \<in> tag ` store st" unfolding tags [symmetric] using that by simp
    then obtain y where y: "y \<in> store st" "tag x = tag y" by (rule imageE)
    from inv have "coherent uuid4 (st_uuids st) (st_oids st) (store st)" by (simp add: alerts_inv_def)
    with y show ?thesis unfolding coherent_def tag_eq_iff by metis
  qed
  have fresh: "al_uuid x \<noteq> Some (uuid4 i)" if "x \<in> store st'" "st_uuids st \<le> i" for x i
    using old [OF that(1)] that(2) inj_eq [OF inj] by auto
  have uu: "identity x = identity y"
    if xy: "x \<in> store st' \<union> set rs" "y \<in> store st' \<union> set rs" "al_uuid x = al_uuid y" for x y
  proof -
    have repr: "(\<exists>b \<in> store st'. al_uuid z = al_uuid b \<and> identity z = identity b) \<or>
        z \<in> set rs \<and> identity z \<notin> fst ` known st \<and> (\<exists>i. st_uuids st \<le> i \<and> al_uuid z = Some (uuid4 i))"
      if "z \<in> store st' \<union> set rs" for z using that cases [of z] by blast
    from h have d: "x = y" if "x \<in> set rs" "y \<in> set rs" "identity x \<notin> fst ` known st" "identity y \<notin> fst ` known st"
      using that xy(3) by (auto simp: handled_def distinct_map inj_on_def)
    from repr [OF xy(1)] repr [OF xy(2)] show ?thesis
      using xy(3) fresh coherent_uuid [OF coh] d by (elim disjE bexE conjE exE) metis+
  qed
  have oo: "al_uuid x = al_uuid y"
    if xy: "x \<in> store st'" "y \<in> set rs" "al_oid x = al_oid y" for x y
  proof -
    have "tag x \<in> tag ` store st" unfolding tags [symmetric] using xy(1) by simp
    then have "al_oid y \<in> al_oid ` store st" using xy(3) by (auto simp: tag_eq_iff image_iff)
    with oids [OF xy(2)] obtain a where a: "a \<in> set (st_alerts st)" "al_oid a = al_oid y" "identity a = identity y" by blast
    then obtain a' where a': "a' \<in> set (st_alerts st')" "tag a' = tag a"
    proof -
      from ss have "set (map tag (st_alerts st')) = set (map tag (st_alerts st))" by (simp only: same_store_def)
      with a(1) have "tag a \<in> tag ` set (st_alerts st')" by simp
      then show thesis using that by (metis imageE)
    qed
    then have "identity y \<in> fst ` known st" unfolding fst_known using imageI [OF a(1), of identity] a(3) by simp
    then have "(identity y, al_uuid y) \<in> known st" using h xy(2) unfolding handled_def by blast
    then obtain c where "c \<in> set (st_alerts st')" "identity c = identity y" "al_uuid c = al_uuid y"
      unfolding known' [symmetric] by (auto simp: known_def)
    moreover have "distinct (map identity (st_alerts st'))" using st' by (simp add: alerts_inv_def)
    ultimately have "c = a'" using a a' by (metis distinct_map inj_onD tag_eq_iff)
    moreover have "al_uuid x = al_uuid a'"
      using coherent_oid [OF coh xy(1), of a'] a' a xy(3) by (auto simp: store_def tag_eq_iff)
    ultimately show ?thesis using \<open>al_uuid c = al_uuid y\<close> by simp
  qed
  have rr: "x = y" if "x \<in> set rs" "y \<in> set rs" "al_oid x = al_oid y" for x y
    using dist that by (auto simp: distinct_map inj_on_def)
  have st: "al_oid x < st_oids st'" "\<exists>i < st_uuids st'. al_uuid x = Some (uuid4 i)" if "x \<in> store st'" for x
    using coh that unfolding coherent_def by blast+
  have "st_oids st' = st_oids st" using ss by (simp add: same_store_def)
  then have rs: "al_oid x < st_oids st'" "\<exists>i < st_uuids st'. al_uuid x = Some (uuid4 i)" if "x \<in> set rs" for x
    using oids [OF that] by simp (use cases [OF that] st(2) in metis)
  have "al_oid x < st_oids st' \<and> (\<exists>i < st_uuids st'. al_uuid x = Some (uuid4 i))" if "x \<in> store st' \<union> set rs" for x
    using that st rs by blast
  moreover have "al_uuid x = al_uuid y" if "x \<in> store st' \<union> set rs" "y \<in> store st' \<union> set rs" "al_oid x = al_oid y" for x y
    using that oo [of x y] oo [of y x, symmetric] rr [of x y] coherent_oid [OF coh, of x y] by (metis Un_iff)
  ultimately show ?thesis using uu unfolding coherent_def by blast
qed

end
