(* ===== verification/AlertsInv.thy ===== *)
theory AlertsInv
  imports AlertsProofs
begin

text \<open>
  Every operation on alerts keeps their invariant, whatever the sources, the other node and the
  classes of alerts answer.
\<close>

section \<open>Replacing the alerts of a source\<close>

lemma handled_origin:
  assumes "list_all (admissible st node) xs" and "\<forall>a \<in> set xs. al_oid a < st_oids st"
    and "map identity rs = map (ident_on node) xs" and "map al_oid rs = map al_oid xs" and "r \<in> set rs"
  shows "al_oid r < st_oids st \<and>
      (al_oid r \<notin> al_oid ` store st \<or> (\<exists>a \<in> set (st_alerts st). al_oid a = al_oid r \<and> identity a = identity r))"
proof -
  from assms(4) have len: "length rs = length xs" by (metis length_map)
  from assms(5) obtain i where i: "i < length rs" "r = rs ! i" by (metis in_set_conv_nth)
  then have x: "xs ! i \<in> set xs" and id: "identity r = ident_on node (xs ! i)" and oid: "al_oid r = al_oid (xs ! i)"
    using len assms(3,4) nth_map by (metis nth_mem)+
  from assms(1) x have "admissible st node (xs ! i)" by (simp add: list_all_iff)
  then show ?thesis
    using assms(2) x id oid unfolding admissible_def
    by (auto simp: tag_eq_iff image_iff identity_def ident_on_def)
qed

lemma distinct_append_images:
  "distinct (map f xs) \<Longrightarrow> distinct (map f ys) \<Longrightarrow> f ` set xs \<inter> f ` set ys = {} \<Longrightarrow> distinct (map f (xs @ ys))"
  by simp

lemma replace_source_inv:
  assumes inj: "inj (e_uuid4 env)" and inv: "alerts_inv (e_uuid4 env) st"
    and adm: "list_all (admissible st this) ts" "list_all (admissible st other) ps"
    and oids: "\<forall>a \<in> set (ts @ ps). al_oid a < st_oids st" "distinct (map al_oid (ts @ ps))"
    and ids: "distinct (map (ident_on this) ts)" "distinct (map (ident_on other) ps)" "this \<noteq> other"
    and src: "\<forall>a \<in> set (ts @ ps). al_source a = Some name"
    and h: "handle_both env this other ts ps st = (ts1, ps1, st')"
  shows "alerts_inv (e_uuid4 env) (st'\<lparr>st_alerts := filter (\<lambda>a. al_source a \<noteq> Some name) (st_alerts st') @ ts1 @ ps1\<rparr>)"
    (is "alerts_inv _ ?st")
proof -
  note spec = handle_both_spec [OF inj inv adm h]
  then have hd: "handled (e_uuid4 env) st st' (ts1 @ ps1)"
    and id1: "map identity ts1 = map (ident_on this) ts" and id2: "map identity ps1 = map (ident_on other) ps"
    and oid1: "map al_oid ts1 = map al_oid ts" and oid2: "map al_oid ps1 = map al_oid ps" by simp_all
  have st': "alerts_inv (e_uuid4 env) st'" using handled_inv [OF hd inv] .
  have coh: "coherent (e_uuid4 env) (st_uuids st') (st_oids st') (store st' \<union> set (ts1 @ ps1))"
  proof (rule handled_coherent [OF inj inv hd])
    fix r assume "r \<in> set (ts1 @ ps1)"
    then consider "r \<in> set ts1" | "r \<in> set ps1" by auto
    then show "al_oid r < st_oids st \<and>
      (al_oid r \<notin> al_oid ` store st \<or> (\<exists>a \<in> set (st_alerts st). al_oid a = al_oid r \<and> identity a = identity r))"
      using handled_origin [OF adm(1) _ id1 oid1] handled_origin [OF adm(2) _ id2 oid2] oids(1) by cases auto
  next
    show "distinct (map al_oid (ts1 @ ps1))" using oids(2) oid1 oid2 by simp
  qed
  let ?rest = "filter (\<lambda>a. al_source a \<noteq> Some name) (st_alerts st')"
  have sub: "store ?st \<subseteq> store st' \<union> set (ts1 @ ps1)" by (auto simp: store_def snapshots_def)
  then have coh': "coherent (e_uuid4 env) (st_uuids ?st) (st_oids ?st) (store ?st)"
    using coherent_mono [OF coh sub] by simp
  have img: "identity ` set ts1 = ident_on this ` set ts" "identity ` set ps1 = ident_on other ` set ps"
    using arg_cong [OF id1, of set] arg_cong [OF id2, of set] by simp_all
  have s1: "(\<lambda>t. fst (snd t)) ` identity ` set (ts1 @ ps1) \<subseteq> {Some name}"
    unfolding set_append image_Un img using src by (auto simp: ident_on_def)
  have "identity ` set ts1 \<inter> identity ` set ps1 = {}" unfolding img using ids(3) by (auto simp: ident_on_def)
  then have d: "distinct (map identity (ts1 @ ps1))"
    using ids(1,2) unfolding id1 [symmetric] id2 [symmetric] by (intro distinct_append_images)
  have "(\<lambda>t. fst (snd t)) ` identity ` set ?rest \<inter> {Some name} = {}" by (auto simp: identity_def)
  then have "identity ` set ?rest \<inter> identity ` set (ts1 @ ps1) = {}" using s1 by blast
  moreover have "distinct (map identity ?rest)" using st' by (simp add: alerts_inv_def distinct_map_filter)
  ultimately have dist: "distinct (map identity (?rest @ ts1 @ ps1))" using d by - (rule distinct_append_images)
  have "coherent (e_uuid4 env) (st_uuids ?st) (st_oids ?st) (set (?rest @ ts1 @ ps1))"
    by (rule coherent_mono [OF coh']) (auto simp: store_def)
  from distinct_uuids [OF this dist] dist coh' st' show ?thesis by (simp add: alerts_inv_def)
qed

section \<open>One source\<close>

text \<open>
  What the other node answers for a source comes from \<open>run_source\<close> there: alerts of that source
  with different keys.
\<close>

definition remote_ok :: "alert_source \<Rightarrow> bool" where
  "remote_ok src = (case so_remote src of
     RemoteRows rows \<Rightarrow> list_all (\<lambda>(k, a). al_source a = Some (so_name src)) rows \<and> distinct (map (\<lambda>(k, a). al_key a) rows)
   | _ \<Rightarrow> True)"

lemma unique_keys_props:
  "distinct (map al_key (unique_keys ks xs)) \<and> set (map al_key (unique_keys ks xs)) \<inter> ks = {}"
  by (induction xs arbitrary: ks) auto

lemma distinct_ident_on: "distinct (map al_key xs) \<Longrightarrow> distinct (map (ident_on node) xs)"
  by (auto simp: distinct_map inj_on_def ident_on_def)

lemma mapE_keys: "mapE (remote_alert env) rows = Inr xs \<Longrightarrow>
    map al_key xs = map (\<lambda>(k, a). al_key a) rows \<and> map al_source xs = map (\<lambda>(k, a). al_source a) rows"
  by (induction rows arbitrary: xs) (auto simp: remote_alert_def bindE_eq_Inr_iff split: option.splits prod.splits)

lemma other_node_alerts:
  assumes "remote_ok src"
  shows "distinct (map al_key (run_other_node_alert_source env src)) \<and>
    (\<forall>a \<in> set (run_other_node_alert_source env src). al_source a = Some (so_name src))"
proof (cases "so_remote src")
  case (RemoteRows rows)
  show ?thesis
  proof (cases "mapE (remote_alert env) rows")
    case (Inl e)
    with RemoteRows show ?thesis by (simp add: run_other_node_alert_source_def backup_failed_def)
  next
    case (Inr xs)
    from mapE_keys [OF this] assms RemoteRows
    have "distinct (map al_key xs)" "set (map al_source xs) \<subseteq> {Some (so_name src)}"
      by (auto simp: remote_ok_def list_all_iff)
    with Inr RemoteRows show ?thesis by (auto simp: run_other_node_alert_source_def)
  qed
qed (auto simp: run_other_node_alert_source_def backup_failed_def)

lemma run_source_alerts:
  "run_source env src st = (Some xs, st1) \<Longrightarrow>
     distinct (map al_key xs) \<and> (\<forall>a \<in> set xs. al_source a = Some (so_name src))"
  using unique_keys_props [of "{}"] by (auto simp: run_source_def Let_def comp_def split: check_result.splits)

lemma run_source_state:
  "run_source env src st = (r, st1) \<Longrightarrow> tags st1 = tags st \<and> st_alerts st1 = st_alerts st \<and> store st1 = store st"
  by (auto simp: run_source_def Let_def tags_def store_def snapshots_def split: check_result.splits)

lemma adopt_nth:
  assumes "adopt xs st = (ys, st1)"
  shows "length ys = length xs" "\<And>i. i < length xs \<Longrightarrow> ys ! i = (xs ! i)\<lparr>al_oid := st_oids st + i\<rparr>"
    "st1 = st\<lparr>st_oids := st_oids st + length xs\<rparr>"
proof -
  have ys: "ys = map (\<lambda>(i, a). a\<lparr>al_oid := st_oids st + i\<rparr>) (List.enumerate 0 xs)"
    and "st1 = st\<lparr>st_oids := st_oids st + length xs\<rparr>" using assms by (simp_all add: adopt_def)
  then show "st1 = st\<lparr>st_oids := st_oids st + length xs\<rparr>" by simp
  show "length ys = length xs" by (simp add: ys)
  show "ys ! i = (xs ! i)\<lparr>al_oid := st_oids st + i\<rparr>" if "i < length xs" for i
    using that by (simp add: ys nth_enumerate_eq)
qed

lemma adopt_map: "adopt xs st = (ys, st1) \<Longrightarrow> (\<And>a i. f (a\<lparr>al_oid := i\<rparr>) = f a) \<Longrightarrow> map f ys = map f xs"
  using adopt_nth by (intro nth_equalityI) (metis length_map, metis length_map nth_map)

lemma adopt_props:
  assumes "adopt xs st = (ys, st1)"
  shows "map al_oid ys = [st_oids st..<st_oids st + length xs]" "map al_key ys = map al_key xs"
    "map al_source ys = map al_source xs" "map identity ys = map identity xs" "map al_uuid ys = map al_uuid xs"
    "st1 = st\<lparr>st_oids := st_oids st + length xs\<rparr>"
proof -
  show "map al_oid ys = [st_oids st..<st_oids st + length xs]"
    by (rule nth_equalityI) (simp_all add: adopt_nth [OF assms])
qed (rule adopt_map [OF assms] adopt_nth [OF assms]; simp add: identity_def)+

lemma oids_update [simp]:
  "store (st\<lparr>st_oids := m\<rparr>) = store st" "st_alerts (st\<lparr>st_oids := m\<rparr>) = st_alerts st"
  by (simp_all add: store_def snapshots_def)

lemma inv_oids: "alerts_inv uuid4 st \<Longrightarrow> st_oids st \<le> m \<Longrightarrow> alerts_inv uuid4 (st\<lparr>st_oids := m\<rparr>)"
  using coherent_mono [of uuid4 "st_uuids st" "st_oids st" "store st" "store st" "st_uuids st" m] by (simp add: alerts_inv_def)

lemma fresh_admissible:
  assumes "alerts_inv uuid4 st" and "map al_oid ys = [n..<n + k]" and "st_oids st \<le> n" and "store st' = store st"
  shows "list_all (admissible st' node) ys"
proof -
  have "al_oid y \<notin> al_oid ` store st'" if "y \<in> set ys" for y
  proof -
    from that have "al_oid y \<in> set (map al_oid ys)" by simp
    then have "n \<le> al_oid y" unfolding assms(2) by simp
    moreover have "al_oid x < st_oids st" if "x \<in> store st'" for x
      using assms(1) that unfolding alerts_inv_def coherent_def assms(4) by blast
    ultimately show ?thesis using assms(3) by fastforce
  qed
  then show ?thesis by (simp add: list_all_iff admissible_def)
qed

text \<open>What the loop over a source needs to know of the alerts it handles.\<close>

definition source_ready :: "failover_info \<Rightarrow> string \<Rightarrow> alert list \<Rightarrow> alert list \<Rightarrow> alert_state \<Rightarrow> bool" where
  "source_ready fi name ts ps st \<longleftrightarrow>
     list_all (admissible st (this_node fi)) ts \<and> list_all (admissible st (other_node fi)) ps \<and>
     (\<forall>a \<in> set (ts @ ps). al_oid a < st_oids st) \<and> distinct (map al_oid (ts @ ps)) \<and>
     distinct (map (ident_on (this_node fi)) ts) \<and> distinct (map (ident_on (other_node fi)) ps) \<and>
     (\<forall>a \<in> set (ts @ ps). al_source a = Some name)"

lemma source_ready_locked:
  assumes inv: "alerts_inv uuid4 st" and "handle_locked_alert_source name (this_node fi) (other_node fi) st = (ts, ps, True)"
  shows "source_ready fi name ts ps st"
proof -
  let ?mine = "filter (\<lambda>a. al_source a = Some name) (st_alerts st)"
  have ts: "ts = filter (\<lambda>a. al_node a = Some (this_node fi)) ?mine"
    and ps: "ps = filter (\<lambda>a. al_node a \<noteq> Some (this_node fi) \<and> al_node a = Some (other_node fi)) ?mine"
    using assms(2) by (auto simp: handle_locked_alert_source_def Let_def split: if_splits)
  have "distinct (map al_oid (st_alerts st))"
  proof -
    have coh: "coherent uuid4 (st_uuids st) (st_oids st) (store st)" and "distinct (map al_uuid (st_alerts st))"
      using inv by (auto simp: alerts_inv_def)
    then show ?thesis
      using coherent_oid [OF coh] unfolding distinct_map inj_on_def store_def by (metis UnCI)
  qed
  moreover have "distinct (map identity (st_alerts st))" using inv by (simp add: alerts_inv_def)
  moreover have "ident_on n x = identity x" if "al_node x = Some n" for n x using that by (simp add: ident_on_def identity_def)
  moreover have "\<forall>a \<in> set (st_alerts st). al_oid a < st_oids st"
    using inv unfolding alerts_inv_def coherent_def store_def by blast
  ultimately show ?thesis
    unfolding source_ready_def ts ps
    by (auto simp: list_all_iff admissible_def distinct_map inj_on_def)
qed

lemma source_alerts_ready:
  assumes inv: "alerts_inv uuid4 st" and ok: "remote_ok src" and r: "source_alerts env fi src st = (ts, ps, st1)"
  shows "source_ready fi (so_name src) ts ps st1 \<and> alerts_inv uuid4 st1"
proof -
  obtain this other locked where l: "handle_locked_alert_source (so_name src) (this_node fi) (other_node fi) st = (this, other, locked)"
    by (cases "handle_locked_alert_source (so_name src) (this_node fi) (other_node fi) st")
  show ?thesis
  proof (cases locked)
    case True
    with r l inv source_ready_locked [OF inv] show ?thesis by (auto simp: source_alerts_def)
  next
    case False
    then have [simp]: "this = []" "other = []" using l by (auto simp: handle_locked_alert_source_def Let_def split: if_splits)
    obtain r0 sta where run: "run_source env src st = (r0, sta)" by (cases "run_source env src st")
    define xs where "xs = (case r0 of Some xs \<Rightarrow> xs | None \<Rightarrow> [])"
    define ys where "ys = (if run_on_backup_node fi \<and> so_run_on_backup_node src then run_other_node_alert_source env src else [])"
    obtain stb where a1: "adopt xs sta = (ts, stb)" and a2: "adopt ys stb = (ps, st1)"
      using r l False run by (auto simp: source_alerts_def xs_def ys_def split: prod.splits)
    have inva: "alerts_inv uuid4 sta" "store sta = store st" "st_oids sta = st_oids st"
      using run_source_state [OF run] inv tags_inv_cong [of sta st uuid4] by (auto simp: tags_def)
    have xs: "distinct (map al_key xs)" "\<forall>a \<in> set xs. al_source a = Some (so_name src)"
      using run_source_alerts [of env src st _ sta] run by (auto simp: xs_def split: option.splits)
    have ys: "distinct (map al_key ys)" "\<forall>a \<in> set ys. al_source a = Some (so_name src)"
      using other_node_alerts [OF ok, of env] by (auto simp: ys_def)
    note t = adopt_props [OF a1] and p = adopt_props [OF a2]
    have st1: "store st1 = store sta" "st_oids st1 = st_oids sta + length xs + length ys"
      using t(6) p(6) by simp_all
    have "st1 = sta\<lparr>st_oids := st_oids st1\<rparr>" using t(6) p(6) by simp
    then have "alerts_inv uuid4 st1" using inv_oids [OF inva(1), of "st_oids st1"] st1(2) by simp
    moreover have "list_all (admissible st1 (this_node fi)) ts"
      using fresh_admissible [OF inva(1) t(1) order.refl] st1 by simp
    moreover have "list_all (admissible st1 (other_node fi)) ps"
      using fresh_admissible [OF inva(1) p(1)] st1 t(6) by simp
    moreover have o: "map al_oid (ts @ ps) = [st_oids sta..<st_oids st1]"
      using t(1,6) p(1) st1(2) by (simp add: upt_add_eq_append [symmetric])
    then have "distinct (map al_oid (ts @ ps))" by (simp only: distinct_upt)
    moreover have "\<forall>a \<in> set (ts @ ps). al_oid a < st_oids st1"
    proof
      fix a assume "a \<in> set (ts @ ps)"
      then have "al_oid a \<in> set (map al_oid (ts @ ps))" unfolding set_map by (rule imageI)
      then show "al_oid a < st_oids st1" unfolding o by simp
    qed
    moreover have "distinct (map (ident_on n) ts)" "distinct (map (ident_on n) ps)" for n
      using xs(1) ys(1) t(2) p(2) by (auto intro!: distinct_ident_on)
    moreover have "\<forall>a \<in> set (ts @ ps). al_source a = Some (so_name src)"
      using xs(2) ys(2) arg_cong [OF t(3), of set] arg_cong [OF p(3), of set] by auto
    ultimately show ?thesis by (simp add: source_ready_def)
  qed
qed


section \<open>Operations\<close>

lemma inv_cong:
  assumes "st_alerts st' = st_alerts st" "st_policies st' = st_policies st" "st_uuids st' = st_uuids st" "st_oids st' = st_oids st"
  shows "alerts_inv uuid4 st' \<longleftrightarrow> alerts_inv uuid4 st"
  using assms by (simp add: alerts_inv_def store_def snapshots_def)

lemma this_other: "this_node (get_failover_info env st) \<noteq> other_node (get_failover_info env st)"
  by (simp add: get_failover_info_def Let_def)

lemma run_alert_source_inv:
  assumes "inj (e_uuid4 env)" and "alerts_inv (e_uuid4 env) st" and "remote_ok src" and "this_node fi \<noteq> other_node fi"
  shows "alerts_inv (e_uuid4 env) (run_alert_source env fi src st)"
proof -
  let ?st1 = "st\<lparr>st_last_run := (st_last_run st)(so_name src := e_now env)\<rparr>"
  have inv1: "alerts_inv (e_uuid4 env) ?st1" using assms(2) inv_cong [of ?st1 st] by simp
  obtain ts ps st2 where sa: "source_alerts env fi src ?st1 = (ts, ps, st2)" by (cases "source_alerts env fi src ?st1")
  obtain ts1 ps1 st3 where hb: "handle_both env (this_node fi) (other_node fi) ts ps st2 = (ts1, ps1, st3)"
    by (cases "handle_both env (this_node fi) (other_node fi) ts ps st2")
  from source_alerts_ready [OF inv1 assms(3) sa] have "source_ready fi (so_name src) ts ps st2" and inv2: "alerts_inv (e_uuid4 env) st2"
    by simp_all
  then have "alerts_inv (e_uuid4 env)
      (st3\<lparr>st_alerts := filter (\<lambda>a. al_source a \<noteq> Some (so_name src)) (st_alerts st3) @ ts1 @ ps1\<rparr>)"
    unfolding source_ready_def using replace_source_inv [OF assms(1) inv2 _ _ _ _ _ _ assms(4) _ hb] by blast
  with assms(2) sa hb show ?thesis by (simp add: run_alert_source_def Let_def)
qed

lemma unblock_source_inv [simp]: "alerts_inv uuid4 (unblock_source lock st) \<longleftrightarrow> alerts_inv uuid4 st"
  by (rule inv_cong) (auto simp: unblock_source_def split: option.splits prod.splits)

lemma expire_locks_inv: "alerts_inv uuid4 st \<Longrightarrow> alerts_inv uuid4 (expire_locks env st)"
proof -
  have "alerts_inv uuid4 s \<Longrightarrow> alerts_inv uuid4
      (fold (\<lambda>(lock, name, expires) st. if expires \<le> e_monotonic env then unblock_source lock st else st) ls s)" for s ls
    by (induction ls arbitrary: s) auto
  then show "alerts_inv uuid4 st \<Longrightarrow> ?thesis" by (simp add: expire_locks_def)
qed

text \<open>The identifiers and the other node behave as they do in the code.\<close>

definition env_ok :: "(nat \<Rightarrow> string) \<Rightarrow> alert_env \<Rightarrow> bool" where
  "env_ok uuid4 env \<longleftrightarrow> e_uuid4 env = uuid4 \<and> list_all remote_ok (e_sources env)"

lemma run_alerts_inv:
  assumes "inj uuid4" and "env_ok uuid4 env" and "alerts_inv uuid4 st"
  shows "alerts_inv uuid4 (run_alerts env st)"
proof -
  have "alerts_inv uuid4 s \<Longrightarrow> this_node fi \<noteq> other_node fi \<Longrightarrow> list_all remote_ok srcs \<Longrightarrow>
      alerts_inv uuid4 (fold (run_alert_source env fi) srcs s)" for s fi srcs
    using assms(1,2) run_alert_source_inv [of env] by (induction srcs arbitrary: s) (auto simp: env_ok_def)
  then show ?thesis
    using assms this_other expire_locks_inv by (simp add: run_alerts_def Let_def env_ok_def)
qed

text \<open>Fewer alerts.\<close>

lemma inv_sub:
  assumes "alerts_inv uuid4 st" and "distinct (map identity xs)" and "set xs \<subseteq> set (st_alerts st)"
    and "st_alerts st' = xs" "st_policies st' = st_policies st" "st_uuids st' = st_uuids st" "st_oids st' = st_oids st"
  shows "alerts_inv uuid4 st'"
proof -
  have coh: "coherent uuid4 (st_uuids st) (st_oids st) (store st)" using assms(1) by (simp add: alerts_inv_def)
  have "store st' \<subseteq> store st" "set xs \<subseteq> store st" using assms(3-5) by (auto simp: store_def snapshots_def)
  then have "coherent uuid4 (st_uuids st) (st_oids st) (store st')" "coherent uuid4 (st_uuids st) (st_oids st) (set xs)"
    using coherent_mono [OF coh] by blast+
  then show ?thesis using assms distinct_uuids by (auto simp: alerts_inv_def)
qed

lemma expire_alerts_inv: "alerts_inv uuid4 st \<Longrightarrow> alerts_inv uuid4 (expire_alerts env st)"
  by (rule inv_sub [of uuid4 st "filter (\<lambda>a. \<not> should_expire_alert env a) (st_alerts st)"])
    (auto simp: expire_alerts_def alerts_inv_def distinct_map_filter)

text \<open>Running the sources leaves the snapshots of the policies what they are.\<close>

definition grows :: "alert_state \<Rightarrow> alert_state \<Rightarrow> bool" where
  "grows st st' \<longleftrightarrow> map (\<lambda>(n, p). (n, policy_tags p)) (st_policies st') = map (\<lambda>(n, p). (n, policy_tags p)) (st_policies st) \<and>
     st_uuids st \<le> st_uuids st' \<and> st_oids st \<le> st_oids st'"

lemma grows_refl [simp]: "grows st st"
  by (simp add: grows_def)

lemma grows_trans: "grows st st1 \<Longrightarrow> grows st1 st2 \<Longrightarrow> grows st st2"
  by (auto simp: grows_def)

lemma source_alerts_grows: "source_alerts env fi src st = (ts, ps, st1) \<Longrightarrow> grows st st1"
  by (auto simp: source_alerts_def grows_def adopt_def run_source_def Let_def
      split: prod.splits if_splits option.splits check_result.splits)

lemma run_alert_source_grows:
  assumes "inj (e_uuid4 env)" and "alerts_inv (e_uuid4 env) st" and "remote_ok src" and "this_node fi \<noteq> other_node fi"
  shows "grows st (run_alert_source env fi src st)"
proof -
  let ?st1 = "st\<lparr>st_last_run := (st_last_run st)(so_name src := e_now env)\<rparr>"
  have inv1: "alerts_inv (e_uuid4 env) ?st1" using assms(2) inv_cong [of ?st1 st] by simp
  obtain ts ps st2 where sa: "source_alerts env fi src ?st1 = (ts, ps, st2)" by (cases "source_alerts env fi src ?st1")
  obtain ts1 ps1 st3 where hb: "handle_both env (this_node fi) (other_node fi) ts ps st2 = (ts1, ps1, st3)"
    by (cases "handle_both env (this_node fi) (other_node fi) ts ps st2")
  from source_alerts_ready [OF inv1 assms(3) sa] have r: "source_ready fi (so_name src) ts ps st2" and inv2: "alerts_inv (e_uuid4 env) st2"
    by simp_all
  then have "handled (e_uuid4 env) st2 st3 (ts1 @ ps1)"
    using handle_both_spec [OF assms(1) inv2 _ _ hb] by (simp add: source_ready_def)
  then have "grows st2 st3" by (simp add: handled_def grows_def same_store_def)
  with source_alerts_grows [OF sa] have "grows st st3" by (auto simp: grows_def)
  with sa hb show ?thesis by (simp add: run_alert_source_def Let_def) (simp add: grows_def)
qed

lemma expire_locks_grows: "grows st (expire_locks env st)"
proof -
  have "grows s (fold (\<lambda>(lock, name, expires) st. if expires \<le> e_monotonic env then unblock_source lock st else st) ls s)" for s ls
  proof (induction ls arbitrary: s)
    case (Cons l ls)
    have "grows s (unblock_source k s)" for k
      by (auto simp: unblock_source_def grows_def split: option.splits prod.splits)
    with Cons show ?case by (auto split: prod.splits intro: grows_trans)
  qed simp
  then show ?thesis by (simp add: expire_locks_def)
qed

lemma run_alerts_grows:
  assumes "inj uuid4" and "env_ok uuid4 env" and "alerts_inv uuid4 st"
  shows "grows st (run_alerts env st)"
proof -
  have "alerts_inv uuid4 s \<Longrightarrow> this_node fi \<noteq> other_node fi \<Longrightarrow> list_all remote_ok srcs \<Longrightarrow>
      grows s (fold (run_alert_source env fi) srcs s)" for s fi srcs
  proof (induction srcs arbitrary: s)
    case (Cons src srcs)
    have u: "inj (e_uuid4 env)" "alerts_inv (e_uuid4 env) s" "remote_ok src"
      using Cons.prems assms(1,2) by (auto simp: env_ok_def)
    have "alerts_inv uuid4 (run_alert_source env fi src s)"
      using run_alert_source_inv [OF u Cons.prems(2)] assms(2) by (simp add: env_ok_def)
    with Cons.IH Cons.prems have "grows (run_alert_source env fi src s) (fold (run_alert_source env fi) (src # srcs) s)" by simp
    then show ?case by (rule grows_trans [OF run_alert_source_grows [OF u Cons.prems(2)]])
  qed simp
  then show ?thesis
    using assms this_other expire_locks_inv expire_locks_grows grows_trans
    by (simp add: run_alerts_def Let_def env_ok_def) blast
qed

lemma snapshots_tags: "grows st st' \<Longrightarrow> tag ` snapshots st' = tag ` snapshots st"
proof -
  have "tag ` snapshots s = (\<Union>p \<in> snd ` set (map (\<lambda>(n, p). (n, policy_tags p)) (st_policies s)). snd ` set p)" for s
    by (force simp: snapshots_def policy_tags_def image_UN)
  then show "grows st st' \<Longrightarrow> ?thesis" by (simp only: grows_def)
qed

lemma grows_policies:
  assumes "grows st st'" "\<forall>p \<in> snd ` set (st_policies st). policy_ok p"
  shows "(\<forall>p \<in> snd ` set (st_policies st'). policy_ok p) \<and> map fst (st_policies st') = map fst (st_policies st)"
proof -
  let ?ok = "\<lambda>ts :: (string option \<times> tag) list. distinct (map fst ts) \<and> (\<forall>(u, t) \<in> set ts. fst (snd t) = u)"
  have "policy_ok p \<longleftrightarrow> ?ok (policy_tags p)" for p
    by (simp add: policy_ok_def policy_tags_def tag_def comp_def case_prod_unfold)
  then have ok: "(\<forall>p \<in> S. policy_ok p) \<longleftrightarrow> (\<forall>ts \<in> policy_tags ` S. ?ok ts)" for S by simp
  have pt: "policy_tags ` snd ` set (st_policies s) = snd ` set (map (\<lambda>(n, p). (n, policy_tags p)) (st_policies s))" for s
    by force
  have "policy_tags ` snd ` set (st_policies st') = policy_tags ` snd ` set (st_policies st)"
    unfolding pt using assms(1) by (simp only: grows_def)
  with assms(2) have "\<forall>p \<in> snd ` set (st_policies st'). policy_ok p" unfolding ok by simp
  moreover have fst: "map fst (st_policies s) = map fst (map (\<lambda>(n, p). (n, policy_tags p)) (st_policies s))" for s
    by (simp add: comp_def case_prod_unfold)
  have "map fst (st_policies st') = map fst (st_policies st)"
    unfolding fst [of st'] fst [of st] using assms(1) by (simp only: grows_def)
  ultimately show ?thesis by simp
qed

lemma restore_inv:
  assumes inv: "alerts_inv uuid4 st" and a: "adopt (st_alerts st) st = (xs, st0)" and g: "grows st0 st1"
  shows "alerts_inv uuid4 (st1\<lparr>st_alerts := xs\<rparr>)"
proof -
  let ?st = "st1\<lparr>st_alerts := xs\<rparr>" and ?n = "st_uuids st1" and ?m = "st_oids st1"
  note p = adopt_props [OF a]
  have g': "grows st st1" using g p(6) by (auto simp: grows_def)
  then have le: "st_uuids st \<le> ?n" "st_oids st \<le> ?m" by (auto simp: grows_def)
  have coh: "coherent uuid4 (st_uuids st) (st_oids st) (store st)" using inv by (simp add: alerts_inv_def)
  text \<open>Every object of the new state stands for one of the old state with the same identifier and identity.\<close>
  have repr: "\<exists>y \<in> store st. al_uuid x = al_uuid y \<and> identity x = identity y \<and> (x \<notin> set xs \<longrightarrow> al_oid x = al_oid y)"
    if "x \<in> store ?st" for x
  proof (cases "x \<in> set xs")
    case True
    then obtain i where "i < length xs" "x = xs ! i" by (metis in_set_conv_nth)
    then have "al_uuid x = al_uuid (st_alerts st ! i)" "identity x = identity (st_alerts st ! i)" "st_alerts st ! i \<in> set (st_alerts st)"
      using p(4,5) adopt_nth(1) [OF a] by (metis nth_map, metis nth_map, simp)
    then show ?thesis using True by (auto simp: store_def)
  next
    case False
    have "snapshots ?st = snapshots st1" by (simp add: snapshots_def)
    with False that have "x \<in> snapshots st1" by (simp add: store_def)
    then have "tag x \<in> tag ` snapshots st" unfolding snapshots_tags [OF g', symmetric] by (rule imageI)
    then show ?thesis by (auto simp: tag_eq_iff store_def)
  qed
  have oids: "st_oids st \<le> al_oid x \<and> al_oid x < ?m" if "x \<in> set xs" for x
  proof -
    from that have "al_oid x \<in> set (map al_oid xs)" by simp
    then show ?thesis using g p(6) unfolding p(1) by (auto simp: grows_def)
  qed
  have dist: "distinct (map al_oid xs)" unfolding p(1) by simp
  have old: "al_oid y < st_oids st" "\<exists>i < st_uuids st. al_uuid y = Some (uuid4 i)" if "y \<in> store st" for y
    using coh that unfolding coherent_def by blast+
  have "coherent uuid4 ?n ?m (store ?st)" unfolding coherent_def
  proof (intro conjI ballI impI)
    fix x assume x: "x \<in> store ?st"
    obtain y where y: "y \<in> store st" "al_uuid x = al_uuid y" "x \<notin> set xs \<longrightarrow> al_oid x = al_oid y" using repr [OF x] by blast
    show "al_oid x < ?m" using oids [of x] y old(1) [OF y(1)] le(2) by (cases "x \<in> set xs") auto
    show "\<exists>i < ?n. al_uuid x = Some (uuid4 i)" using old(2) [OF y(1)] y(2) le(1) by (metis order.strict_trans2)
    fix x' assume x': "x' \<in> store ?st"
    obtain y' where y': "y' \<in> store st" "al_uuid x' = al_uuid y'" "identity x' = identity y'" "x' \<notin> set xs \<longrightarrow> al_oid x' = al_oid y'"
      using repr [OF x'] by blast
    obtain y2 where y2: "y2 \<in> store st" "al_uuid x = al_uuid y2" "identity x = identity y2" using repr [OF x] by blast
    show "identity x = identity x'" if "al_uuid x = al_uuid x'"
      using that coherent_uuid [OF coh y2(1) y'(1)] y2 y' by simp
    show "al_uuid x = al_uuid x'" if e: "al_oid x = al_oid x'"
    proof (cases "x \<in> set xs")
      case True
      with oids [OF True] old(1) [OF y'(1)] y'(4) e have "x' \<in> set xs" by (cases "x' \<in> set xs") auto
      with True dist e have "x = x'" by (auto simp: distinct_map inj_on_def)
      then show ?thesis by simp
    next
      case False
      with y old(1) [OF y(1)] oids [of x'] e have "x' \<notin> set xs" by auto
      with False y y' e coherent_oid [OF coh y(1) y'(1)] show ?thesis by simp
    qed
  qed
  moreover have "distinct (map identity xs)" "distinct (map al_uuid xs)" using inv p(4,5) by (simp_all add: alerts_inv_def)
  ultimately show ?thesis
    using grows_policies [OF g'] inv by (simp add: alerts_inv_def)
qed

lemma process_alerts_inv:
  assumes "inj uuid4" and "env_ok uuid4 env" and "alerts_inv uuid4 st"
  shows "alerts_inv uuid4 (process_alerts env still st)"
proof -
  obtain xs st0 where a: "adopt (st_alerts st) st = (xs, st0)" by (cases "adopt (st_alerts st) st")
  have inv0: "alerts_inv uuid4 st0" using inv_oids [OF assms(3)] adopt_props(6) [OF a] by simp
  let ?st1 = "expire_alerts env (run_alerts env st0)"
  have inv1: "alerts_inv uuid4 ?st1" using expire_alerts_inv [OF run_alerts_inv [OF assms(1,2) inv0]] .
  have "grows st0 ?st1" using run_alerts_grows [OF assms(1,2) inv0] by (simp add: expire_alerts_def grows_def)
  from restore_inv [OF assms(3) a this] inv1 inv_cong [of "add_job SendAlerts ?st1" ?st1] assms(3) a show ?thesis
    by (simp add: process_alerts_def Let_def add_job_def)
qed

section \<open>Sending\<close>

lemma by_uuid_props:
  assumes "distinct (map al_uuid xs)"
  shows "by_uuid xs = map (\<lambda>a. (al_uuid a, a)) xs"
proof -
  have "fold (\<lambda>a. AList.update (al_uuid a) a) xs ys = ys @ map (\<lambda>a. (al_uuid a, a)) xs"
    if "distinct (map al_uuid xs)" "fst ` set ys \<inter> al_uuid ` set xs = {}" for xs and ys :: snapshot
    using that by (induction xs arbitrary: ys) (auto simp: update_new_append)
  from this [of xs "[]"] assms show ?thesis by (simp add: by_uuid_def)
qed

lemma receive_alerts_cases:
  assumes "receive_alerts name now xs p = (gone, new, p1)" and "distinct (map al_uuid xs)"
  shows "p1 = p \<and> gone = [] \<and> new = [] \<and> policy_key name now = last_key_value p \<or>
    policy_key name now \<noteq> last_key_value p \<and>
    p1 = \<lparr>last_key_value = policy_key name now, last_key_value_alerts = map (\<lambda>a. (al_uuid a, a)) xs\<rparr> \<and>
    gone = filter (\<lambda>a. al_uuid a \<notin> al_uuid ` set xs) (map snd (last_key_value_alerts p)) \<and>
    new = filter (\<lambda>a. al_uuid a \<notin> fst ` set (last_key_value_alerts p)) xs"
proof -
  have "map snd (map (\<lambda>a. (al_uuid a, a)) xs) = xs" by (simp add: comp_def)
  moreover have "fst ` set (map (\<lambda>a. (al_uuid a, a)) xs) = al_uuid ` set xs" by (simp add: image_image)
  ultimately show ?thesis
    using assms(1) unfolding receive_alerts_def Let_def by_uuid_props [OF assms(2)] by (auto split: if_splits)
qed

lemma receive_policy_ok:
  assumes "receive_alerts name now xs p = (gone, new, p1)" and "distinct (map al_uuid xs)" and "policy_ok p"
  shows "policy_ok p1" "snd ` set (last_key_value_alerts p1) \<subseteq> snd ` set (last_key_value_alerts p) \<union> set xs"
  using receive_alerts_cases [OF assms(1,2)] assms(2,3)
  by (auto simp: policy_ok_def comp_def image_image)

text \<open>Operations that touch neither the alerts nor the policies nor the supplies.\<close>

definition quiet :: "alert_state \<Rightarrow> alert_state \<Rightarrow> bool" where
  "quiet st st' \<longleftrightarrow> st_alerts st' = st_alerts st \<and> st_policies st' = st_policies st \<and> st_uuids st' = st_uuids st \<and> st_oids st' = st_oids st"

lemma quiet_refl [simp]: "quiet st st"
  by (simp add: quiet_def)

lemma quiet_trans: "quiet st st1 \<Longrightarrow> quiet st1 st2 \<Longrightarrow> quiet st st2"
  by (simp add: quiet_def)

lemma quiet_inv: "quiet st st' \<Longrightarrow> alerts_inv uuid4 st' \<longleftrightarrow> alerts_inv uuid4 st"
  by (rule inv_cong) (simp_all add: quiet_def)

lemma quiet_fold: "(\<And>x s. quiet s (f x s)) \<Longrightarrow> quiet st (fold f xs st)"
  by (induction xs arbitrary: st) (auto intro: quiet_trans)

lemma quiet_emit [simp]: "quiet st (emit e st)" and quiet_add_job [simp]: "quiet st (add_job j st)"
  by (simp_all add: quiet_def emit_def add_job_def)

lemma quiet_notify: "quiet st (notify_service env name gone new sv st)"
  by (auto simp: notify_service_def Let_def quiet_def split: prod.splits)

lemma quiet_proactive: "quiet st (proactive_support env gone new st)"
  by (auto simp: proactive_support_def Let_def quiet_def add_job_def split: option.splits)

lemma quiet_announce: "quiet st (announce env gone new st)"
proof -
  have "quiet st (fold (\<lambda>a. emit (f a)) xs st)" for f st and xs :: "alert list" by (rule quiet_fold) simp
  moreover have "quiet s (s\<lparr>st_mails := m\<rparr>)" for s m by (simp add: quiet_def)
  ultimately show ?thesis unfolding announce_def Let_def by (meson quiet_proactive quiet_trans)
qed

lemma set_policy_inv:
  assumes inv: "alerts_inv uuid4 st" and "name \<in> set POLICIES" and "policy_ok p"
    and "snd ` set (last_key_value_alerts p) \<subseteq> store st"
  shows "alerts_inv uuid4 (set_policy name p st)"
proof -
  let ?st = "set_policy name p st"
  have pol: "snd ` set (AList.update name p ps) \<subseteq> insert p (snd ` set ps)" for ps :: "(string \<times> alert_policy) list"
    by (induction ps) auto
  then have "store ?st \<subseteq> store st" using assms(4) by (force simp: store_def snapshots_def set_policy_def)
  moreover have "coherent uuid4 (st_uuids st) (st_oids st) (store st)" using inv by (simp add: alerts_inv_def)
  ultimately have "coherent uuid4 (st_uuids st) (st_oids st) (store ?st)" using coherent_mono by blast
  moreover have "map fst (AList.update name p (st_policies st)) = map fst (st_policies st)"
    using assms(2) inv by (simp add: update_keys alerts_inv_def)
  moreover have "\<forall>q \<in> snd ` set (st_policies ?st). policy_ok q"
  proof -
    have "\<forall>q \<in> insert p (snd ` set (st_policies st)). policy_ok q" using assms(3) inv by (simp add: alerts_inv_def)
    moreover have "st_policies ?st = AList.update name p (st_policies st)" by (simp add: set_policy_def)
    ultimately show ?thesis using pol [of "st_policies st"] by (metis subsetD)
  qed
  ultimately show ?thesis using inv by (simp add: alerts_inv_def set_policy_def)
qed

lemma policy_of_inv:
  assumes "alerts_inv uuid4 st" and "map_of (st_policies st) name = Some p"
  shows "policy_ok p" "name \<in> set POLICIES" "snd ` set (last_key_value_alerts p) \<subseteq> store st"
proof -
  have "(name, p) \<in> set (st_policies st)" using assms(2) by (rule map_of_SomeD)
  then have "p \<in> snd ` set (st_policies st)" "name \<in> set (map fst (st_policies st))" by force+
  then show "policy_ok p" "name \<in> set POLICIES" using assms(1) unfolding alerts_inv_def by auto
  show "snd ` set (last_key_value_alerts p) \<subseteq> store st"
    using \<open>p \<in> snd ` set (st_policies st)\<close> unfolding store_def snapshots_def by blast
qed

lemma send_policy_inv:
  assumes inv: "alerts_inv uuid4 st"
  shows "alerts_inv uuid4 (send_policy env name st)"
proof (cases "map_of (st_policies st) name")
  case (Some p)
  obtain gone new p1 where r: "receive_alerts name (e_now env) (st_alerts st) p = (gone, new, p1)"
    by (cases "receive_alerts name (e_now env) (st_alerts st) p")
  have d: "distinct (map al_uuid (st_alerts st))" using inv by (simp add: alerts_inv_def)
  note p = policy_of_inv [OF inv Some]
  have "snd ` set (last_key_value_alerts p1) \<subseteq> store st"
    using receive_policy_ok(2) [OF r d p(1)] p(3) by (auto simp: store_def)
  then have "alerts_inv uuid4 (set_policy name p1 st)"
    using set_policy_inv [OF inv p(2) receive_policy_ok(1) [OF r d p(1)]] by simp
  moreover have "quiet (set_policy name p1 st) (send_policy env name st)"
  proof -
    have n: "quiet s (fold (notify_service env k gone new) (e_services env) s)" for s k by (rule quiet_fold) (rule quiet_notify)
    then have "quiet s (announce env gone new (fold (notify_service env k gone new) (e_services env) s))" for s k
      using quiet_announce quiet_trans by blast
    with n Some r show ?thesis by (simp add: send_policy_def Let_def)
  qed
  ultimately show ?thesis by (simp add: quiet_inv)
qed (simp add: send_policy_def inv)

lemma send_alerts_inv: "alerts_inv uuid4 st \<Longrightarrow> alerts_inv uuid4 (send_alerts env st)"
proof -
  assume inv: "alerts_inv uuid4 st"
  have "alerts_inv uuid4 s \<Longrightarrow> alerts_inv uuid4 (fold (send_policy env) ns s)" for s ns
    by (induction ns arbitrary: s) (auto simp: send_policy_inv)
  then show ?thesis using inv inv_cong [of "st\<lparr>st_send_on_ready := True\<rparr>" st] by (simp add: send_alerts_def)
qed

section \<open>Dismissal\<close>

lemma set_object_tag:
  assumes inv: "alerts_inv uuid4 st" and "a \<in> set (st_alerts st)" and "tag b = tag a"
  shows "same_store st (set_object b st)"
proof (rule set_object_same)
  fix x assume "x \<in> store st" "al_oid x = al_oid b"
  moreover have coh: "coherent uuid4 (st_uuids st) (st_oids st) (store st)" using inv by (simp add: alerts_inv_def)
  moreover have a: "a \<in> store st" using assms(2) by (simp add: store_def)
  ultimately show "tag x = tag b"
    using coherent_oid [OF coh _ a, of x] coherent_uuid [OF coh _ a, of x] assms(3) by (simp add: tag_eq_iff)
qed

lemma set_object_inv:
  "alerts_inv uuid4 st \<Longrightarrow> a \<in> set (st_alerts st) \<Longrightarrow> tag b = tag a \<Longrightarrow> alerts_inv uuid4 (set_object b st)"
  using set_object_tag by (rule same_store_inv) (simp_all add: set_object_def map_policies_def)

lemma remove_eq_set: "set (remove_eq a xs) \<subseteq> set xs"
  by (induction xs) auto

lemma remove_eq_distinct: "distinct (map f xs) \<Longrightarrow> distinct (map f (remove_eq a xs))"
  by (induction xs) (auto dest: subsetD [OF remove_eq_set])

lemma policy_delete_ok: "policy_ok p \<Longrightarrow> policy_ok (policy_delete_alert a p)"
  by (auto simp: policy_ok_def policy_delete_alert_def AList.delete_eq distinct_map_filter)

lemma delete_on_dismiss_inv:
  assumes inv: "alerts_inv uuid4 st"
  shows "alerts_inv uuid4 (delete_on_dismiss a st)"
proof -
  let ?st = "map_policies (policy_delete_alert a) (st\<lparr>st_alerts := remove_eq a (st_alerts st)\<rparr>)"
  have "snapshots ?st \<subseteq> snapshots st"
  proof
    fix x assume "x \<in> snapshots ?st"
    then obtain n p u where "(n, p) \<in> set (st_policies st)" "(u, x) \<in> set (last_key_value_alerts (policy_delete_alert a p))"
      by (auto simp: snapshots_def map_policies_def)
    moreover from this(2) have "(u, x) \<in> set (last_key_value_alerts p)" by (auto simp: policy_delete_alert_def AList.delete_eq)
    ultimately show "x \<in> snapshots st" by (force simp: snapshots_def)
  qed
  moreover have "st_alerts ?st = remove_eq a (st_alerts st)" by (simp add: map_policies_def)
  ultimately have "store ?st \<subseteq> store st"
    unfolding store_def using remove_eq_set [of a "st_alerts st"] by (simp only:) (rule Un_mono)
  then have "coherent uuid4 (st_uuids st) (st_oids st) (store ?st)"
    using coherent_mono [of uuid4 "st_uuids st" "st_oids st" "store st" "store ?st"] inv by (simp add: alerts_inv_def)
  moreover have "map fst (st_policies ?st) = map fst (st_policies st)"
    by (simp add: map_policies_def comp_def case_prod_unfold)
  moreover have "distinct (map al_uuid (st_alerts ?st))" "distinct (map identity (st_alerts ?st))"
    using inv by (simp_all add: alerts_inv_def map_policies_def remove_eq_distinct)
  moreover have "\<forall>p \<in> snd ` set (st_policies ?st). policy_ok p"
    using inv policy_delete_ok by (auto simp: alerts_inv_def map_policies_def)
  moreover have "st_uuids ?st = st_uuids st" "st_oids ?st = st_oids st" by (simp_all add: map_policies_def)
  ultimately have "alerts_inv uuid4 ?st" using inv unfolding alerts_inv_def by metis
  moreover have "quiet ?st (delete_on_dismiss a st)" by (simp add: delete_on_dismiss_def Let_def)
  ultimately show ?thesis by (simp add: quiet_inv)
qed

lemma changed_quiet: "quiet st (changed env a st)"
  by (simp add: changed_def)

lemma flag_inv:
  assumes "alerts_inv uuid4 st" and "alert_by_uuid uuid st = Some a"
  shows "alerts_inv uuid4 (changed env (a\<lparr>al_dismissed := b\<rparr>) (set_object (a\<lparr>al_dismissed := b\<rparr>) st))"
proof -
  have "a \<in> set (st_alerts st)" using assms(2) by (auto simp: alert_by_uuid_def find_Some_iff)
  then have "alerts_inv uuid4 (set_object (a\<lparr>al_dismissed := b\<rparr>) st)"
    using set_object_inv [OF assms(1)] by (simp add: tag_def identity_def)
  then show ?thesis by (simp add: quiet_inv [OF changed_quiet])
qed

lemma dismiss_inv:
  assumes inv: "alerts_inv uuid4 st"
  shows "alerts_inv uuid4 (snd (dismiss env uuid st))"
proof -
  have "alerts_inv uuid4 s \<Longrightarrow> alerts_inv uuid4 (fold delete_on_dismiss xs s)" for s xs
    by (induction xs arbitrary: s) (auto simp: delete_on_dismiss_inv)
  then show ?thesis
    using inv delete_on_dismiss_inv flag_inv [OF inv, of uuid]
    by (auto simp: dismiss_def Let_def split: option.split sum.split)
qed

lemma restore_op_inv: "alerts_inv uuid4 st \<Longrightarrow> alerts_inv uuid4 (restore env uuid st)"
  using flag_inv by (auto simp: restore_def Let_def split: option.split)

section \<open>One-shot alerts\<close>

lemma add_oneshot_inv:
  assumes inj: "inj uuid4" and u: "e_uuid4 env = uuid4" and inv: "alerts_inv uuid4 st"
  shows "alerts_inv uuid4 (add_oneshot env a0 st)"
proof -
  let ?a = "a0\<lparr>al_source := Some [], al_node := Some (st_node st)\<rparr>"
  obtain xs st1 where ad: "adopt [?a] st = (xs, st1)" by (cases "adopt [?a] st")
  note p = adopt_props [OF ad]
  from adopt_nth(1) [OF ad] obtain b where xs: "xs = [b]" by (auto simp: length_Suc_conv)
  have inv1: "alerts_inv uuid4 st1" using inv_oids [OF inv] p(6) by simp
  obtain r st2 where h: "handle_alert env b st1 = (r, st2)" by (cases "handle_alert env b st1")
  note sp = handle_alert_spec [OF h]
  have ss: "same_store st1 st2" "st_uuids st1 \<le> st_uuids st2" using sp by auto
  have oid: "al_oid r = st_oids st" "st_oids st1 = Suc (st_oids st)" "store st1 = store st" using sp p(1,6) xs by auto
  have "(identity r, al_uuid r) \<in> known st1 \<or>
      identity r \<notin> fst ` known st1 \<and> al_uuid r = Some (uuid4 (st_uuids st1)) \<and> st_uuids st2 = Suc (st_uuids st1)"
    unfolding fst_known known_def using sp u by (auto intro: rev_image_eqI)
  then have hd: "handled uuid4 st1 st2 [r]" using ss unfolding handled_def by auto
  have "coherent uuid4 (st_uuids st2) (st_oids st2) (store st2 \<union> set [r])"
  proof (rule handled_coherent [OF inj inv1 hd])
    fix r' assume "r' \<in> set [r]"
    then have "al_oid r' = st_oids st" using oid by simp
    moreover have "x \<in> store st \<Longrightarrow> al_oid x < st_oids st" for x using inv unfolding alerts_inv_def coherent_def by blast
    ultimately show "al_oid r' < st_oids st1 \<and> (al_oid r' \<notin> al_oid ` store st1 \<or>
        (\<exists>a \<in> set (st_alerts st1). al_oid a = al_oid r' \<and> identity a = identity r'))" using oid by force
  qed simp
  moreover let ?st = "st2\<lparr>st_alerts := filter (\<lambda>b. al_uuid b \<noteq> al_uuid r) (st_alerts st2) @ [r]\<rparr>"
  have sub: "store ?st \<subseteq> store st2 \<union> set [r]" by (auto simp: store_def snapshots_def)
  ultimately have coh: "coherent uuid4 (st_uuids st2) (st_oids st2) (store ?st)"
    and cohr: "coherent uuid4 (st_uuids st2) (st_oids st2) (store st2 \<union> set [r])" using coherent_mono by blast+
  have inv2: "alerts_inv uuid4 st2" using handled_inv [OF hd inv1] .
  text \<open>An alert of the list that is the same alert has the same identifier and is replaced.\<close>
  have same: "al_uuid x = al_uuid r" if "x \<in> set (st_alerts st2)" "identity x = identity r" for x
  proof -
    have "known st2 = known st1" using known_same [OF ss(1)] .
    moreover have "(identity x, al_uuid x) \<in> known st2" using that(1) by (auto simp: known_def)
    moreover have "identity r \<in> fst ` known st2" using that unfolding fst_known by (metis imageI)
    ultimately have "(identity r, al_uuid r) \<in> known st2" using hd unfolding handled_def by auto
    then obtain y where "y \<in> set (st_alerts st2)" "identity y = identity r" "al_uuid y = al_uuid r" by (auto simp: known_def)
    moreover have "distinct (map identity (st_alerts st2))" using inv2 by (simp add: alerts_inv_def)
    ultimately show ?thesis using that by (metis distinct_map inj_onD)
  qed
  have dist: "distinct (map identity (filter (\<lambda>b. al_uuid b \<noteq> al_uuid r) (st_alerts st2) @ [r]))"
    using inv2 same by (auto simp: alerts_inv_def distinct_map_filter)
  have "coherent uuid4 (st_uuids st2) (st_oids st2) (set (filter (\<lambda>b. al_uuid b \<noteq> al_uuid r) (st_alerts st2) @ [r]))"
    by (rule coherent_mono [OF coh]) (auto simp: store_def)
  from distinct_uuids [OF this dist] dist have "alerts_inv uuid4 ?st" using coh inv2 by (simp add: alerts_inv_def)
  moreover have "add_oneshot env a0 st = add_job SendAlerts ?st" using ad xs h by (simp add: add_oneshot_def)
  ultimately show ?thesis by (simp add: quiet_inv [OF quiet_add_job])
qed

lemma oneshot_create_inv:
  "inj uuid4 \<Longrightarrow> e_uuid4 env = uuid4 \<Longrightarrow> alerts_inv uuid4 st \<Longrightarrow> alerts_inv uuid4 (snd (oneshot_create env kname args st))"
  using add_oneshot_inv by (auto simp: oneshot_create_def split: sum.split option.split)

lemma fold_remove_eq: "set (fold remove_eq gone xs) \<subseteq> set xs" "distinct (map f xs) \<Longrightarrow> distinct (map f (fold remove_eq gone xs))"
proof -
  show "set (fold remove_eq gone xs) \<subseteq> set xs"
    by (induction gone arbitrary: xs) (auto dest: subsetD [OF remove_eq_set])
  show "distinct (map f xs) \<Longrightarrow> distinct (map f (fold remove_eq gone xs))"
    by (induction gone arbitrary: xs) (simp_all add: remove_eq_distinct)
qed

lemma delete_class_inv:
  assumes "alerts_inv uuid4 (snd p)"
  shows "alerts_inv uuid4 (snd (snd (delete_class env query kname p)))"
proof -
  have "alerts_inv uuid4 (s\<lparr>st_alerts := fold remove_eq gone (st_alerts s)\<rparr>)" if "alerts_inv uuid4 s" for s gone
    using that fold_remove_eq(1) [of gone "st_alerts s"] fold_remove_eq(2) [of identity "st_alerts s" gone]
    by (intro inv_sub [OF that, of "fold remove_eq gone (st_alerts s)"]) (auto simp: alerts_inv_def)
  with assms show ?thesis by (auto simp: delete_class_def Let_def split: prod.split sum.split)
qed

lemma flush_quiet: "quiet st (flush_alerts env st)"
  by (simp add: flush_alerts_def quiet_def)

lemma oneshot_delete_inv: "alerts_inv uuid4 st \<Longrightarrow> alerts_inv uuid4 (snd (oneshot_delete env knames query st))"
proof -
  assume inv: "alerts_inv uuid4 st"
  have "alerts_inv uuid4 (snd p) \<Longrightarrow> alerts_inv uuid4 (snd (snd (run_seq (delete_class env query) ks p)))" for ks p
  proof (induction ks arbitrary: p)
    case (Cons k ks)
    obtain r q where d: "delete_class env query k p = (r, q)" by (cases "delete_class env query k p")
    with delete_class_inv [OF Cons.prems, of env query k] have "alerts_inv uuid4 (snd q)" by simp
    with Cons.IH d show ?case by (cases r) auto
  qed simp
  from this [of "(False, st)" knames] inv
  have "alerts_inv uuid4 (snd (snd (run_seq (delete_class env query) knames (False, st))))" by simp
  moreover have "quiet s (add_job SendAlerts (flush_alerts env s))" for s using flush_quiet quiet_add_job quiet_trans by blast
  then have q: "alerts_inv uuid4 (add_job SendAlerts (flush_alerts env s)) \<longleftrightarrow> alerts_inv uuid4 s" for s by (rule quiet_inv)
  obtain r d st1 where run: "run_seq (delete_class env query) knames (False, st) = (r, d, st1)"
    by (cases "run_seq (delete_class env query) knames (False, st)")
  ultimately show ?thesis by (cases r) (simp_all add: oneshot_delete_def q)
qed

section \<open>The alert service as a state machine\<close>

datatype alert_op =
    ProcessAlerts bool
  | SendAlertsOp
  | Dismiss string
  | Restore string
  | CreateOneshot string pyval
  | DeleteOneshot "string list" pyval
  | BlockSource string int
  | UnblockSource string
  | BlockFailover
  | ClearRun string
  | Flush
  | SystemReady

definition alert_run :: "alert_env \<Rightarrow> alert_op \<Rightarrow> alert_state \<Rightarrow> alert_state" where
  "alert_run env c st =
     (case c of
        ProcessAlerts still \<Rightarrow> process_alerts env still st
      | SendAlertsOp \<Rightarrow> send_alerts env st
      | Dismiss uuid \<Rightarrow> snd (dismiss env uuid st)
      | Restore uuid \<Rightarrow> restore env uuid st
      | CreateOneshot k args \<Rightarrow> snd (oneshot_create env k args st)
      | DeleteOneshot ks query \<Rightarrow> snd (oneshot_delete env ks query st)
      | BlockSource name timeout \<Rightarrow> snd (block_source env name timeout st)
      | UnblockSource lock \<Rightarrow> unblock_source lock st
      | BlockFailover \<Rightarrow> block_failover_alerts env st
      | ClearRun name \<Rightarrow> snd (alert_source_clear_run env name st)
      | Flush \<Rightarrow> flush_alerts env st
      | SystemReady \<Rightarrow> event_system st)"

definition alert_step :: "(nat \<Rightarrow> string) \<Rightarrow> alert_state \<Rightarrow> alert_state \<Rightarrow> bool" where
  "alert_step uuid4 st st' \<longleftrightarrow> inj uuid4 \<and> (\<exists>env c. env_ok uuid4 env \<and> st' = alert_run env c st)"

lemma block_source_inv:
  assumes "alerts_inv uuid4 st"
  shows "alerts_inv uuid4 (snd (block_source env name timeout st))"
proof -
  have "alerts_inv uuid4 (st\<lparr>st_uuids := Suc (st_uuids st)\<rparr>)"
    by (rule same_store_inv [OF _ _ assms]) simp_all
  then show ?thesis
    using assms by (auto simp: block_source_def Let_def alerts_inv_def store_def snapshots_def)
qed

lemma alert_run_inv:
  assumes "inj uuid4" and "env_ok uuid4 env" and "alerts_inv uuid4 st"
  shows "alerts_inv uuid4 (alert_run env c st)"
proof -
  have u: "e_uuid4 env = uuid4" using assms(2) by (simp add: env_ok_def)
  have "quiet st (block_failover_alerts env st)" "quiet st (snd (alert_source_clear_run env n st))" "quiet st (event_system st)" for n
    by (auto simp: quiet_def block_failover_alerts_def alert_source_clear_run_def event_system_def add_job_def)
  note q = this [THEN quiet_inv [of _ _ uuid4]]
  show ?thesis
    using process_alerts_inv [OF assms] send_alerts_inv [OF assms(3)] dismiss_inv [OF assms(3)] restore_op_inv [OF assms(3)]
      oneshot_create_inv [OF assms(1) u assms(3)] oneshot_delete_inv [OF assms(3)] block_source_inv [OF assms(3)]
      quiet_inv [OF flush_quiet] assms(3)
    by (cases c) (simp_all add: alert_run_def q)
qed

text \<open>Initial states: what \<open>initialize\<close> makes of a table of different alerts with identifiers from the supply.\<close>

definition table_ok :: "(nat \<Rightarrow> string) \<Rightarrow> alert_env \<Rightarrow> alert_state \<Rightarrow> bool" where
  "table_ok uuid4 env st \<longleftrightarrow>
     distinct (map identity (load_alerts env (st_db st))) \<and>
     (\<forall>a \<in> set (load_alerts env (st_db st)). \<exists>i < st_uuids st. al_uuid a = Some (uuid4 i))"

definition alert_start :: "(nat \<Rightarrow> string) \<Rightarrow> alert_state \<Rightarrow> bool" where
  "alert_start uuid4 st \<longleftrightarrow> (\<exists>env load st0. table_ok uuid4 env st0 \<and> st = initialize env load st0)"

section \<open>A small system\<close>

text \<open>One source that reports an exceeded quota every time it is asked, and a service without alerts; for the witnesses.\<close>

definition demo_class :: alert_class where
  "demo_class = \<lparr>kl_name = ''QuotaExceeded'', kl_level = WARNING, kl_title = ''Quota Exceeded'', kl_text = None,
     kl_products = [''ENTERPRISE''], kl_proactive_support = False, kl_proactive_support_notify_gone = False, kl_one_shot = True,
     kl_deleted_automatically = True, kl_expires_after = None, kl_dismissable = False\<rparr>"

definition demo_alert :: alert where
  "demo_alert = (new_alert (\<lambda>v. ''key'') demo_class VNone)\<lparr>al_datetime := Some 0\<rparr>"

definition demo_source :: alert_source where
  "demo_source = \<lparr>so_name = ''Quota'', so_products = [''ENTERPRISE''], so_failover_related = False, so_run_on_backup_node = False,
     so_schedule = IntervalSchedule 0, so_check = Checked [demo_alert], so_run_time = 0, so_remote = RemoteRows []\<rparr>"

definition demo_env :: "int \<Rightarrow> alert_env" where
  "demo_env now = \<lparr>e_now = now, e_monotonic = now, e_ready = True, e_enterprise = True,
     e_failover = \<lparr>fo_licensed = False, fo_node = ''A'', fo_status = ''SINGLE'', fo_in_progress = False, fo_remote_ok = None\<rparr>,
     e_product_type = ''ENTERPRISE'', e_classes = [], e_class_by_name = [(''QuotaExceeded'', demo_class)],
     e_sources = [demo_source], e_services = [], e_support_available = False, e_ticket_failed = None, e_unavailable_errno = 0,
     e_uuid4 = str_of_nat, e_utcoffset = (\<lambda>_. 0), e_dumps = (\<lambda>v. ''key''),
     e_create = (\<lambda>k args. Inr (Some demo_alert)), e_delete = (\<lambda>k xs q. Inr []), e_dismiss = (\<lambda>k xs a. Inr [])\<rparr>"

definition demo_state :: alert_state where
  "demo_state = \<lparr>st_node = ''A'', st_alerts = [], st_policies = [], st_last_run = (\<lambda>_. DATETIME_MIN), st_blocked_sources = (\<lambda>_. {}),
     st_sources_locks = [], st_blocked_failover_until = 0, st_sources_errors = {},
     st_run_times = (\<lambda>_. \<lparr>rs_last = [], rs_max = 0, rs_total_count = 0, rs_total_time = 0\<rparr>), st_send_on_ready = False,
     st_events = [], st_sent = [], st_mails = [], st_tickets = [], st_jobs = [], st_db = [], st_uuids = 0, st_oids = 0\<rparr>"

abbreviation demo_start :: alert_state where
  "demo_start \<equiv> initialize (demo_env 1) True demo_state"

lemma demo_ok: "inj str_of_nat" "env_ok str_of_nat (demo_env now)" "table_ok str_of_nat (demo_env now) demo_state"
  by (simp_all add: inj_def str_of_nat_inj env_ok_def demo_env_def demo_source_def remote_ok_def table_ok_def demo_state_def
      load_alerts_def map_filter_def by_class_def)

lemma demo_start: "alert_start str_of_nat demo_start"
  unfolding alert_start_def using demo_ok(3) by blast

lemma demo_env_sel [simp]:
  "e_now (demo_env n) = n" "e_monotonic (demo_env n) = n" "e_ready (demo_env n)" "e_product_type (demo_env n) = ''ENTERPRISE''"
  "e_classes (demo_env n) = []" "e_class_by_name (demo_env n) = [(''QuotaExceeded'', demo_class)]" "e_sources (demo_env n) = [demo_source]"
  "e_uuid4 (demo_env n) = str_of_nat" "e_services (demo_env n) = []" "e_enterprise (demo_env n)"
  "should_run_or_send_alerts (demo_env n)" "fo_licensed (e_failover (demo_env n)) = False" "initial_node (demo_env n) = ''A''"
  "get_failover_info (demo_env n) st = \<lparr>this_node = ''A'', other_node = ''B'', run_on_backup_node = False, run_failover_related = False\<rparr>"
  by (simp_all add: demo_env_def should_run_or_send_alerts_def get_failover_info_def Let_def initial_node_def)

lemma demo_source_sel [simp]:
  "so_name demo_source = ''Quota''" "so_products demo_source = [''ENTERPRISE'']" "so_failover_related demo_source = False"
  "so_run_on_backup_node demo_source = False" "so_schedule demo_source = IntervalSchedule 0" "so_check demo_source = Checked [demo_alert]"
  by (simp_all add: demo_source_def)

definition demo_seen :: "nat \<Rightarrow> int \<Rightarrow> alert" where
  "demo_seen oid now = demo_alert\<lparr>al_oid := oid, al_uuid := Some (str_of_nat 0), al_source := Some ''Quota'',
     al_last_occurrence := Some now, al_node := Some ''A''\<rparr>"

lemma demo_seen_expires [simp]: "should_expire_alert (demo_env n) (demo_seen i now) = False"
  by (simp add: should_expire_alert_def demo_seen_def demo_alert_def new_alert_def demo_class_def)

lemma demo_start_fields [simp]:
  "st_alerts demo_start = []" "st_oids demo_start = 0" "st_uuids demo_start = 0" "st_sources_locks demo_start = []"
  "st_blocked_sources demo_start = (\<lambda>_. {})" "st_last_run demo_start = (\<lambda>_. DATETIME_MIN)"
  "st_policies demo_start = [(''IMMEDIATELY'', \<lparr>last_key_value = Some 1, last_key_value_alerts = []\<rparr>),
     (''HOURLY'', \<lparr>last_key_value = Some 0, last_key_value_alerts = []\<rparr>),
     (''DAILY'', \<lparr>last_key_value = Some 0, last_key_value_alerts = []\<rparr>), (''NEVER'', new_policy)]"
  by (simp_all add: initialize_def Let_def demo_state_def adopt_def load_alerts_def map_filter_def by_class_def POLICIES_def receive_alerts_def
     policy_key_def HOUR_def by_uuid_def new_policy_def)

lemma demo_alert_sel: "al_datetime demo_alert = Some 0" "al_dismissed demo_alert = False" "al_key demo_alert = ''key''"
  by (simp_all add: demo_alert_def new_alert_def)

lemma identity_seen [simp]: "identity (demo_seen i m) = (Some ''A'', Some ''Quota'', demo_class, ''key'')"
  by (simp add: identity_def demo_seen_def demo_alert_def new_alert_def)

lemma demo_process:
  assumes "st_alerts st = [] \<and> st_uuids st = 0 \<or> (\<exists>i m. st_alerts st = [demo_seen i m])"
    and "st_last_run st ''Quota'' \<le> n" and "st_sources_locks st = []" and "st_blocked_sources st = (\<lambda>_. {})"
  shows "st_alerts (process_alerts (demo_env n) True st) = [demo_seen (st_oids st + length (st_alerts st)) n]"
proof -
  let ?a = "\<lambda>i. demo_alert\<lparr>al_source := Some ''Quota'', al_oid := i\<rparr>"
  have h: "fst (handle_on_node (demo_env n) ''A'' (?a i) s) = demo_seen i n \<and>
      filter (\<lambda>a. al_source a \<noteq> Some ''Quota'') (st_alerts (snd (handle_on_node (demo_env n) ''A'' (?a i) s))) = []"
    if "st_alerts s = [] \<and> st_uuids s = 0 \<or> (\<exists>i m. st_alerts s = [demo_seen i m])" for s i
  proof -
    have "al_klass demo_alert = demo_class" "al_key demo_alert = ''key''" by (simp_all add: demo_alert_def new_alert_def)
    with that show ?thesis
      by (elim disjE exE conjE; simp add: handle_on_node_def handle_alert_def ident_on_def set_object_def map_policies_def set_in_def)
        (simp_all add: demo_seen_def demo_alert_def new_alert_def)
  qed
  show ?thesis
    by (simp add: process_alerts_def adopt_def Let_def run_alerts_def expire_locks_def expire_alerts_def add_job_def assms)
      (simp add: run_alert_source_def Let_def source_alerts_def handle_locked_alert_source_def run_source_def adopt_def
        case_prod_unfold h assms)
qed
lemma demo_process_fields:
  "st_sources_locks (process_alerts (demo_env 2) True demo_start) = [] \<and>
   st_blocked_sources (process_alerts (demo_env 2) True demo_start) = (\<lambda>_. {}) \<and>
   st_last_run (process_alerts (demo_env 2) True demo_start) ''Quota'' = 2"
proof -
  have h: "st_sources_locks (snd (handle_on_node env node a s)) = st_sources_locks s \<and>
      st_blocked_sources (snd (handle_on_node env node a s)) = st_blocked_sources s \<and>
      st_last_run (snd (handle_on_node env node a s)) = st_last_run s" for env node a s
    by (simp add: handle_on_node_def handle_alert_def set_object_def map_policies_def split: option.split)
  show ?thesis
    by (simp add: process_alerts_def adopt_def Let_def run_alerts_def expire_locks_def expire_alerts_def add_job_def)
      (simp add: run_alert_source_def Let_def source_alerts_def handle_locked_alert_source_def run_source_def adopt_def
        case_prod_unfold h DATETIME_MIN_def)
qed

end
