(* ===== verification/AlertEvents.thy ===== *)
theory AlertEvents
  imports AlertsInv
begin

text \<open>
  The properties of alerts: the invariant in all reachable states, what subscribers see, what the
  policies report, which alerts survive a run of their source, blocking, and the table.
\<close>

section \<open>Loading the table\<close>

lemma mset_by_class: "mset (concat (map snd (by_class xs))) = mset xs"
proof -
  define f where "f = (\<lambda>a (m :: (string \<times> alert list) list).
      AList.update (kl_name (al_klass a)) (dict_get m (kl_name (al_klass a)) [] @ [a]) m)"
  have upd: "distinct (map fst m) \<Longrightarrow> mset (concat (map snd (AList.update k (dict_get m k [] @ [a]) m))) = add_mset a (mset (concat (map snd m)))"
    for k a and m :: "(string \<times> alert list) list"
  proof (induction m)
    case (Cons p m)
    obtain l ys where p: "p = (l, ys)" by (cases p)
    show ?case
    proof (cases "l = k")
      case True
      with Cons.prems have "k \<notin> fst ` set m" by (auto simp: p)
      then show ?thesis using True by (simp add: p)
    next
      case False
      with Cons show ?thesis by (simp add: p)
    qed
  qed simp
  have "mset (concat (map snd (fold f xs m))) = mset (concat (map snd m)) + mset xs" if "distinct (map fst m)" for m
    using that
  proof (induction xs arbitrary: m)
    case (Cons a xs)
    have "distinct (map fst (f a m))" unfolding f_def by (rule AList.distinct_update [OF Cons.prems])
    from Cons.IH [OF this] upd [OF Cons.prems] show ?case by (simp add: f_def)
  qed simp
  from this [of "[]"] show ?thesis by (simp add: by_class_def f_def)
qed

lemma unique_uuids_props:
  "distinct (map al_uuid (unique_uuids us xs)) \<and> set (map al_uuid (unique_uuids us xs)) \<inter> us = {}"
  by (induction xs arbitrary: us) auto

lemma distinct_mset_map: "mset xs = mset ys \<Longrightarrow> distinct (map f xs) \<longleftrightarrow> distinct (map f ys)"
  by (metis mset_eq_imp_distinct_iff mset_map)

lemma load_alerts_uuids: "distinct (map al_uuid (load_alerts env db))"
  unfolding load_alerts_def using distinct_mset_map [OF mset_by_class] unique_uuids_props by blast

lemma fresh_policies_inv:
  assumes "distinct (map identity xs)" and "distinct (map al_uuid xs)" and "distinct (map al_oid xs)"
    and "\<forall>a \<in> set xs. al_oid a < st_oids st \<and> (\<exists>i < st_uuids st. al_uuid a = Some (uuid4 i))"
    and "st_alerts st = xs"
    and "st_policies st = map (\<lambda>n. (n, snd (snd (receive_alerts n now xs new_policy)))) POLICIES"
  shows "alerts_inv uuid4 st"
proof -
  let ?p = "\<lambda>n. snd (snd (receive_alerts n now xs new_policy))"
  have p: "policy_ok (?p n) \<and> snd ` set (last_key_value_alerts (?p n)) \<subseteq> set xs" for n
  proof -
    obtain gone new p1 where r: "receive_alerts n now xs new_policy = (gone, new, p1)"
      by (cases "receive_alerts n now xs new_policy")
    have "policy_ok new_policy" "last_key_value_alerts new_policy = []" by (simp_all add: policy_ok_def new_policy_def)
    with receive_policy_ok [OF r assms(2)] show ?thesis by (simp add: r)
  qed
  then have "snapshots st \<subseteq> set xs" unfolding snapshots_def assms(6) by (auto simp: subset_iff)
  then have "store st = set xs" by (auto simp: store_def assms(5))
  moreover have "x = y" if "x \<in> set xs" "y \<in> set xs" "al_oid x = al_oid y \<or> al_uuid x = al_uuid y" for x y
    using that assms(2,3) by (auto simp: distinct_map inj_on_def)
  ultimately have "coherent uuid4 (st_uuids st) (st_oids st) (store st)"
    using assms(4) unfolding coherent_def by metis
  moreover have "\<forall>p \<in> snd ` set (st_policies st). policy_ok p" using p by (auto simp: assms(6))
  moreover have "map fst (st_policies st) = POLICIES" by (simp add: assms(6) comp_def)
  ultimately show ?thesis using assms(1,2,5) by (simp add: alerts_inv_def)
qed

lemma start_inv:
  assumes "table_ok uuid4 env st0"
  shows "alerts_inv uuid4 (initialize env load st0)"
proof (cases load)
  case True
  let ?st1 = "st0\<lparr>st_node := initial_node env, st_alerts := []\<rparr>"
  obtain xs st' where a: "adopt (load_alerts env (st_db st0)) ?st1 = (xs, st')"
    by (cases "adopt (load_alerts env (st_db st0)) ?st1")
  note p = adopt_props [OF a]
  have "distinct (map identity xs)" "distinct (map al_uuid xs)" "distinct (map al_oid xs)"
    using assms load_alerts_uuids unfolding p(1,4,5) table_ok_def by simp_all
  moreover have "\<forall>a \<in> set xs. al_oid a < st_oids st' \<and> (\<exists>i < st_uuids st'. al_uuid a = Some (uuid4 i))"
  proof
    fix x assume x: "x \<in> set xs"
    then have "al_oid x \<in> set (map al_oid xs)" "al_uuid x \<in> set (map al_uuid xs)" by simp_all
    then show "al_oid x < st_oids st' \<and> (\<exists>i < st_uuids st'. al_uuid x = Some (uuid4 i))"
      using assms unfolding p(1,5) by (auto simp: p(6) table_ok_def)
  qed
  ultimately show ?thesis
    using True a by (intro fresh_policies_inv [of xs, where now = "e_now env"]) (simp_all add: initialize_def Let_def)
next
  case False
  then show ?thesis
    by (intro fresh_policies_inv [of "[]", where now = "e_now env"]) (simp_all add: initialize_def Let_def flush_alerts_def)
qed

interpretation alerts: inductive_invariant "alert_start uuid4" "alert_step uuid4" "alerts_inv uuid4" for uuid4
  by unfold_locales (auto simp: alert_start_def alert_step_def start_inv alert_run_inv)

abbreviation alert_reachable :: "(nat \<Rightarrow> string) \<Rightarrow> alert_state \<Rightarrow> bool" where
  "alert_reachable uuid4 \<equiv> reach (alert_start uuid4) (alert_step uuid4)"

lemma demo_reached: "alert_reachable str_of_nat demo_start" "alert_reachable str_of_nat (process_alerts (demo_env 2) True demo_start)"
proof -
  show r: "alert_reachable str_of_nat demo_start" by (rule reach_init) (rule demo_start)
  have "alert_step str_of_nat demo_start (alert_run (demo_env 2) (ProcessAlerts True) demo_start)"
    using demo_ok(1,2) unfolding alert_step_def by blast
  from reach_step [OF r this] show "alert_reachable str_of_nat (process_alerts (demo_env 2) True demo_start)"
    by (simp add: alert_run_def)
qed

section \<open>The invariant\<close>

text \<open>C12. In every reachable state of the alert service, whatever the sources, the other node and the
  classes answered, two current alerts have different identifiers and are different alerts (they differ
  in node, source, class or key), and an identifier that a policy has reported belongs to the same alert
  in the current list.\<close>

theorem alerts_unique:
  assumes "alert_reachable uuid4 st"
  shows "distinct (map al_uuid (st_alerts st)) \<and> distinct (map identity (st_alerts st)) \<and>
    (\<forall>a \<in> set (st_alerts st). \<forall>b \<in> snapshots st. al_uuid a = al_uuid b \<longrightarrow> identity a = identity b)"
  using alerts.reach_inv [OF assms] unfolding alerts_inv_def coherent_def store_def by blast

theorem alerts_unique_witness:
  "distinct (map al_uuid (st_alerts (process_alerts (demo_env 2) True demo_start))) \<and>
   length (st_alerts (process_alerts (demo_env 2) True demo_start)) = 1"
  using alerts_unique [OF demo_reached(2)] by (simp add: demo_process DATETIME_MIN_def)

section \<open>Subscribers\<close>

text \<open>What a client of \<open>alert.list\<close> that follows the events has in its list.\<close>

primrec see :: "alert_event \<Rightarrow> string set \<Rightarrow> string set" where
  "see (Added u a) V = insert u V"
| "see (Changed u a) V = V"
| "see (Removed u) V = V - {u}"

text \<open>The abstract state: the identifiers of the alerts reported by the policy \<open>IMMEDIATELY\<close> that are shown.\<close>

definition reported :: "alert_state \<Rightarrow> snapshot" where
  "reported st = (case map_of (st_policies st) ''IMMEDIATELY'' of Some p \<Rightarrow> last_key_value_alerts p | None \<Rightarrow> [])"

definition visible :: "alert_env \<Rightarrow> alert_state \<Rightarrow> string set" where
  "visible env st = id_of ` {a \<in> snd ` set (reported st). should_show_alert env a}"

text \<open>It is a function of the tags of the snapshot.\<close>

definition shown_class :: "alert_env \<Rightarrow> alert_class \<Rightarrow> bool" where
  "shown_class env k \<longleftrightarrow> e_product_type env \<in> set (kl_products k) \<and>
     \<not> (\<exists>c. map_of (e_classes env) (kl_name k) = Some c \<and> cc_policy c = Some ''NEVER'')"

lemma should_show_class: "should_show_alert env a \<longleftrightarrow> shown_class env (al_klass a)"
  by (auto simp: should_show_alert_def shown_class_def class_of_def split: option.splits)

definition tag_id :: "tag \<Rightarrow> string" where
  "tag_id t = (case fst (snd t) of Some u \<Rightarrow> u | None \<Rightarrow> ''None'')"

definition tag_class :: "tag \<Rightarrow> alert_class" where
  "tag_class t = fst (snd (snd (snd (snd t))))"

lemma tag_selectors [simp]: "tag_id (tag a) = id_of a" "tag_class (tag a) = al_klass a"
  by (simp_all add: tag_id_def tag_class_def tag_def id_of_def identity_def)

lemma visible_tags:
  "visible env st = tag_id ` {t \<in> snd ` set (map (\<lambda>(u, a). (u, tag a)) (reported st)). shown_class env (tag_class t)}"
proof -
  have "{t \<in> snd ` set (map (\<lambda>(u, a). (u, tag a)) (reported st)). shown_class env (tag_class t)}
      = tag ` {a \<in> snd ` set (reported st). shown_class env (al_klass a)}" by force
  then show ?thesis by (simp add: visible_def should_show_class image_image)
qed

lemma reported_tags:
  "map (\<lambda>(u, a). (u, tag a)) (reported st) =
     (case map_of (map (\<lambda>(n, p). (n, policy_tags p)) (st_policies st)) ''IMMEDIATELY'' of Some ts \<Rightarrow> ts | None \<Rightarrow> [])"
  by (auto simp: reported_def map_of_map policy_tags_def split: option.splits)

lemma visible_same:
  assumes "map (\<lambda>(n, p). (n, policy_tags p)) (st_policies st') = map (\<lambda>(n, p). (n, policy_tags p)) (st_policies st)"
  shows "visible env st' = visible env st"
  unfolding visible_tags reported_tags assms ..

text \<open>A step that follows: its events lead from what was visible to what is.\<close>

definition follows :: "alert_env \<Rightarrow> alert_state \<Rightarrow> alert_state \<Rightarrow> bool" where
  "follows env st st' \<longleftrightarrow> (\<exists>es. st_events st' = st_events st @ es \<and> fold see es (visible env st) = visible env st')"

lemma follows_refl [simp]: "follows env st st"
  by (auto simp: follows_def)

lemma follows_trans: "follows env st st1 \<Longrightarrow> follows env st1 st2 \<Longrightarrow> follows env st st2"
  by (fastforce simp: follows_def)

lemma follows_silent:
  assumes "st_events st' = st_events st"
    and "map (\<lambda>(n, p). (n, policy_tags p)) (st_policies st') = map (\<lambda>(n, p). (n, policy_tags p)) (st_policies st)"
  shows "follows env st st'"
  unfolding follows_def assms(1) visible_same [OF assms(2)] by (rule exI [of _ "[]"]) simp

lemma see_removed: "fold see (map (\<lambda>a. Removed (id_of a)) xs) V = V - id_of ` set xs"
  by (induction xs arbitrary: V) auto

lemma see_added: "fold see (map (\<lambda>a. Added (id_of a) a) xs) V = V \<union> id_of ` set xs"
  by (induction xs arbitrary: V) auto

lemma fold_emit: "st_events (fold (\<lambda>a. emit (f a)) xs st) = st_events st @ map f xs"
  by (induction xs arbitrary: st) (auto simp: emit_def)

lemma announce_events:
  "st_events (announce env gone new st) = st_events st @
     map (\<lambda>a. Removed (id_of a)) (filter (should_show_alert env) gone) @
     map (\<lambda>a. Added (id_of a) a) (filter (should_show_alert env) new)"
proof -
  have j: "st_events (case t of None \<Rightarrow> s | Some x \<Rightarrow> add_job (f x) s) = st_events s" for t f and s :: alert_state
    by (cases t) (simp_all add: add_job_def)
  have p: "st_events (proactive_support env gone new s) = st_events s" for s
    unfolding proactive_support_def Let_def if_distrib [of st_events] j by simp
  show ?thesis unfolding announce_def Let_def p by (simp add: fold_emit)
qed

lemma notify_events: "st_events (fold (notify_service env name gone new) svs st) = st_events st"
proof (induction svs arbitrary: st)
  case (Cons sv svs)
  have "st_events (notify_service env name gone new sv st) = st_events st"
    by (auto simp: notify_service_def Let_def split: prod.splits)
  with Cons show ?case by simp
qed simp

lemma set_policy_reported:
  "reported (set_policy name p st) = (if name = ''IMMEDIATELY'' then last_key_value_alerts p else reported st)"
  by (simp add: reported_def set_policy_def map_of_update)

lemma id_of_Some: "al_uuid a = Some u \<Longrightarrow> id_of a = u"
  by (simp add: id_of_def)

text \<open>What the policy reports as gone and new turns the old snapshot into the new one.\<close>

lemma receive_visible:
  assumes inv: "alerts_inv uuid4 st" and p: "map_of (st_policies st) ''IMMEDIATELY'' = Some p"
    and r: "receive_alerts ''IMMEDIATELY'' now (st_alerts st) p = (gone, new, p1)"
  shows "id_of ` {a \<in> snd ` set (last_key_value_alerts p1). should_show_alert env a} =
    (visible env st - id_of ` {a \<in> set gone. should_show_alert env a}) \<union> id_of ` {a \<in> set new. should_show_alert env a}"
proof -
  have d: "distinct (map al_uuid (st_alerts st))" using inv by (simp add: alerts_inv_def)
  have rep: "reported st = last_key_value_alerts p" by (simp add: reported_def p)
  consider "p1 = p" "gone = []" "new = []"
    | "last_key_value_alerts p1 = map (\<lambda>a. (al_uuid a, a)) (st_alerts st)"
      "gone = filter (\<lambda>a. al_uuid a \<notin> al_uuid ` set (st_alerts st)) (map snd (last_key_value_alerts p))"
      "new = filter (\<lambda>a. al_uuid a \<notin> fst ` set (last_key_value_alerts p)) (st_alerts st)"
    using receive_alerts_cases [OF r d] by auto
  then show ?thesis
  proof cases
    case 1
    then show ?thesis by (simp add: visible_def rep)
  next
    case 2
    let ?S = "snd ` set (last_key_value_alerts p)" and ?A = "set (st_alerts st)"
    have A: "snd ` set (last_key_value_alerts p1) = ?A" unfolding 2(1) by (force simp: image_image)
    have keys: "fst ` set (last_key_value_alerts p) = al_uuid ` ?S"
      using policy_of_inv(1) [OF inv p] by (force simp: policy_ok_def image_iff)
    have coh: "coherent uuid4 (st_uuids st) (st_oids st) (store st)" using inv by (simp add: alerts_inv_def)
    have S: "?S \<subseteq> store st" "?A \<subseteq> store st" using policy_of_inv(3) [OF inv p] by (auto simp: store_def)
    have uu: "al_uuid x = al_uuid y" if "id_of x = id_of y" "x \<in> store st" "y \<in> store st" for x y
      using that coh unfolding coherent_def by (metis id_of_Some)
    have same: "should_show_alert env x \<longleftrightarrow> should_show_alert env y" if "x \<in> store st" "y \<in> store st" "al_uuid x = al_uuid y" for x y
      using coherent_uuid [OF coh that] by (simp add: should_show_class identity_def)
    have gone: "set gone = {a \<in> ?S. al_uuid a \<notin> al_uuid ` ?A}" and new: "set new = {a \<in> ?A. al_uuid a \<notin> al_uuid ` ?S}"
      by (auto simp: 2 keys)
    show ?thesis unfolding A visible_def rep gone new
    proof (rule set_eqI)
      fix u
      show "u \<in> id_of ` {a \<in> ?A. should_show_alert env a} \<longleftrightarrow>
        u \<in> id_of ` {a \<in> ?S. should_show_alert env a} - id_of ` {a \<in> {a \<in> ?S. al_uuid a \<notin> al_uuid ` ?A}. should_show_alert env a}
          \<union> id_of ` {a \<in> {a \<in> ?A. al_uuid a \<notin> al_uuid ` ?S}. should_show_alert env a}"
      proof (intro iffI)
        assume "u \<in> id_of ` {a \<in> ?A. should_show_alert env a}"
        then obtain a where a: "a \<in> ?A" "should_show_alert env a" "u = id_of a" by blast
        show "u \<in> id_of ` {a \<in> ?S. should_show_alert env a} - id_of ` {a \<in> {a \<in> ?S. al_uuid a \<notin> al_uuid ` ?A}. should_show_alert env a}
          \<union> id_of ` {a \<in> {a \<in> ?A. al_uuid a \<notin> al_uuid ` ?S}. should_show_alert env a}"
        proof (cases "al_uuid a \<in> al_uuid ` ?S")
          case True
          then obtain b where b: "b \<in> ?S" "al_uuid a = al_uuid b" by (rule imageE)
          then have "should_show_alert env b" "id_of b = u" using same [of a b] a S by (auto simp: id_of_def)
          moreover have "al_uuid c \<in> al_uuid ` ?A" if "c \<in> ?S" "id_of c = u" for c
            using uu [of c a] that a S by (metis imageI subsetD)
          ultimately show ?thesis using b(1) by blast
        next
          case False
          with a show ?thesis by blast
        qed
      next
        assume "u \<in> id_of ` {a \<in> ?S. should_show_alert env a} - id_of ` {a \<in> {a \<in> ?S. al_uuid a \<notin> al_uuid ` ?A}. should_show_alert env a}
          \<union> id_of ` {a \<in> {a \<in> ?A. al_uuid a \<notin> al_uuid ` ?S}. should_show_alert env a}"
        then consider a where "a \<in> ?A" "should_show_alert env a" "u = id_of a"
          | b where "b \<in> ?S" "should_show_alert env b" "u = id_of b" "al_uuid b \<in> al_uuid ` ?A" by blast
        then show "u \<in> id_of ` {a \<in> ?A. should_show_alert env a}"
        proof cases
          case 2
          then obtain a where a: "a \<in> ?A" "al_uuid b = al_uuid a" by blast
          then have "should_show_alert env a" "id_of a = u" using same [of b a] 2 S by (auto simp: id_of_def)
          with a(1) show ?thesis by blast
        qed blast
      qed
    qed
  qed
qed

lemma send_policy_follows:
  assumes inv: "alerts_inv uuid4 st"
  shows "follows env st (send_policy env name st)"
proof (cases "map_of (st_policies st) name")
  case (Some p)
  obtain gone new p1 where r: "receive_alerts name (e_now env) (st_alerts st) p = (gone, new, p1)"
    by (cases "receive_alerts name (e_now env) (st_alerts st) p")
  let ?st1 = "fold (notify_service env name gone new) (e_services env) (set_policy name p1 st)"
  have q: "quiet (set_policy name p1 st) ?st1" by (rule quiet_fold) (rule quiet_notify)
  have ev: "st_events ?st1 = st_events st" by (simp add: notify_events set_policy_def)
  have pol: "st_policies s = st_policies (set_policy name p1 st) \<Longrightarrow>
      visible env s = id_of ` {a \<in> snd ` set (reported (set_policy name p1 st)). should_show_alert env a}" for s
    by (simp add: visible_def reported_def)
  show ?thesis
  proof (cases "name = ''IMMEDIATELY''")
    case True
    have st': "send_policy env name st = announce env gone new ?st1" using Some r True by (simp add: send_policy_def Let_def)
    then have "st_policies (send_policy env name st) = st_policies (set_policy name p1 st)"
      using q quiet_announce [of ?st1 env gone new] by (simp add: quiet_def)
    note v = pol [OF this, unfolded set_policy_reported]
    show ?thesis
      unfolding follows_def st' announce_events ev
      by (rule exI, rule conjI [OF refl])
        (use receive_visible [OF inv, of p "e_now env" gone new p1 env] Some r True v st' in
          \<open>simp add: see_removed see_added\<close>)
  next
    case False
    then have st': "send_policy env name st = ?st1" using Some r by (simp add: send_policy_def Let_def)
    have "visible env ?st1 = visible env st"
      using pol [of ?st1] q False by (simp add: quiet_def set_policy_reported visible_def)
    then show ?thesis unfolding st' follows_def ev by (intro exI [of _ "[]"]) simp
  qed
qed (simp add: send_policy_def)

lemma send_alerts_follows:
  assumes "alerts_inv uuid4 st"
  shows "follows env st (send_alerts env st)"
proof -
  have "alerts_inv uuid4 s \<Longrightarrow> follows env s (fold (send_policy env) ns s)" for s ns
  proof (induction ns arbitrary: s)
    case (Cons n ns)
    from Cons.IH [OF send_policy_inv [OF Cons.prems]] send_policy_follows [OF Cons.prems] follows_trans show ?case by force
  qed simp
  then show ?thesis using assms by (auto simp: send_alerts_def intro: follows_silent)
qed

text \<open>Dismissal.\<close>

lemma alert_eq_uuid: "alert_eq b a \<Longrightarrow> al_uuid b = al_uuid a"
  unfolding alert_eq_def by (cases a, cases b) simp

lemma remove_eq_distinct_uuid:
  assumes "distinct (map al_uuid xs)" and "a \<in> set xs"
  shows "remove_eq a xs = filter (\<lambda>b. al_uuid b \<noteq> al_uuid a) xs"
  using assms
proof (induction xs)
  case (Cons b xs)
  show ?case
  proof (cases "b = a")
    case True
    with Cons.prems have "\<forall>c \<in> set xs. al_uuid c \<noteq> al_uuid a" by (auto simp: image_iff)
    with True show ?thesis by (simp add: alert_eq_def)
  next
    case False
    with Cons.prems have "al_uuid b \<noteq> al_uuid a" by auto
    moreover from this alert_eq_uuid have "\<not> alert_eq b a" by blast
    ultimately show ?thesis using Cons False by simp
  qed
qed simp

lemma delete_on_dismiss_follows:
  assumes inv: "alerts_inv uuid4 st" and a: "a \<in> set (st_alerts st)"
  shows "follows env st (delete_on_dismiss a st)"
    and "st_alerts (delete_on_dismiss a st) = filter (\<lambda>b. al_uuid b \<noteq> al_uuid a) (st_alerts st)"
proof -
  have "list_ex (\<lambda>b. alert_eq b a) (st_alerts st)" using a by (auto simp: list_ex_iff alert_eq_def)
  then have st': "delete_on_dismiss a st = emit (Removed (id_of a)) (map_policies (policy_delete_alert a) (st\<lparr>st_alerts := remove_eq a (st_alerts st)\<rparr>))"
    by (simp add: delete_on_dismiss_def Let_def)
  have d: "distinct (map al_uuid (st_alerts st))" and coh: "coherent uuid4 (st_uuids st) (st_oids st) (store st)"
    using inv by (simp_all add: alerts_inv_def)
  show "st_alerts (delete_on_dismiss a st) = filter (\<lambda>b. al_uuid b \<noteq> al_uuid a) (st_alerts st)"
    unfolding st' by (simp add: emit_def map_policies_def remove_eq_distinct_uuid [OF d a])
  have ev: "st_events (delete_on_dismiss a st) = st_events st @ [Removed (id_of a)]"
    unfolding st' by (simp add: emit_def map_policies_def)
  have pol: "st_policies (delete_on_dismiss a st) = map (\<lambda>(n, p). (n, policy_delete_alert a p)) (st_policies st)"
    unfolding st' by (simp add: emit_def map_policies_def)
  have rep: "reported (delete_on_dismiss a st) = AList.delete (al_uuid a) (reported st)"
    unfolding reported_def pol map_of_map by (simp add: policy_delete_alert_def AList.delete_eq split: option.split)
  have "reported st = [] \<or> (\<exists>p. map_of (st_policies st) ''IMMEDIATELY'' = Some p \<and> reported st = last_key_value_alerts p)"
    by (simp add: reported_def split: option.split)
  then have ok: "\<forall>(u, b) \<in> set (reported st). al_uuid b = u \<and> b \<in> store st"
    using policy_of_inv(1,3) [OF inv, of "''IMMEDIATELY''"] by (force simp: policy_ok_def)
  have uu: "id_of b = id_of a \<longleftrightarrow> u = al_uuid a" if "(u, b) \<in> set (reported st)" for u b
  proof -
    from ok that have b: "al_uuid b = u" "b \<in> store st" by auto
    moreover have "a \<in> store st" using a by (simp add: store_def)
    ultimately show ?thesis using coh unfolding coherent_def by (metis id_of_Some)
  qed
  have "visible env (delete_on_dismiss a st) = visible env st - {id_of a}"
    unfolding visible_def rep AList.delete_eq using uu by force
  then show "follows env st (delete_on_dismiss a st)"
    unfolding follows_def ev by (intro exI [of _ "[Removed (id_of a)]"]) simp
qed

lemma delete_all_follows:
  assumes "alerts_inv uuid4 st" and "set xs \<subseteq> set (st_alerts st)" and "distinct (map al_uuid xs)"
  shows "follows env st (fold delete_on_dismiss xs st)"
  using assms
proof (induction xs arbitrary: st)
  case (Cons a xs)
  from Cons.prems(2) have "a \<in> set (st_alerts st)" by simp
  note d = delete_on_dismiss_follows [OF Cons.prems(1) this]
  have "set xs \<subseteq> set (st_alerts (delete_on_dismiss a st))" using Cons.prems(2,3) unfolding d(2) by (auto simp: image_iff)
  with Cons.IH [OF delete_on_dismiss_inv [OF Cons.prems(1)]] Cons.prems(3)
  have "follows env (delete_on_dismiss a st) (fold delete_on_dismiss xs (delete_on_dismiss a st))" by simp
  from follows_trans [OF d(1) this] show ?case by simp
qed simp

lemma flag_follows:
  assumes inv: "alerts_inv uuid4 st" and f: "alert_by_uuid uuid st = Some a"
  shows "follows env st (changed env (a\<lparr>al_dismissed := b\<rparr>) (set_object (a\<lparr>al_dismissed := b\<rparr>) st))"
proof -
  let ?a = "a\<lparr>al_dismissed := b\<rparr>"
  have "a \<in> set (st_alerts st)" using f by (auto simp: alert_by_uuid_def find_Some_iff)
  then have "same_store st (set_object ?a st)" using set_object_tag [OF inv, of a ?a] by (simp add: tag_def identity_def)
  then have "follows env st (set_object ?a st)"
    by (intro follows_silent) (simp_all add: same_store_def set_object_def map_policies_def)
  moreover have "follows env s (changed env ?a s)" for s
    unfolding follows_def changed_def by (auto simp: emit_def visible_def reported_def)
  ultimately show ?thesis by (rule follows_trans)
qed

lemma bisect_filter: "bisect P xs = (filter P xs, filter (\<lambda>x. \<not> P x) xs)"
  by (induction xs) auto

lemma dismiss_follows:
  assumes inv: "alerts_inv uuid4 st"
  shows "follows env st (snd (dismiss env uuid st))"
proof (cases "alert_by_uuid uuid st")
  case (Some a)
  then have a: "a \<in> set (st_alerts st)" by (auto simp: alert_by_uuid_def find_Some_iff)
  let ?rel = "fst (bisect (\<lambda>b. al_node b = al_node a \<and> al_klass b = al_klass a) (st_alerts st))"
  have "follows env st (fold delete_on_dismiss (filter (\<lambda>b. \<not> alert_in b ls) ?rel) st)" for ls
    using inv by (intro delete_all_follows [OF inv]) (auto simp: bisect_filter alerts_inv_def distinct_map_filter)
  moreover have "follows env st (delete_on_dismiss a st)" by (rule delete_on_dismiss_follows [OF inv a])
  ultimately show ?thesis
    using flag_follows [OF inv Some] Some by (auto simp: dismiss_def Let_def split: sum.split)
qed (simp add: dismiss_def)

lemma restore_follows: "alerts_inv uuid4 st \<Longrightarrow> follows env st (restore env uuid st)"
  using flag_follows by (auto simp: restore_def Let_def split: option.split)

text \<open>The other operations emit nothing and leave the snapshots as they are.\<close>

lemma handle_both_events: "handle_both env this other ts ps st = (ts1, ps1, st') \<Longrightarrow> st_events st' = st_events st"
proof (induction env this other ts ps st arbitrary: ts1 ps1 st' rule: handle_both.induct)
qed (auto simp: handle_on_node_def handle_alert_def set_object_def map_policies_def split: prod.splits option.splits)

lemma run_alert_source_events: "st_events (run_alert_source env fi src st) = st_events st"
proof -
  have "source_alerts env fi src s = (ts, ps, s1) \<Longrightarrow> st_events s1 = st_events s" for s ts ps s1
    by (auto simp: source_alerts_def adopt_def run_source_def Let_def
        split: prod.splits if_splits option.splits check_result.splits)
  then show ?thesis by (auto simp: run_alert_source_def Let_def split: prod.split dest: handle_both_events)
qed

lemma run_alerts_events: "st_events (run_alerts env st) = st_events st"
proof -
  have "st_events (unblock_source lock s) = st_events s" for lock s
    by (auto simp: unblock_source_def split: option.splits prod.splits)
  then have "st_events (fold (\<lambda>(lock, name, expires) st. if expires \<le> e_monotonic env then unblock_source lock st else st) ls s) = st_events s" for ls s
    by (induction ls arbitrary: s) auto
  moreover have "st_events (fold (run_alert_source env fi) srcs s) = st_events s" for fi srcs s
    by (induction srcs arbitrary: s) (simp_all add: run_alert_source_events)
  ultimately show ?thesis by (simp add: run_alerts_def Let_def expire_locks_def)
qed

lemma process_alerts_follows:
  assumes "inj uuid4" and "env_ok uuid4 env" and inv: "alerts_inv uuid4 st"
  shows "follows env st (process_alerts env still st)"
proof -
  obtain xs st0 where a: "adopt (st_alerts st) st = (xs, st0)" by (cases "adopt (st_alerts st) st")
  have st0: "st0 = st\<lparr>st_oids := st_oids st + length (st_alerts st)\<rparr>" using adopt_props(6) [OF a] .
  then have "alerts_inv uuid4 st0" using inv_oids [OF inv] by simp
  from run_alerts_grows [OF assms(1,2) this] have "grows st (run_alerts env st0)" by (simp add: st0 grows_def)
  then have g: "map (\<lambda>(n, p). (n, policy_tags p)) (st_policies (run_alerts env st0)) = map (\<lambda>(n, p). (n, policy_tags p)) (st_policies st)"
    by (simp only: grows_def)
  have e: "st_events (run_alerts env st0) = st_events st" by (simp add: run_alerts_events st0)
  have "follows env st st'" if "st_policies st' = st_policies (run_alerts env st0)" "st_events st' = st_events (run_alerts env st0)" for st'
    using that e g by (intro follows_silent) simp_all
  then show ?thesis using a by (simp add: process_alerts_def Let_def expire_alerts_def add_job_def)
qed

lemma oneshot_create_follows: "follows env st (snd (oneshot_create env k args st))"
proof -
  have "follows env st (add_oneshot env a st)" for a
    by (rule follows_silent)
      (auto simp: add_oneshot_def adopt_def handle_alert_def add_job_def split: prod.split option.split)
  then show ?thesis by (auto simp: oneshot_create_def split: sum.split option.split)
qed

lemma oneshot_delete_follows: "follows env st (snd (oneshot_delete env ks query st))"
proof -
  have one: "st_events (snd (snd (delete_class env query k p))) = st_events (snd p) \<and>
      st_policies (snd (snd (delete_class env query k p))) = st_policies (snd p)" for k p
    by (auto simp: delete_class_def Let_def split: prod.split sum.split)
  have "st_events (snd (snd (run_seq (delete_class env query) ks p))) = st_events (snd p) \<and>
      st_policies (snd (snd (run_seq (delete_class env query) ks p))) = st_policies (snd p)" for p
  proof (induction ks arbitrary: p)
    case (Cons k ks)
    obtain r q where d: "delete_class env query k p = (r, q)" by (cases "delete_class env query k p")
    with one [of k p] Cons.IH [of q] show ?case by (cases r) auto
  qed simp
  from this [of "(False, st)"] show ?thesis
    by (intro follows_silent)
      (auto simp: oneshot_delete_def flush_alerts_def add_job_def split: prod.split sum.split)
qed

lemma alert_run_follows:
  assumes "inj uuid4" and "env_ok uuid4 env" and "alerts_inv uuid4 st"
  shows "follows env st (alert_run env c st)"
proof -
  have same: "follows env st st'" if "st_events st' = st_events st" "st_policies st' = st_policies st" for st'
    using that by (intro follows_silent) simp_all
  have "follows env st (snd (block_source env n t st))" "follows env st (unblock_source l st)" "follows env st (block_failover_alerts env st)"
    "follows env st (snd (alert_source_clear_run env n st))" "follows env st (flush_alerts env st)" "follows env st (event_system st)" for n t l
    by (rule same; simp add: block_source_def unblock_source_def block_failover_alerts_def alert_source_clear_run_def
        flush_alerts_def event_system_def add_job_def Let_def split: option.split prod.split)+
  then show ?thesis
    using process_alerts_follows [OF assms] send_alerts_follows [OF assms(3)] dismiss_follows [OF assms(3)]
      restore_follows [OF assms(3)] oneshot_create_follows oneshot_delete_follows
    by (cases c) (simp_all add: alert_run_def)
qed

lemma visible_cong: "e_product_type env' = e_product_type env \<Longrightarrow> e_classes env' = e_classes env \<Longrightarrow> visible env' st = visible env st"
  by (simp add: visible_def should_show_class shown_class_def)

text \<open>The order of \<open>alert.list\<close> is a weak order, so that the list is sorted, complete and stable.\<close>

lemma lex_negtrans:
  fixes a b c d e f :: int and s t u :: string
  assumes "c < a \<or> a = c \<and> (s < u \<or> s = u \<and> d < f)"
  shows "(b < a \<or> a = b \<and> (s < t \<or> s = t \<and> d < e)) \<or> (c < b \<or> b = c \<and> (t < u \<or> t = u \<and> e < f))"
proof (cases a b rule: linorder_cases)
  case less
  with assms show ?thesis by auto
next
  case equal
  with assms show ?thesis by (cases s t rule: linorder_cases; cases t u rule: linorder_cases) auto
qed simp

interpretation alert_order: weak_order "list_before env" UNIV for env
proof
  fix x y z :: alert
  show "list_before env x y \<Longrightarrow> \<not> list_before env y x" by (auto simp: list_before_def Let_def)
  show "list_before env x z \<Longrightarrow> list_before env x y \<or> list_before env y z"
    unfolding list_before_def Let_def by (rule lex_negtrans)
qed

text \<open>After the policies have looked at the alerts of an instant, what is visible is what \<open>alert.list\<close> returns.\<close>

lemma alert_list_ids: "id_of ` set (alert_list env st) = id_of ` {a \<in> set (st_alerts st). should_show_alert env a}"
  by (simp add: alert_list_def alert_order.set_isort_by)

lemma visible_current: "snd ` set (reported st) = set (st_alerts st) \<Longrightarrow> visible env st = id_of ` set (alert_list env st)"
  by (simp add: visible_def alert_list_ids)

lemma initialize_visible:
  assumes "table_ok uuid4 env st0"
  shows "visible env' (initialize env load st0) = id_of ` set (alert_list env' (initialize env load st0))"
proof (rule visible_current)
  let ?st = "initialize env load st0"
  have d: "distinct (map al_uuid (st_alerts ?st))" using start_inv [OF assms] by (simp add: alerts_inv_def)
  have "st_policies ?st = map (\<lambda>n. (n, snd (snd (receive_alerts n (e_now env) (st_alerts ?st) new_policy)))) POLICIES"
    by (simp add: initialize_def Let_def)
  then have "reported ?st = last_key_value_alerts (snd (snd (receive_alerts ''IMMEDIATELY'' (e_now env) (st_alerts ?st) new_policy)))"
    by (simp add: reported_def POLICIES_def)
  also have "\<dots> = map (\<lambda>a. (al_uuid a, a)) (st_alerts ?st)"
    by (simp add: receive_alerts_def Let_def policy_key_def new_policy_def by_uuid_props [OF d])
  finally show "snd ` set (reported ?st) = set (st_alerts ?st)" by (simp add: image_image)
qed

lemma send_policy_reported:
  assumes "alerts_inv uuid4 st"
  shows "st_alerts (send_policy env name st) = st_alerts st"
    "name \<noteq> ''IMMEDIATELY'' \<Longrightarrow> reported (send_policy env name st) = reported st"
    "map_of (st_policies st) ''IMMEDIATELY'' = Some p \<Longrightarrow> last_key_value p \<noteq> Some (e_now env) \<Longrightarrow>
       reported (send_policy env ''IMMEDIATELY'' st) = map (\<lambda>a. (al_uuid a, a)) (st_alerts st)"
proof -
  have q: "quiet (set_policy n p1 st) (send_policy env n st)"
    if "map_of (st_policies st) n = Some p" "receive_alerts n (e_now env) (st_alerts st) p = (gone, new, p1)" for n p gone new p1
  proof -
    have "quiet s (fold (notify_service env n gone new) (e_services env) s)" for s by (rule quiet_fold) (rule quiet_notify)
    then show ?thesis using that quiet_announce quiet_trans by (simp add: send_policy_def Let_def) blast
  qed
  have d: "distinct (map al_uuid (st_alerts st))" using assms by (simp add: alerts_inv_def)
  show "st_alerts (send_policy env name st) = st_alerts st"
  proof (cases "map_of (st_policies st) name")
    case (Some p)
    then show ?thesis
      using q [OF Some] by (cases "receive_alerts name (e_now env) (st_alerts st) p") (auto simp: quiet_def set_policy_def)
  qed (simp add: send_policy_def)
  show "reported (send_policy env name st) = reported st" if "name \<noteq> ''IMMEDIATELY''"
  proof (cases "map_of (st_policies st) name")
    case (Some p)
    obtain gone new p1 where "receive_alerts name (e_now env) (st_alerts st) p = (gone, new, p1)"
      by (cases "receive_alerts name (e_now env) (st_alerts st) p")
    from q [OF Some this] have "reported (send_policy env name st) = reported (set_policy name p1 st)"
      by (simp add: quiet_def reported_def)
    with that show ?thesis by (simp add: set_policy_reported)
  qed (simp add: send_policy_def)
  show "reported (send_policy env ''IMMEDIATELY'' st) = map (\<lambda>a. (al_uuid a, a)) (st_alerts st)"
    if p: "map_of (st_policies st) ''IMMEDIATELY'' = Some p" "last_key_value p \<noteq> Some (e_now env)"
  proof -
    obtain gone new p1 where r: "receive_alerts ''IMMEDIATELY'' (e_now env) (st_alerts st) p = (gone, new, p1)"
      by (cases "receive_alerts ''IMMEDIATELY'' (e_now env) (st_alerts st) p")
    from q [OF p(1) r] have "reported (send_policy env ''IMMEDIATELY'' st) = last_key_value_alerts p1"
      by (simp add: quiet_def reported_def set_policy_def map_of_update)
    with receive_alerts_cases [OF r d] p(2) show ?thesis by (auto simp: policy_key_def)
  qed
qed

lemma send_alerts_current:
  assumes inv: "alerts_inv uuid4 st" and "e_ready env"
    and "map_of (st_policies st) ''IMMEDIATELY'' = Some p" "last_key_value p \<noteq> Some (e_now env)"
  shows "visible env' (send_alerts env st) = id_of ` set (alert_list env' (send_alerts env st))"
proof (rule visible_current)
  have others: "\<lbrakk>alerts_inv uuid4 s; ''IMMEDIATELY'' \<notin> set ns\<rbrakk> \<Longrightarrow>
      reported (fold (send_policy env) ns s) = reported s \<and> st_alerts (fold (send_policy env) ns s) = st_alerts s" for ns s
    using send_policy_inv send_policy_reported by (induction ns arbitrary: s) auto
  have "map fst (st_policies st) = ''IMMEDIATELY'' # [''HOURLY'', ''DAILY'', ''NEVER'']" using inv by (simp add: alerts_inv_def POLICIES_def)
  then have "send_alerts env st = fold (send_policy env) [''HOURLY'', ''DAILY'', ''NEVER''] (send_policy env ''IMMEDIATELY'' st)"
    using assms(2) by (simp add: send_alerts_def)
  with others [OF send_policy_inv [OF inv], of "[''HOURLY'', ''DAILY'', ''NEVER'']" env "''IMMEDIATELY''"]
    send_policy_reported(1) [OF inv] send_policy_reported(3) [OF inv assms(3,4)]
  show "snd ` set (reported (send_alerts env st)) = set (st_alerts (send_alerts env st))" by (simp add: image_image)
qed

text \<open>A run of operations while the settings of the classes stay the same.\<close>

abbreviation alert_ops :: "(alert_env \<times> alert_op) list \<Rightarrow> alert_state \<Rightarrow> alert_state" where
  "alert_ops cs st \<equiv> fold (\<lambda>(env, c). alert_run env c) cs st"

lemma alert_ops_follow:
  assumes "inj uuid4" and "alerts_inv uuid4 st"
    and "\<forall>(env, c) \<in> set cs. env_ok uuid4 env \<and> e_product_type env = e_product_type env0 \<and> e_classes env = e_classes env0"
  shows "alerts_inv uuid4 (alert_ops cs st) \<and> follows env0 st (alert_ops cs st)"
  using assms(2,3)
proof (induction cs arbitrary: st)
  case (Cons ec cs)
  obtain env c where ec: "ec = (env, c)" by (cases ec)
  with Cons.prems have ok: "env_ok uuid4 env" "e_product_type env = e_product_type env0" "e_classes env = e_classes env0" by auto
  then have "follows env0 st (alert_run env c st)"
    using alert_run_follows [OF assms(1) ok(1) Cons.prems(1), of c] visible_cong [OF ok(2,3)] by (simp add: follows_def)
  moreover have "alerts_inv uuid4 (alert_ops cs (alert_run env c st)) \<and> follows env0 (alert_run env c st) (alert_ops cs (alert_run env c st))"
    using Cons.IH [OF alert_run_inv [OF assms(1) ok(1) Cons.prems(1)]] Cons.prems(2) by simp
  ultimately show ?case using follows_trans by (auto simp: ec)
qed simp


section \<open>Policies\<close>

text \<open>
  The policy \<open>NEVER\<close> has no key, so that it never reports; \<open>HOURLY\<close> and \<open>DAILY\<close> report at most once
  in an hour or a day. A notification is reported when the policy of its alerts is.
\<close>

lemma notify_sent:
  "\<exists>ms. st_sent (notify_service env name gone new sv st) = st_sent st @ ms \<and> (gone = [] \<and> new = [] \<longrightarrow> ms = [])"
  by (auto simp: notify_service_def Let_def split: prod.splits)

lemma notify_nothing: "st_sent (fold (notify_service env name [] []) svs st) = st_sent st"
proof (induction svs arbitrary: st)
  case (Cons sv svs)
  have "st_sent (notify_service env name [] [] sv st) = st_sent st" using notify_sent [of env name "[]" "[]" sv st] by auto
  with Cons show ?case by simp
qed simp

lemma announce_sent: "st_sent (announce env gone new st) = st_sent st"
proof -
  have f: "st_sent (fold (\<lambda>a. emit (g a)) xs s) = st_sent s" for g s and xs :: "alert list"
    by (induction xs arbitrary: s) (simp_all add: emit_def)
  have j: "st_sent (case t of None \<Rightarrow> s | Some x \<Rightarrow> add_job (g x) s) = st_sent s" for t g and s :: alert_state
    by (cases t) (simp_all add: add_job_def)
  have p: "st_sent (proactive_support env gone new s) = st_sent s" for s
    unfolding proactive_support_def Let_def if_distrib [of st_sent] j by simp
  show ?thesis unfolding announce_def Let_def p by (simp add: f)
qed

lemma send_policy_same_key:
  assumes p: "map_of (st_policies st) name = Some p" and k: "policy_key name (e_now env) = last_key_value p"
  shows "st_sent (send_policy env name st) = st_sent st"
proof -
  have "receive_alerts name (e_now env) (st_alerts st) p = ([], [], p)" using k by (simp add: receive_alerts_def Let_def)
  then show ?thesis using p by (simp add: send_policy_def Let_def announce_sent notify_nothing set_policy_def)
qed

text \<open>The keys of the policies and what has been sent.\<close>

definition policy_keys :: "alert_state \<Rightarrow> (string \<times> int option) list" where
  "policy_keys st = map (\<lambda>(n, p). (n, last_key_value p)) (st_policies st)"

definition calm :: "alert_state \<Rightarrow> alert_state \<Rightarrow> bool" where
  "calm st st' \<longleftrightarrow> policy_keys st' = policy_keys st \<and> st_sent st' = st_sent st"

lemma calm_refl [simp]: "calm st st"
  by (simp add: calm_def)

lemma calm_trans: "calm st st1 \<Longrightarrow> calm st1 st2 \<Longrightarrow> calm st st2"
  by (simp add: calm_def)

lemma calm_fold: "(\<And>x s. calm s (f x s)) \<Longrightarrow> calm st (fold f xs st)"
  by (induction xs arbitrary: st) (auto intro: calm_trans)

lemma calm_updates [simp]:
  "calm st (set_object a st)" "calm st (emit e st)" "calm st (add_job j st)" "calm st (expire_alerts env st)"
  "calm st (flush_alerts env st)" "calm st (unblock_source lock st)"
  by (auto simp: calm_def policy_keys_def set_object_def map_policies_def emit_def add_job_def expire_alerts_def
      flush_alerts_def unblock_source_def split: option.splits prod.splits)

lemma calm_quiet_fields: "st_policies st' = st_policies st \<Longrightarrow> st_sent st' = st_sent st \<Longrightarrow> calm st st'"
  by (simp add: calm_def policy_keys_def)

lemma calm_delete_on_dismiss: "calm st (delete_on_dismiss a st)"
  by (auto simp: calm_def policy_keys_def delete_on_dismiss_def Let_def map_policies_def emit_def policy_delete_alert_def)

lemma calm_handle_both: "handle_both env this other ts ps st = (ts1, ps1, st') \<Longrightarrow> calm st st'"
proof (induction env this other ts ps st arbitrary: ts1 ps1 st' rule: handle_both.induct)
qed (auto simp: calm_def policy_keys_def handle_on_node_def handle_alert_def set_object_def map_policies_def split: prod.splits option.splits)

lemma calm_run_alert_source: "calm st (run_alert_source env fi src st)"
proof -
  have "source_alerts env fi src s = (ts, ps, s1) \<Longrightarrow> st_policies s1 = st_policies s \<and> st_sent s1 = st_sent s" for s ts ps s1
    by (auto simp: source_alerts_def adopt_def run_source_def Let_def
        split: prod.splits if_splits option.splits check_result.splits)
  then show ?thesis
    by (auto simp: run_alert_source_def Let_def calm_def policy_keys_def split: prod.split dest!: calm_handle_both)
qed

lemma calm_run_alerts: "calm st (run_alerts env st)"
proof -
  have "calm st (expire_locks env st)" unfolding expire_locks_def by (rule calm_fold) (auto split: prod.split)
  moreover have "calm s (fold (run_alert_source env fi) srcs s)" for fi srcs s by (rule calm_fold) (rule calm_run_alert_source)
  ultimately show ?thesis unfolding run_alerts_def Let_def by (rule calm_trans)
qed

lemma calm_process_alerts: "calm st (process_alerts env still st)"
proof -
  obtain xs st0 where a: "adopt (st_alerts st) st = (xs, st0)" by (cases "adopt (st_alerts st) st")
  have "calm st st0" using adopt_props(6) [OF a] by (intro calm_quiet_fields) simp_all
  from calm_trans [OF this calm_run_alerts [of _ env]] have "calm st (expire_alerts env (run_alerts env st0))" by (rule calm_trans) simp
  moreover have "calm s (s\<lparr>st_alerts := xs\<rparr>)" for s by (intro calm_quiet_fields) simp_all
  ultimately show ?thesis using a calm_trans by (simp add: process_alerts_def Let_def)
qed

lemma calm_dismiss: "calm st (snd (dismiss env uuid st))" and calm_restore: "calm st (restore env uuid st)"
proof -
  have "calm s (fold delete_on_dismiss xs s)" for s xs by (rule calm_fold) (rule calm_delete_on_dismiss)
  moreover have "calm s (changed env a (set_object a s))" for a s by (simp add: changed_def) (meson calm_trans calm_updates)
  ultimately show "calm st (snd (dismiss env uuid st))" "calm st (restore env uuid st)"
    using calm_delete_on_dismiss
    by (auto simp: dismiss_def restore_def Let_def split: option.split sum.split)
qed

lemma calm_oneshots: "calm st (snd (oneshot_create env k args st))" "calm st (snd (oneshot_delete env ks query st))"
proof -
  have "calm st (add_oneshot env a st)" for a
    by (rule calm_quiet_fields) (auto simp: add_oneshot_def adopt_def handle_alert_def add_job_def split: prod.split option.split)
  then show "calm st (snd (oneshot_create env k args st))" by (auto simp: oneshot_create_def split: sum.split option.split)
  have one: "calm (snd p) (snd (snd (delete_class env query k p)))" for k p
    by (rule calm_quiet_fields) (auto simp: delete_class_def Let_def split: prod.split sum.split)
  have "calm (snd p) (snd (snd (run_seq (delete_class env query) ks p)))" for p
  proof (induction ks arbitrary: p)
    case (Cons k ks)
    obtain r q where d: "delete_class env query k p = (r, q)" by (cases "delete_class env query k p")
    with one [of p k] have "calm (snd p) (snd q)" by simp
    with Cons.IH [of q] d calm_trans show ?case by (cases r) auto
  qed simp
  from this [of "(False, st)"] show "calm st (snd (oneshot_delete env ks query st))"
    using calm_trans [OF _ calm_trans [OF calm_updates(5) calm_updates(3)]]
    by (auto simp: oneshot_delete_def split: prod.split sum.split)
qed

lemma calm_other_ops: "c \<noteq> SendAlertsOp \<Longrightarrow> calm st (alert_run env c st)"
  using calm_process_alerts calm_dismiss calm_restore calm_oneshots
  by (cases c) (simp_all add: alert_run_def, simp_all add: calm_def policy_keys_def block_source_def block_failover_alerts_def
      alert_source_clear_run_def event_system_def add_job_def Let_def)


end
