(* ===== verification/AlertProperties.thy ===== *)
theory AlertProperties
  imports AlertEvents
begin

text \<open>
  Further properties of alerts: how often a policy reports, which alerts survive a run of their
  source, blocked sources, and the table of alerts.
\<close>

section \<open>How often a policy reports\<close>

abbreviation sent_by :: "string \<Rightarrow> alert_state \<Rightarrow> notification list" where
  "sent_by name st \<equiv> filter (\<lambda>m. fst (snd m) = name) (st_sent st)"

lemma notify_policy:
  "n \<noteq> name \<Longrightarrow> sent_by name (fold (notify_service env n gone new) svs st) = sent_by name st"
proof (induction svs arbitrary: st)
  case (Cons sv svs)
  have "sent_by name (notify_service env n gone new sv st) = sent_by name st"
    using Cons.prems by (auto simp: notify_service_def Let_def split: prod.splits)
  with Cons show ?case by simp
qed simp

lemma send_policy_key:
  "map_of (policy_keys (send_policy env n st)) =
     (case map_of (st_policies st) n of None \<Rightarrow> map_of (policy_keys st)
      | Some p \<Rightarrow> (map_of (policy_keys st))(n \<mapsto> policy_key n (e_now env)))"
proof (cases "map_of (st_policies st) n")
  case (Some p)
  obtain gone new p1 where r: "receive_alerts n (e_now env) (st_alerts st) p = (gone, new, p1)"
    by (cases "receive_alerts n (e_now env) (st_alerts st) p")
  have "quiet s (fold (notify_service env n gone new) (e_services env) s)" for s by (rule quiet_fold) (rule quiet_notify)
  then have "quiet (set_policy n p1 st) (send_policy env n st)"
    using Some r quiet_announce quiet_trans by (simp add: send_policy_def Let_def) blast
  then have "st_policies (send_policy env n st) = AList.update n p1 (st_policies st)" by (simp add: quiet_def set_policy_def)
  moreover have "last_key_value p1 = policy_key n (e_now env)"
    using r by (auto simp: receive_alerts_def Let_def split: if_splits)
  ultimately show ?thesis using Some by (auto simp: policy_keys_def map_of_map map_of_update fun_eq_iff)
qed (simp add: send_policy_def)

lemma send_policy_rate:
  assumes "map_of (policy_keys st) name = Some (policy_key name (e_now env))"
  shows "sent_by name (send_policy env n st) = sent_by name st"
    "map_of (policy_keys (send_policy env n st)) name = Some (policy_key name (e_now env))"
proof -
  show "map_of (policy_keys (send_policy env n st)) name = Some (policy_key name (e_now env))"
    using assms by (auto simp: send_policy_key split: option.split)
  show "sent_by name (send_policy env n st) = sent_by name st"
  proof (cases "n = name")
    case True
    obtain p where "map_of (st_policies st) n = Some p" "policy_key n (e_now env) = last_key_value p"
      using assms True by (auto simp: policy_keys_def map_of_map)
    then show ?thesis using send_policy_same_key by simp
  next
    case False
    then show ?thesis
      by (auto simp: send_policy_def Let_def announce_sent notify_policy set_policy_def split: option.split prod.split)
  qed
qed

lemma send_all_rate:
  "map_of (policy_keys st) name = Some (policy_key name (e_now env)) \<Longrightarrow>
   sent_by name (fold (send_policy env) ns st) = sent_by name st \<and>
   map_of (policy_keys (fold (send_policy env) ns st)) name = Some (policy_key name (e_now env))"
  by (induction ns arbitrary: st) (simp_all add: send_policy_rate)

lemma alert_run_rate:
  assumes "map_of (policy_keys st) name = Some (policy_key name (e_now env))"
  shows "sent_by name (alert_run env c st) = sent_by name st \<and> policy_keys (alert_run env c st) = policy_keys st \<or>
    sent_by name (alert_run env c st) = sent_by name st \<and>
    map_of (policy_keys (alert_run env c st)) name = Some (policy_key name (e_now env))"
proof (cases "c = SendAlertsOp")
  case True
  then show ?thesis using send_all_rate [OF assms] by (auto simp: alert_run_def send_alerts_def policy_keys_def)
next
  case False
  then show ?thesis using calm_other_ops [OF False, of st env] by (simp add: calm_def)
qed

lemma alert_ops_rate:
  assumes "map_of (policy_keys st) name = Some k" and "\<forall>(env, c) \<in> set cs. policy_key name (e_now env) = k"
  shows "sent_by name (alert_ops cs st) = sent_by name st"
  using assms
proof (induction cs arbitrary: st)
  case (Cons ec cs)
  obtain env c where ec: "ec = (env, c)" by (cases ec)
  with Cons.prems have k: "k = policy_key name (e_now env)" by simp
  with Cons.prems(1) alert_run_rate [of st name env c]
  have "sent_by name (alert_run env c st) = sent_by name st" "map_of (policy_keys (alert_run env c st)) name = Some k" by auto
  with Cons.IH [of "alert_run env c st"] Cons.prems(2) show ?case by (simp add: ec)
qed simp

lemma send_alerts_keys:
  assumes "alerts_inv uuid4 st" and "e_ready env" and "name \<in> set POLICIES"
  shows "map_of (policy_keys (send_alerts env st)) name = Some (policy_key name (e_now env))"
proof -
  have keep: "map_of (policy_keys s) name = Some (policy_key name (e_now env)) \<Longrightarrow>
      map_of (policy_keys (fold (send_policy env) ns s)) name = Some (policy_key name (e_now env))" for ns s
    using send_all_rate by blast
  have dom: "map fst (st_policies (send_policy env n s)) = map fst (st_policies s)" if "alerts_inv uuid4 s" for n s
    using that send_policy_inv [OF that, of env n] by (simp add: alerts_inv_def)
  have "map_of (policy_keys (fold (send_policy env) ns s)) name = Some (policy_key name (e_now env))"
    if "name \<in> set ns" "alerts_inv uuid4 s" for ns s
    using that
  proof (induction ns arbitrary: s)
    case (Cons n ns)
    show ?case
    proof (cases "n = name")
      case True
      have "name \<in> set (map fst (st_policies s))" using Cons.prems(2) assms(3) by (simp add: alerts_inv_def)
      then obtain p where "map_of (st_policies s) name = Some p" by (metis map_of_eq_None_iff not_None_eq set_map)
      then have "map_of (policy_keys (send_policy env name s)) name = Some (policy_key name (e_now env))" by (simp add: send_policy_key)
      from keep [OF this, of ns] True show ?thesis by simp
    next
      case False
      with Cons send_policy_inv show ?thesis by simp
    qed
  qed simp
  moreover have "map fst (st_policies st) = POLICIES" using assms(1) by (simp add: alerts_inv_def)
  ultimately show ?thesis using assms by (simp add: send_alerts_def)
qed



section \<open>Alerts that persist\<close>

text \<open>What an alert keeps as long as its source reports it.\<close>

definition ptag :: "alert \<Rightarrow> (string option \<times> string option \<times> alert_class \<times> string) \<times> string option \<times> int option \<times> bool" where
  "ptag a = (identity a, al_uuid a, al_datetime a, al_dismissed a)"

abbreviation ptags :: "alert_state \<Rightarrow> ((string option \<times> string option \<times> alert_class \<times> string) \<times> string option \<times> int option \<times> bool) set" where
  "ptags st \<equiv> ptag ` set (st_alerts st)"

abbreviation source_of :: "(string option \<times> string option \<times> alert_class \<times> string) \<times> string option \<times> int option \<times> bool \<Rightarrow> string option" where
  "source_of t \<equiv> fst (snd (fst t))"

lemma fst_ptags: "fst ` ptags st = identity ` set (st_alerts st)"
  by (simp add: ptag_def image_image)

lemma source_of_ptag [simp]: "source_of (ptag a) = al_source a"
  by (simp add: ptag_def identity_def)

definition persists :: "alert_state \<Rightarrow> alert_state \<Rightarrow> alert list \<Rightarrow> bool" where
  "persists st st' rs \<longleftrightarrow> map ptag (st_alerts st') = map ptag (st_alerts st) \<and>
     (\<forall>r \<in> set rs. ptag r \<in> ptags st \<or> identity r \<notin> identity ` set (st_alerts st))"

lemma ptags_same: "map ptag (st_alerts st') = map ptag (st_alerts st) \<Longrightarrow>
    ptags st' = ptags st \<and> identity ` set (st_alerts st') = identity ` set (st_alerts st)"
  using arg_cong [of "map ptag (st_alerts st')" "map ptag (st_alerts st)" set] fst_ptags by (metis set_map)

lemma persists_append: "persists st st1 rs \<Longrightarrow> persists st1 st2 qs \<Longrightarrow> persists st st2 (rs @ qs)"
  using ptags_same [of st1 st] unfolding persists_def by auto

lemma persists_sub: "persists st st' rs \<Longrightarrow> set qs \<subseteq> set rs \<Longrightarrow> persists st st' qs"
  by (auto simp: persists_def)

lemma handle_on_node_persists:
  assumes inv: "alerts_inv (e_uuid4 env) st" and adm: "admissible st node a" and h: "handle_on_node env node a st = (r, st')"
  shows "persists st st' [r]"
proof -
  obtain st1 where ha: "handle_alert env (a\<lparr>al_node := Some node\<rparr>) st = (r, st1)" and st': "st' = set_object r st1"
    using h by (auto simp: handle_on_node_def split: prod.splits)
  note spec = handle_alert_spec [OF ha, simplified]
  have alerts: "st_alerts st' = map (set_in r) (st_alerts st)" using spec by (auto simp: st' set_object_def map_policies_def)
  have "map tag (st_alerts st') = map tag (st_alerts st)"
    using handled_same [OF handle_on_node_spec(1) [OF inv adm h]] by (simp only: same_store_def)
  then have tags: "tag (set_in r x) = tag x" if "x \<in> set (st_alerts st)" for x
    using that by (simp add: alerts)
  have new: "ptag r \<in> ptags st \<or> identity r \<notin> identity ` set (st_alerts st)"
    using spec by (auto simp: ptag_def image_iff)
  have "ptag (set_in r x) = ptag x" if x: "x \<in> set (st_alerts st)" for x
  proof (cases "al_oid x = al_oid r")
    case True
    with tags [OF x] have id: "identity x = identity r" by (simp add: set_in_def tag_eq_iff)
    then have "identity r \<in> identity ` set (st_alerts st)" using x by (metis imageI)
    with new obtain b where b: "b \<in> set (st_alerts st)" "ptag r = ptag b" by blast
    then have "identity b = identity x" using id by (simp add: ptag_def)
    moreover have "distinct (map identity (st_alerts st))" using inv by (simp add: alerts_inv_def)
    ultimately have "b = x" using b(1) x by (metis distinct_map inj_onD)
    with b True show ?thesis by (simp add: set_in_def)
  qed (simp add: set_in_def)
  then show ?thesis using new by (simp add: persists_def alerts)
qed

lemma handle_step:
  assumes "inj (e_uuid4 env)" and "alerts_inv (e_uuid4 env) st" and "admissible st node a"
    and "handle_on_node env node a st = (r, st1)" and "persists st1 st2 rs"
  shows "persists st st2 (r # rs)"
  using persists_append [OF handle_on_node_persists [OF assms(2-4)] assms(5)] by simp

lemma handle_both_persists:
  assumes "inj (e_uuid4 env)" and "alerts_inv (e_uuid4 env) st"
    and "list_all (admissible st this) ts" and "list_all (admissible st other) ps"
    and "handle_both env this other ts ps st = (ts1, ps1, st')"
  shows "persists st st' (ts1 @ ps1)"
  using assms
proof (induction env this other ts ps st arbitrary: ts1 ps1 st' rule: handle_both.induct)
  case (1 env this other st)
  then show ?case by (simp add: persists_def)
next
  case (2 env this other t ts st)
  obtain t1 st1 where t: "handle_on_node env this t st = (t1, st1)" by (cases "handle_on_node env this t st")
  then obtain ts2 where r: "handle_both env this other ts [] st1 = (ts2, ps1, st')" "ts1 = t1 # ts2"
    using "2.prems" by (auto split: prod.splits)
  from "2.prems" have a: "admissible st this t" by simp
  note n = handle_next [OF "2.prems"(1,2) a t]
  from "2.IH" [OF t [symmetric] "2.prems"(1) n(1) _ _ r(1)] "2.prems"(3) n(2)
  have "persists st1 st' (ts2 @ ps1)" by simp
  from handle_step [OF "2.prems"(1,2) a t this] show ?case by (simp add: r(2))
next
  case (3 env this other p ps st)
  obtain p1 st1 where p: "handle_on_node env other p st = (p1, st1)" by (cases "handle_on_node env other p st")
  then obtain ps2 where r: "handle_both env this other [] ps st1 = (ts1, ps2, st')" "ps1 = p1 # ps2"
    using "3.prems" by (auto split: prod.splits)
  from "3.prems" have a: "admissible st other p" by simp
  note n = handle_next [OF "3.prems"(1,2) a p]
  from "3.IH" [OF p [symmetric] "3.prems"(1) n(1) _ _ r(1)] "3.prems"(4) n(2)
  have "persists st1 st' (ts1 @ ps2)" by simp
  from handle_step [OF "3.prems"(1,2) a p this] show ?case by (rule persists_sub) (auto simp: r(2))
next
  case (4 env this other t ts p ps st)
  obtain t1 st1 where t: "handle_on_node env this t st = (t1, st1)" by (cases "handle_on_node env this t st")
  obtain p1 st2 where p: "handle_on_node env other p st1 = (p1, st2)" by (cases "handle_on_node env other p st1")
  from "4.prems" t p obtain ts2 ps2 where r: "handle_both env this other ts ps st2 = (ts2, ps2, st')"
    and eq: "ts1 = t1 # ts2" "ps1 = p1 # ps2" by (auto split: prod.splits)
  from "4.prems" have a: "admissible st this t" by simp
  note n = handle_next [OF "4.prems"(1,2) a t]
  from "4.prems" n(2) [of other "[p]"] have b: "admissible st1 other p" by simp
  note m = handle_next [OF "4.prems"(1) n(1) b p]
  from "4.IH" [OF t [symmetric] p [symmetric] "4.prems"(1) m(1) _ _ r] "4.prems" n(2) m(2)
  have "persists st2 st' (ts2 @ ps2)" by simp
  from handle_step [OF "4.prems"(1,2) a t handle_step [OF "4.prems"(1) n(1) b p this]]
  show ?case by (rule persists_sub) (auto simp: eq)
qed

text \<open>Running a source replaces its own alerts and keeps the others.\<close>

definition renews :: "string set \<Rightarrow> alert_state \<Rightarrow> alert_state \<Rightarrow> bool" where
  "renews names st st' \<longleftrightarrow>
     (\<forall>t. source_of t \<notin> Some ` names \<longrightarrow> (t \<in> ptags st' \<longleftrightarrow> t \<in> ptags st)) \<and>
     (\<forall>t \<in> ptags st'. t \<in> ptags st \<or> fst t \<notin> fst ` ptags st)"

lemma renewsD: "renews N st st' \<Longrightarrow> t \<in> ptags st' \<Longrightarrow> t \<in> ptags st \<or> fst t \<notin> fst ` ptags st"
  unfolding renews_def by blast

lemma renews_same: "ptags st' = ptags st \<Longrightarrow> renews names st st'"
  by (simp add: renews_def)

lemma renews_trans:
  assumes a: "renews N st st1" and b: "renews M st1 st2" and disj: "N \<inter> M = {}"
  shows "renews (N \<union> M) st st2"
proof -
  have "t \<in> ptags st \<or> fst t \<notin> fst ` ptags st" if t: "t \<in> ptags st2" for t
  proof (cases "source_of t \<in> Some ` M")
    case True
    then have N: "source_of t \<notin> Some ` N" using disj by auto
    from a have "\<And>s. source_of s \<notin> Some ` N \<Longrightarrow> s \<in> ptags st1 \<longleftrightarrow> s \<in> ptags st" unfolding renews_def by blast
    with N have same: "s \<in> ptags st1 \<longleftrightarrow> s \<in> ptags st" if "fst s = fst t" for s using that by metis
    have "t \<in> ptags st1 \<or> fst t \<notin> fst ` ptags st1" using b t unfolding renews_def by blast
    moreover have "fst t \<in> fst ` ptags st1" if "fst t \<in> fst ` ptags st"
    proof -
      from that obtain s where s: "fst t = fst s" "s \<in> ptags st" by (rule imageE)
      then show ?thesis using same [of s] imageI [of s "ptags st1" fst] by simp
    qed
    ultimately show ?thesis using same [OF refl] by blast
  next
    case False
    with b t have "t \<in> ptags st1" unfolding renews_def by blast
    with a show ?thesis unfolding renews_def by blast
  qed
  moreover have "t \<in> ptags st2 \<longleftrightarrow> t \<in> ptags st" if "source_of t \<notin> Some ` (N \<union> M)" for t
    using a b that unfolding renews_def by (metis UnCI image_Un)
  ultimately show ?thesis unfolding renews_def by blast
qed

lemma run_alert_source_renews:
  assumes "inj (e_uuid4 env)" and "alerts_inv (e_uuid4 env) st" and "remote_ok src" and "this_node fi \<noteq> other_node fi"
  shows "renews {so_name src} st (run_alert_source env fi src st)"
proof -
  let ?st1 = "st\<lparr>st_last_run := (st_last_run st)(so_name src := e_now env)\<rparr>"
  have inv1: "alerts_inv (e_uuid4 env) ?st1" using assms(2) inv_cong [of ?st1 st] by simp
  obtain ts ps st2 where sa: "source_alerts env fi src ?st1 = (ts, ps, st2)" by (cases "source_alerts env fi src ?st1")
  obtain ts1 ps1 st3 where hb: "handle_both env (this_node fi) (other_node fi) ts ps st2 = (ts1, ps1, st3)"
    by (cases "handle_both env (this_node fi) (other_node fi) ts ps st2")
  from source_alerts_ready [OF inv1 assms(3) sa] have r: "source_ready fi (so_name src) ts ps st2" and inv2: "alerts_inv (e_uuid4 env) st2"
    by simp_all
  have st2: "st_alerts st2 = st_alerts st"
    using sa by (auto simp: source_alerts_def adopt_def run_source_def Let_def
        split: prod.splits if_splits option.splits check_result.splits)
  have adm: "list_all (admissible st2 (this_node fi)) ts" "list_all (admissible st2 (other_node fi)) ps"
    using r by (simp_all add: source_ready_def)
  note hs = handle_both_spec [OF assms(1) inv2 adm hb]
  have "persists st2 st3 (ts1 @ ps1)" by (rule handle_both_persists [OF assms(1) inv2 adm hb])
  then have same: "ptags st3 = ptags st" and new: "\<And>x. x \<in> set (ts1 @ ps1) \<Longrightarrow> ptag x \<in> ptags st \<or> fst (ptag x) \<notin> fst ` ptags st"
    unfolding persists_def fst_ptags using ptags_same [of st3 st2] st2 by (auto simp: ptag_def)
  have "(\<lambda>t. fst (snd t)) ` set (map identity (ts1 @ ps1)) \<subseteq> {Some (so_name src)}"
    using r unfolding map_append conjunct1 [OF conjunct2 [OF hs]] conjunct1 [OF conjunct2 [OF conjunct2 [OF hs]]]
    by (auto simp: source_ready_def ident_on_def)
  then have "(\<lambda>x. fst (snd (identity x))) ` set (ts1 @ ps1) \<subseteq> {Some (so_name src)}" unfolding set_map image_image .
  then have src: "al_source x = Some (so_name src)" if "x \<in> set (ts1 @ ps1)" for x using that by (auto simp: identity_def)
  let ?st = "st3\<lparr>st_alerts := filter (\<lambda>a. al_source a \<noteq> Some (so_name src)) (st_alerts st3) @ ts1 @ ps1\<rparr>"
  have pt: "ptags ?st = {t \<in> ptags st. source_of t \<noteq> Some (so_name src)} \<union> ptag ` set (ts1 @ ps1)"
    unfolding same [symmetric] by (auto simp: image_iff)
  have "\<forall>t \<in> ptag ` set (ts1 @ ps1). t \<in> ptags st \<or> fst t \<notin> fst ` ptags st" using new by blast
  moreover have "\<forall>t \<in> ptag ` set (ts1 @ ps1). source_of t = Some (so_name src)" using src source_of_ptag by (metis imageE)
  ultimately have "renews {so_name src} st ?st" unfolding renews_def pt by blast
  with sa hb show ?thesis by (simp add: run_alert_source_def Let_def renews_same)
qed

lemma run_alerts_renews:
  assumes "inj uuid4" and "env_ok uuid4 env" and "alerts_inv uuid4 st" and "distinct (map so_name (e_sources env))"
  shows "renews (so_name ` set (e_sources env)) st (run_alerts env st)"
proof -
  have "renews (so_name ` set srcs) s (fold (run_alert_source env fi) srcs s)"
    if "alerts_inv uuid4 s" "this_node fi \<noteq> other_node fi" "list_all remote_ok srcs" "distinct (map so_name srcs)" for s fi srcs
    using that
  proof (induction srcs arbitrary: s)
    case Nil
    then show ?case by (simp add: renews_same)
  next
    case (Cons src srcs)
    have u: "inj (e_uuid4 env)" "alerts_inv (e_uuid4 env) s" "remote_ok src"
      using Cons.prems assms(1,2) by (auto simp: env_ok_def)
    have "alerts_inv uuid4 (run_alert_source env fi src s)"
      using run_alert_source_inv [OF u Cons.prems(2)] assms(2) by (simp add: env_ok_def)
    with Cons have "renews (so_name ` set srcs) (run_alert_source env fi src s) (fold (run_alert_source env fi) srcs (run_alert_source env fi src s))"
      by simp
    from renews_trans [OF run_alert_source_renews [OF u Cons.prems(2)] this] Cons.prems(4) show ?case by simp
  qed
  moreover have "st_alerts (expire_locks env st) = st_alerts st"
  proof -
    have "st_alerts (unblock_source lock s) = st_alerts s" for lock s
      by (auto simp: unblock_source_def split: option.splits prod.splits)
    then have "st_alerts (fold (\<lambda>(lock, name, expires) st. if expires \<le> e_monotonic env then unblock_source lock st else st) ls s) = st_alerts s" for ls s
      by (induction ls arbitrary: s) auto
    then show ?thesis by (simp add: expire_locks_def)
  qed
  moreover have "alerts_inv uuid4 (expire_locks env st)" using assms(3) by (rule expire_locks_inv)
  moreover have "list_all remote_ok (e_sources env)" using assms(2) by (simp add: env_ok_def)
  ultimately have "renews (so_name ` set (e_sources env)) (expire_locks env st) (run_alerts env st)"
    unfolding run_alerts_def Let_def using this_other assms(4) by blast
  then show ?thesis by (simp add: renews_def \<open>st_alerts (expire_locks env st) = st_alerts st\<close>)
qed

text \<open>C11. An alert that is still there after the sources have run is the same alert with the same identifier,
  the time it was first seen and its dismissal: running the sources neither forgets that the user dismissed it
  nor hands out a new identifier, also when the run is undone because a failover began.\<close>

theorem alerts_persist:
  assumes "inj uuid4" and "alert_reachable uuid4 st" and "env_ok uuid4 env" and "distinct (map so_name (e_sources env))"
    and "a \<in> set (st_alerts st)" and "b \<in> set (st_alerts (process_alerts env still st))" and "identity a = identity b"
  shows "al_uuid b = al_uuid a \<and> al_datetime b = al_datetime a \<and> al_dismissed b = al_dismissed a"
proof -
  have inv: "alerts_inv uuid4 st" by (rule alerts.reach_inv [OF assms(2)])
  obtain xs st0 where ad: "adopt (st_alerts st) st = (xs, st0)" by (cases "adopt (st_alerts st) st")
  have st0: "st0 = st\<lparr>st_oids := st_oids st + length (st_alerts st)\<rparr>" using adopt_props(6) [OF ad] .
  have "alerts_inv uuid4 st0" using inv_oids [OF inv] by (simp add: st0)
  note ren0 = renewsD [OF run_alerts_renews [OF assms(1,3) this assms(4)]]
  have "st_alerts st0 = st_alerts st" by (simp add: st0)
  then have ren: "t \<in> ptags st \<or> fst t \<notin> fst ` ptags st" if "t \<in> ptags (run_alerts env st0)" for t
    using ren0 [OF that] by (simp only:)
  have "map ptag xs = map ptag (st_alerts st)" by (rule adopt_map [OF ad]) (simp add: ptag_def identity_def)
  then have xs: "ptag ` set xs = ptags st" by (metis set_map)
  have "set (st_alerts (process_alerts env still st)) \<subseteq> set (st_alerts st) \<union> set xs \<union> set (st_alerts (run_alerts env st0))"
    using ad by (auto simp: process_alerts_def Let_def expire_alerts_def add_job_def)
  with assms(6) have "ptag b \<in> ptags st \<or> ptag b \<in> ptags (run_alerts env st0)" using xs by blast
  with ren have "ptag b \<in> ptags st \<or> fst (ptag b) \<notin> fst ` ptags st" by blast
  then have "ptag b \<in> ptags st \<or> identity b \<notin> identity ` set (st_alerts st)" unfolding fst_ptags by (simp add: ptag_def)
  moreover have "identity b \<in> identity ` set (st_alerts st)" using assms(5,7) by (metis imageI)
  ultimately obtain c where c: "c \<in> set (st_alerts st)" "ptag b = ptag c" by blast
  then have "identity c = identity a" using assms(7) by (simp add: ptag_def)
  moreover have "distinct (map identity (st_alerts st))" using inv by (simp add: alerts_inv_def)
  ultimately have "c = a" using c(1) assms(5) by (metis distinct_map inj_onD)
  with c(2) show ?thesis by (simp add: ptag_def)
qed

theorem alerts_persist_witness:
  "al_uuid (hd (st_alerts (process_alerts (demo_env 3) True (process_alerts (demo_env 2) True demo_start)))) =
     al_uuid (hd (st_alerts (process_alerts (demo_env 2) True demo_start))) \<and>
   al_dismissed (hd (st_alerts (process_alerts (demo_env 3) True (process_alerts (demo_env 2) True demo_start)))) =
     al_dismissed (hd (st_alerts (process_alerts (demo_env 2) True demo_start)))"
proof -
  let ?st = "process_alerts (demo_env 2) True demo_start"
  have a: "st_alerts ?st = [demo_seen 0 2]" by (simp add: demo_process DATETIME_MIN_def)
  have lockless: "st_sources_locks ?st = [] \<and> st_blocked_sources ?st = (\<lambda>_. {}) \<and> st_last_run ?st ''Quota'' = 2"
    by (rule demo_process_fields) 
  then have b: "st_alerts (process_alerts (demo_env 3) True ?st) = [demo_seen (st_oids ?st + 1) 3]"
    using a by (subst demo_process) (auto simp: DATETIME_MIN_def)
  from alerts_persist [OF demo_ok(1) demo_reached(2) demo_ok(2), of 3 "demo_seen 0 2" "demo_seen (st_oids ?st + 1) 3" True] show ?thesis
    by (simp add: a b)
qed

end
