(* ===== verification/AlertTable.thy ===== *)
theory AlertTable
  imports AlertEvents
begin

text \<open>
  Blocked sources, the table of alerts, the order of \<open>alert.list\<close>, and the alerts of a source that
  are dropped.
\<close>

section \<open>Blocked sources\<close>

definition locks_inv :: "(nat \<Rightarrow> string) \<Rightarrow> alert_state \<Rightarrow> bool" where
  "locks_inv uuid4 st \<longleftrightarrow>
     distinct (map fst (st_sources_locks st)) \<and>
     (\<forall>(lock, name, t) \<in> set (st_sources_locks st). \<exists>i < st_uuids st. lock = uuid4 i) \<and>
     (\<forall>name. st_blocked_sources st name = {lock. \<exists>t. (lock, name, t) \<in> set (st_sources_locks st)})"

text \<open>Operations that leave the locks alone.\<close>

definition lockless :: "alert_state \<Rightarrow> alert_state \<Rightarrow> bool" where
  "lockless st st' \<longleftrightarrow> st_sources_locks st' = st_sources_locks st \<and> st_blocked_sources st' = st_blocked_sources st \<and> st_uuids st \<le> st_uuids st'"

lemma lockless_refl [simp]: "lockless st st"
  by (simp add: lockless_def)

lemma lockless_trans: "lockless st st1 \<Longrightarrow> lockless st1 st2 \<Longrightarrow> lockless st st2"
  by (auto simp: lockless_def)

lemma lockless_fold: "(\<And>x s. lockless s (f x s)) \<Longrightarrow> lockless st (fold f xs st)"
  by (induction xs arbitrary: st) (auto intro: lockless_trans)

lemma lockless_inv: "lockless st st' \<Longrightarrow> locks_inv uuid4 st \<Longrightarrow> locks_inv uuid4 st'"
  unfolding locks_inv_def lockless_def by (elim conjE, simp only:) (fastforce intro: order.strict_trans2)

lemma lockless_updates [simp]:
  "lockless st (set_object a st)" "lockless st (emit e st)" "lockless st (add_job j st)" "lockless st (expire_alerts env st)"
  "lockless st (flush_alerts env st)" "lockless st (delete_on_dismiss a st)" "lockless st (set_policy name p st)"
  "lockless st (st\<lparr>st_alerts := xs\<rparr>)"
  by (auto simp: lockless_def set_object_def map_policies_def emit_def add_job_def expire_alerts_def flush_alerts_def
      delete_on_dismiss_def Let_def set_policy_def)

lemma lockless_handle_on_node: "handle_on_node env node a st = (r, st') \<Longrightarrow> lockless st st'"
  by (auto simp: handle_on_node_def handle_alert_def lockless_def set_object_def map_policies_def split: prod.splits option.splits)

lemma lockless_handle_both: "handle_both env this other ts ps st = (ts1, ps1, st') \<Longrightarrow> lockless st st'"
proof (induction env this other ts ps st arbitrary: ts1 ps1 st' rule: handle_both.induct)
qed (auto split: prod.splits, (meson lockless_trans lockless_handle_on_node)+)

lemma lockless_run_alert_source: "lockless st (run_alert_source env fi src st)"
proof -
  let ?st1 = "st\<lparr>st_last_run := (st_last_run st)(so_name src := e_now env)\<rparr>"
  obtain ts ps st2 where sa: "source_alerts env fi src ?st1 = (ts, ps, st2)" by (cases "source_alerts env fi src ?st1")
  obtain ts1 ps1 st3 where hb: "handle_both env (this_node fi) (other_node fi) ts ps st2 = (ts1, ps1, st3)"
    by (cases "handle_both env (this_node fi) (other_node fi) ts ps st2")
  have "lockless st st2"
    using sa by (auto simp: source_alerts_def adopt_def run_source_def Let_def lockless_def
        split: prod.splits if_splits option.splits check_result.splits)
  from lockless_trans [OF this lockless_handle_both [OF hb]] have "lockless st (st3\<lparr>st_alerts := xs\<rparr>)" for xs
    by (rule lockless_trans) simp
  with sa hb show ?thesis by (simp add: run_alert_source_def Let_def)
qed

lemma lockless_notify: "lockless st (notify_service env name gone new sv st)"
  by (auto simp: notify_service_def Let_def lockless_def split: prod.splits)

lemma lockless_announce: "lockless st (announce env gone new st)"
proof -
  have "lockless s (proactive_support env gone new s)" for s
    by (cases "e_ticket_failed env") (simp_all add: proactive_support_def Let_def lockless_def add_job_def)
  moreover have "lockless s (fold (\<lambda>a. emit (f a)) xs s)" for f s and xs :: "alert list" by (rule lockless_fold) simp
  moreover have "lockless s (s\<lparr>st_mails := m\<rparr>)" for s m by (simp add: lockless_def)
  ultimately show ?thesis unfolding announce_def Let_def by (meson lockless_trans)
qed

lemma lockless_send_alerts: "lockless st (send_alerts env st)"
proof -
  have "lockless s (send_policy env name s)" for s name
  proof -
    have "lockless t (fold (notify_service env name gone new) (e_services env) t)" for t gone new
      by (rule lockless_fold) (rule lockless_notify)
    from lockless_trans [OF lockless_updates(7) this]
    have "lockless s (fold (notify_service env name gone new) (e_services env) (set_policy name p s))" for p gone new .
    with lockless_trans [OF this lockless_announce] show ?thesis
      by (cases "name = ''IMMEDIATELY''") (simp_all add: send_policy_def Let_def split: option.split prod.split)
  qed
  then have "lockless s (fold (send_policy env) ns s)" for ns s by (rule lockless_fold)
  then show ?thesis by (simp add: send_alerts_def) (simp add: lockless_def)
qed

lemma lockless_dismiss: "lockless st (snd (dismiss env uuid st))" and lockless_restore: "lockless st (restore env uuid st)"
proof -
  have "lockless s (fold delete_on_dismiss xs s)" for s xs by (rule lockless_fold) simp
  moreover have "lockless s (changed env a (set_object a s))" for a s by (simp add: changed_def) (meson lockless_trans lockless_updates)
  ultimately show "lockless st (snd (dismiss env uuid st))" "lockless st (restore env uuid st)"
    by (auto simp: dismiss_def restore_def Let_def split: option.split sum.split)
qed

lemma lockless_oneshots: "lockless st (snd (oneshot_create env k args st))" "lockless st (snd (oneshot_delete env ks query st))"
proof -
  have "lockless st (add_oneshot env a st)" for a
    by (auto simp: add_oneshot_def adopt_def handle_alert_def add_job_def lockless_def split: prod.split option.split)
  then show "lockless st (snd (oneshot_create env k args st))" by (auto simp: oneshot_create_def split: sum.split option.split)
  have one: "lockless (snd p) (snd (snd (delete_class env query k p)))" for k p
    by (auto simp: delete_class_def Let_def lockless_def split: prod.split sum.split)
  have "lockless (snd p) (snd (snd (run_seq (delete_class env query) ks p)))" for p
  proof (induction ks arbitrary: p)
    case (Cons k ks)
    obtain r q where d: "delete_class env query k p = (r, q)" by (cases "delete_class env query k p")
    with one [of p k] have "lockless (snd p) (snd q)" by simp
    with Cons.IH [of q] d lockless_trans show ?case by (cases r) auto
  qed simp
  from this [of "(False, st)"] show "lockless st (snd (oneshot_delete env ks query st))"
    using lockless_trans [OF _ lockless_trans [OF lockless_updates(5) lockless_updates(3)]]
    by (auto simp: oneshot_delete_def split: prod.split sum.split)
qed

text \<open>Releasing locks.\<close>

lemma unblock_locks:
  assumes "locks_inv uuid4 st"
  shows "st_sources_locks (unblock_source lock st) = AList.delete lock (st_sources_locks st)" "locks_inv uuid4 (unblock_source lock st)"
proof -
  show d: "st_sources_locks (unblock_source lock st) = AList.delete lock (st_sources_locks st)"
    by (auto simp: unblock_source_def delete_idem map_of_eq_None_iff split: option.split prod.split)
  have "st_blocked_sources (unblock_source lock st) name = st_blocked_sources st name - {lock}" for name
    using assms by (auto simp: unblock_source_def locks_inv_def split: option.split prod.split dest: eq_key_imp_eq_value)
  moreover have "st_uuids (unblock_source lock st) = st_uuids st" by (auto simp: unblock_source_def split: option.split prod.split)
  ultimately show "locks_inv uuid4 (unblock_source lock st)"
    using assms unfolding locks_inv_def d by (auto simp: AList.delete_eq distinct_map_filter)
qed

abbreviation expire_lock :: "int \<Rightarrow> string \<times> string \<times> int \<Rightarrow> alert_state \<Rightarrow> alert_state" where
  "expire_lock now \<equiv> \<lambda>(lock, name, expires) st. if expires \<le> now then unblock_source lock st else st"

lemma expire_fold:
  assumes "locks_inv uuid4 st"
  shows "locks_inv uuid4 (fold (expire_lock now) ls st) \<and>
    st_sources_locks (fold (expire_lock now) ls st) =
      filter (\<lambda>(lock, name, t). \<not> (\<exists>n e. (lock, n, e) \<in> set ls \<and> e \<le> now)) (st_sources_locks st)"
  using assms
proof (induction ls arbitrary: st)
  case (Cons l ls)
  obtain lock name e where l: "l = (lock, name, e)" by (cases l)
  show ?case
  proof (cases "e \<le> now")
    case True
    note u = unblock_locks [OF Cons.prems, of lock]
    from Cons.IH [OF u(2)] True show ?thesis
      by (auto simp: l u(1) AList.delete_eq intro!: filter_cong)
  next
    case False
    with Cons show ?thesis by (auto simp: l intro!: filter_cong)
  qed
qed (simp add: case_prod_unfold)

lemma expire_locks_spec:
  assumes "locks_inv uuid4 st"
  shows "locks_inv uuid4 (expire_locks env st)"
    "st_sources_locks (expire_locks env st) = filter (\<lambda>(lock, name, t). e_monotonic env < t) (st_sources_locks st)"
proof -
  have eq: "expire_locks env st = fold (expire_lock (e_monotonic env)) (st_sources_locks st) st" by (simp add: expire_locks_def)
  have "(\<exists>n e. (lock, n, e) \<in> set (st_sources_locks st) \<and> e \<le> e_monotonic env) \<longleftrightarrow> t \<le> e_monotonic env"
    if "(lock, name, t) \<in> set (st_sources_locks st)" for lock name t
    using that assms by (auto simp: locks_inv_def dest: eq_key_imp_eq_value)
  then have "\<forall>p \<in> set (st_sources_locks st). (case p of (lock, name, t) \<Rightarrow> \<not> (\<exists>n e. (lock, n, e) \<in> set (st_sources_locks st) \<and> e \<le> e_monotonic env))
      \<longleftrightarrow> (case p of (lock, name, t) \<Rightarrow> e_monotonic env < t)" 
    unfolding case_prod_unfold by (metis not_le prod.collapse)
  then show "st_sources_locks (expire_locks env st) = filter (\<lambda>(lock, name, t). e_monotonic env < t) (st_sources_locks st)"
    unfolding eq conjunct2 [OF expire_fold [OF assms]] by (intro filter_cong [OF refl]) blast
  show "locks_inv uuid4 (expire_locks env st)" unfolding eq using expire_fold [OF assms] by blast
qed

lemma run_alerts_locks: "lockless (expire_locks env st) (run_alerts env st)"
  unfolding run_alerts_def Let_def by (rule lockless_fold) (rule lockless_run_alert_source)

lemma process_locks:
  assumes "should_run_or_send_alerts env"
  shows "\<exists>st0. lockless st st0 \<and> lockless (expire_locks env st0) (process_alerts env still st)"
proof -
  obtain xs st0 where ad: "adopt (st_alerts st) st = (xs, st0)" by (cases "adopt (st_alerts st) st")
  have "lockless st st0" using adopt_props(6) [OF ad] by (simp add: lockless_def)
  moreover have "lockless (expire_locks env st0) (expire_alerts env (run_alerts env st0))"
    using run_alerts_locks by (rule lockless_trans) simp
  then have "lockless (expire_locks env st0) (process_alerts env still st)"
    using assms ad lockless_trans [OF _ lockless_updates(3)] lockless_trans [OF _ lockless_updates(8)]
    by (simp add: process_alerts_def Let_def)
  ultimately show ?thesis by blast
qed

lemma block_locks:
  assumes "inj uuid4" and "locks_inv uuid4 st" and "e_uuid4 env = uuid4" and b: "block_source env name timeout st = (Inr lock, st1)"
  shows "locks_inv uuid4 st1" "(lock, name, e_monotonic env + timeout) \<in> set (st_sources_locks st1)"
    "set (st_sources_locks st) \<subseteq> set (st_sources_locks st1)"
proof -
  have lock: "lock = uuid4 (st_uuids st)" and st1: "st_uuids st1 = Suc (st_uuids st)"
    "st_sources_locks st1 = AList.update lock (name, e_monotonic env + timeout) (st_sources_locks st)"
    "st_blocked_sources st1 = (st_blocked_sources st)(name := insert lock (st_blocked_sources st name))"
    using b assms(3) by (auto simp: block_source_def Let_def split: if_splits)
  have fresh: "lock \<notin> fst ` set (st_sources_locks st)"
    using assms(1,2) unfolding lock locks_inv_def by (fastforce dest: injD)
  then have upd: "st_sources_locks st1 = st_sources_locks st @ [(lock, name, e_monotonic env + timeout)]"
    unfolding st1 by (rule update_new_append)
  then show "(lock, name, e_monotonic env + timeout) \<in> set (st_sources_locks st1)" "set (st_sources_locks st) \<subseteq> set (st_sources_locks st1)"
    by auto
  show "locks_inv uuid4 st1"
    using assms(2) fresh unfolding locks_inv_def upd st1(1,3) lock
    by (auto simp: less_Suc_eq)
qed

lemma alert_run_locks:
  assumes "inj uuid4" and "env_ok uuid4 env" and "locks_inv uuid4 st"
  shows "locks_inv uuid4 (alert_run env c st)"
proof -
  have u: "e_uuid4 env = uuid4" using assms(2) by (simp add: env_ok_def)
  have blk: "locks_inv uuid4 (snd (block_source env n t st))" for n t
  proof (cases "block_source env n t st")
    case (Pair r st1)
    then show ?thesis using block_locks(1) [OF assms(1,3) u, of n t] assms(3)
      by (cases r) (auto simp: block_source_def Let_def split: if_splits)
  qed
  have "lockless st (block_failover_alerts env st)" "lockless st (snd (alert_source_clear_run env n st))" "lockless st (event_system st)" for n
    by (auto simp: lockless_def block_failover_alerts_def alert_source_clear_run_def event_system_def add_job_def)
  note l = this [THEN lockless_inv] lockless_send_alerts [THEN lockless_inv] lockless_dismiss [THEN lockless_inv] lockless_restore [THEN lockless_inv]
    lockless_oneshots [THEN lockless_inv] lockless_updates(5) [THEN lockless_inv]
  have "locks_inv uuid4 (process_alerts env still st)" for still
  proof (cases "should_run_or_send_alerts env")
    case True
    from process_locks [OF this, of st still] obtain st0 where "lockless st st0" "lockless (expire_locks env st0) (process_alerts env still st)" by blast
    with assms(3) expire_locks_spec(1) lockless_inv show ?thesis by blast
  qed (simp add: process_alerts_def assms(3))
  then show ?thesis using l [OF assms(3)] blk unblock_locks(2) [OF assms(3)] by (cases c) (simp_all add: alert_run_def)
qed

text \<open>A service that has just been created has no locks.\<close>

definition alert_boot :: "(nat \<Rightarrow> string) \<Rightarrow> alert_state \<Rightarrow> bool" where
  "alert_boot uuid4 st \<longleftrightarrow> alert_start uuid4 st \<and> st_sources_locks st = [] \<and> st_blocked_sources st = (\<lambda>_. {})"

interpretation locks: inductive_invariant "alert_boot uuid4" "alert_step uuid4" "locks_inv uuid4" for uuid4
proof
  show "alert_boot uuid4 st \<Longrightarrow> locks_inv uuid4 st" for st by (simp add: alert_boot_def locks_inv_def)
  show "locks_inv uuid4 st \<Longrightarrow> alert_step uuid4 st st' \<Longrightarrow> locks_inv uuid4 st'" for st st'
    by (auto simp: alert_step_def alert_run_locks)
qed

lemma lock_kept:
  assumes "inj uuid4" and "env_ok uuid4 env" and inv: "locks_inv uuid4 st" and l: "(lock, name, t) \<in> set (st_sources_locks st)"
    and "c \<noteq> UnblockSource lock" and "e_monotonic env < t"
  shows "(lock, name, t) \<in> set (st_sources_locks (alert_run env c st))"
proof -
  have u: "e_uuid4 env = uuid4" using assms(2) by (simp add: env_ok_def)
  have same: "(lock, name, t) \<in> set (st_sources_locks st')" if "lockless st st'" for st' using that l by (simp add: lockless_def)
  have blk: "(lock, name, t) \<in> set (st_sources_locks (snd (block_source env n d st)))" for n d
  proof (cases "block_source env n d st")
    case (Pair r st1)
    then show ?thesis using block_locks(3) [OF assms(1) inv u, of n d] l
      by (cases r) (auto simp: block_source_def Let_def split: if_splits)
  qed
  have proc: "(lock, name, t) \<in> set (st_sources_locks (process_alerts env still st))" for still
  proof (cases "should_run_or_send_alerts env")
    case True
    from process_locks [OF this, of st still] obtain st0 where st0: "lockless st st0" and pr: "lockless (expire_locks env st0) (process_alerts env still st)" by blast
    have "st_sources_locks (process_alerts env still st) = filter (\<lambda>(lock, name, t). e_monotonic env < t) (st_sources_locks st)"
      using expire_locks_spec(2) [OF lockless_inv [OF st0 inv], of env] pr st0 by (simp add: lockless_def)
    with l assms(6) show ?thesis by simp
  qed (simp add: process_alerts_def l)
  have unb: "(lock, name, t) \<in> set (st_sources_locks (unblock_source k st))" if "k \<noteq> lock" for k
    using that l by (simp add: unblock_locks(1) [OF inv] AList.delete_eq)
  have "lockless st (block_failover_alerts env st)" "lockless st (snd (alert_source_clear_run env n st))" "lockless st (event_system st)" for n
    by (auto simp: lockless_def block_failover_alerts_def alert_source_clear_run_def event_system_def add_job_def)
  note q = this [THEN same] lockless_send_alerts [THEN same] lockless_dismiss [THEN same] lockless_restore [THEN same]
    lockless_oneshots [THEN same] lockless_updates(5) [THEN same]
  show ?thesis using q blk proc unb assms(5) by (cases c) (simp_all add: alert_run_def)
qed

lemma lock_kept_ops:
  assumes "inj uuid4" and "locks_inv uuid4 st" and "(lock, name, t) \<in> set (st_sources_locks st)"
    and "\<forall>(env, c) \<in> set cs. env_ok uuid4 env \<and> c \<noteq> UnblockSource lock \<and> e_monotonic env < t"
  shows "lock \<in> st_blocked_sources (alert_ops cs st) name"
  using assms(2-4)
proof (induction cs arbitrary: st)
  case Nil
  then show ?case by (auto simp: locks_inv_def)
next
  case (Cons ec cs)
  obtain env c where ec: "ec = (env, c)" by (cases ec)
  with Cons.prems(3) have ok: "env_ok uuid4 env" "c \<noteq> UnblockSource lock" "e_monotonic env < t" by auto
  from Cons.IH [OF alert_run_locks [OF assms(1) ok(1) Cons.prems(1)] lock_kept [OF assms(1) ok(1) Cons.prems(1,2) ok(2,3)]] Cons.prems(3)
  show ?case by (simp add: ec)
qed

text \<open>A source that was blocked with a timeout stays blocked by that lock until the lock is given back or the
  timeout has passed, whatever other locks of the same or of other sources are taken, given back or expire.\<close>

theorem block_holds:
  assumes "inj uuid4" and "reach (alert_boot uuid4) (alert_step uuid4) st" and "e_uuid4 env = uuid4"
    and "block_source env name timeout st = (Inr lock, st1)"
    and "\<forall>(env', c) \<in> set cs. env_ok uuid4 env' \<and> c \<noteq> UnblockSource lock \<and> e_monotonic env' < e_monotonic env + timeout"
  shows "lock \<in> st_blocked_sources (alert_ops cs st1) name"
  using lock_kept_ops [OF assms(1) block_locks(1,2) [OF assms(1) locks.reach_inv [OF assms(2)] assms(3,4)] assms(5)] .

theorem block_holds_witness:
  "str_of_nat 0 \<in> st_blocked_sources (alert_ops [(demo_env 2, ProcessAlerts True)] (snd (block_source (demo_env 1) ''Quota'' 10 demo_start))) ''Quota''"
proof (rule block_holds [OF demo_ok(1) reach_init])
  show "alert_boot str_of_nat demo_start"
    using demo_start by (simp add: alert_boot_def initialize_def Let_def demo_state_def adopt_def)
  show "e_uuid4 (demo_env 1) = str_of_nat" by (simp add: demo_env_def)
  show "block_source (demo_env 1) ''Quota'' 10 demo_start = (Inr (str_of_nat 0), snd (block_source (demo_env 1) ''Quota'' 10 demo_start))"
    by (simp add: block_source_def demo_env_def demo_source_def Let_def initialize_def demo_state_def adopt_def
        load_alerts_def map_filter_def by_class_def)
  show "\<forall>(env', c) \<in> set [(demo_env 2, ProcessAlerts True)]. env_ok str_of_nat env' \<and> c \<noteq> UnblockSource (str_of_nat 0) \<and>
      e_monotonic env' < e_monotonic (demo_env 1) + 10"
    using demo_ok(2) by (simp add: demo_env_def)
qed

text \<open>No source is blocked for ever: when the sources are run, exactly the locks whose time has not passed
  still block their sources.\<close>

theorem locks_expire:
  assumes "reach (alert_boot uuid4) (alert_step uuid4) st" and "should_run_or_send_alerts env"
  shows "st_blocked_sources (process_alerts env still st) name =
    {lock. \<exists>t. (lock, name, t) \<in> set (st_sources_locks st) \<and> e_monotonic env < t}"
proof -
  have inv: "locks_inv uuid4 st" by (rule locks.reach_inv [OF assms(1)])
  from process_locks [OF assms(2), of st still] obtain st0
    where st0: "lockless st st0" and pr: "lockless (expire_locks env st0) (process_alerts env still st)" by blast
  note e = expire_locks_spec [OF lockless_inv [OF st0 inv], of env]
  then have "st_blocked_sources (expire_locks env st0) name = {lock. \<exists>t. (lock, name, t) \<in> set (st_sources_locks st0) \<and> e_monotonic env < t}"
    by (simp add: locks_inv_def)
  with pr st0 show ?thesis by (simp add: lockless_def)
qed

theorem locks_expire_witness: "st_blocked_sources (process_alerts (demo_env 20) True demo_start) ''Quota'' = {}"
proof -
  have "alert_boot str_of_nat demo_start"
    using demo_start by (simp add: alert_boot_def initialize_def Let_def demo_state_def adopt_def)
  then have r: "reach (alert_boot str_of_nat) (alert_step str_of_nat) demo_start" by (rule reach_init)
  have "should_run_or_send_alerts (demo_env 20)" by (simp add: should_run_or_send_alerts_def demo_env_def)
  from locks_expire [OF r this, of True "''Quota''"] show ?thesis
    by (simp add: initialize_def Let_def demo_state_def adopt_def)
qed

section \<open>The table\<close>

text \<open>An alert whose source and class the next start knows, and that has been handled.\<close>

definition storable :: "alert_env \<Rightarrow> alert \<Rightarrow> bool" where
  "storable env a \<longleftrightarrow>
     (al_source a \<in> {None, Some []} \<or> al_source a \<in> (\<lambda>s. Some (so_name s)) ` set (e_sources env)) \<and>
     map_of (e_class_by_name env) (kl_name (al_klass a)) = Some (al_klass a) \<and>
     al_last_occurrence a \<noteq> None \<and> al_text a \<noteq> []"

lemma load_row_alert: "storable env a \<Longrightarrow> load_row env (alert_row a) = Some (a\<lparr>al_oid := 0, al_mail := None\<rparr>)"
  by (auto simp: storable_def load_row_def alert_row_def)

lemma unique_uuids_distinct: "distinct (map al_uuid xs) \<Longrightarrow> set (map al_uuid xs) \<inter> us = {} \<Longrightarrow> unique_uuids us xs = xs"
  by (induction xs arbitrary: us) auto



section \<open>The order of the list\<close>

text \<open>\<open>alert.list\<close> returns every alert that is shown once, the more severe before the less severe, equal levels by
  title and equal titles by time, and alerts that are equal in all three in the order in which they came.\<close>

theorem alert_list_order:
  "mset (alert_list env st) = mset (filter (should_show_alert env) (st_alerts st)) \<and>
   sorted_wrt (\<lambda>a b. \<not> list_before env b a) (alert_list env st) \<and>
   filter (\<lambda>a. \<not> list_before env a z \<and> \<not> list_before env z a) (alert_list env st) =
     filter (\<lambda>a. should_show_alert env a \<and> \<not> list_before env a z \<and> \<not> list_before env z a) (st_alerts st)"
proof (intro conjI)
  let ?s = "isort_by (list_before env) (st_alerts st)"
  show "mset (alert_list env st) = mset (filter (should_show_alert env) (st_alerts st))"
    by (simp add: alert_list_def mset_filter alert_order.mset_isort_by)
  show "sorted_wrt (\<lambda>a b. \<not> list_before env b a) (alert_list env st)"
    unfolding alert_list_def by (rule sorted_wrt_filter) (rule alert_order.sorted_isort_by, simp)
  have "filter (\<lambda>a. \<not> list_before env a z \<and> \<not> list_before env z a) (alert_list env st) =
      filter (should_show_alert env) (filter (\<lambda>a. \<not> list_before env z a \<and> \<not> list_before env a z) ?s)"
    unfolding alert_list_def filter_filter by (rule filter_cong) auto
  also have "\<dots> = filter (should_show_alert env) (filter (\<lambda>a. \<not> list_before env z a \<and> \<not> list_before env a z) (st_alerts st))"
    using alert_order.stable_isort_by [of "st_alerts st" z env] by simp
  also have "\<dots> = filter (\<lambda>a. should_show_alert env a \<and> \<not> list_before env a z \<and> \<not> list_before env z a) (st_alerts st)"
    unfolding filter_filter by (rule filter_cong) auto
  finally show "filter (\<lambda>a. \<not> list_before env a z \<and> \<not> list_before env z a) (alert_list env st) =
     filter (\<lambda>a. should_show_alert env a \<and> \<not> list_before env a z \<and> \<not> list_before env z a) (st_alerts st)" .
qed

section \<open>Alerts of one source with the same key\<close>

lemma unique_keys_drop: "al_key b \<in> al_key ` set xs \<union> ks \<Longrightarrow> unique_keys ks (xs @ b # ys) = unique_keys ks (xs @ ys)"
  by (induction xs arbitrary: ks) auto

text \<open>An alert of a source is lost when an alert before it has the same key, also when the two are of different
  classes and so different alerts: the run is the same as if the source had not reported it. The documentation of
  \<open>Alert\<close> says that the key distinguishes alerts of the same class.\<close>

theorem same_key_dropped:
  assumes "so_check src = Checked (xs @ a # ys @ b # zs)" and "al_key a = al_key b"
  shows "run_source env src st = run_source env (src\<lparr>so_check := Checked (xs @ a # ys @ zs)\<rparr>) st"
  using assms unique_keys_drop [of b "xs @ a # ys" "{}" zs] by (simp add: run_source_def Let_def)

theorem same_key_dropped_witness:
  "run_source (demo_env 1) (demo_source\<lparr>so_check := Checked [demo_alert, demo_alert\<lparr>al_klass := FAILED_CLASS\<rparr>]\<rparr>) demo_state =
   run_source (demo_env 1) (demo_source\<lparr>so_check := Checked [demo_alert]\<rparr>) demo_state"
  using same_key_dropped [of "demo_source\<lparr>so_check := Checked [demo_alert, demo_alert\<lparr>al_klass := FAILED_CLASS\<rparr>]\<rparr>" "[]" demo_alert "[]"
      "demo_alert\<lparr>al_klass := FAILED_CLASS\<rparr>" "[]" "demo_env 1" demo_state] by simp

end
