(* ===== verification/RateLimit.thy ===== *)
theory RateLimit
  imports LoginProofs
begin

text \<open>
  The limit on calls that need no login: the cache of \<open>utils/rate_limit/cache.py\<close>, the service
  \<open>rate.limit\<close> that clears it and the test of \<open>Middleware.authorize_method_call\<close>. The clock is read
  once per call, in seconds.
\<close>

section \<open>The cache\<close>

definition max_calls :: nat where "max_calls = 20"
definition max_period :: int where "max_period = 60"
definition max_cache_entries :: nat where "max_cache_entries = 100"
definition separator :: string where "separator = ''_##_''"

record rate_limit_object =
  num_times_called :: nat
  last_reset :: int

type_synonym rl_cache = "rate_limit_object dict"

definition cache_key :: "string \<Rightarrow> string \<Rightarrow> string" where
  "cache_key method_name ip = method_name @ separator @ ip"

text \<open>The entry after a call at \<open>now\<close>: a window that has elapsed is reset, and the call is counted.\<close>

definition count_call :: "int \<Rightarrow> rate_limit_object \<Rightarrow> rate_limit_object" where
  "count_call now e =
     (let e1 = (if max_period - (now - last_reset e) \<le> 0 then e\<lparr>num_times_called := 0, last_reset := now\<rparr> else e)
      in e1\<lparr>num_times_called := Suc (num_times_called e1)\<rparr>)"

definition rate_limit_exceeded :: "int \<Rightarrow> string \<Rightarrow> string \<Rightarrow> rl_cache \<Rightarrow> bool \<times> rl_cache" where
  "rate_limit_exceeded now method_name ip cache =
     (let key = cache_key method_name ip in
      case map_of cache key of
        None \<Rightarrow> (False, cache)
      | Some e \<Rightarrow> (num_times_called (count_call now e) > max_calls, AList.update key (count_call now e) cache))"

definition rl_add :: "int \<Rightarrow> string \<Rightarrow> origin option \<Rightarrow> rl_cache \<Rightarrow> string option \<times> rl_cache" where
  "rl_add now method_name orig cache =
     (case orig of
        None \<Rightarrow> (None, cache)
      | Some o1 \<Rightarrow>
          if is_ha_connection o1 \<or> is_unix_family o1 \<or> rem_port o1 = None then (None, cache)
          else case rem_addr o1 of
            None \<Rightarrow> (None, cache)
          | Some ip \<Rightarrow>
              (Some ip,
               if map_of cache (cache_key method_name ip) = None
               then AList.update (cache_key method_name ip) \<lparr>num_times_called = 0, last_reset = now\<rparr> cache
               else cache))"

definition cache_pop :: "string \<Rightarrow> string \<Rightarrow> rl_cache \<Rightarrow> rl_cache" where
  "cache_pop method_name ip cache = AList.delete (cache_key method_name ip) cache"

definition cache_clear :: "rl_cache \<Rightarrow> rl_cache" where
  "cache_clear cache = []"

definition max_entries_reached :: "rl_cache \<Rightarrow> bool" where
  "max_entries_reached cache \<longleftrightarrow> length cache = max_cache_entries"

section \<open>The test of a call\<close>

text \<open>
  What \<open>authorize_method_call\<close> does with the cache, and whether it refuses the call. Both elements
  of the tuple given to \<open>any\<close> are computed, so a refused call is counted too.
\<close>

definition rate_limit_call :: "int \<Rightarrow> string \<Rightarrow> origin option \<Rightarrow> rl_cache \<Rightarrow> bool \<times> rl_cache" where
  "rate_limit_call now method_name orig cache =
     (case rl_add now method_name orig cache of
        (None, c1) \<Rightarrow> (False, c1)
      | (Some ip, c1) \<Rightarrow>
          let (exceeded, c2) = rate_limit_exceeded now method_name ip c1
          in (max_entries_reached c1 \<or> exceeded, c2))"

text \<open>The address a call is counted for.\<close>

definition limited_address :: "origin option \<Rightarrow> string option" where
  "limited_address orig = fst (rl_add 0 [] orig [])"

lemma rl_add_address: "fst (rl_add now m orig cache) = limited_address orig"
  by (auto simp: limited_address_def rl_add_def split: option.splits)

text \<open>A call that is not counted changes nothing; one that is has one entry changed.\<close>

definition entry_at :: "int \<Rightarrow> string \<Rightarrow> rl_cache \<Rightarrow> rate_limit_object" where
  "entry_at now key cache =
     (case map_of cache key of None \<Rightarrow> \<lparr>num_times_called = 0, last_reset = now\<rparr> | Some e \<Rightarrow> e)"

lemma rate_limit_call_other:
  "limited_address orig = None \<Longrightarrow> rate_limit_call now m orig cache = (False, cache)"
  by (auto simp: limited_address_def rate_limit_call_def rl_add_def split: option.splits if_splits)

lemma update_update_alist: "AList.update k v (AList.update k w xs) = AList.update k v xs"
  by (induction xs) auto

lemma rate_limit_call_counted:
  assumes "limited_address orig = Some ip"
  shows "rate_limit_call now m orig cache =
    (let key = cache_key m ip; e = count_call now (entry_at now key cache); c2 = AList.update key e cache
     in (length c2 = max_cache_entries \<or> num_times_called e > max_calls, c2))"
proof -
  from assms obtain o1 where orig: "orig = Some o1" "rem_addr o1 = Some ip"
      "\<not> (is_ha_connection o1 \<or> is_unix_family o1 \<or> rem_port o1 = None)"
    by (auto simp: limited_address_def rl_add_def split: option.splits if_splits)
  have len: "length (AList.update k v (AList.update k w xs)) = length (AList.update k w xs)" for k v w and xs :: rl_cache
    by (induction xs) auto
  have old: "length (AList.update k v xs) = length xs" if "map_of xs k = Some e" for k v e and xs :: rl_cache
    using that by (induction xs) (auto split: if_splits)
  show ?thesis
  proof (cases "map_of cache (cache_key m ip)")
    case None
    with orig show ?thesis
      by (auto simp: rate_limit_call_def rl_add_def rate_limit_exceeded_def entry_at_def Let_def update_conv'
          max_entries_reached_def update_update_alist)
         (metis len update_update_alist)+
  next
    case (Some e)
    with orig old show ?thesis
      by (auto simp: rate_limit_call_def rl_add_def rate_limit_exceeded_def entry_at_def Let_def
          max_entries_reached_def)
  qed
qed

section \<open>Calls in a period\<close>

type_synonym rl_event = "int \<times> string \<times> origin option"

text \<open>The instants of the calls that are counted under a key and not refused.\<close>

fun accepted :: "string \<Rightarrow> rl_event list \<Rightarrow> rl_cache \<Rightarrow> int list" where
  "accepted key [] cache = []"
| "accepted key ((now, m, orig) # es) cache =
     (let (refused, c) = rate_limit_call now m orig cache;
          mine = (case limited_address orig of None \<Rightarrow> False | Some ip \<Rightarrow> cache_key m ip = key)
      in (if mine \<and> \<not> refused then [now] else []) @ accepted key es c)"

definition within :: "int \<Rightarrow> int \<Rightarrow> int list \<Rightarrow> nat" where
  "within a b hs = length (filter (\<lambda>h. a \<le> h \<and> h < b) hs)"

lemma within_simps [simp]:
  "within a b [] = 0"
  "within a b (hs @ is) = within a b hs + within a b is"
  "within a b (h # hs) = (if a \<le> h \<and> h < b then 1 else 0) + within a b hs"
  by (auto simp: within_def)

lemma within_le: "within a b hs \<le> length hs"
  by (simp add: within_def)

lemma within_mono: "c \<le> a \<Longrightarrow> b \<le> d \<Longrightarrow> within a b hs \<le> within c d hs"
  by (induction hs) auto

lemma within_split: "a \<le> b \<Longrightarrow> b \<le> c \<Longrightarrow> within a c hs = within a b hs + within b c hs"
  by (induction hs) auto

text \<open>
  What the entry of a key knows of the accepted calls so far: all lie before the end of the
  current window, the current window has at most as many as it counted, and so had the period
  before it.
\<close>

definition window_inv :: "int \<Rightarrow> rate_limit_object option \<Rightarrow> int list \<Rightarrow> bool" where
  "window_inv now oe hs =
     (case oe of
        None \<Rightarrow> hs = []
      | Some e \<Rightarrow> last_reset e \<le> now \<and> (\<forall>h \<in> set hs. h < last_reset e + max_period) \<and>
          within (last_reset e) (last_reset e + max_period) hs \<le> min (num_times_called e) max_calls \<and>
          within (last_reset e - max_period) (last_reset e) hs \<le> max_calls)"

lemma window_inv_later: "window_inv now oe hs \<Longrightarrow> now \<le> t \<Longrightarrow> window_inv t oe hs"
  by (auto simp: window_inv_def split: option.splits)

lemma window_inv_two:
  assumes "window_inv now (Some e) hs" and "last_reset e < t + max_period"
  shows "within t (t + max_period) hs \<le> 2 * max_calls"
proof -
  let ?r = "last_reset e"
  have inv: "\<forall>h \<in> set hs. h < ?r + max_period" "within ?r (?r + max_period) hs \<le> max_calls"
      "within (?r - max_period) ?r hs \<le> max_calls"
    using assms by (auto simp: window_inv_def)
  have "within t (t + max_period) hs \<le> within (?r - max_period) (max (t + max_period) (?r + max_period)) hs"
    using assms(2) by (intro within_mono) auto
  also have "\<dots> = within (?r - max_period) (?r + max_period) hs"
    unfolding within_def using inv(1) by (intro arg_cong [where f = length] filter_cong) auto
  also have "\<dots> = within (?r - max_period) ?r hs + within ?r (?r + max_period) hs"
    by (rule within_split) (simp_all add: max_period_def)
  finally show ?thesis using inv(2,3) by linarith
qed

lemma within_none: "(\<And>h. h \<in> set hs \<Longrightarrow> h < a) \<Longrightarrow> within a b hs = 0"
  by (induction hs) force+

lemma window_inv_reset:
  assumes "window_inv now (Some e) hs" and "max_period - (now - last_reset e) \<le> 0"
  shows "window_inv now (Some \<lparr>num_times_called = 0, last_reset = now\<rparr>) hs"
proof -
  let ?r = "last_reset e"
  have inv: "\<forall>h \<in> set hs. h < ?r + max_period" "within ?r (?r + max_period) hs \<le> max_calls"
    using assms by (auto simp: window_inv_def)
  have "within (now - max_period) now hs \<le> within ?r (max now (?r + max_period)) hs"
    using assms(2) by (intro within_mono) auto
  also have "\<dots> = within ?r (?r + max_period) hs"
    unfolding within_def using inv(1) by (intro arg_cong [where f = length] filter_cong) auto
  finally have "within (now - max_period) now hs \<le> max_calls" using inv(2) by simp
  moreover have "within now (now + max_period) hs = 0"
    using inv(1) assms(2) by (intro within_none) force
  ultimately show ?thesis using inv(1) assms(2) by (force simp: window_inv_def max_period_def)
qed

lemma window_inv_count:
  assumes "window_inv now (Some e) hs"
  shows "window_inv now (Some (count_call now e)) hs"
    and "num_times_called (count_call now e) \<le> max_calls \<Longrightarrow> window_inv now (Some (count_call now e)) (hs @ [now])"
    and "last_reset (count_call now e) \<le> now"
proof -
  define e1 where
    "e1 = (if max_period - (now - last_reset e) \<le> 0 then e\<lparr>num_times_called := 0, last_reset := now\<rparr> else e)"
  have c: "count_call now e = e1\<lparr>num_times_called := Suc (num_times_called e1)\<rparr>"
    by (simp add: count_call_def e1_def Let_def)
  have e1: "window_inv now (Some e1) hs"
    using assms window_inv_reset [OF assms] by (auto simp: e1_def window_inv_def)
  have now: "now < last_reset e1 + max_period" by (auto simp: e1_def max_period_def)
  show "window_inv now (Some (count_call now e)) hs" and le: "last_reset (count_call now e) \<le> now"
    using e1 by (auto simp: c window_inv_def)
  assume "num_times_called (count_call now e) \<le> max_calls"
  with e1 now show "window_inv now (Some (count_call now e)) (hs @ [now])"
    by (auto simp: c window_inv_def)
qed

lemma map_of_update_alist: "map_of (AList.update k v xs) q = (if q = k then Some v else map_of xs q)"
  by (simp add: update_conv')

lemma accepted_bound:
  assumes "window_inv now (map_of cache key) hs" and "sorted (now # map fst es)"
    and "\<And>t. within t (t + max_period) hs \<le> 2 * max_calls"
  shows "within t (t + max_period) (hs @ accepted key es cache) \<le> 2 * max_calls"
  using assms
proof (induction es arbitrary: now cache hs)
  case (Cons ev es)
  obtain n m orig where ev: "ev = (n, m, orig)" by (cases ev) auto
  obtain refused c where call: "rate_limit_call n m orig cache = (refused, c)" by force
  have le: "now \<le> n" "sorted (n # map fst es)" using Cons.prems(2) ev by auto
  show ?case
  proof (cases "\<exists>ip. limited_address orig = Some ip \<and> cache_key m ip = key")
    case True
    then obtain ip where ip: "limited_address orig = Some ip" "cache_key m ip = key" by blast
    define e where "e = entry_at n key cache"
    have inv: "window_inv n (Some e) hs"
      using window_inv_later [OF Cons.prems(1) le(1)]
      by (cases "map_of cache key") (auto simp: e_def entry_at_def window_inv_def)
    have c: "c = AList.update key (count_call n e) cache"
      and ref: "\<not> refused \<Longrightarrow> num_times_called (count_call n e) \<le> max_calls"
      using call rate_limit_call_counted [OF ip(1), of n m cache] ip(2) by (auto simp: e_def Let_def)
    define hs1 where "hs1 = hs @ (if refused then [] else [n])"
    have inv1: "window_inv n (map_of c key) hs1"
      using window_inv_count [OF inv] ref by (auto simp: c hs1_def map_of_update_alist)
    have "within t (t + max_period) hs1 \<le> 2 * max_calls" for t
    proof (cases "\<not> refused \<and> t \<le> n \<and> n < t + max_period")
      case True
      with inv1 have "window_inv n (Some (count_call n e)) hs1" by (simp add: c map_of_update_alist)
      moreover have "last_reset (count_call n e) < t + max_period"
        using window_inv_count(3) [OF inv] True by linarith
      ultimately show ?thesis by (rule window_inv_two)
    next
      case False
      with Cons.prems(3) [of t] show ?thesis by (auto simp: hs1_def)
    qed
    from Cons.IH [OF inv1 le(2) this] show ?thesis
      using ip call by (auto simp: ev hs1_def Let_def split: if_splits)
  next
    case False
    then have "map_of c key = map_of cache key"
      using call rate_limit_call_other [of orig n m cache] rate_limit_call_counted [of orig _ n m cache]
      by (cases "limited_address orig") (auto simp: Let_def map_of_update_alist)
    with Cons.IH [of n c hs] Cons.prems(3) window_inv_later [OF Cons.prems(1) le(1)] le(2)
    show ?thesis using call False by (auto simp: ev Let_def split: option.splits)
  qed
qed simp

section \<open>Properties\<close>

text \<open>C35. The calls that one consumer makes without login: while the cache is not cleared, at most
  twice the limit pass in any period, however they are mixed with the calls of others.\<close>

theorem calls_in_any_period:
  assumes "sorted (map fst es)"
  shows "within t (t + 60) (accepted key es []) \<le> 40"
proof (cases es)
  case (Cons e es')
  have "window_inv (fst e) (map_of [] key) []" by (simp add: window_inv_def)
  moreover have "sorted (fst e # map fst es)" using assms Cons by simp
  moreover have "within u (u + max_period) [] \<le> 2 * max_calls" for u by simp
  ultimately have "within t (t + max_period) ([] @ accepted key es []) \<le> 2 * max_calls"
    by (rule accepted_bound)
  then show ?thesis by (simp add: max_period_def max_calls_def)
qed simp

definition rl_origin :: "string \<Rightarrow> origin option" where
  "rl_origin ip = Some \<lparr>family = AF_INET, rem_addr = Some ip, rem_port = Some 40000, o_uid = None, o_gid = None,
     loginuid = None, ssl = True\<rparr>"

theorem calls_in_any_period_witness:
  "within 0 (0 + 60) (accepted (cache_key ''auth.login_ex'' ''10.0.0.5'')
     [(0, ''auth.login_ex'', rl_origin ''10.0.0.5''), (1, ''auth.login_ex'', rl_origin ''10.0.0.6'')] []) \<le> 40"
  by (rule calls_in_any_period) simp

text \<open>Whether each of a sequence of calls is refused.\<close>

fun refusals :: "rl_event list \<Rightarrow> rl_cache \<Rightarrow> bool list" where
  "refusals [] cache = []"
| "refusals ((now, m, orig) # es) cache =
     (case rate_limit_call now m orig cache of (refused, c) \<Rightarrow> refused # refusals es c)"

definition event_key :: "rl_event \<Rightarrow> string option" where
  "event_key = (\<lambda>(now, m, orig). map_option (cache_key m) (limited_address orig))"

lemma update_new_length: "map_of xs k = None \<Longrightarrow> length (AList.update k v xs) = Suc (length xs)"
  by (induction xs) auto

text \<open>C36. The limit on the number of entries stops one consumer only: of consumers that call for the
  first time, exactly the one whose entry is the hundredth is refused, and all later ones pass,
  since the test compares for equality after the entry was added.\<close>

theorem only_hundredth_consumer_refused:
  assumes "\<forall>e \<in> set es. event_key e \<noteq> None" and "distinct (map event_key es)"
    and "\<forall>e \<in> set es. \<forall>k. event_key e = Some k \<longrightarrow> map_of cache k = None"
  shows "refusals es cache = map (\<lambda>i. Suc (length cache + i) = 100) [0..<length es]"
  using assms
proof (induction es arbitrary: cache)
  case (Cons e es)
  obtain now m orig where e: "e = (now, m, orig)" by (cases e) auto
  from Cons.prems(1) e obtain ip where ip: "limited_address orig = Some ip" by (auto simp: event_key_def)
  define k where "k = cache_key m ip"
  have key: "event_key e = Some k" by (simp add: e ip event_key_def k_def)
  with Cons.prems(3) have new: "map_of cache k = None" by simp
  define c where "c = AList.update k (count_call now (entry_at now k cache)) cache"
  have len: "length c = Suc (length cache)" using new by (simp add: c_def update_new_length)
  have "num_times_called (count_call now (entry_at now k cache)) = 1"
    using new by (simp add: entry_at_def count_call_def max_period_def)
  with len have call: "rate_limit_call now m orig cache = (Suc (length cache) = 100, c)"
    using rate_limit_call_counted [OF ip, of now m cache] unfolding k_def [symmetric] c_def
    by (simp add: Let_def max_calls_def max_cache_entries_def)
  have "refusals es c = map (\<lambda>i. Suc (length c + i) = 100) [0..<length es]"
  proof (rule Cons.IH)
    show "\<forall>e \<in> set es. event_key e \<noteq> None" using Cons.prems(1) by simp
    show "distinct (map event_key es)" using Cons.prems(2) by simp
    show "\<forall>e \<in> set es. \<forall>q. event_key e = Some q \<longrightarrow> map_of c q = None"
    proof (intro ballI allI impI)
      fix e' q assume q: "e' \<in> set es" "event_key e' = Some q"
      have "Some k \<notin> event_key ` set es" using Cons.prems(2) key by simp
      with imageI [OF q(1), of event_key] q(2) have "q \<noteq> k" by metis
      moreover have "map_of cache q = None" using Cons.prems(3) q by simp
      ultimately show "map_of c q = None" by (simp add: c_def map_of_update_alist)
    qed
  qed
  moreover have "[0..<length (e # es)] = 0 # map Suc [0..<length es]" by (simp add: map_Suc_upt upt_conv_Cons del: upt_Suc)
  ultimately show ?case using len by (simp add: e call comp_def del: upt_Suc)
qed simp

theorem only_hundredth_consumer_refused_witness:
  "refusals [(0, ''auth.login_ex'', rl_origin ''10.0.0.5''), (1, ''auth.login_ex'', rl_origin ''10.0.0.6'')]
     (replicate 99 (''x'', \<lparr>num_times_called = 1, last_reset = 0\<rparr>)) = [True, False]"
proof -
  have "refusals [(0, ''auth.login_ex'', rl_origin ''10.0.0.5''), (1, ''auth.login_ex'', rl_origin ''10.0.0.6'')]
     (replicate 99 (''x'', \<lparr>num_times_called = 1, last_reset = 0\<rparr>)) =
     map (\<lambda>i. Suc (length (replicate 99 (''x'', \<lparr>num_times_called = 1, last_reset = 0 :: int\<rparr>)) + i) = 100) [0..<2]"
    using only_hundredth_consumer_refused [of "[(0, ''auth.login_ex'', rl_origin ''10.0.0.5''),
        (1, ''auth.login_ex'', rl_origin ''10.0.0.6'')]" "replicate 99 (''x'', \<lparr>num_times_called = 1, last_reset = 0\<rparr>)"]
    by (simp add: event_key_def limited_address_def rl_add_def rl_origin_def is_ha_connection_def is_unix_family_def
        cache_key_def separator_def map_of_eq_None_iff HA_HEARTBEAT_IPS_def is_tcp_ip_family_def numeral_2_eq_2)
  then show ?thesis by (simp add: upt_rec)
qed

end
