(* ===== verification/Server.thy ===== *)
theory Server
  imports RateLimit SchemaProofs
begin

text \<open>
  What happens to a call before and after its method runs: \<open>authorize_method_call\<close>, the audit of
  calls, the redaction of arguments and results (\<open>main.py\<close>), the size and the shape of a message
  (\<open>utils/limits.py\<close>, \<open>api/base/server/ws_handler/rpc.py\<close>) and who may connect (\<open>ws_handler/base.py\<close>,
  \<open>webui_auth.py\<close>).

  A method object is a record of its attributes. An attribute that a Python object may lack is
  an option. The models of new-style methods belong to pydantic and are functions. The shared
  state is that of the login system, the cache of the rate limiter and the audit log.
\<close>

section \<open>Methods\<close>

record method_attrs =
  audit :: "string option"
  audit_extended :: "(pyval list \<Rightarrow> exn + string) option"
  accepts :: "schema list option"
  new_style_accepts :: "(pyval list \<Rightarrow> exn + pyval list) option"
  returns :: "schema list option"
  new_style_returns :: "(bool \<Rightarrow> pyval \<Rightarrow> exn + pyval) option"

text \<open>\<open>crud_method\<close> is the method \<open>real_crud_method\<close> finds: \<open>do_create\<close> of \<open>create\<close> and so on.\<close>

record method_obj = method_attrs +
  no_auth_required :: bool
  m_rate_limit :: bool
  no_authz_required :: bool
  crud_method :: "method_attrs option"
  m_role_prefix :: "string option"

definition dump_attrs :: "schema_env \<Rightarrow> method_attrs \<Rightarrow> pyval list \<Rightarrow> exn + pyval list" where
  "dump_attrs env m args =
     (case new_style_accepts m of
        Some dump_params \<Rightarrow> dump_params args
      | None \<Rightarrow>
          (case accepts m of
             None \<Rightarrow> Inr args
           | Some ss \<Rightarrow> mapE (\<lambda>(i, arg). if i < length ss then dump env (ss ! i) arg else Inr arg)
                         (enumerate 0 args)))"

definition dump_args :: "schema_env \<Rightarrow> method_obj \<Rightarrow> pyval list \<Rightarrow> exn + pyval list" where
  "dump_args env m args =
     (case (accepts m, crud_method m) of
        (None, Some c) \<Rightarrow> dump_attrs env c args
      | _ \<Rightarrow> dump_attrs env (method_attrs.truncate m) args)"

section \<open>The audit log\<close>

record audit_entry =
  au_user :: string
  au_sess :: string
  au_method :: string
  au_params :: "pyval list"
  au_description :: string
  au_authenticated :: bool
  au_authorized :: bool
  au_success :: bool

record server =
  s_auth :: auth_state
  s_cache :: rl_cache
  s_audit :: "audit_entry list"

text \<open>
  The environment: the text of a message to its value, the \<open>errno\<close> that the client library
  gives to calls without login, and the environment of the schemas.
\<close>

record server_env =
  json_loads :: "string \<Rightarrow> exn + pyval"
  ENOTAUTHENTICATED :: nat
  senv :: schema_env

definition audit_username_from_session :: "auth_state \<Rightarrow> nat option \<Rightarrow> string" where
  "audit_username_from_session st c =
     (case c of
        None \<Rightarrow> ''.UNAUTHENTICATED''
      | Some c \<Rightarrow>
          (case session_user st c of
             Some u \<Rightarrow> username (uc_user u)
           | None \<Rightarrow> if creds st ! c = NodeC then ''.TRUENAS_NODE'' else ''.UNKNOWN''))"

definition audit_of :: "method_obj \<Rightarrow> string option \<times> (pyval list \<Rightarrow> exn + string) option" where
  "audit_of m =
     (case audit m of
        Some a \<Rightarrow> (Some a, audit_extended m)
      | None \<Rightarrow>
          (case crud_method m of
             Some c \<Rightarrow> (audit c, audit_extended c)
           | None \<Rightarrow> (None, audit_extended m)))"

definition audit_descriptions :: "method_obj \<Rightarrow> pyval list \<Rightarrow> string list \<Rightarrow> string list" where
  "audit_descriptions m params callback_messages =
     (case audit_of m of
        (None, _) \<Rightarrow> []
      | (Some a, ext) \<Rightarrow>
          if a = [] then []
          else if callback_messages \<noteq> [] then map (\<lambda>c. a @ '' '' @ c) callback_messages
          else case ext of
                 None \<Rightarrow> [a]
               | Some f \<Rightarrow> (case f params of Inl e \<Rightarrow> [a] | Inr t \<Rightarrow> [a @ '' '' @ t]))"

definition log_audit_message ::
  "string \<Rightarrow> string \<Rightarrow> pyval list \<Rightarrow> string \<Rightarrow> bool \<Rightarrow> bool \<Rightarrow> bool \<Rightarrow> server \<Rightarrow> server" where
  "log_audit_message sid name params description authed authzd success st =
     st\<lparr>s_audit := s_audit st @
       [\<lparr>au_user = audit_username_from_session (s_auth st)
           (case map_of (apps (s_auth st)) sid of None \<Rightarrow> None | Some a \<Rightarrow> app_cred a),
         au_sess = sid, au_method = name, au_params = params, au_description = description,
         au_authenticated = authed, au_authorized = authzd, au_success = success\<rparr>]\<rparr>"

fun log_descriptions ::
  "(string \<Rightarrow> server \<Rightarrow> server op_result) \<Rightarrow> string list \<Rightarrow> server \<Rightarrow> server op_result" where
  "log_descriptions log1 [] st = (Inr (), st)"
| "log_descriptions log1 (d # ds) st = thenS (log1 d st) (log_descriptions log1 ds)"

definition log_audit_message_for_method ::
  "server_env \<Rightarrow> string \<Rightarrow> string \<Rightarrow> method_obj \<Rightarrow> pyval list \<Rightarrow> bool \<Rightarrow> bool \<Rightarrow> bool \<Rightarrow> string list
     \<Rightarrow> server \<Rightarrow> server op_result" where
  "log_audit_message_for_method env sid name m params authed authzd success msgs st =
     log_descriptions (\<lambda>d st.
         case dump_args (senv env) m params of
           Inl e \<Rightarrow> (Inl e, st)
         | Inr ps \<Rightarrow> (Inr (), log_audit_message sid name ps d authed authzd success st))
       (audit_descriptions m params msgs) st"

section \<open>Authorization of a call\<close>

text \<open>Audit the refusal, then raise.\<close>

definition refuse ::
  "server_env \<Rightarrow> string \<Rightarrow> string \<Rightarrow> method_obj \<Rightarrow> pyval list \<Rightarrow> bool \<Rightarrow> exn \<Rightarrow> server \<Rightarrow> server op_result" where
  "refuse env sid name m params authed e st =
     thenS (log_audit_message_for_method env sid name m params authed False False [] st) (\<lambda>st1. (Inl e, st1))"

definition authorize_method_call ::
  "server_env \<Rightarrow> int \<Rightarrow> string \<Rightarrow> string \<Rightarrow> method_obj \<Rightarrow> pyval list \<Rightarrow> server \<Rightarrow> server op_result" where
  "authorize_method_call env now sid name m params st =
     (case map_of (apps (s_auth st)) sid of
        None \<Rightarrow> (Inl AttributeError, st)
      | Some a \<Rightarrow>
          if no_auth_required m then
            (if authenticated a then (Inr (), st)
             else if \<not> m_rate_limit m then (Inr (), st)
             else case rate_limit_call now name (app_origin a) (s_cache st) of
               (refused, cache) \<Rightarrow>
                 let st1 = st\<lparr>s_cache := cache\<rparr> in
                 if refused
                 then refuse env sid name m params False (CallError ''Rate Limit Exceeded'' EBUSY) st1
                 else (Inr (), st1))
          else if \<not> authenticated a then
            refuse env sid name m params False (CallError ''Not authenticated'' (ENOTAUTHENTICATED env)) st
          else case app_cred a of
            None \<Rightarrow> (Inl AttributeError, st)
          | Some c \<Rightarrow>
              if session_user (s_auth st) c \<noteq> None \<and> no_authz_required m then (Inr (), st)
              else if authorize now (s_auth st) c ''CALL'' name then (Inr (), st)
              else refuse env sid name m params True
                (if session_user (s_auth st) c \<noteq> None \<and> \<not> is_valid now (s_auth st) c
                 then CallError ''Session is expired'' EACCES else CallError ''Not authorized'' EACCES) st)"

section \<open>The result of a call\<close>

text \<open>Whether a session may see private parts of a result.\<close>

definition exposes_secrets :: "auth_state \<Rightarrow> app \<Rightarrow> method_obj \<Rightarrow> bool" where
  "exposes_secrets st a m =
     (case app_cred a of
        None \<Rightarrow> True
      | Some c \<Rightarrow>
          session_user st c = None \<or> credential_has_full_admin st c \<or>
          (case m_role_prefix m of None \<Rightarrow> False | Some p \<Rightarrow> p \<noteq> [] \<and> has_role st c (p @ ''_WRITE'')))"

text \<open>The dump of a result: when no alternative accepts it, it is not returned as it is.\<close>

definition dump_returned :: "schema_env \<Rightarrow> schema \<Rightarrow> dumper" where
  "dump_returned env s v =
     (case s of
        SOr c ss \<Rightarrow>
          or_dump (zip (map (clean env) ss) (map (dump env) ss) @ [(\<lambda>x. Inr v, \<lambda>x. Inl RuntimeError)]) v
      | _ \<Rightarrow> dump env s v)"

definition dump_result :: "server_env \<Rightarrow> auth_state \<Rightarrow> app \<Rightarrow> method_obj \<Rightarrow> pyval \<Rightarrow> exn + pyval" where
  "dump_result env st a m result =
     (let expose = exposes_secrets st a m;
          attrs = (case crud_method m of
                     Some c \<Rightarrow> if new_style_returns c \<noteq> None then c else method_attrs.truncate m
                   | None \<Rightarrow> method_attrs.truncate m)
      in case new_style_returns attrs of
           Some serialize_result \<Rightarrow> serialize_result expose result
         | None \<Rightarrow>
             (case returns attrs of
                Some (s # ss) \<Rightarrow> if expose then Inr result else dump_returned (senv env) s result
              | _ \<Rightarrow> Inr result))"

section \<open>Messages\<close>

datatype MsgSizeLimit = UNAUTHENTICATED | AUTHENTICATED | EXTENDED

fun limit_value :: "MsgSizeLimit \<Rightarrow> nat" where
  "limit_value UNAUTHENTICATED = 8192"
| "limit_value AUTHENTICATED = 65536"
| "limit_value EXTENDED = 2097152"

definition MSG_SIZE_EXTENDED_METHODS :: "string list" where
  "MSG_SIZE_EXTENDED_METHODS = [''filesystem.file_receive'']"

datatype parse_error = MsgSizeError MsgSizeLimit nat | Raised exn

text \<open>
  Membership in the set of method names hashes the value first.
\<close>

definition parse_message :: "server_env \<Rightarrow> bool \<Rightarrow> string \<Rightarrow> parse_error + pyval dict" where
  "parse_message env auth msg_data =
     (let datalen = length msg_data in
      if \<not> auth \<and> datalen > limit_value UNAUTHENTICATED then Inl (MsgSizeError UNAUTHENTICATED datalen)
      else if datalen > limit_value EXTENDED then Inl (MsgSizeError EXTENDED datalen)
      else case json_loads env msg_data of
        Inl e \<Rightarrow> Inl (Raised e)
      | Inr (VDict message) \<Rightarrow>
          (let meth = (case map_of message ''method'' of None \<Rightarrow> VNone | Some v \<Rightarrow> v) in
           if \<not> hashable meth then Inl (Raised TypeError)
           else if meth \<in> VStr ` set MSG_SIZE_EXTENDED_METHODS then Inr message
           else if datalen > limit_value AUTHENTICATED then Inl (MsgSizeError AUTHENTICATED datalen)
           else Inr message)
      | Inr (VList xs) \<Rightarrow> Inl (Raised (ValueError ''Batch messages are not supported at this time''))
      | Inr _ \<Rightarrow> Inl (Raised (ValueError ''Invalid Message Format'')))"

fun valid_id :: "pyval \<Rightarrow> bool" where
  "valid_id VNone = True"
| "valid_id (VBool b) = True"
| "valid_id (VInt i) = True"
| "valid_id (VStr s) = True"
| "valid_id v = False"

definition quoted :: "string \<Rightarrow> string" where
  "quoted s = CHR 0x27 # s @ [CHR 0x27]"

text \<open>The message with its parameters filled in, which the code sets in place.\<close>

definition validate_message :: "pyval dict \<Rightarrow> exn + pyval dict" where
  "validate_message message =
     (case map_of message ''jsonrpc'' of
        None \<Rightarrow> Inl (ValueError (''Missing '' @ quoted ''jsonrpc'' @ '' member''))
      | Some v \<Rightarrow>
          if v \<noteq> VStr ''2.0''
          then Inl (ValueError (quoted ''jsonrpc'' @ '' member must be of type string and must be exactly '' @ quoted ''2.0''))
          else if (case map_of message ''id'' of None \<Rightarrow> False | Some i \<Rightarrow> \<not> valid_id i)
          then Inl (ValueError (quoted ''id'' @ '' member must be of type null, string or number''))
          else case map_of message ''method'' of
            None \<Rightarrow> Inl (ValueError (''Missing '' @ quoted ''method'' @ '' member''))
          | Some meth \<Rightarrow>
              if \<not> is_str meth \<or> meth = VStr []
              then Inl (ValueError (quoted ''method'' @ '' member must be of type string''))
              else case map_of message ''params'' of
                None \<Rightarrow> Inr (AList.update ''params'' (VList []) message)
              | Some p \<Rightarrow> if is_list p then Inr message else Inl (ValueError (quoted ''params'' @ '' member must be of type array'')))"

section \<open>Who may connect\<close>

text \<open>
  \<open>ip_network\<close> of the standard library gives the addresses of a network, \<open>ip_address\<close> an address;
  both raise on text they cannot parse.
\<close>

fun addr_in_networks :: "(string \<Rightarrow> ('a \<Rightarrow> bool) option) \<Rightarrow> 'a \<Rightarrow> string list \<Rightarrow> bool" where
  "addr_in_networks ip_network addr [] = False"
| "addr_in_networks ip_network addr (allowed # rest) =
     (case ip_network allowed of
        None \<Rightarrow> False
      | Some net \<Rightarrow> if net addr then True else addr_in_networks ip_network addr rest)"

definition addr_in_allowlist ::
  "(string \<Rightarrow> 'a option) \<Rightarrow> (string \<Rightarrow> ('a \<Rightarrow> bool) option) \<Rightarrow> string option \<Rightarrow> string list \<Rightarrow> bool" where
  "addr_in_allowlist ip_address ip_network remote_addr allowlist =
     (case Option.bind remote_addr ip_address of
        None \<Rightarrow> False
      | Some addr \<Rightarrow> addr_in_networks ip_network addr allowlist)"

definition can_access ::
  "(string \<Rightarrow> 'a option) \<Rightarrow> (string \<Rightarrow> ('a \<Rightarrow> bool) option) \<Rightarrow> string list \<Rightarrow> origin option \<Rightarrow> bool" where
  "can_access ip_address ip_network ui_allowlist orig =
     (case orig of
        None \<Rightarrow> False
      | Some o1 \<Rightarrow>
          is_unix_family o1 \<or> is_ha_connection o1 \<or> ui_allowlist = [] \<or>
          addr_in_allowlist ip_address ip_network (rem_addr o1) ui_allowlist)"

end
