(* ===== verification/Semaphore.thy ===== *)
theory Semaphore
  imports Main
begin

text \<open>
  The limit on concurrent calls of one connection, \<open>SoftHardSemaphore\<close> of \<open>utils/lock.py\<close>: a
  counter of all calls that entered, refused above the hard limit, and an \<open>asyncio.Semaphore\<close>
  whose permits are the soft limit. A waiter is the number of a task with the state of its
  future: \<open>True\<close> once a permit was handed to it. It stays in the queue until its task resumes.
\<close>

record semaphore =
  softlimit :: nat
  hardlimit :: nat
  sem_value :: nat
  sem_counter :: nat
  sem_waiters :: "(nat \<times> bool) list"

definition SoftHardSemaphore :: "nat \<Rightarrow> nat \<Rightarrow> semaphore" where
  "SoftHardSemaphore soft hard =
     \<lparr>softlimit = soft, hardlimit = hard, sem_value = soft, sem_counter = 0, sem_waiters = []\<rparr>"

section \<open>The semaphore of the standard library\<close>

fun wake_first :: "(nat \<times> bool) list \<Rightarrow> (nat \<times> bool) list option" where
  "wake_first [] = None"
| "wake_first ((i, woken) # ws) =
     (if woken then map_option (Cons (i, woken)) (wake_first ws) else Some ((i, True) # ws))"

definition wake_up_next :: "semaphore \<Rightarrow> semaphore" where
  "wake_up_next s =
     (case wake_first (sem_waiters s) of
        None \<Rightarrow> s
      | Some ws \<Rightarrow> s\<lparr>sem_value := sem_value s - 1, sem_waiters := ws\<rparr>)"

definition locked :: "semaphore \<Rightarrow> bool" where
  "locked s \<longleftrightarrow> sem_value s = 0 \<or> sem_waiters s \<noteq> []"

section \<open>Entering and leaving\<close>

datatype enter_result = Limit nat | Acquired semaphore | Queued semaphore

definition sem_enter :: "nat \<Rightarrow> semaphore \<Rightarrow> enter_result" where
  "sem_enter i s =
     (if sem_counter s \<ge> hardlimit s then Limit (hardlimit s)
      else let s1 = s\<lparr>sem_counter := sem_counter s + 1\<rparr> in
           if locked s1 then Queued (s1\<lparr>sem_waiters := sem_waiters s1 @ [(i, False)]\<rparr>)
           else Acquired (s1\<lparr>sem_value := sem_value s1 - 1\<rparr>))"

text \<open>A task whose future is done leaves the queue and passes on a permit that is left.\<close>

definition sem_resume :: "nat \<Rightarrow> semaphore \<Rightarrow> semaphore" where
  "sem_resume i s =
     (let s1 = s\<lparr>sem_waiters := filter (\<lambda>w. fst w \<noteq> i) (sem_waiters s)\<rparr>
      in if sem_value s1 > 0 then wake_up_next s1 else s1)"

definition sem_exit :: "semaphore \<Rightarrow> semaphore" where
  "sem_exit s = wake_up_next (s\<lparr>sem_counter := sem_counter s - 1, sem_value := sem_value s + 1\<rparr>)"

section \<open>Permits are neither lost nor made\<close>

definition handed :: "(nat \<times> bool) list \<Rightarrow> nat" where
  "handed ws = length (filter snd ws)"

definition queued_idle :: "(nat \<times> bool) list \<Rightarrow> bool" where
  "queued_idle ws \<longleftrightarrow> (\<exists>i. (i, False) \<in> set ws)"

text \<open>
  The state of a semaphore of which \<open>holders\<close> tasks hold a permit. While a permit is free, a
  waiter that has none is not forgotten: one that was handed a permit will pass it on.
\<close>

definition sem_inv :: "nat \<Rightarrow> semaphore \<Rightarrow> bool" where
  "sem_inv holders s \<longleftrightarrow>
     sem_value s + holders + handed (sem_waiters s) = softlimit s \<and>
     sem_counter s = holders + length (sem_waiters s) \<and>
     sem_counter s \<le> hardlimit s \<and>
     distinct (map fst (sem_waiters s)) \<and>
     (sem_value s > 0 \<and> queued_idle (sem_waiters s) \<longrightarrow> handed (sem_waiters s) > 0)"

lemma handed_simps [simp]:
  "handed [] = 0"
  "handed (w # ws) = (if snd w then 1 else 0) + handed ws"
  "handed (vs @ ws) = handed vs + handed ws"
  by (auto simp: handed_def)

lemma queued_idle_simps [simp]:
  "\<not> queued_idle []"
  "queued_idle (w # ws) \<longleftrightarrow> \<not> snd w \<or> queued_idle ws"
  "queued_idle (vs @ ws) \<longleftrightarrow> queued_idle vs \<or> queued_idle ws"
  by (cases w; auto simp: queued_idle_def)+

lemma all_handed: "\<not> queued_idle ws \<Longrightarrow> handed ws = length ws"
  by (induction ws) auto

lemma wake_first_None: "wake_first ws = None \<longleftrightarrow> \<not> queued_idle ws"
  by (induction ws rule: wake_first.induct) auto

lemma wake_first_Some:
  "wake_first ws = Some vs \<Longrightarrow> handed vs = Suc (handed ws) \<and> map fst vs = map fst ws \<and> length vs = length ws"
  by (induction ws arbitrary: vs rule: wake_first.induct) (auto split: if_splits)

lemma handed_remove:
  "distinct (map fst ws) \<Longrightarrow> (i, True) \<in> set ws \<Longrightarrow>
    handed ws = Suc (handed (filter (\<lambda>w. fst w \<noteq> i) ws)) \<and> length ws = Suc (length (filter (\<lambda>w. fst w \<noteq> i) ws))"
proof (induction ws)
  case (Cons w ws)
  have "filter (\<lambda>v. fst v \<noteq> fst w) ws = ws" if "fst w \<notin> fst ` set ws"
    unfolding filter_id_conv using that by (metis imageI)
  with Cons show ?case by auto
qed simp

lemma wake_up_next_fields [simp]:
  "softlimit (wake_up_next s) = softlimit s" "hardlimit (wake_up_next s) = hardlimit s"
  "sem_counter (wake_up_next s) = sem_counter s"
  "map fst (sem_waiters (wake_up_next s)) = map fst (sem_waiters s)"
  by (auto simp: wake_up_next_def dest: wake_first_Some split: option.splits)

lemma sem_enter_limits:
  "sem_enter i s = Acquired t \<Longrightarrow> softlimit t = softlimit s \<and> hardlimit t = hardlimit s"
  "sem_enter i s = Queued t \<Longrightarrow> softlimit t = softlimit s \<and> hardlimit t = hardlimit s"
  by (auto simp: sem_enter_def Let_def split: if_splits)

lemma sem_limits [simp]:
  "softlimit (sem_resume i s) = softlimit s" "hardlimit (sem_resume i s) = hardlimit s"
  "softlimit (sem_exit s) = softlimit s" "hardlimit (sem_exit s) = hardlimit s"
  by (simp_all add: sem_resume_def sem_exit_def Let_def)

text \<open>A free permit goes to the first waiter that has none.\<close>

lemma sem_inv_wake:
  assumes "sem_value s + holders + handed (sem_waiters s) = softlimit s" and "sem_value s > 0"
    and "sem_counter s = holders + length (sem_waiters s)" and "sem_counter s \<le> hardlimit s"
    and "distinct (map fst (sem_waiters s))"
  shows "sem_inv holders (wake_up_next s)"
proof (cases "wake_first (sem_waiters s)")
  case None
  then have "wake_up_next s = s" by (simp add: wake_up_next_def)
  moreover from None have "\<not> queued_idle (sem_waiters s)" by (simp add: wake_first_None)
  ultimately show ?thesis using assms by (simp add: sem_inv_def)
next
  case (Some ws)
  with wake_first_Some [OF this] assms show ?thesis by (auto simp: wake_up_next_def sem_inv_def)
qed

lemma sem_inv_start [simp]: "sem_inv 0 (SoftHardSemaphore soft hard)"
  by (simp add: sem_inv_def SoftHardSemaphore_def)

lemma sem_inv_enter_acquired:
  assumes "sem_inv h s" and "sem_enter i s = Acquired t"
  shows "sem_inv (Suc h) t"
proof -
  from assms(2) have "t = s\<lparr>sem_counter := sem_counter s + 1, sem_value := sem_value s - 1\<rparr>"
      "sem_counter s < hardlimit s" "sem_value s > 0" "sem_waiters s = []"
    by (auto simp: sem_enter_def locked_def Let_def split: if_splits)
  with assms(1) show ?thesis by (simp add: sem_inv_def)
qed

lemma sem_inv_enter_queued:
  assumes inv: "sem_inv h s" and "sem_enter i s = Queued t" and new: "i \<notin> fst ` set (sem_waiters s)"
  shows "sem_inv h t"
proof -
  from assms(2) have t: "t = s\<lparr>sem_counter := sem_counter s + 1, sem_waiters := sem_waiters s @ [(i, False)]\<rparr>"
    and lim: "sem_counter s < hardlimit s" and lk: "sem_value s = 0 \<or> sem_waiters s \<noteq> []"
    by (auto simp: sem_enter_def locked_def Let_def split: if_splits)
  have "handed (sem_waiters s) > 0" if "sem_value s > 0"
  proof (cases "queued_idle (sem_waiters s)")
    case True
    with inv that show ?thesis by (simp add: sem_inv_def)
  next
    case False
    with that lk show ?thesis by (simp add: all_handed)
  qed
  with inv lim new show ?thesis by (simp add: t sem_inv_def)
qed

lemma sem_inv_resume:
  assumes "sem_inv h s" and "(i, True) \<in> set (sem_waiters s)"
  shows "sem_inv (Suc h) (sem_resume i s)"
proof -
  let ?s = "s\<lparr>sem_waiters := filter (\<lambda>w. fst w \<noteq> i) (sem_waiters s)\<rparr>"
  have *: "sem_value ?s + Suc h + handed (sem_waiters ?s) = softlimit ?s"
      "sem_counter ?s = Suc h + length (sem_waiters ?s)" "sem_counter ?s \<le> hardlimit ?s"
      "distinct (map fst (sem_waiters ?s))"
    using assms handed_remove [of "sem_waiters s" i] by (auto simp: sem_inv_def distinct_map inj_on_def)
  show ?thesis
  proof (cases "sem_value ?s > 0")
    case True
    with * show ?thesis using sem_inv_wake [of ?s "Suc h"] by (simp add: sem_resume_def)
  next
    case False
    with * show ?thesis by (simp add: sem_resume_def sem_inv_def)
  qed
qed

lemma sem_inv_exit:
  assumes "sem_inv (Suc h) s"
  shows "sem_inv h (sem_exit s)"
  unfolding sem_exit_def by (rule sem_inv_wake) (use assms in \<open>auto simp: sem_inv_def\<close>)

text \<open>When no task holds a permit and none was handed one, nobody waits.\<close>

lemma sem_inv_idle:
  assumes "sem_inv 0 s" and "0 < softlimit s" and "handed (sem_waiters s) = 0"
  shows "sem_waiters s = []"
  using assms all_handed [of "sem_waiters s"] by (auto simp: sem_inv_def)

end
