(* ===== verification/Rpc.thy ===== *)
theory Rpc
  imports Server Semaphore
begin

text \<open>
  The JSON-RPC server over web sockets (\<open>api/base/server/ws_handler/rpc.py\<close>, \<open>api/base/server/method.py\<close>
  and \<open>call_with_audit\<close> of \<open>main.py\<close>): connections, the loop that reads messages, and the calls they start. A
  call is a task; each stretch of it between two suspensions is one operation, and the
  operations of all calls of all connections interleave with each other and with the effects of
  running methods on the login system. The body of a method is a parameter: what it returns.
\<close>

section \<open>Connections\<close>

datatype rpc_code = INVALID_JSON | INVALID_REQUEST | METHOD_NOT_FOUND | INVALID_PARAMS
  | TRUENAS_TOO_MANY_CONCURRENT_CALLS | TRUENAS_CALL_ERROR

text \<open>The error of a validation has an attribute, which is \<open>None\<close> for a missing instance.\<close>

record error_data =
  err_errno :: nat
  err_extra :: "(string option \<times> string \<times> nat) list option"

datatype reply = ErrorReply (reply_id: pyval) rpc_code "error_data option" | ResultReply (reply_id: pyval) pyval

datatype phase = Created | InQueue | Executing | Refused exn | JobRunning | Finished

record rpc_call =
  call_id :: "pyval option"
  call_method :: string
  call_params :: "pyval list"
  phase :: phase

datatype close_code = INVALID_TEXT | MESSAGE_TOO_BIG | UNSUPPORTED_DATA | POLICY_VIOLATION | NO_CODE

record conn =
  c_sem :: semaphore
  c_calls :: "rpc_call list"
  c_sent :: "reply list"
  c_closed :: "close_code option"

definition new_conn :: conn where
  "new_conn = \<lparr>c_sem = SoftHardSemaphore 10 20, c_calls = [], c_sent = [], c_closed = None\<rparr>"

record rpc =
  r_srv :: server
  r_conns :: "conn dict"

text \<open>
  The environment: the methods of the API, mocks of methods, and the addresses that may connect.
\<close>

record rpc_env =
  r_senv :: server_env
  api_methods :: "method_obj dict"
  mocks :: "(pyval list option \<times> method_obj) list dict"
  ip_addr :: "string \<Rightarrow> int option"
  ip_net :: "string \<Rightarrow> (int \<Rightarrow> bool) option"
  ui_allowlist :: "string list"

section \<open>Replies\<close>

text \<open>The clauses of \<open>process_method_call\<close>, in their order.\<close>

definition exception_reply :: "pyval \<Rightarrow> exn \<Rightarrow> reply" where
  "exception_reply i e =
     (case e of
        InstanceNotFound \<Rightarrow> ErrorReply i INVALID_PARAMS (Some \<lparr>err_errno = EINVAL, err_extra = Some [(None, [], ENOENT)]\<rparr>)
      | ValidationErrors es \<Rightarrow>
          ErrorReply i INVALID_PARAMS (Some \<lparr>err_errno = EINVAL, err_extra = Some (map (map_prod Some id) es)\<rparr>)
      | CallError m n \<Rightarrow> ErrorReply i TRUENAS_CALL_ERROR (Some \<lparr>err_errno = n, err_extra = None\<rparr>)
      | SchemaError a m n \<Rightarrow> ErrorReply i TRUENAS_CALL_ERROR (Some \<lparr>err_errno = n, err_extra = None\<rparr>)
      | _ \<Rightarrow> ErrorReply i TRUENAS_CALL_ERROR (Some \<lparr>err_errno = EINVAL, err_extra = None\<rparr>))"

text \<open>A message without \<open>id\<close> gets no reply.\<close>

definition send_reply :: "pyval option \<Rightarrow> (pyval \<Rightarrow> reply) \<Rightarrow> conn \<Rightarrow> conn" where
  "send_reply i f c = (case i of None \<Rightarrow> c | Some v \<Rightarrow> c\<lparr>c_sent := c_sent c @ [f v]\<rparr>)"

section \<open>Messages\<close>

definition process_message :: "rpc_env \<Rightarrow> pyval dict \<Rightarrow> conn \<Rightarrow> conn" where
  "process_message env message c =
     (let i = map_of message ''id'' in
      case validate_message message of
        Inl e \<Rightarrow> send_reply i (\<lambda>v. ErrorReply v INVALID_REQUEST None) c
      | Inr message1 \<Rightarrow>
          (case (map_of message1 ''method'', map_of message1 ''params'') of
             (Some (VStr name), Some (VList params)) \<Rightarrow>
               if map_of (api_methods env) name = None
               then send_reply i (\<lambda>v. ErrorReply v METHOD_NOT_FOUND None) c
               else c\<lparr>c_calls := c_calls c @
                        [\<lparr>call_id = i, call_method = name, call_params = params, phase = Created\<rparr>]\<rparr>
           | _ \<Rightarrow> c))"

definition put_conn :: "string \<Rightarrow> conn \<Rightarrow> rpc \<Rightarrow> rpc" where
  "put_conn sid c st = st\<lparr>r_conns := AList.update sid c (r_conns st)\<rparr>"

definition map_auth :: "(auth_state \<Rightarrow> auth_state) \<Rightarrow> rpc \<Rightarrow> rpc" where
  "map_auth f st = st\<lparr>r_srv := (r_srv st)\<lparr>s_auth := f (s_auth (r_srv st))\<rparr>\<rparr>"

text \<open>A connection is registered and the local user of a socket is logged in.\<close>

definition open_conn :: "rpc_env \<Rightarrow> login_env \<Rightarrow> int \<Rightarrow> string \<Rightarrow> origin option \<Rightarrow> rpc \<Rightarrow> rpc" where
  "open_conn env lenv now sid orig st =
     (if map_of (r_conns st) sid \<noteq> None \<or> orig = None then st
      else if \<not> can_access (ip_addr env) (ip_net env) (ui_allowlist env) orig
      then put_conn sid (new_conn\<lparr>c_closed := Some POLICY_VIOLATION\<rparr>) st
      else map_auth (\<lambda>a. snd (check_permission lenv now sid (connect_app sid orig a))) (put_conn sid new_conn st))"

text \<open>The \<open>finally\<close> of \<open>process\<close>: the close callback logs the session out.\<close>

definition close_conn :: "string \<Rightarrow> close_code \<Rightarrow> conn \<Rightarrow> rpc \<Rightarrow> rpc" where
  "close_conn sid cc c st = map_auth (app_on_close sid) (put_conn sid (c\<lparr>c_closed := Some cc\<rparr>) st)"

datatype ws_frame = TextFrame string | OtherFrame | ErrorFrame

definition session_authenticated :: "string \<Rightarrow> rpc \<Rightarrow> bool" where
  "session_authenticated sid st =
     (case map_of (apps (s_auth (r_srv st))) sid of None \<Rightarrow> False | Some a \<Rightarrow> authenticated a)"

definition ws_receive :: "rpc_env \<Rightarrow> int \<Rightarrow> string \<Rightarrow> ws_frame \<Rightarrow> conn \<Rightarrow> rpc \<Rightarrow> rpc" where
  "ws_receive env now sid f c st =
     (case f of
        ErrorFrame \<Rightarrow> close_conn sid NO_CODE c st
      | OtherFrame \<Rightarrow> close_conn sid UNSUPPORTED_DATA c st
      | TextFrame text \<Rightarrow>
          (case parse_message (r_senv env) (session_authenticated sid st) text of
             Inl (MsgSizeError l n) \<Rightarrow>
               close_conn sid (if l = UNAUTHENTICATED then INVALID_TEXT else MESSAGE_TOO_BIG) c st
           | Inl (Raised (ValueError m)) \<Rightarrow>
               put_conn sid (c\<lparr>c_sent := c_sent c @ [ErrorReply VNone INVALID_JSON None]\<rparr>) st
           | Inl (Raised e) \<Rightarrow> close_conn sid NO_CODE c st
           | Inr message \<Rightarrow> put_conn sid (process_message env message c) (map_auth (app_on_message now sid) st)))"

section \<open>Calls\<close>

definition set_phase :: "nat \<Rightarrow> phase \<Rightarrow> conn \<Rightarrow> conn" where
  "set_phase i p c = c\<lparr>c_calls := (c_calls c)[i := (c_calls c ! i)\<lparr>phase := p\<rparr>]\<rparr>"

definition answer :: "nat \<Rightarrow> phase \<Rightarrow> (pyval \<Rightarrow> reply) \<Rightarrow> conn \<Rightarrow> conn" where
  "answer i p f c = send_reply (call_id (c_calls c ! i)) f (set_phase i p c)"

text \<open>The call has entered the semaphore: authorization runs up to its first suspension.\<close>

definition start_method :: "rpc_env \<Rightarrow> int \<Rightarrow> string \<Rightarrow> nat \<Rightarrow> conn \<Rightarrow> rpc \<Rightarrow> rpc" where
  "start_method env now sid i c st =
     (let cl = c_calls c ! i in
      case map_of (api_methods env) (call_method cl) of
        None \<Rightarrow> st
      | Some m \<Rightarrow>
          (case authorize_method_call (r_senv env) now sid (call_method cl) m (call_params cl) (r_srv st) of
             (r, srv) \<Rightarrow>
               put_conn sid (set_phase i (case r of Inr u \<Rightarrow> Executing | Inl e \<Rightarrow> Refused e) c)
                 (st\<lparr>r_srv := srv\<rparr>)))"

definition begin_call :: "rpc_env \<Rightarrow> int \<Rightarrow> string \<Rightarrow> nat \<Rightarrow> conn \<Rightarrow> rpc \<Rightarrow> rpc" where
  "begin_call env now sid i c st =
     (case sem_enter i (c_sem c) of
        Limit n \<Rightarrow>
          put_conn sid (answer i Finished (\<lambda>v. ErrorReply v TRUENAS_TOO_MANY_CONCURRENT_CALLS None) c) st
      | Queued s \<Rightarrow> put_conn sid (set_phase i InQueue (c\<lparr>c_sem := s\<rparr>)) st
      | Acquired s \<Rightarrow> start_method env now sid i (c\<lparr>c_sem := s\<rparr>) st)"

definition resume_call :: "rpc_env \<Rightarrow> int \<Rightarrow> string \<Rightarrow> nat \<Rightarrow> conn \<Rightarrow> rpc \<Rightarrow> rpc" where
  "resume_call env now sid i c st = start_method env now sid i (c\<lparr>c_sem := sem_resume i (c_sem c)\<rparr>) st"

definition fail_call :: "string \<Rightarrow> nat \<Rightarrow> exn \<Rightarrow> conn \<Rightarrow> rpc \<Rightarrow> rpc" where
  "fail_call sid i e c st =
     put_conn sid (answer i Finished (\<lambda>v. exception_reply v e) (c\<lparr>c_sem := sem_exit (c_sem c)\<rparr>)) st"

text \<open>What the body of a method does: it raises, returns a value or makes a job.\<close>

datatype body_outcome = ORaise exn | OReturn pyval | OJob int

definition mock_method :: "rpc_env \<Rightarrow> string \<Rightarrow> pyval list \<Rightarrow> method_obj option" where
  "mock_method env name params =
     (case map_of (mocks env) name of
        None \<Rightarrow> None
      | Some ms \<Rightarrow>
          (case find (\<lambda>(args, mock). case args of None \<Rightarrow> False | Some as \<Rightarrow> py_eq (VList as) (VList params)) ms of
             Some (args, mock) \<Rightarrow> Some mock
           | None \<Rightarrow> map_option snd (find (\<lambda>(args, mock). args = None) ms)))"

definition called_method :: "rpc_env \<Rightarrow> rpc_call \<Rightarrow> method_obj option" where
  "called_method env cl =
     (case mock_method env (call_method cl) (call_params cl) of
        Some m \<Rightarrow> Some m
      | None \<Rightarrow> map_of (api_methods env) (call_method cl))"

text \<open>\<open>call_with_audit\<close> after the body, and the dump of the result.\<close>

definition method_result ::
  "rpc_env \<Rightarrow> string \<Rightarrow> rpc_call \<Rightarrow> method_obj \<Rightarrow> body_outcome \<Rightarrow> string list \<Rightarrow> server \<Rightarrow> (exn + pyval) \<times> server" where
  "method_result env sid cl m out msgs srv =
     (case out of
        OJob j \<Rightarrow> (Inr (VInt j), srv)
      | ORaise e \<Rightarrow>
          (case log_audit_message_for_method (r_senv env) sid (call_method cl) m (call_params cl) True True False msgs srv of
             (Inl e1, srv1) \<Rightarrow> (Inl e1, srv1)
           | (Inr u, srv1) \<Rightarrow> (Inl e, srv1))
      | OReturn v \<Rightarrow>
          (case log_audit_message_for_method (r_senv env) sid (call_method cl) m (call_params cl) True True True msgs srv of
             (Inl e1, srv1) \<Rightarrow> (Inl e1, srv1)
           | (Inr u, srv1) \<Rightarrow>
               (case map_of (apps (s_auth srv1)) sid of
                  None \<Rightarrow> (Inl AttributeError, srv1)
                | Some a \<Rightarrow> (dump_result (r_senv env) (s_auth srv1) a m v, srv1))))"

definition return_call ::
  "rpc_env \<Rightarrow> string \<Rightarrow> nat \<Rightarrow> body_outcome \<Rightarrow> string list \<Rightarrow> conn \<Rightarrow> rpc \<Rightarrow> rpc" where
  "return_call env sid i out msgs c st =
     (let cl = c_calls c ! i in
      case called_method env cl of
        None \<Rightarrow> st
      | Some m \<Rightarrow>
          (case method_result env sid cl m out msgs (r_srv st) of
             (r, srv) \<Rightarrow>
               put_conn sid
                 (answer i (case out of OJob j \<Rightarrow> JobRunning | _ \<Rightarrow> Finished)
                    (\<lambda>v. case r of Inl e \<Rightarrow> exception_reply v e | Inr x \<Rightarrow> ResultReply v x)
                    (c\<lparr>c_sem := sem_exit (c_sem c)\<rparr>))
                 (st\<lparr>r_srv := srv\<rparr>)))"

text \<open>\<open>job_on_finish_cb\<close>: the audit message of a call that made a job.\<close>

definition job_finished :: "rpc_env \<Rightarrow> string \<Rightarrow> nat \<Rightarrow> bool \<Rightarrow> string list \<Rightarrow> conn \<Rightarrow> rpc \<Rightarrow> rpc" where
  "job_finished env sid i success msgs c st =
     (let cl = c_calls c ! i in
      case called_method env cl of
        None \<Rightarrow> st
      | Some m \<Rightarrow>
          put_conn sid (set_phase i Finished c)
            (st\<lparr>r_srv := snd (log_audit_message_for_method (r_senv env) sid (call_method cl) m (call_params cl)
                               True True success msgs (r_srv st))\<rparr>))"

section \<open>The server as a state machine\<close>

datatype rpc_op =
    Open login_env int string "origin option"
  | Receive int string ws_frame
  | Begin int string nat
  | Resume int string nat
  | Return string nat body_outcome "string list"
  | Fail string nat
  | JobDone string nat bool "string list"
  | Drop string
  | Body auth_op
  | PopCache string string
  | ClearCache

text \<open>Connecting is not something the body of a method does.\<close>

fun body_op :: "auth_op \<Rightarrow> bool" where
  "body_op (Connect sid orig) = False"
| "body_op (CheckPermission env now sid) = False"
| "body_op (Message now sid) = False"
| "body_op c = True"

definition at_phase :: "rpc \<Rightarrow> string \<Rightarrow> nat \<Rightarrow> (conn \<times> phase) option" where
  "at_phase st sid i =
     (case map_of (r_conns st) sid of
        None \<Rightarrow> None
      | Some c \<Rightarrow> if i < length (c_calls c) then Some (c, phase (c_calls c ! i)) else None)"

fun rpc_run :: "rpc_env \<Rightarrow> rpc_op \<Rightarrow> rpc \<Rightarrow> rpc" where
  "rpc_run env (Open lenv now sid orig) st = open_conn env lenv now sid orig st"
| "rpc_run env (Receive now sid f) st =
     (case map_of (r_conns st) sid of
        None \<Rightarrow> st
      | Some c \<Rightarrow> if c_closed c = None then ws_receive env now sid f c st else st)"
| "rpc_run env (Begin now sid i) st =
     (case at_phase st sid i of Some (c, Created) \<Rightarrow> begin_call env now sid i c st | _ \<Rightarrow> st)"
| "rpc_run env (Resume now sid i) st =
     (case at_phase st sid i of
        Some (c, InQueue) \<Rightarrow> if (i, True) \<in> set (sem_waiters (c_sem c)) then resume_call env now sid i c st else st
      | _ \<Rightarrow> st)"
| "rpc_run env (Return sid i out msgs) st =
     (case at_phase st sid i of Some (c, Executing) \<Rightarrow> return_call env sid i out msgs c st | _ \<Rightarrow> st)"
| "rpc_run env (Fail sid i) st =
     (case at_phase st sid i of Some (c, Refused e) \<Rightarrow> fail_call sid i e c st | _ \<Rightarrow> st)"
| "rpc_run env (JobDone sid i success msgs) st =
     (case at_phase st sid i of Some (c, JobRunning) \<Rightarrow> job_finished env sid i success msgs c st | _ \<Rightarrow> st)"
| "rpc_run env (Drop sid) st =
     (case map_of (r_conns st) sid of
        None \<Rightarrow> st
      | Some c \<Rightarrow> if c_closed c = None then close_conn sid NO_CODE c st else st)"
| "rpc_run env (Body c) st = (if body_op c then map_auth (auth_run c) st else st)"
| "rpc_run env (PopCache name ip) st = st\<lparr>r_srv := (r_srv st)\<lparr>s_cache := cache_pop name ip (s_cache (r_srv st))\<rparr>\<rparr>"
| "rpc_run env ClearCache st = st\<lparr>r_srv := (r_srv st)\<lparr>s_cache := cache_clear (s_cache (r_srv st))\<rparr>\<rparr>"

definition rpc_start :: rpc where
  "rpc_start = \<lparr>r_srv = \<lparr>s_auth = auth_start, s_cache = [], s_audit = []\<rparr>, r_conns = []\<rparr>"

definition rpc_step :: "rpc_env \<Rightarrow> rpc \<Rightarrow> rpc \<Rightarrow> bool" where
  "rpc_step env st st' \<longleftrightarrow> (\<exists>op. st' = rpc_run env op st)"

abbreviation rpc_reachable :: "rpc_env \<Rightarrow> rpc \<Rightarrow> bool" where
  "rpc_reachable env \<equiv> reach (\<lambda>st. st = rpc_start) (rpc_step env)"

end
