(* ===== verification/RpcProofs.thy ===== *)
theory RpcProofs
  imports Rpc 
begin

text \<open>
  The invariant of the server: the login system keeps its own, and in every connection the permits
  of the semaphore are held by the calls that run, the queue holds the calls that wait, and no call
  is forgotten while a permit is free.
\<close>

section \<open>Auditing does not touch the login system\<close>

lemma log_descriptions_auth:
  assumes "\<And>d st. s_auth (snd (f d st)) = s_auth st"
  shows "s_auth (snd (log_descriptions f ds st)) = s_auth st"
proof (induction ds arbitrary: st)
  case (Cons d ds)
  obtain r st1 where r: "f d st = (r, st1)" by force
  with assms [of d st] Cons.IH [of st1] show ?case by (cases r) auto
qed simp

lemma log_audit_auth [simp]:
  "s_auth (snd (log_audit_message_for_method env sid name m ps a b c msgs st)) = s_auth st"
  unfolding log_audit_message_for_method_def
  by (rule log_descriptions_auth) (auto simp: log_audit_message_def split: sum.splits)

lemma refuse_outcome:
  "s_auth (snd (refuse env sid name m ps b e st)) = s_auth st"
  "isl (fst (refuse env sid name m ps b e st))"
proof -
  obtain r st1 where r: "log_audit_message_for_method env sid name m ps b False False [] st = (r, st1)" by force
  then have "s_auth st1 = s_auth st" by (metis log_audit_auth snd_conv)
  with r show "s_auth (snd (refuse env sid name m ps b e st)) = s_auth st"
      "isl (fst (refuse env sid name m ps b e st))"
    by (cases r; simp add: refuse_def)+
qed

lemma authorize_method_call_auth [simp]:
  "s_auth (snd (authorize_method_call env now sid name m ps st)) = s_auth st"
  by (auto simp: authorize_method_call_def refuse_outcome Let_def split: option.splits prod.splits)

lemma method_result_auth [simp]:
  "s_auth (snd (method_result env sid cl m out msgs srv)) = s_auth srv"
proof -
  have *: "log_audit_message_for_method a b d e f True True h msgs srv = (r, srv1) \<Longrightarrow> s_auth srv1 = s_auth srv"
    for a b d e f h r srv1 by (metis log_audit_auth snd_conv)
  show ?thesis by (auto simp: method_result_def dest: * split: body_outcome.splits sum.splits option.splits prod.splits)
qed

section \<open>One connection\<close>

fun holds :: "phase \<Rightarrow> bool" where
  "holds Executing = True"
| "holds (Refused e) = True"
| "holds p = False"

definition holders :: "conn \<Rightarrow> nat" where
  "holders c = length (filter (\<lambda>cl. holds (phase cl)) (c_calls c))"

definition queue_ids :: "conn \<Rightarrow> nat set" where
  "queue_ids c = {i. i < length (c_calls c) \<and> phase (c_calls c ! i) = InQueue}"

definition conn_inv :: "rpc_env \<Rightarrow> conn \<Rightarrow> bool" where
  "conn_inv env c \<longleftrightarrow>
     sem_inv (holders c) (c_sem c) \<and> softlimit (c_sem c) = 10 \<and> hardlimit (c_sem c) = 20 \<and>
     fst ` set (sem_waiters (c_sem c)) = queue_ids c \<and>
     (\<forall>cl \<in> set (c_calls c). map_of (api_methods env) (call_method cl) \<noteq> None)"

lemma filter_update_length:
  "i < length xs \<Longrightarrow>
    length (filter P (xs[i := y])) + (if P (xs ! i) then 1 else 0) = length (filter P xs) + (if P y then 1 else 0)"
proof (induction xs arbitrary: i)
  case (Cons x xs)
  then show ?case by (cases i) auto
qed simp

lemma set_phase_simps [simp]:
  "c_sem (set_phase i p c) = c_sem c" "c_sent (set_phase i p c) = c_sent c"
  "c_closed (set_phase i p c) = c_closed c" "length (c_calls (set_phase i p c)) = length (c_calls c)"
  by (simp_all add: set_phase_def)

lemma holders_set_phase:
  assumes "i < length (c_calls c)"
  shows "holders (set_phase i p c) + (if holds (phase (c_calls c ! i)) then 1 else 0) =
    holders c + (if holds p then 1 else 0)"
  using filter_update_length [OF assms, of "\<lambda>cl. holds (phase cl)" "(c_calls c ! i)\<lparr>phase := p\<rparr>"]
  by (simp add: holders_def set_phase_def)

lemma queue_ids_set_phase:
  "i < length (c_calls c) \<Longrightarrow>
    queue_ids (set_phase i p c) = (if p = InQueue then insert i (queue_ids c) else queue_ids c - {i})"
  by (auto simp: queue_ids_def set_phase_def nth_list_update)

lemma conn_inv_sent [simp]:
  "conn_inv env (c\<lparr>c_sent := m\<rparr>) = conn_inv env c"
  "conn_inv env (c\<lparr>c_closed := cc\<rparr>) = conn_inv env c"
  "conn_inv env (send_reply j f c) = conn_inv env c"
  by (auto simp: conn_inv_def holders_def queue_ids_def send_reply_def split: option.splits)

lemma conn_inv_new [simp]: "conn_inv env new_conn"
  by (auto simp: conn_inv_def new_conn_def holders_def queue_ids_def) (simp_all add: SoftHardSemaphore_def)

text \<open>A call changes its phase together with the semaphore.\<close>

lemma conn_inv_move:
  assumes "conn_inv env c" and i: "i < length (c_calls c)"
    and "sem_inv (holders (set_phase i p c)) s"
    and "softlimit s = softlimit (c_sem c)" and "hardlimit s = hardlimit (c_sem c)"
    and "fst ` set (sem_waiters s) = (if p = InQueue then insert i (queue_ids c) else queue_ids c - {i})"
  shows "conn_inv env (set_phase i p (c\<lparr>c_sem := s\<rparr>))"
proof -
  let ?c = "set_phase i p (c\<lparr>c_sem := s\<rparr>)"
  have calls: "c_calls ?c = c_calls (set_phase i p c)" by (simp add: set_phase_def)
  then have "holders ?c = holders (set_phase i p c)" "queue_ids ?c = queue_ids (set_phase i p c)"
    by (simp_all add: holders_def queue_ids_def)
  moreover have "map_of (api_methods env) (call_method cl) \<noteq> None" if "cl \<in> set (c_calls ?c)" for cl
  proof -
    from that have "cl \<in> set ((c_calls c)[i := (c_calls c ! i)\<lparr>phase := p\<rparr>])" by (simp add: set_phase_def)
    then have "cl \<in> set (c_calls c) \<or> cl = (c_calls c ! i)\<lparr>phase := p\<rparr>"
      using set_update_subset_insert by fastforce
    with assms(1) nth_mem [OF i] show ?thesis by (auto simp: conn_inv_def)
  qed
  ultimately show ?thesis using assms by (simp add: conn_inv_def queue_ids_set_phase)
qed

lemma waiters_wake [simp]: "fst ` set (sem_waiters (wake_up_next s)) = fst ` set (sem_waiters s)"
  by (metis set_map wake_up_next_fields(4))

lemma waiters_exit [simp]: "fst ` set (sem_waiters (sem_exit s)) = fst ` set (sem_waiters s)"
  by (simp add: sem_exit_def)

lemma waiters_resume [simp]: "fst ` set (sem_waiters (sem_resume i s)) = fst ` set (sem_waiters s) - {i}"
  by (auto simp: sem_resume_def Let_def)

lemma waiters_enter:
  "sem_enter i s = Acquired t \<Longrightarrow> sem_waiters t = sem_waiters s"
  "sem_enter i s = Queued t \<Longrightarrow> sem_waiters t = sem_waiters s @ [(i, False)]"
  by (auto simp: sem_enter_def Let_def split: if_splits)

lemma conn_inv_finish:
  assumes inv: "conn_inv env c" and i: "i < length (c_calls c)" and "holds (phase (c_calls c ! i))"
    and p: "\<not> holds p" "p \<noteq> InQueue"
  shows "conn_inv env (set_phase i p (c\<lparr>c_sem := sem_exit (c_sem c)\<rparr>))"
proof (rule conn_inv_move [OF inv i])
  have "holders c = Suc (holders (set_phase i p c))" using holders_set_phase [OF i, of p] assms(3) p by simp
  with inv show "sem_inv (holders (set_phase i p c)) (sem_exit (c_sem c))"
    by (auto simp: conn_inv_def intro: sem_inv_exit)
  have "i \<notin> queue_ids c" using assms(3) by (auto simp: queue_ids_def)
  with inv p show "fst ` set (sem_waiters (sem_exit (c_sem c))) =
      (if p = InQueue then insert i (queue_ids c) else queue_ids c - {i})"
    by (simp add: conn_inv_def)
qed simp_all

lemma conn_inv_idle:
  assumes inv: "conn_inv env c" and i: "i < length (c_calls c)" and "\<not> holds (phase (c_calls c ! i))"
    and "phase (c_calls c ! i) \<noteq> InQueue" and p: "\<not> holds p" "p \<noteq> InQueue"
  shows "conn_inv env (set_phase i p c)"
proof -
  have "i \<notin> queue_ids c" "holders (set_phase i p c) = holders c"
    using assms(3,4) holders_set_phase [OF i, of p] p by (auto simp: queue_ids_def)
  with conn_inv_move [OF inv i, of p "c_sem c"] inv p show ?thesis by (simp add: conn_inv_def)
qed

lemma conn_inv_acquired:
  assumes inv: "conn_inv env c" and i: "i < length (c_calls c)" and "phase (c_calls c ! i) = Created"
    and e: "sem_enter i (c_sem c) = Acquired s" and p: "holds p"
  shows "conn_inv env (set_phase i p (c\<lparr>c_sem := s\<rparr>))"
proof (rule conn_inv_move [OF inv i])
  have "holders (set_phase i p c) = Suc (holders c)" using holders_set_phase [OF i, of p] assms(3) p by simp
  with inv e show "sem_inv (holders (set_phase i p c)) s" by (auto simp: conn_inv_def intro: sem_inv_enter_acquired)
  have "i \<notin> queue_ids c" "p \<noteq> InQueue" using assms(3) p by (auto simp: queue_ids_def)
  with inv e show "fst ` set (sem_waiters s) = (if p = InQueue then insert i (queue_ids c) else queue_ids c - {i})"
    by (simp add: conn_inv_def waiters_enter)
qed (use e in \<open>simp_all add: sem_enter_limits\<close>)

lemma conn_inv_queued:
  assumes inv: "conn_inv env c" and i: "i < length (c_calls c)" and "phase (c_calls c ! i) = Created"
    and e: "sem_enter i (c_sem c) = Queued s"
  shows "conn_inv env (set_phase i InQueue (c\<lparr>c_sem := s\<rparr>))"
proof (rule conn_inv_move [OF inv i])
  have new: "i \<notin> queue_ids c" using assms(3) by (auto simp: queue_ids_def)
  have "holders (set_phase i InQueue c) = holders c" using holders_set_phase [OF i, of InQueue] assms(3) by simp
  with inv e new show "sem_inv (holders (set_phase i InQueue c)) s"
    by (auto simp: conn_inv_def intro: sem_inv_enter_queued)
  from inv e show "fst ` set (sem_waiters s) =
      (if InQueue = InQueue then insert i (queue_ids c) else queue_ids c - {i})"
    by (auto simp: conn_inv_def waiters_enter)
qed (use e in \<open>simp_all add: sem_enter_limits\<close>)

lemma conn_inv_resumed:
  assumes inv: "conn_inv env c" and i: "i < length (c_calls c)" and "phase (c_calls c ! i) = InQueue"
    and w: "(i, True) \<in> set (sem_waiters (c_sem c))" and p: "holds p"
  shows "conn_inv env (set_phase i p (c\<lparr>c_sem := sem_resume i (c_sem c)\<rparr>))"
proof (rule conn_inv_move [OF inv i])
  have "holders (set_phase i p c) = Suc (holders c)" using holders_set_phase [OF i, of p] assms(3) p by simp
  with inv w show "sem_inv (holders (set_phase i p c)) (sem_resume i (c_sem c))"
    by (auto simp: conn_inv_def intro: sem_inv_resume)
  have "p \<noteq> InQueue" using p by auto
  with inv show "fst ` set (sem_waiters (sem_resume i (c_sem c))) =
      (if p = InQueue then insert i (queue_ids c) else queue_ids c - {i})"
    by (simp add: conn_inv_def)
qed simp_all

lemma conn_inv_message: "conn_inv env c \<Longrightarrow> conn_inv env (process_message env m c)"
proof -
  assume inv: "conn_inv env c"
  have new: "conn_inv env (c\<lparr>c_calls := c_calls c @ [cl]\<rparr>)"
    if "phase cl = Created" "map_of (api_methods env) (call_method cl) \<noteq> None" for cl
  proof -
    have "queue_ids (c\<lparr>c_calls := c_calls c @ [cl]\<rparr>) = queue_ids c"
      using that(1) by (auto simp: queue_ids_def nth_append less_Suc_eq)
    with inv that show ?thesis by (simp add: conn_inv_def holders_def)
  qed
  show ?thesis
    using inv by (auto simp: process_message_def Let_def intro!: new
        split: sum.splits option.splits pyval.splits prod.splits)
qed

section \<open>The server\<close>

definition rpc_inv :: "rpc_env \<Rightarrow> rpc \<Rightarrow> bool" where
  "rpc_inv env st \<longleftrightarrow>
     auth_inv (s_auth (r_srv st)) \<and> (\<forall>sid c. map_of (r_conns st) sid = Some c \<longrightarrow> conn_inv env c)"

lemma put_conn_simps [simp]:
  "r_srv (put_conn sid c st) = r_srv st"
  "map_of (r_conns (put_conn sid c st)) q = (if q = sid then Some c else map_of (r_conns st) q)"
  by (simp_all add: put_conn_def update_conv')

lemma map_auth_simps [simp]:
  "s_auth (r_srv (map_auth f st)) = f (s_auth (r_srv st))" "r_conns (map_auth f st) = r_conns st"
  by (simp_all add: map_auth_def)

lemma rpc_inv_put: "rpc_inv env st \<Longrightarrow> conn_inv env c \<Longrightarrow> rpc_inv env (put_conn sid c st)"
  by (simp add: rpc_inv_def)

lemma rpc_inv_map_auth:
  "rpc_inv env st \<Longrightarrow> (auth_inv (s_auth (r_srv st)) \<Longrightarrow> auth_inv (f (s_auth (r_srv st)))) \<Longrightarrow> rpc_inv env (map_auth f st)"
  by (simp add: rpc_inv_def)

lemma rpc_inv_srv: "rpc_inv env st \<Longrightarrow> s_auth srv = s_auth (r_srv st) \<Longrightarrow> rpc_inv env (st\<lparr>r_srv := srv\<rparr>)"
  by (simp add: rpc_inv_def)

lemma at_phase_Some:
  "at_phase st sid i = Some (c, p) \<longleftrightarrow>
    map_of (r_conns st) sid = Some c \<and> i < length (c_calls c) \<and> phase (c_calls c ! i) = p"
  by (auto simp: at_phase_def split: option.splits)

lemma rpc_inv_conn: "rpc_inv env st \<Longrightarrow> map_of (r_conns st) sid = Some c \<Longrightarrow> conn_inv env c"
  by (simp add: rpc_inv_def)

lemma rpc_inv_start_method:
  assumes "rpc_inv env st" and "\<And>p. holds p \<Longrightarrow> conn_inv env (set_phase i p c)"
  shows "rpc_inv env (start_method env now sid i c st)"
proof (cases "map_of (api_methods env) (call_method (c_calls c ! i))")
  case (Some m)
  obtain r srv where a: "authorize_method_call (r_senv env) now sid (call_method (c_calls c ! i)) m
      (call_params (c_calls c ! i)) (r_srv st) = (r, srv)" by force
  then have "s_auth srv = s_auth (r_srv st)" by (metis authorize_method_call_auth snd_conv)
  with assms Some a show ?thesis
    by (cases r) (auto simp: start_method_def intro!: rpc_inv_put rpc_inv_srv)
qed (use assms in \<open>simp add: start_method_def\<close>)

lemma rpc_inv_begin:
  assumes "rpc_inv env st" and "at_phase st sid i = Some (c, Created)"
  shows "rpc_inv env (begin_call env now sid i c st)"
proof -
  have c: "conn_inv env c" "i < length (c_calls c)" "phase (c_calls c ! i) = Created"
    using assms rpc_inv_conn by (auto simp: at_phase_Some)
  show ?thesis
  proof (cases "sem_enter i (c_sem c)")
    case (Limit n)
    with assms(1) c show ?thesis by (auto simp: begin_call_def answer_def intro!: rpc_inv_put conn_inv_idle)
  next
    case (Acquired s)
    with assms(1) c show ?thesis
      by (auto simp: begin_call_def intro!: rpc_inv_start_method conn_inv_acquired)
  next
    case (Queued s)
    with assms(1) c show ?thesis by (auto simp: begin_call_def intro!: rpc_inv_put conn_inv_queued)
  qed
qed

lemma rpc_inv_resume:
  assumes "rpc_inv env st" and "at_phase st sid i = Some (c, InQueue)" and "(i, True) \<in> set (sem_waiters (c_sem c))"
  shows "rpc_inv env (resume_call env now sid i c st)"
  using assms rpc_inv_conn [OF assms(1)]
  by (auto simp: resume_call_def at_phase_Some intro!: rpc_inv_start_method conn_inv_resumed)

lemma rpc_inv_answer:
  assumes "rpc_inv env st" and "map_of (r_conns st) sid = Some c" and "i < length (c_calls c)"
    and "holds (phase (c_calls c ! i))" and "\<not> holds p" and "p \<noteq> InQueue" and "s_auth srv = s_auth (r_srv st)"
  shows "rpc_inv env (put_conn sid (answer i p f (c\<lparr>c_sem := sem_exit (c_sem c)\<rparr>)) (st\<lparr>r_srv := srv\<rparr>))"
  using assms rpc_inv_conn [OF assms(1,2)]
  by (auto simp: answer_def intro!: rpc_inv_put rpc_inv_srv conn_inv_finish)

lemma rpc_inv_return:
  assumes inv: "rpc_inv env st" and "at_phase st sid i = Some (c, Executing)"
  shows "rpc_inv env (return_call env sid i out msgs c st)"
proof (cases "called_method env (c_calls c ! i)")
  case (Some m)
  obtain r srv where mr: "method_result env sid (c_calls c ! i) m out msgs (r_srv st) = (r, srv)" by force
  then have "s_auth srv = s_auth (r_srv st)" by (metis method_result_auth snd_conv)
  moreover have "\<not> holds (case out of OJob j \<Rightarrow> JobRunning | _ \<Rightarrow> Finished)"
      "(case out of OJob j \<Rightarrow> JobRunning | _ \<Rightarrow> Finished) \<noteq> InQueue"
    by (simp_all split: body_outcome.splits)
  ultimately show ?thesis
    using assms mr Some by (simp add: return_call_def at_phase_Some rpc_inv_answer)
qed (use inv in \<open>simp add: return_call_def\<close>)

lemma rpc_inv_close:
  "rpc_inv env st \<Longrightarrow> conn_inv env c \<Longrightarrow> rpc_inv env (close_conn sid cc c st)"
  unfolding close_conn_def
  by (intro rpc_inv_map_auth rpc_inv_put) (simp_all add: app_on_close_def auth_inv_session_logout)

lemma rpc_inv_receive:
  assumes "rpc_inv env st" and "conn_inv env c"
  shows "rpc_inv env (ws_receive env now sid f c st)"
  using assms
  by (auto simp: ws_receive_def rpc_inv_close conn_inv_message auth_inv_on_message
      intro!: rpc_inv_put rpc_inv_map_auth split: ws_frame.splits sum.splits parse_error.splits exn.splits)

lemma rpc_inv_run: "rpc_inv env st \<Longrightarrow> rpc_inv env (rpc_run env op st)"
proof (induction op)
  case (Open lenv now sid orig)
  then show ?case
    by (auto simp: open_conn_def auth_inv_connect auth_inv_check_permission intro!: rpc_inv_put rpc_inv_map_auth)
next
  case (Receive now sid f)
  then show ?case by (auto simp: rpc_inv_receive rpc_inv_conn split: option.splits)
next
  case (Begin now sid i)
  then show ?case by (auto simp: rpc_inv_begin split: option.splits phase.splits)
next
  case (Resume now sid i)
  then show ?case by (auto simp: rpc_inv_resume split: option.splits phase.splits)
next
  case (Return sid i out msgs)
  then show ?case by (auto simp: rpc_inv_return split: option.splits phase.splits)
next
  case (Fail sid i)
  have "rpc_inv env (fail_call sid i e c st)" if "at_phase st sid i = Some (c, Refused e)" for c e
    using that Fail rpc_inv_answer [of env st sid c i Finished "r_srv st"]
    by (simp add: fail_call_def at_phase_Some)
  with Fail show ?case by (auto split: option.splits phase.splits)
next
  case (JobDone sid i success msgs)
  have "rpc_inv env (job_finished env sid i success msgs c st)" if "at_phase st sid i = Some (c, JobRunning)" for c
    using that JobDone rpc_inv_conn [OF JobDone, of sid c]
    by (auto simp: job_finished_def at_phase_Some Let_def split: option.splits
        intro!: rpc_inv_put rpc_inv_srv conn_inv_idle)
  with JobDone show ?case by (auto split: option.splits phase.splits)
next
  case (Drop sid)
  then show ?case by (auto simp: rpc_inv_close rpc_inv_conn split: option.splits)
next
  case (Body c)
  then show ?case by (auto simp: auth_inv_run intro!: rpc_inv_map_auth)
qed (auto simp: rpc_inv_def)

lemma rpc_inv_start: "rpc_inv env rpc_start"
  by (simp add: rpc_inv_def rpc_start_def auth_inv_start)

interpretation rpc: inductive_invariant "\<lambda>st. st = rpc_start" "rpc_step env" "rpc_inv env" for env
  by unfold_locales (auto simp: rpc_step_def rpc_inv_run rpc_inv_start)

lemma rpc_reachable_run: "rpc_reachable env st \<Longrightarrow> rpc_reachable env (rpc_run env op st)"
  by (rule reach_step) (auto simp: rpc_step_def)

end
