(* ===== verification/RpcCalls.thy ===== *)
theory RpcCalls
  imports RpcProofs
begin

text \<open>
  The life of a call: every operation on a call moves it forward, a call that is not answered can
  always move (or waits for one that can), and every request is answered exactly once.
\<close>

section \<open>Operations on a call\<close>

fun answered :: "phase \<Rightarrow> bool" where
  "answered Finished = True"
| "answered JobRunning = True"
| "answered p = False"

fun weight :: "phase \<Rightarrow> nat" where
  "weight Created = 3"
| "weight InQueue = 2"
| "weight Executing = 1"
| "weight (Refused e) = 1"
| "weight p = 0"

definition ids_of :: "pyval option \<Rightarrow> pyval list" where
  "ids_of i = (case i of None \<Rightarrow> [] | Some v \<Rightarrow> [v])"

text \<open>The operations that advance call \<open>i\<close> of a connection, where they are enabled.\<close>

fun call_advances :: "string \<Rightarrow> nat \<Rightarrow> rpc \<Rightarrow> rpc_op \<Rightarrow> bool" where
  "call_advances sid i st (Begin now s j) \<longleftrightarrow> s = sid \<and> j = i \<and> (\<exists>c. at_phase st sid i = Some (c, Created))"
| "call_advances sid i st (Resume now s j) \<longleftrightarrow> s = sid \<and> j = i \<and>
     (\<exists>c. at_phase st sid i = Some (c, InQueue) \<and> (i, True) \<in> set (sem_waiters (c_sem c)))"
| "call_advances sid i st (Return s j out msgs) \<longleftrightarrow> s = sid \<and> j = i \<and> (\<exists>c. at_phase st sid i = Some (c, Executing))"
| "call_advances sid i st (Fail s j) \<longleftrightarrow> s = sid \<and> j = i \<and> (\<exists>c e. at_phase st sid i = Some (c, Refused e))"
| "call_advances sid i st op = False"

text \<open>What such an operation does to the connection.\<close>

definition call_moved :: "nat \<Rightarrow> conn \<Rightarrow> conn \<Rightarrow> bool" where
  "call_moved i c c' \<longleftrightarrow>
     (\<exists>p. i < length (c_calls c) \<and> c_calls c' = (c_calls c)[i := (c_calls c ! i)\<lparr>phase := p\<rparr>] \<and>
        weight p < weight (phase (c_calls c ! i)) \<and> c_closed c' = c_closed c \<and>
        map reply_id (c_sent c') =
          map reply_id (c_sent c) @ (if answered p then ids_of (call_id (c_calls c ! i)) else []))"

lemma exception_reply_id [simp]: "reply_id (exception_reply v e) = v"
  by (cases e) (simp_all add: exception_reply_def)

lemma send_reply_simps [simp]:
  "c_calls (send_reply i f c) = c_calls c" "c_sem (send_reply i f c) = c_sem c"
  "c_closed (send_reply i f c) = c_closed c"
  "(\<And>v. reply_id (f v) = v) \<Longrightarrow> map reply_id (c_sent (send_reply i f c)) = map reply_id (c_sent c) @ ids_of i"
  by (auto simp: send_reply_def ids_of_def split: option.splits)

lemma set_phase_moved:
  assumes "i < length (c_calls c)" and "weight p < weight (phase (c_calls c ! i))" and "\<not> answered p"
  shows "call_moved i c (set_phase i p (c\<lparr>c_sem := s\<rparr>))"
  using assms by (auto simp: call_moved_def set_phase_def)

lemma answer_moved:
  assumes "i < length (c_calls c)" and "weight p < weight (phase (c_calls c ! i))" and "answered p"
    and "\<And>v. reply_id (f v) = v"
  shows "call_moved i c (answer i p f (c\<lparr>c_sem := s\<rparr>))"
  using assms by (auto simp: call_moved_def answer_def) (auto simp: set_phase_def)

lemma start_method_moved:
  assumes "i < length (c_calls c)" and "1 < weight (phase (c_calls c ! i))"
    and "map_of (api_methods env) (call_method (c_calls c ! i)) = Some m"
  shows "\<exists>c'. map_of (r_conns (start_method env now sid i (c\<lparr>c_sem := s\<rparr>) st)) sid = Some c' \<and> call_moved i c c'"
proof -
  obtain r srv where "authorize_method_call (r_senv env) now sid (call_method (c_calls c ! i)) m
      (call_params (c_calls c ! i)) (r_srv st) = (r, srv)" by force
  moreover have "call_moved i c (set_phase i (case r of Inr u \<Rightarrow> Executing | Inl e \<Rightarrow> Refused e) (c\<lparr>c_sem := s\<rparr>))"
    using assms(1,2) by (intro set_phase_moved) (auto split: sum.splits)
  ultimately show ?thesis using assms(3) by (simp add: start_method_def)
qed

lemma advances_moved:
  assumes inv: "rpc_inv env st" and adv: "call_advances sid i st op"
  obtains c c' where "map_of (r_conns st) sid = Some c" and "map_of (r_conns (rpc_run env op st)) sid = Some c'"
    and "call_moved i c c'"
proof -
  obtain c p where c: "at_phase st sid i = Some (c, p)" using adv by (cases op) auto
  then have conn: "map_of (r_conns st) sid = Some c" and i: "i < length (c_calls c)" and p: "phase (c_calls c ! i) = p"
    by (auto simp: at_phase_Some)
  from rpc_inv_conn [OF inv conn] i obtain m where m: "map_of (api_methods env) (call_method (c_calls c ! i)) = Some m"
    by (force simp: conn_inv_def)
  have "\<exists>c'. map_of (r_conns (rpc_run env op st)) sid = Some c' \<and> call_moved i c c'"
    using adv
  proof (cases op)
    case (Begin now s j)
    with adv c have eq: "rpc_run env op st = begin_call env now sid i c st" and "p = Created" by auto
    show ?thesis
    proof (cases "sem_enter i (c_sem c)")
      case (Limit n)
      with eq \<open>p = Created\<close> i p show ?thesis
        using answer_moved [of i c Finished "\<lambda>v. ErrorReply v TRUENAS_TOO_MANY_CONCURRENT_CALLS None" "c_sem c"]
        by (simp add: begin_call_def)
    next
      case (Acquired s)
      with eq \<open>p = Created\<close> i p m show ?thesis by (simp add: begin_call_def start_method_moved)
    next
      case (Queued s)
      with eq \<open>p = Created\<close> i p show ?thesis by (simp add: begin_call_def set_phase_moved)
    qed
  next
    case (Resume now s j)
    with adv c i p m show ?thesis by (auto simp: resume_call_def start_method_moved)
  next
    case (Return s j out msgs)
    with adv c have eq: "rpc_run env op st = return_call env sid i out msgs c st" and "p = Executing" by auto
    from m obtain m' where m': "called_method env (c_calls c ! i) = Some m'"
      by (cases "mock_method env (call_method (c_calls c ! i)) (call_params (c_calls c ! i))")
        (simp_all add: called_method_def)
    obtain r srv where "method_result env sid (c_calls c ! i) m' out msgs (r_srv st) = (r, srv)" by force
    moreover have "call_moved i c (answer i (case out of OJob j \<Rightarrow> JobRunning | _ \<Rightarrow> Finished)
        (\<lambda>v. case r of Inl e \<Rightarrow> exception_reply v e | Inr x \<Rightarrow> ResultReply v x) (c\<lparr>c_sem := sem_exit (c_sem c)\<rparr>))"
      using i p \<open>p = Executing\<close> by (intro answer_moved) (auto split: body_outcome.splits sum.splits)
    ultimately show ?thesis using m' by (simp add: eq return_call_def)
  next
    case (Fail s j)
    with adv c i p show ?thesis
      by (auto simp: fail_call_def answer_moved)
  qed auto
  with conn that show thesis by blast
qed

section \<open>Progress\<close>

definition call_measure :: "conn \<Rightarrow> nat" where
  "call_measure c = sum_list (map (\<lambda>cl. weight (phase cl)) (c_calls c))"

lemma sum_list_update_less:
  fixes f :: "'a \<Rightarrow> nat"
  shows "i < length xs \<Longrightarrow> f y < f (xs ! i) \<Longrightarrow> sum_list (map f (xs[i := y])) < sum_list (map f xs)"
proof (induction xs arbitrary: i)
  case (Cons x xs)
  then show ?case by (cases i) auto
qed simp

lemma moved_measure: "call_moved i c c' \<Longrightarrow> call_measure c' < call_measure c"
  by (auto simp: call_moved_def call_measure_def intro!: sum_list_update_less)

text \<open>A call that is not answered can advance, or another call of the connection can.\<close>

lemma progress:
  assumes inv: "rpc_inv env st" and c: "map_of (r_conns st) sid = Some c"
    and i: "i < length (c_calls c)" and un: "\<not> answered (phase (c_calls c ! i))"
  shows "\<exists>j op. call_advances sid j st op"
proof (cases "phase (c_calls c ! i)")
  case Created
  with c i have "call_advances sid i st (Begin 0 sid i)" by (auto simp: at_phase_Some)
  then show ?thesis by blast
next
  case InQueue
  have ci: "conn_inv env c" using rpc_inv_conn [OF inv c] .
  show ?thesis
  proof (cases "\<exists>j. (j, True) \<in> set (sem_waiters (c_sem c))")
    case True
    then obtain j where j: "(j, True) \<in> set (sem_waiters (c_sem c))" by blast
    with ci have "j \<in> queue_ids c" by (force simp: conn_inv_def)
    with j c have "call_advances sid j st (Resume 0 sid j)" by (auto simp: at_phase_Some queue_ids_def)
    then show ?thesis by blast
  next
    case False
    then have h0: "handed (sem_waiters (c_sem c)) = 0" by (auto simp: handed_def filter_empty_conv)
    from InQueue i ci have "sem_waiters (c_sem c) \<noteq> []" by (auto simp: conn_inv_def queue_ids_def)
    with h0 ci have "holders c > 0"
      using sem_inv_idle [of "c_sem c"] by (cases "holders c") (auto simp: conn_inv_def)
    then have "filter (\<lambda>cl. holds (phase cl)) (c_calls c) \<noteq> []" by (simp add: holders_def)
    then obtain cl where "cl \<in> set (c_calls c)" "holds (phase cl)" by (auto simp: filter_empty_conv)
    then obtain j where j: "j < length (c_calls c)" "holds (phase (c_calls c ! j))" by (auto simp: in_set_conv_nth)
    show ?thesis
    proof (cases "phase (c_calls c ! j)")
      case Executing
      with j c have "call_advances sid j st (Return sid j (OReturn VNone) [])" by (auto simp: at_phase_Some)
      then show ?thesis by blast
    next
      case (Refused e)
      with j c have "call_advances sid j st (Fail sid j)" by (auto simp: at_phase_Some)
      then show ?thesis by blast
    qed (use j in auto)
  qed
next
  case Executing
  with c i have "call_advances sid i st (Return sid i (OReturn VNone) [])" by (auto simp: at_phase_Some)
  then show ?thesis by blast
next
  case (Refused e)
  with c i have "call_advances sid i st (Fail sid i)" by (auto simp: at_phase_Some)
  then show ?thesis by blast
qed (use un in auto)

text \<open>A step of the calls of one connection.\<close>

definition call_step :: "rpc_env \<Rightarrow> string \<Rightarrow> rpc \<Rightarrow> rpc \<Rightarrow> bool" where
  "call_step env sid st st' \<longleftrightarrow> (\<exists>i op. call_advances sid i st op \<and> st' = rpc_run env op st)"

lemma call_step_inv: "call_step env sid st st' \<Longrightarrow> rpc_inv env st \<Longrightarrow> rpc_inv env st'"
  by (auto simp: call_step_def rpc_inv_run)

lemma call_steps_inv: "(call_step env sid)\<^sup>*\<^sup>* st st' \<Longrightarrow> rpc_inv env st \<Longrightarrow> rpc_inv env st'"
  by (induction rule: rtranclp_induct) (auto intro: call_step_inv)

lemma call_step_measure:
  assumes "call_step env sid st st'" and "rpc_inv env st"
  shows "\<exists>c c'. map_of (r_conns st) sid = Some c \<and> map_of (r_conns st') sid = Some c' \<and>
    call_measure c' < call_measure c"
  using assms advances_moved [OF assms(2)] moved_measure unfolding call_step_def by metis

lemma no_infinite_descent: "\<not> (\<forall>n. (f (Suc n) :: nat) < f n)"
  using wf_iff_no_infinite_down_chain [of less_than] by auto

section \<open>Requests and replies\<close>

definition pending :: "conn \<Rightarrow> pyval list" where
  "pending c = concat (map (\<lambda>cl. if answered (phase cl) then [] else ids_of (call_id cl)) (c_calls c))"

definition balance :: "conn \<Rightarrow> pyval multiset" where
  "balance c = mset (map reply_id (c_sent c)) + mset (pending c)"

text \<open>The identifiers to reply to in a message that is read: \<open>null\<close> for text that is not a message.\<close>

fun reads :: "rpc_env \<Rightarrow> string \<Rightarrow> rpc_op \<Rightarrow> rpc \<Rightarrow> pyval list" where
  "reads env sid (Receive now s (TextFrame text)) st =
     (case map_of (r_conns st) sid of
        None \<Rightarrow> []
      | Some c \<Rightarrow>
          if s \<noteq> sid \<or> c_closed c \<noteq> None then []
          else case parse_message (r_senv env) (session_authenticated sid st) text of
            Inl (Raised (ValueError m)) \<Rightarrow> [VNone]
          | Inl e \<Rightarrow> []
          | Inr message \<Rightarrow> ids_of (map_of message ''id''))"
| "reads env sid op st = []"

fun requests :: "rpc_env \<Rightarrow> string \<Rightarrow> rpc_op list \<Rightarrow> rpc \<Rightarrow> pyval list" where
  "requests env sid [] st = []"
| "requests env sid (op # ops) st = reads env sid op st @ requests env sid ops (rpc_run env op st)"

definition rpc_runs :: "rpc_env \<Rightarrow> rpc_op list \<Rightarrow> rpc \<Rightarrow> rpc" where
  "rpc_runs env ops st = fold (rpc_run env) ops st"

definition conn_balance :: "string \<Rightarrow> rpc \<Rightarrow> pyval multiset" where
  "conn_balance sid st = (case map_of (r_conns st) sid of None \<Rightarrow> {#} | Some c \<Rightarrow> balance c)"

lemma concat_update:
  assumes "i < length xs"
  shows "mset (concat (map f (xs[i := y]))) + mset (f (xs ! i)) = mset (concat (map f xs)) + mset (f y)"
  using assms
proof (induction xs arbitrary: i)
  case (Cons x xs)
  then show ?case by (cases i) (auto simp: ac_simps)
qed simp

lemma moved_balance: "call_moved i c c' \<Longrightarrow> balance c' = balance c"
proof -
  assume "call_moved i c c'"
  then obtain p where i: "i < length (c_calls c)"
    and calls: "c_calls c' = (c_calls c)[i := (c_calls c ! i)\<lparr>phase := p\<rparr>]"
    and w: "weight p < weight (phase (c_calls c ! i))"
    and sent: "map reply_id (c_sent c') =
      map reply_id (c_sent c) @ (if answered p then ids_of (call_id (c_calls c ! i)) else [])"
    by (auto simp: call_moved_def)
  let ?f = "\<lambda>cl. if answered (phase cl) then [] else ids_of (call_id cl)"
  from w have "\<not> answered (phase (c_calls c ! i))" by (cases "phase (c_calls c ! i)") auto
  then have "mset (pending c') + mset (ids_of (call_id (c_calls c ! i))) =
      mset (pending c) + mset (if answered p then [] else ids_of (call_id (c_calls c ! i)))"
    using concat_update [OF i, of ?f "(c_calls c ! i)\<lparr>phase := p\<rparr>"] by (simp add: pending_def calls)
  moreover have "mset (map reply_id (c_sent c')) = mset (map reply_id (c_sent c)) +
      mset (if answered p then ids_of (call_id (c_calls c ! i)) else [])" by (simp add: sent)
  ultimately show ?thesis
    unfolding balance_def by (cases "answered p") (simp_all add: ac_simps)
qed

lemma validated_message:
  assumes "validate_message m = Inr m1"
  obtains name params where "map_of m1 ''method'' = Some (VStr name)" and "map_of m1 ''params'' = Some (VList params)"
proof -
  from assms obtain meth where meth: "map_of m ''method'' = Some meth" "is_str meth"
    by (auto simp: validate_message_def split: option.splits if_splits)
  then obtain name where name: "map_of m ''method'' = Some (VStr name)" by (cases meth) auto
  show thesis
  proof (cases "map_of m ''params''")
    case None
    with assms name have "m1 = AList.update ''params'' (VList []) m"
      by (auto simp: validate_message_def split: option.splits if_splits)
    with name show thesis by (intro that [of name "[]"]) (simp_all add: update_conv')
  next
    case (Some p)
    with assms name have "m1 = m" "is_list p" by (auto simp: validate_message_def split: option.splits if_splits)
    with Some name show thesis by (cases p) (auto intro: that)
  qed
qed

lemma job_finished_balance:
  assumes "i < length (c_calls c)" and "phase (c_calls c ! i) = JobRunning"
  shows "balance (set_phase i Finished c) = balance c"
  using concat_update [OF assms(1), of "\<lambda>cl. if answered (phase cl) then [] else ids_of (call_id cl)"
      "(c_calls c ! i)\<lparr>phase := Finished\<rparr>"] assms(2)
  by (simp add: balance_def pending_def set_phase_def)

lemma message_balance:
  "balance (process_message env m c) = balance c + mset (ids_of (map_of m ''id''))"
proof -
  have reply: "balance (send_reply j f c) = balance c + mset (ids_of j)" if "\<And>v. reply_id (f v) = v" for j f
  proof -
    have "mset (map reply_id (c_sent (send_reply j f c))) = mset (map reply_id (c_sent c)) + mset (ids_of j)"
      using send_reply_simps(4) [of f j c] that by simp
    then show ?thesis by (simp add: balance_def pending_def)
  qed
  show ?thesis
  proof (cases "validate_message m")
    case (Inl e)
    then show ?thesis by (simp add: process_message_def reply)
  next
    case (Inr m1)
    then obtain name params where "map_of m1 ''method'' = Some (VStr name)" "map_of m1 ''params'' = Some (VList params)"
      by (rule validated_message)
    with Inr have "process_message env m c =
        (if map_of (api_methods env) name = None
         then send_reply (map_of m ''id'') (\<lambda>v. ErrorReply v METHOD_NOT_FOUND None) c
         else c\<lparr>c_calls := c_calls c @ [\<lparr>call_id = map_of m ''id'', call_method = name, call_params = params, phase = Created\<rparr>]\<rparr>)"
      by (simp add: process_message_def Let_def)
    then show ?thesis using reply by (cases "map_of (api_methods env) name") (simp_all add: balance_def pending_def)
  qed
qed

lemma conn_frame:
  "q \<noteq> sid \<Longrightarrow> map_of (r_conns (start_method env now sid i c st)) q = map_of (r_conns st) q"
  "q \<noteq> sid \<Longrightarrow> map_of (r_conns (begin_call env now sid i c st)) q = map_of (r_conns st) q"
  "q \<noteq> sid \<Longrightarrow> map_of (r_conns (return_call env sid i out msgs c st)) q = map_of (r_conns st) q"
proof -
  assume q: "q \<noteq> sid"
  show *: "map_of (r_conns (start_method env now sid i c st)) q = map_of (r_conns st) q" for c
    using q by (auto simp: start_method_def Let_def split: option.splits prod.splits)
  show "map_of (r_conns (begin_call env now sid i c st)) q = map_of (r_conns st) q"
    using q * by (auto simp: begin_call_def split: enter_result.splits)
  show "map_of (r_conns (return_call env sid i out msgs c st)) q = map_of (r_conns st) q"
    using q by (auto simp: return_call_def Let_def split: option.splits prod.splits)
qed

lemma advances_balance:
  assumes inv: "rpc_inv env st" and adv: "call_advances s i st op"
  shows "conn_balance sid (rpc_run env op st) = conn_balance sid st"
proof (cases "s = sid")
  case True
  obtain c c' where "map_of (r_conns st) s = Some c" "map_of (r_conns (rpc_run env op st)) s = Some c'" "call_moved i c c'"
    using advances_moved [OF inv adv] .
  with True show ?thesis by (simp add: conn_balance_def moved_balance)
next
  case False
  have "map_of (r_conns (rpc_run env op st)) sid = map_of (r_conns st) sid"
    using adv False by (cases op) (auto simp: conn_frame resume_call_def fail_call_def)
  then show ?thesis by (simp add: conn_balance_def)
qed

lemma receive_balance:
  assumes "map_of (r_conns st) s = Some c" and "c_closed c = None"
  shows "conn_balance sid (ws_receive env now s f c st) = conn_balance sid st + mset (reads env sid (Receive now s f) st)"
proof -
  have close: "conn_balance sid (close_conn s cc c st) = conn_balance sid st" for cc
    using assms by (simp add: conn_balance_def close_conn_def balance_def pending_def)
  show ?thesis
  proof (cases f)
    case (TextFrame tx)
    show ?thesis
    proof (cases "parse_message (r_senv env) (session_authenticated s st) tx")
      case (Inr m)
      with TextFrame assms show ?thesis
        by (simp add: ws_receive_def conn_balance_def message_balance split: option.splits)
    next
      case (Inl e)
      show ?thesis
      proof (cases "\<exists>m. e = Raised (ValueError m)")
        case True
        with TextFrame assms Inl show ?thesis
          by (cases "s = sid")
            (auto simp: ws_receive_def conn_balance_def balance_def pending_def split: option.splits if_splits)
      next
        case False
        with TextFrame assms Inl close show ?thesis
          by (auto simp: ws_receive_def split: parse_error.splits exn.splits option.splits)
      qed
    qed
  qed (use assms close in \<open>simp_all add: ws_receive_def\<close>)
qed

lemma run_balance:
  assumes inv: "rpc_inv env st"
  shows "conn_balance sid (rpc_run env op st) = conn_balance sid st + mset (reads env sid op st)"
proof -
  have still: "conn_balance sid (rpc_run env op st) = conn_balance sid st"
    if "rpc_run env op st = st \<or> (\<exists>s i. call_advances s i st op)"
    using that advances_balance [OF inv] by auto
  show ?thesis
  proof (cases op)
    case (Open lenv now s orig)
    then show ?thesis
      by (auto simp: open_conn_def conn_balance_def new_conn_def balance_def pending_def split: option.splits)
  next
    case (Receive now s f)
    show ?thesis
    proof (cases "\<exists>c. map_of (r_conns st) s = Some c \<and> c_closed c = None")
      case True
      with Receive receive_balance [of st s _ sid env now f] show ?thesis by auto
    next
      case False
      then have "rpc_run env op st = st" using Receive by (auto split: option.splits)
      moreover have "reads env sid op st = []"
        using Receive False by (cases f) (auto split: option.splits)
      ultimately show ?thesis by simp
    qed
  next
    case (Begin now s i)
    then have "rpc_run env op st = st \<or> call_advances s i st op" by (auto split: option.splits phase.splits)
    with Begin still show ?thesis by auto
  next
    case (Resume now s i)
    then have "rpc_run env op st = st \<or> call_advances s i st op" by (auto split: option.splits phase.splits)
    with Resume still show ?thesis by auto
  next
    case (Return s i out msgs)
    then have "rpc_run env op st = st \<or> call_advances s i st op" by (auto split: option.splits phase.splits)
    with Return still show ?thesis by auto
  next
    case (Fail s i)
    then have "rpc_run env op st = st \<or> call_advances s i st op" by (auto split: option.splits phase.splits)
    with Fail still show ?thesis by auto
  next
    case (JobDone s i success msgs)
    have "conn_balance sid (job_finished env s i success msgs c st) = conn_balance sid st"
      if "at_phase st s i = Some (c, JobRunning)" for c
      using that job_finished_balance [of i c]
      by (auto simp: job_finished_def at_phase_Some conn_balance_def Let_def split: option.splits)
    with JobDone show ?thesis by (auto split: option.splits phase.splits)
  next
    case (Drop s)
    then show ?thesis
      by (auto simp: close_conn_def conn_balance_def balance_def pending_def split: option.splits)
  qed (simp_all add: conn_balance_def)
qed

lemma runs_balance:
  "rpc_inv env st \<Longrightarrow> conn_balance sid (rpc_runs env ops st) = conn_balance sid st + mset (requests env sid ops st)"
proof (induction ops arbitrary: st)
  case (Cons op ops)
  then show ?case using run_balance [OF Cons.prems, of sid op] Cons.IH [OF rpc_inv_run [OF Cons.prems, of op]]
    by (simp add: rpc_runs_def ac_simps)
qed (simp add: rpc_runs_def)

end
