(* ===== verification/RpcStarts.thy ===== *)
theory RpcStarts
  imports RpcCalls
begin

text \<open>
  How a call comes to run: only its own operations change the phase of a call, and it gets to run
  only when authorization lets it.
\<close>

definition permitted :: "int \<Rightarrow> auth_state \<Rightarrow> string \<Rightarrow> string \<Rightarrow> method_obj \<Rightarrow> bool" where
  "permitted now st sid name m \<longleftrightarrow>
     (\<exists>a. map_of (apps st) sid = Some a \<and>
        (no_auth_required m \<or>
         authenticated a \<and> (\<exists>c. app_cred a = Some c \<and>
           (no_authz_required m \<and> session_user st c \<noteq> None \<or> authorize now st c ''CALL'' name))))"

lemma refuse_not_Inr: "fst (refuse env sid name m ps b e st) \<noteq> Inr u"
  using refuse_outcome(2) [of env sid name m ps b e st] by auto

lemma authorize_permitted:
  "fst (authorize_method_call env now sid name m ps st) = Inr u \<Longrightarrow> permitted now (s_auth st) sid name m"
  by (auto simp: authorize_method_call_def permitted_def refuse_not_Inr Let_def split: option.splits if_splits prod.splits)

lemma start_method_permitted:
  assumes "map_of (r_conns (start_method env now sid i c st)) sid = Some c'" and "i < length (c_calls c)"
    and "map_of (api_methods env) (call_method (c_calls c ! i)) = Some m" and "phase (c_calls c' ! i) = Executing"
  shows "permitted now (s_auth (r_srv st)) sid (call_method (c_calls c ! i)) m"
proof -
  obtain r srv where a: "authorize_method_call (r_senv env) now sid (call_method (c_calls c ! i)) m
      (call_params (c_calls c ! i)) (r_srv st) = (r, srv)" by force
  with assms(1,3) have "c' = set_phase i (case r of Inr u \<Rightarrow> Executing | Inl e \<Rightarrow> Refused e) c"
    by (simp add: start_method_def)
  with assms(2,4) have "\<exists>u. r = Inr u" by (cases r) (auto simp: set_phase_def)
  with a authorize_permitted show ?thesis by (metis fst_conv)
qed

lemma process_message_calls:
  "c_calls (process_message env m c) = c_calls c \<or>
    (\<exists>cl. c_calls (process_message env m c) = c_calls c @ [cl] \<and> phase cl = Created)"
  by (auto simp: process_message_def Let_def split: sum.splits option.splits pyval.splits)

lemma receive_calls:
  assumes "map_of (r_conns (ws_receive env now s f c st)) s = Some c'"
  shows "c_calls c' = c_calls c \<or> (\<exists>cl. c_calls c' = c_calls c @ [cl] \<and> phase cl = Created)"
  using assms process_message_calls [of env _ c]
  by (auto simp: ws_receive_def close_conn_def split: ws_frame.splits sum.splits parse_error.splits exn.splits)

lemma receive_frame: "q \<noteq> s \<Longrightarrow> map_of (r_conns (ws_receive env now s f c st)) q = map_of (r_conns st) q"
  by (auto simp: ws_receive_def close_conn_def split: ws_frame.splits sum.splits parse_error.splits exn.splits)

text \<open>Only its own operations change the phase of a call.\<close>

lemma advanced_phase:
  assumes inv: "rpc_inv env st" and adv: "call_advances s j st op" and new: "at_phase (rpc_run env op st) sid i = Some (c', p)"
  shows "(\<exists>c. at_phase st sid i = Some (c, p)) \<or> call_advances sid i st op"
proof (cases "s = sid")
  case True
  obtain c c1 where "map_of (r_conns st) s = Some c" "map_of (r_conns (rpc_run env op st)) s = Some c1" "call_moved j c c1"
    using advances_moved [OF inv adv] .
  with new True adv show ?thesis by (cases "i = j") (auto simp: at_phase_Some call_moved_def)
next
  case False
  have "map_of (r_conns (rpc_run env op st)) sid = map_of (r_conns st) sid"
    using adv False by (cases op) (auto simp: conn_frame resume_call_def fail_call_def)
  with new show ?thesis by (auto simp: at_phase_Some)
qed

lemma phase_changes:
  assumes inv: "rpc_inv env st" and new: "at_phase (rpc_run env op st) sid i = Some (c', p)"
  shows "p = Created \<or> p = Finished \<or> (\<exists>c. at_phase st sid i = Some (c, p)) \<or> call_advances sid i st op"
proof (cases "\<exists>s j. call_advances s j st op")
  case True
  with advanced_phase [OF inv _ new] show ?thesis by blast
next
  case False
  show ?thesis
  proof (cases op)
    case (Open lenv now s orig)
    with new show ?thesis by (auto simp: at_phase_Some open_conn_def new_conn_def split: if_splits)
  next
    case (Receive now s f)
    show ?thesis
    proof (cases "\<exists>c. map_of (r_conns st) s = Some c \<and> c_closed c = None \<and> s = sid")
      case True
      then obtain c where c: "map_of (r_conns st) sid = Some c" "c_closed c = None" "s = sid" by blast
      with Receive new receive_calls [of env now sid f c st c'] show ?thesis
        by (auto simp: at_phase_Some nth_append split: if_splits)
    next
      case False
      then have "map_of (r_conns (rpc_run env op st)) sid = map_of (r_conns st) sid"
        using Receive receive_frame by (auto split: option.splits)
      with new show ?thesis by (auto simp: at_phase_Some)
    qed
  next
    case (JobDone s j success msgs)
    have "p = Finished \<or> (\<exists>c. at_phase st sid i = Some (c, p))"
      if "at_phase st s j = Some (c, JobRunning)"
        and "at_phase (job_finished env s j success msgs c st) sid i = Some (c', p)" for c
      using that by (cases "s = sid"; cases "i = j")
        (auto simp: job_finished_def at_phase_Some Let_def set_phase_def split: option.splits)
    with JobDone new show ?thesis by (auto split: option.splits phase.splits)
  next
    case (Drop s)
    with new show ?thesis by (auto simp: at_phase_Some close_conn_def split: option.splits if_splits)
  next
    case (Begin now s j)
    then have "rpc_run env op st = st" using False by (auto split: option.splits phase.splits)
    with new show ?thesis by auto
  next
    case (Resume now s j)
    then have "rpc_run env op st = st" using False by (auto split: option.splits phase.splits)
    with new show ?thesis by auto
  next
    case (Return s j out msgs)
    then have "rpc_run env op st = st" using False by (auto split: option.splits phase.splits)
    with new show ?thesis by auto
  next
    case (Fail s j)
    then have "rpc_run env op st = st" using False by (auto split: option.splits phase.splits)
    with new show ?thesis by auto
  qed (use new in \<open>auto simp: at_phase_Some split: if_splits\<close>)
qed

lemma start_permitted:
  assumes "rpc_reachable env st" and "at_phase (rpc_run env op st) sid i = Some (c', Executing)"
    and "\<nexists>c. at_phase st sid i = Some (c, Executing)"
  shows "\<exists>now c m. op \<in> {Begin now sid i, Resume now sid i} \<and> map_of (r_conns st) sid = Some c \<and>
    map_of (api_methods env) (call_method (c_calls c ! i)) = Some m \<and>
    permitted now (s_auth (r_srv st)) sid (call_method (c_calls c ! i)) m"
proof -
  from rpc.reach_inv [OF assms(1)] have inv: "rpc_inv env st" .
  with phase_changes [OF inv assms(2)] assms(3) have adv: "call_advances sid i st op" by auto
  obtain c c1 where c: "map_of (r_conns st) sid = Some c" "map_of (r_conns (rpc_run env op st)) sid = Some c1"
      "call_moved i c c1"
    using advances_moved [OF inv adv] .
  with assms(2) have c1: "c1 = c'" "i < length (c_calls c)" "phase (c_calls c' ! i) = Executing"
    by (auto simp: at_phase_Some call_moved_def)
  from rpc_inv_conn [OF inv c(1)] c1(2) obtain m where m: "map_of (api_methods env) (call_method (c_calls c ! i)) = Some m"
    by (force simp: conn_inv_def)
  from c(3) have w: "weight (phase (c_calls c1 ! i)) < weight (phase (c_calls c ! i))" by (auto simp: call_moved_def)
  have start: "permitted now (s_auth (r_srv st)) sid (call_method (c_calls c ! i)) m"
    if "rpc_run env op st = start_method env now sid i (c\<lparr>c_sem := s\<rparr>) st" for now s
    using start_method_permitted [of env now sid i "c\<lparr>c_sem := s\<rparr>" st c' m] that c(2) c1 m by simp
  from adv show ?thesis
  proof (cases op)
    case (Begin now s j)
    with adv c(1) have "at_phase st sid i = Some (c, Created)" and op: "op = Begin now sid i"
      by (auto simp: at_phase_Some)
    then have eq: "rpc_run env op st = begin_call env now sid i c st" by simp
    have "\<exists>s. rpc_run env op st = start_method env now sid i (c\<lparr>c_sem := s\<rparr>) st"
    proof (cases "sem_enter i (c_sem c)")
      case (Limit n)
      with eq c(2) c1 show ?thesis by (auto simp: begin_call_def answer_def) (simp add: set_phase_def)
    next
      case (Queued s)
      with eq c(2) c1 show ?thesis by (auto simp: begin_call_def) (simp add: set_phase_def)
    next
      case (Acquired s)
      with eq show ?thesis by (auto simp: begin_call_def)
    qed
    with start op c(1) m show ?thesis by blast
  next
    case (Resume now s j)
    with adv c(1) have "at_phase st sid i = Some (c, InQueue)" "(i, True) \<in> set (sem_waiters (c_sem c))"
      and op: "op = Resume now sid i"
      by (auto simp: at_phase_Some)
    then have "rpc_run env op st = resume_call env now sid i c st" by simp
    with op start c(1) m show ?thesis unfolding resume_call_def by blast
  next
    case (Return s j out msgs)
    with adv c(1) have "phase (c_calls c ! i) = Executing" by (auto simp: at_phase_Some)
    with w c1 show ?thesis by simp
  next
    case (Fail s j)
    with adv c(1) obtain e where "phase (c_calls c ! i) = Refused e" by (auto simp: at_phase_Some)
    with w c1 show ?thesis by simp
  qed auto
qed

end
