(* ===== verification/RpcDemo.thy ===== *)
theory RpcDemo
  imports RpcStarts SchemaProperties PrivilegeProofs
begin

text \<open>
  A small server for examples: two methods, one that needs no login and one that needs the role
  \<open>A_WRITE\<close>, a client from the network and a user with the privilege of that role at a local socket.
\<close>

definition ping_method :: method_obj where
  "ping_method = \<lparr>audit = None, audit_extended = None, accepts = None, new_style_accepts = None, returns = None,
     new_style_returns = None, no_auth_required = True, m_rate_limit = True, no_authz_required = False,
     crud_method = None, m_role_prefix = None\<rparr>"

text \<open>Its argument and its result have a private attribute.\<close>

definition secret_schema :: schema where
  "secret_schema = SDict (demo_common ''cred'') demo_opts
     [(''pass'', SStr ((demo_common ''pass'')\<lparr>is_private := True\<rparr>) None 10)]"

definition create_method :: method_obj where
  "create_method = ping_method\<lparr>audit := Some ''Create'', accepts := Some [secret_schema],
     returns := Some [secret_schema], no_auth_required := False\<rparr>"

definition demo_server_env :: server_env where
  "demo_server_env = \<lparr>json_loads = (\<lambda>t.
       if t = ''ping'' then Inr (VDict [(''jsonrpc'', VStr ''2.0''), (''id'', VInt 7), (''method'', VStr ''core.ping'')])
       else if t = ''create'' then Inr (VDict [(''jsonrpc'', VStr ''2.0''), (''id'', VInt 8),
         (''method'', VStr ''a.create''), (''params'', VList [VDict [(''pass'', VStr ''hunter2'')]])])
       else if t = ''odd'' then Inr (VDict [(''method'', VList [])])
       else Inl (ValueError ''Expecting value'')),
     ENOTAUTHENTICATED = 207, senv = demo_schema_env\<rparr>"

definition demo_rpc_env :: rpc_env where
  "demo_rpc_env = \<lparr>r_senv = demo_server_env, api_methods = [(''core.ping'', ping_method), (''a.create'', create_method)],
     mocks = [], ip_addr = (\<lambda>a. Some 0), ip_net = (\<lambda>n. None), ui_allowlist = []\<rparr>"

definition net_origin :: origin where
  "net_origin = \<lparr>family = AF_INET, rem_addr = Some ''10.0.0.5'', rem_port = Some 40000, o_uid = None, o_gid = None,
     loginuid = None, ssl = True\<rparr>"

definition socket_origin :: origin where
  "socket_origin = \<lparr>family = AF_UNIX, rem_addr = None, rem_port = None, o_uid = Some 3000, o_gid = Some 3000,
     loginuid = None, ssl = False\<rparr>"

definition socket_login :: login_env where
  "socket_login = \<lparr>failover_backup = False, db_lookup = (\<lambda>u. None), db_lookup_uid = (\<lambda>i. Some (1, ''ann'')),
     ds_uid = (\<lambda>u. None), always_has_root_password = False, unixhash_is_valid = (\<lambda>h. False),
     check_unixhash = (\<lambda>p h. False), libpam = (\<lambda>n u p k. \<lparr>code = PAM_AUTH_ERR, reason = None, otpw_response = None\<rparr>),
     get_user_obj = (\<lambda>q. Some \<lparr>pw_name = ''ann'', pw_uid = 3000, nss_source = ''LOCAL'', nss_local = True,
       nss_sid = [], grouplist = [3000]\<rparr>),
     twofactor_secret = (\<lambda>i l. False), privilege_rows = [demo_privilege], unixids_sids = (\<lambda>g. None),
     compose = compose_privilege (Suc (Suc (Suc 0))) small_manager False, twofactor_enabled = False,
     verify_twofactor_token = (\<lambda>u t. False), api_key_row = (\<lambda>i. None), ip_is_loopback = (\<lambda>a. None)\<rparr>"

definition ann_privilege :: composed where
  "ann_privilege = \<lparr>c_roles = [''A_READ'', ''A_WRITE''], c_allowlist = [\<lparr>a_method = ''CALL'', a_resource = ''a.create''\<rparr>],
     c_web_shell = True, c_webui_access = False\<rparr>"

lemma ann_composed: "compose_privilege (Suc (Suc (Suc 0))) small_manager False [demo_privilege] = Inr ann_privilege"
  by (simp add: compose_privilege_def compose_one_def compose_role_def demo_privilege_def small_manager_items
      system_security_config_to_stig_type_def allowlist_for_role_def privilege_has_webui_access_def
      dict_index_def ann_privilege_def)
    (simp add: demo_table_def Role_def small_manager_items List.union_def)

definition ann_cred :: user_cred where
  "ann_cred = new_user_cred UnixSocket \<lparr>username = ''ann'', account_attributes = [''LOCAL''], u_privilege = ann_privilege\<rparr> None 0"

definition ping_received :: rpc where
  "ping_received = rpc_runs demo_rpc_env
     [Open socket_login 0 ''s1'' (Some net_origin), Receive 0 ''s1'' (TextFrame ''ping'')] rpc_start"

definition create_received :: rpc where
  "create_received = rpc_runs demo_rpc_env
     [Open socket_login 0 ''s2'' (Some socket_origin), Receive 1 ''s2'' (TextFrame ''create'')] rpc_start"

lemma rpc_runs_reachable: "rpc_reachable env (rpc_runs env ops rpc_start)"
proof -
  have "rpc_reachable env st \<Longrightarrow> rpc_reachable env (fold (rpc_run env) ops st)" for st
    by (induction ops arbitrary: st) (auto intro: rpc_reachable_run)
  then show ?thesis by (simp add: rpc_runs_def reach_init)
qed

lemma demo_reachable: "rpc_reachable demo_rpc_env ping_received" "rpc_reachable demo_rpc_env create_received"
  by (simp_all add: ping_received_def create_received_def rpc_runs_reachable)

lemma ann_session:
  "check_permission socket_login 0 ''s2'' (connect_app ''s2'' (Some socket_origin) auth_start) =
     (Inr (), auth_start\<lparr>creds := [UserC ann_cred], sessions := [(''s2'', 0)],
        apps := [(''s2'', \<lparr>app_origin = Some socket_origin, authenticated = True, app_cred = Some 0, next_mech = None,
          auth_data = None\<rparr>)]\<rparr>)"
  by (simp add: check_permission_def connect_app_def auth_start_def socket_origin_def is_unix_family_def
      socket_login_def authenticate_user_def privileges_for_groups_def privileges_group_mapping_def local_key_def
      ADMIN_UID_def ann_composed [unfolded demo_privilege_def] login_as_def new_cred_def session_login_def update_app_def ann_cred_def
      demo_privilege_def)

lemma parse_demo:
  "parse_message demo_server_env b ''ping'' =
     Inr [(''jsonrpc'', VStr ''2.0''), (''id'', VInt 7), (''method'', VStr ''core.ping'')]"
  "parse_message demo_server_env b ''create'' = Inr [(''jsonrpc'', VStr ''2.0''), (''id'', VInt 8),
     (''method'', VStr ''a.create''), (''params'', VList [VDict [(''pass'', VStr ''hunter2'')]])]"
  by (simp_all add: parse_message_def demo_server_env_def hashable_def MSG_SIZE_EXTENDED_METHODS_def Let_def)

lemma process_demo:
  "process_message demo_rpc_env [(''jsonrpc'', VStr ''2.0''), (''id'', VInt 7), (''method'', VStr ''core.ping'')] c =
     c\<lparr>c_calls := c_calls c @ [\<lparr>call_id = Some (VInt 7), call_method = ''core.ping'', call_params = [], phase = Created\<rparr>]\<rparr>"
  "process_message demo_rpc_env [(''jsonrpc'', VStr ''2.0''), (''id'', VInt 8), (''method'', VStr ''a.create''),
       (''params'', VList [VDict [(''pass'', VStr ''hunter2'')]])] c =
     c\<lparr>c_calls := c_calls c @ [\<lparr>call_id = Some (VInt 8), call_method = ''a.create'',
       call_params = [VDict [(''pass'', VStr ''hunter2'')]], phase = Created\<rparr>]\<rparr>"
  by (simp_all add: process_message_def validate_message_def demo_rpc_env_def Let_def)

lemma ping_received_eq:
  "ping_received = \<lparr>r_srv = \<lparr>s_auth = auth_start\<lparr>apps := [(''s1'', \<lparr>app_origin = Some net_origin, authenticated = False,
       app_cred = None, next_mech = None, auth_data = None\<rparr>)]\<rparr>, s_cache = [], s_audit = []\<rparr>,
     r_conns = [(''s1'', new_conn\<lparr>c_calls := [\<lparr>call_id = Some (VInt 7), call_method = ''core.ping'', call_params = [],
       phase = Created\<rparr>]\<rparr>)]\<rparr>"
proof -
  have e: "r_senv demo_rpc_env = demo_server_env" "ui_allowlist demo_rpc_env = []" by (simp_all add: demo_rpc_env_def)
  show ?thesis
    by (simp add: ping_received_def rpc_runs_def rpc_start_def open_conn_def can_access_def e put_conn_def map_auth_def
        connect_app_def auth_start_def check_permission_def net_origin_def is_unix_family_def ws_receive_def parse_demo
        process_demo app_on_message_def update_app_def)
      (simp add: new_conn_def)
qed

lemma create_received_eq:
  "create_received = \<lparr>r_srv = \<lparr>s_auth = auth_start\<lparr>creds := [UserC ann_cred], sessions := [(''s2'', 0)],
       apps := [(''s2'', \<lparr>app_origin = Some socket_origin, authenticated = True, app_cred = Some 0, next_mech = None,
         auth_data = None\<rparr>)]\<rparr>, s_cache = [], s_audit = []\<rparr>,
     r_conns = [(''s2'', new_conn\<lparr>c_calls := [\<lparr>call_id = Some (VInt 8), call_method = ''a.create'',
       call_params = [VDict [(''pass'', VStr ''hunter2'')]], phase = Created\<rparr>]\<rparr>)]\<rparr>"
proof -
  have e: "r_senv demo_rpc_env = demo_server_env" by (simp add: demo_rpc_env_def)
  have s: "is_unix_family socket_origin" by (simp add: socket_origin_def is_unix_family_def)
  have v: "is_valid 1 st 0" "notify_used 1 0 st = st" if "creds st = [UserC ann_cred]" for st
    using that by (simp_all add: is_valid_def notify_used_def user_is_valid_def user_notify_used_def ann_cred_def
        new_user_cred_def timeout_of_def)
  show ?thesis
    by (simp add: create_received_def rpc_runs_def rpc_start_def open_conn_def can_access_def s put_conn_def map_auth_def
        ann_session ws_receive_def e parse_demo process_demo app_on_message_def v)
      (simp add: new_conn_def)
qed

end
