(* ===== verification/RpcProperties.thy ===== *)
theory RpcProperties
  imports RpcDemo
begin

text \<open>
  What the server guarantees of calls: who runs what, how many at a time, that each request is
  answered once.
\<close>

definition create_conn :: conn where
  "create_conn = new_conn\<lparr>c_calls := [\<lparr>call_id = Some (VInt 8), call_method = ''a.create'',
     call_params = [VDict [(''pass'', VStr ''hunter2'')]], phase = Created\<rparr>]\<rparr>"

definition create_running_conn :: conn where
  "create_running_conn = set_phase 0 Executing
     (create_conn\<lparr>c_sem := (SoftHardSemaphore 10 20)\<lparr>sem_value := 9, sem_counter := 1\<rparr>\<rparr>)"

lemma create_running:
  "at_phase (rpc_run demo_rpc_env (Begin 1 ''s2'' 0) create_received) ''s2'' 0 = Some (create_running_conn, Executing)"
proof -
  have m: "map_of (api_methods demo_rpc_env) ''a.create'' = Some create_method"
      "\<not> no_auth_required create_method" "\<not> no_authz_required create_method"
    by (simp_all add: demo_rpc_env_def create_method_def ping_method_def)
  have "al_authorize (uc_allowlist ann_cred) ''CALL'' ''a.create''"
    by (simp add: ann_cred_def new_user_cred_def ann_privilege_def al_authorize_def authorize_Allowlist permits_def)
  moreover have "user_is_valid 1 ann_cred" by (simp add: ann_cred_def new_user_cred_def user_is_valid_def timeout_of_def)
  ultimately have "authorize_method_call e 1 ''s2'' ''a.create'' create_method ps (r_srv create_received) =
      (Inr (), r_srv create_received)" for e ps
    using m by (simp add: authorize_method_call_def create_received_eq authorize_def user_authorize_def)
  with m show ?thesis
    by (simp add: at_phase_def create_received_eq begin_call_def new_conn_def sem_enter_def locked_def
        SoftHardSemaphore_def start_method_def put_conn_def create_running_conn_def create_conn_def set_phase_def)
qed

section \<open>What runs\<close>

text \<open>A method begins to run only in a session that is permitted to call it at that moment: the
  method needs no login, or the session is logged in and the method needs no authorization or its
  credential authorizes the call.\<close>

theorem running_call_permitted:
  assumes "rpc_reachable env st" and "at_phase (rpc_run env op st) sid i = Some (c', Executing)"
    and "\<nexists>c. at_phase st sid i = Some (c, Executing)"
  shows "\<exists>now c m. op \<in> {Begin now sid i, Resume now sid i} \<and> map_of (r_conns st) sid = Some c \<and>
    map_of (api_methods env) (call_method (c_calls c ! i)) = Some m \<and>
    permitted now (s_auth (r_srv st)) sid (call_method (c_calls c ! i)) m"
  by (rule start_permitted [OF assms])

theorem running_call_permitted_witness:
  "\<exists>now c m. Begin 1 ''s2'' 0 \<in> {Begin now ''s2'' 0, Resume now ''s2'' 0} \<and>
    map_of (r_conns create_received) ''s2'' = Some c \<and>
    map_of (api_methods demo_rpc_env) (call_method (c_calls c ! 0)) = Some m \<and>
    permitted now (s_auth (r_srv create_received)) ''s2'' (call_method (c_calls c ! 0)) m"
proof (rule running_call_permitted [OF demo_reachable(2)])
  show "at_phase (rpc_run demo_rpc_env (Begin 1 ''s2'' 0) create_received) ''s2'' 0 = Some (create_running_conn, Executing)"
    by (rule create_running)
qed (simp add: at_phase_def create_received_eq)



section \<open>How many calls\<close>

text \<open>C33. A connection never has more than ten calls running and twenty admitted.\<close>

theorem calls_limited:
  assumes "rpc_reachable env st" and "map_of (r_conns st) sid = Some c"
  shows "length (filter (\<lambda>cl. phase cl = Executing) (c_calls c)) \<le> 10 \<and>
    length (filter (\<lambda>cl. holds (phase cl) \<or> phase cl = InQueue) (c_calls c)) \<le> 20"
proof
  have inv: "conn_inv env c" using rpc_inv_conn [OF rpc.reach_inv [OF assms(1)] assms(2)] .
  have "filter (\<lambda>cl. phase cl = Executing) (c_calls c) =
      filter (\<lambda>cl. phase cl = Executing) (filter (\<lambda>cl. holds (phase cl)) (c_calls c))"
    by (simp, rule filter_cong) auto
  then have "length (filter (\<lambda>cl. phase cl = Executing) (c_calls c)) \<le> holders c"
    by (metis holders_def length_filter_le)
  with inv show "length (filter (\<lambda>cl. phase cl = Executing) (c_calls c)) \<le> 10"
    by (simp add: conn_inv_def sem_inv_def)
  have "length (sem_waiters (c_sem c)) = card (fst ` set (sem_waiters (c_sem c)))"
    using inv by (metis conn_inv_def distinct_card length_map sem_inv_def set_map)
  also have "\<dots> = length (filter (\<lambda>cl. phase cl = InQueue) (c_calls c))"
    using inv by (simp add: conn_inv_def queue_ids_def length_filter_conv_card)
  finally have w: "length (sem_waiters (c_sem c)) = length (filter (\<lambda>cl. phase cl = InQueue) (c_calls c))" .
  have "length (filter (\<lambda>cl. holds (phase cl) \<or> phase cl = InQueue) xs) =
      length (filter (\<lambda>cl. holds (phase cl)) xs) + length (filter (\<lambda>cl. phase cl = InQueue) xs)" for xs :: "rpc_call list"
    by (induction xs) auto
  with w inv show "length (filter (\<lambda>cl. holds (phase cl) \<or> phase cl = InQueue) (c_calls c)) \<le> 20"
    by (simp add: conn_inv_def sem_inv_def holders_def)
qed

theorem calls_limited_witness:
  "length (filter (\<lambda>cl. phase cl = Executing) (c_calls create_conn)) \<le> 10 \<and>
    length (filter (\<lambda>cl. holds (phase cl) \<or> phase cl = InQueue) (c_calls create_conn)) \<le> 20"
  by (rule calls_limited [OF demo_reachable(2), where sid = "''s2''"]) (simp add: create_received_eq create_conn_def)

section \<open>Every request is answered\<close>

text \<open>C5. Whatever order the calls of a connection run in and whatever their methods return, they
  come to an end, and when no call can move any more all have been answered: no call waits for
  a permit that nobody will pass on.\<close>

theorem calls_are_answered:
  assumes "rpc_reachable env st"
  shows "\<not> (\<exists>f. f 0 = st \<and> (\<forall>n. call_step env sid (f n) (f (Suc n)))) \<and>
    (\<forall>st' c. (call_step env sid)\<^sup>*\<^sup>* st st' \<and> (\<nexists>st''. call_step env sid st' st'') \<and> map_of (r_conns st') sid = Some c
       \<longrightarrow> (\<forall>cl \<in> set (c_calls c). answered (phase cl)))"
proof
  have inv: "rpc_inv env st" using rpc.reach_inv [OF assms] .
  show "\<not> (\<exists>f. f 0 = st \<and> (\<forall>n. call_step env sid (f n) (f (Suc n))))"
  proof
    assume "\<exists>f. f 0 = st \<and> (\<forall>n. call_step env sid (f n) (f (Suc n)))"
    then obtain f where f: "f 0 = st" "\<And>n. call_step env sid (f n) (f (Suc n))" by blast
    have fi: "rpc_inv env (f n)" for n
    proof (induction n)
      case (Suc n)
      with call_step_inv [OF f(2)] show ?case by blast
    qed (use inv f in simp)
    let ?g = "\<lambda>n. call_measure (the (map_of (r_conns (f n)) sid))"
    have "?g (Suc n) < ?g n" for n using call_step_measure [OF f(2) fi, of n] by auto
    with no_infinite_descent [of ?g] show False by blast
  qed
  show "\<forall>st' c. (call_step env sid)\<^sup>*\<^sup>* st st' \<and> (\<nexists>st''. call_step env sid st' st'') \<and> map_of (r_conns st') sid = Some c
      \<longrightarrow> (\<forall>cl \<in> set (c_calls c). answered (phase cl))"
  proof (intro allI impI ballI)
    fix st' c cl
    assume a: "(call_step env sid)\<^sup>*\<^sup>* st st' \<and> (\<nexists>st''. call_step env sid st' st'') \<and> map_of (r_conns st') sid = Some c"
      and "cl \<in> set (c_calls c)"
    then obtain i where "i < length (c_calls c)" "cl = c_calls c ! i" by (auto simp: in_set_conv_nth)
    with a progress [of env st' sid c i] call_steps_inv [OF _ inv, of sid st'] show "answered (phase cl)"
      by (auto simp: call_step_def)
  qed
qed

theorem calls_are_answered_witness:
  "\<not> (\<exists>f. f 0 = create_received \<and> (\<forall>n. call_step demo_rpc_env ''s2'' (f n) (f (Suc n))))"
  using calls_are_answered [OF demo_reachable(2), of "''s2''"] by blast

text \<open>C4. Over any run of the server, the identifiers of the replies sent on a connection and of the
  calls still to be answered are together those of the requests read from it, each as often as
  it was sent; a message without identifier gets no reply.\<close>

theorem requests_answered_once:
  assumes "map_of (r_conns (rpc_runs env ops rpc_start)) sid = Some c"
  shows "mset (map reply_id (c_sent c)) + mset (pending c) = mset (requests env sid ops rpc_start)"
  using runs_balance [where env = env and st = rpc_start and sid = sid and ops = ops] rpc_inv_start assms
  by (simp add: conn_balance_def balance_def rpc_start_def)

theorem requests_answered_once_witness:
  "mset (map reply_id (c_sent create_conn)) + mset (pending create_conn) = {#VInt 8#}"
proof -
  let ?ops = "[Open socket_login 0 ''s2'' (Some socket_origin), Receive 1 ''s2'' (TextFrame ''create'')]"
  have "requests demo_rpc_env ''s2'' ?ops rpc_start = [VInt 8]"
  proof -
    have "r_senv demo_rpc_env = demo_server_env" by (simp add: demo_rpc_env_def)
    then show ?thesis
      by (simp add: rpc_start_def open_conn_def can_access_def put_conn_def map_auth_def socket_origin_def
          is_unix_family_def parse_demo ids_of_def new_conn_def)
  qed
  with requests_answered_once [of demo_rpc_env ?ops "''s2''" create_conn] show ?thesis
    using create_received_eq by (simp add: create_received_def create_conn_def)
qed

end
