(* ===== verification/RpcSecrets.thy ===== *)
theory RpcSecrets
  imports RpcProperties
begin

text \<open>
  What a reply and the audit log reveal, what is recorded of refused calls, and which messages the
  server takes.
\<close>

section \<open>Results\<close>

lemma dump_returned_low_eq:
  assumes "low_eq s v w"
  shows "dump_returned env s v = dump_returned env s w"
proof (cases "\<exists>c ss. s = SOr c ss")
  case True
  with assms have "v = w" by auto
  then show ?thesis by simp
next
  case False
  then have "dump_returned env s x = dump env s x" for x by (cases s) (simp_all add: dump_returned_def)
  with dump_low_eq [OF assms] show ?thesis by simp
qed


lemma begin_auth: "s_auth (r_srv (rpc_run env (Begin now sid i) st)) = s_auth (r_srv st)"
proof -
  have start: "s_auth (r_srv (start_method env now sid i c st)) = s_auth (r_srv st)" for c
  proof (cases "map_of (api_methods env) (call_method (c_calls c ! i))")
    case (Some m)
    obtain r srv where a: "authorize_method_call (r_senv env) now sid (call_method (c_calls c ! i)) m
        (call_params (c_calls c ! i)) (r_srv st) = (r, srv)" by force
    then have "s_auth srv = s_auth (r_srv st)" by (metis authorize_method_call_auth snd_conv)
    with Some a show ?thesis by (simp add: start_method_def)
  qed (simp add: start_method_def)
  have "s_auth (r_srv (begin_call env now sid i c st)) = s_auth (r_srv st)" for c
    by (simp add: begin_call_def start split: enter_result.splits)
  then show ?thesis by (simp split: option.splits prod.splits phase.splits)
qed

definition create_running_server :: rpc where
  "create_running_server = rpc_run demo_rpc_env (Begin 1 ''s2'' 0) create_received"


section \<open>The audit log\<close>

lemma mapE_enumerate_cong:
  assumes "length xs = length ys" and "\<And>i. i < length xs \<Longrightarrow> f (n + i, xs ! i) = f (n + i, ys ! i)"
  shows "mapE f (enumerate n xs) = mapE f (enumerate n ys)"
proof (rule mapE_list_all2)
  show "list_all2 (\<lambda>x y. f x = f y) (enumerate n xs) (enumerate n ys)"
    using assms by (simp add: list_all2_conv_all_nth nth_enumerate_eq)
qed

definition args_low_eq :: "schema list \<Rightarrow> pyval list \<Rightarrow> pyval list \<Rightarrow> bool" where
  "args_low_eq ss ps qs \<longleftrightarrow> length ps = length qs \<and>
     (\<forall>i < length ps. if i < length ss then low_eq (ss ! i) (ps ! i) (qs ! i) else ps ! i = qs ! i)"

text \<open>The audit log does not reveal private arguments: authorization, with the records it writes of
  refused calls, does not depend on the private parts of the arguments, when the method declares
  them by schemas and adds no text of its own.\<close>

theorem audit_noninterference:
  assumes "accepts m = Some ss" and "new_style_accepts m = None" and "snd (audit_of m) = None"
    and "args_low_eq ss ps qs"
  shows "authorize_method_call env now sid name m ps st = authorize_method_call env now sid name m qs st"
proof -
  have "mapE (\<lambda>(i, arg). if i < length ss then dump e (ss ! i) arg else Inr arg) (enumerate 0 ps) =
      mapE (\<lambda>(i, arg). if i < length ss then dump e (ss ! i) arg else Inr arg) (enumerate 0 qs)" for e
    using assms(4) by (intro mapE_enumerate_cong) (auto simp: args_low_eq_def dump_low_eq)
  then have "dump_args e m ps = dump_args e m qs" for e
    using assms(1,2) by (simp add: dump_args_def dump_attrs_def method_attrs.truncate_def)
  moreover have "audit_descriptions m ps [] = audit_descriptions m qs []"
    using assms(3) by (auto simp: audit_descriptions_def split: prod.splits option.splits)
  ultimately have "refuse env sid name m ps = refuse env sid name m qs"
    by (simp add: fun_eq_iff refuse_def log_audit_message_for_method_def)
  then show ?thesis unfolding authorize_method_call_def by (rule arg_cong)
qed

theorem audit_noninterference_witness:
  "authorize_method_call demo_server_env 1 ''s1'' ''a.create'' create_method [VDict [(''pass'', VStr ''hunter2'')]]
     (r_srv ping_received) =
   authorize_method_call demo_server_env 1 ''s1'' ''a.create'' create_method [VDict [(''pass'', VStr ''x'')]]
     (r_srv ping_received)"
  by (rule audit_noninterference [where ss = "[secret_schema]"])
    (simp_all add: create_method_def ping_method_def audit_of_def args_low_eq_def secret_schema_def low_dict_def
      demo_schema_defs)



section \<open>Messages\<close>

text \<open>The size of an accepted message: a client that is not logged in may send 8 KiB, one that is
  64 KiB, or 2 MiB to the method that receives files.\<close>

theorem message_size_bound:
  assumes "parse_message env auth msg = Inr m"
  shows "length msg \<le> (if \<not> auth then 8192
    else if map_of m ''method'' = Some (VStr ''filesystem.file_receive'') then 2097152 else 65536)"
  using assms by (auto simp: parse_message_def MSG_SIZE_EXTENDED_METHODS_def Let_def
      split: if_splits sum.splits pyval.splits option.splits)

theorem message_size_bound_witness:
  "length ''ping'' \<le> (if \<not> False then 8192
    else if map_of [(''jsonrpc'', VStr ''2.0''), (''id'', VInt 7), (''method'', VStr ''core.ping'')] ''method''
       = Some (VStr ''filesystem.file_receive'') then 2097152 else 65536)"
  by (rule message_size_bound [OF parse_demo(1)])

text \<open>A message whose method is an array or an object ends the connection: hashing it raises an exception
  that nothing catches, so the client gets neither a reply nor a close code, and the session is
  logged out.\<close>

theorem unhashable_method_drops_connection:
  assumes "map_of (r_conns st) sid = Some c" and "c_closed c = None" and "length msg \<le> 8192"
    and "json_loads (r_senv env) msg = Inr (VDict m)" and "map_of m ''method'' = Some v" and "\<not> hashable v"
  shows "rpc_run env (Receive now sid (TextFrame msg)) st = close_conn sid NO_CODE c st"
  using assms by (simp add: ws_receive_def parse_message_def)

theorem unhashable_method_drops_connection_witness:
  "rpc_run demo_rpc_env (Receive 2 ''s2'' (TextFrame ''odd'')) create_received = close_conn ''s2'' NO_CODE create_conn create_received"
  by (rule unhashable_method_drops_connection [where m = "[(''method'', VList [])]" and v = "VList []"])
    (simp_all add: create_received_eq create_conn_def demo_rpc_env_def demo_server_env_def new_conn_def hashable_def)

end
