(* ===== verification/Events.thy ===== *)
theory Events
  imports Server
begin

text \<open>
  Events: who may subscribe (\<open>Middleware.can_subscribe\<close>, \<open>event.py\<close>), the subscriptions of a connection
  (\<open>api/base/server/ws_handler/rpc.py\<close>) and the event sources, objects that run while somebody listens
  (\<open>common/event_source/manager.py\<close>, \<open>EventSource\<close> of \<open>event.py\<close>).

  An event source is known by its name and argument, its instance is an object of the store
  \<open>procs\<close>. What the running instance does is a parameter: it emits events and ends. None of the
  operations below suspends before its last change of the state.
\<close>

section \<open>Registered events\<close>

record event_info =
  ev_no_auth :: bool
  ev_no_authz :: bool
  ev_private :: bool
  ev_roles :: "string list"

text \<open>\<open>Events.register\<close>; the roles are those of the role manager after it registered the event.\<close>

definition event_register ::
  "string \<Rightarrow> bool \<Rightarrow> bool \<Rightarrow> bool \<Rightarrow> string list \<Rightarrow> (event_info dict \<times> role_manager)
     \<Rightarrow> (exn + unit) \<times> (event_info dict \<times> role_manager)" where
  "event_register name priv no_auth no_authz rs = (\<lambda>(evs, rm).
     if map_of evs name \<noteq> None then (Inl (ValueError ''Event already registered.''), (evs, rm))
     else case register_event name rs False rm of
       (Inl e, rm1) \<Rightarrow> (Inl e, (evs, rm1))
     | (Inr u, rm1) \<Rightarrow>
         (Inr (), (AList.update name \<lparr>ev_no_auth = no_auth, ev_no_authz = no_authz, ev_private = priv,
                     ev_roles = roles_for_event rm1 name\<rparr> evs, rm1)))"

definition short_name :: "string \<Rightarrow> string" where
  "short_name name = takeWhile (\<lambda>c. c \<noteq> CHR '':'') name"

definition can_subscribe :: "event_info dict \<Rightarrow> int \<Rightarrow> auth_state \<Rightarrow> app \<Rightarrow> string \<Rightarrow> exn + bool" where
  "can_subscribe evs now st a name =
     (let short = short_name name; event = map_of evs short in
      if (case event of None \<Rightarrow> False | Some e \<Rightarrow> ev_no_auth e) then Inr True
      else if \<not> authenticated a then Inr False
      else if (case event of None \<Rightarrow> False | Some e \<Rightarrow> ev_no_authz e) then Inr True
      else case app_cred a of
             None \<Rightarrow> Inl AttributeError
           | Some c \<Rightarrow> Inr (authorize now st c ''SUBSCRIBE'' short))"

section \<open>Event sources\<close>

type_synonym source_key = "string \<times> string option"

definition short_name_arg :: "string \<Rightarrow> source_key" where
  "short_name_arg name =
     (if CHR '':'' \<in> set name then (short_name name, Some (tl (dropWhile (\<lambda>c. c \<noteq> CHR '':'') name)))
      else (name, None))"

definition get_full_name :: "source_key \<Rightarrow> string" where
  "get_full_name = (\<lambda>(name, arg). case arg of None \<Rightarrow> name | Some a \<Rightarrow> name @ '':'' @ a)"

datatype subscriber = AppSubscriber string string | InternalSubscriber nat

text \<open>What a subscriber is sent: an event, or the end of its subscription with the error.\<close>

datatype notice = Event pyval | Terminated "exn option"

record ident_data =
  i_subscriber :: subscriber
  i_key :: source_key

text \<open>An instance: its name and argument, whether its task is running, and whether it was canceled.\<close>

record source_proc =
  p_key :: source_key
  p_running :: bool
  p_canceled :: bool

record esm =
  event_sources :: "schema dict"
  instances :: "(source_key \<times> nat) list"
  idents :: "ident_data dict"
  subs :: "(source_key \<times> string list) list"
  procs :: "source_proc list"
  notices :: "(subscriber \<times> notice) list"

definition new_esm :: esm where
  "new_esm = \<lparr>event_sources = [], instances = [], idents = [], subs = [], procs = [], notices = []\<rparr>"

text \<open>The subscriptions are a \<open>defaultdict\<close>: a missing entry is the empty set.\<close>

definition subs_of :: "esm \<Rightarrow> source_key \<Rightarrow> string list" where
  "subs_of st key = (case map_of (subs st) key of None \<Rightarrow> [] | Some is \<Rightarrow> is)"

definition terminate_sub :: "ident_data \<Rightarrow> exn option \<Rightarrow> esm \<Rightarrow> esm" where
  "terminate_sub d err st = st\<lparr>notices := notices st @ [(i_subscriber d, Terminated err)]\<rparr>"

definition unsubscribe :: "string \<Rightarrow> exn option \<Rightarrow> esm \<Rightarrow> esm op_result" where
  "unsubscribe ident err st =
     (case map_of (idents st) ident of
        None \<Rightarrow> (Inl KeyError, st)
      | Some d \<Rightarrow>
          let st1 = terminate_sub d err (st\<lparr>idents := AList.delete ident (idents st)\<rparr>);
              is = subs_of st1 (i_key d) in
          if ident \<notin> set is then (Inl KeyError, st1)
          else
            let is1 = remove1 ident is; st2 = st1\<lparr>subs := AList.update (i_key d) is1 (subs st1)\<rparr> in
            if is1 \<noteq> [] then (Inr (), st2)
            else case map_of (instances st2) (i_key d) of
                   None \<Rightarrow> (Inl KeyError, st2)
                 | Some n \<Rightarrow>
                     (Inr (), st2\<lparr>instances := AList.delete (i_key d) (instances st2),
                        procs := (procs st2)[n := (procs st2 ! n)\<lparr>p_canceled := True\<rparr>]\<rparr>))"

text \<open>The argument is JSON or plain text; without one the default of the schema is taken.\<close>

definition validate_arg :: "server_env \<Rightarrow> schema \<Rightarrow> string option \<Rightarrow> exn + pyval" where
  "validate_arg env s arg =
     bindE (case arg of
              None \<Rightarrow> Inr (if has_default (common_of s) then Some (default (common_of s)) else None)
            | Some a \<Rightarrow> (case json_loads env a of Inr v \<Rightarrow> Inr (Some v) | Inl (ValueError m) \<Rightarrow> Inr (Some (VStr a)) | Inl e \<Rightarrow> Inl e))
       (\<lambda>v. bindE (clean_and_validate_arg (senv env) [] s v) (\<lambda>(x, verrors).
          bindE (verrors_check verrors) (\<lambda>_. Inr x)))"

definition subscribe :: "server_env \<Rightarrow> subscriber \<Rightarrow> string \<Rightarrow> source_key \<Rightarrow> esm \<Rightarrow> esm op_result" where
  "subscribe env sub ident key st =
     (if map_of (idents st) ident \<noteq> None then (Inl (ValueError ''Ident is already used''), st)
      else
        let st1 = st\<lparr>idents := AList.update ident \<lparr>i_subscriber = sub, i_key = key\<rparr> (idents st),
                     subs := AList.update key (List.insert ident (subs_of st key)) (subs st)\<rparr> in
        if map_of (instances st1) key \<noteq> None then (Inr (), st1)
        else case map_of (event_sources st1) (fst key) of
               None \<Rightarrow> (Inl KeyError, st1)
             | Some s \<Rightarrow>
                 let n = length (procs st1);
                     st2 = st1\<lparr>instances := AList.update key n (instances st1),
                               procs := procs st1 @ [\<lparr>p_key = key, p_running = False, p_canceled = False\<rparr>]\<rparr> in
                 case validate_arg env s (snd key) of
                   Inl (ValidationErrors es) \<Rightarrow> unsubscribe ident (Some (ValidationErrors es)) st2
                 | Inl e \<Rightarrow> (Inl e, st2)
                 | Inr x \<Rightarrow> (Inr (), st2\<lparr>procs := (procs st2)[n := (procs st2 ! n)\<lparr>p_running := True\<rparr>]\<rparr>))"

definition subscribe_app :: "server_env \<Rightarrow> string \<Rightarrow> string \<Rightarrow> source_key \<Rightarrow> esm \<Rightarrow> esm op_result" where
  "subscribe_app env sid ident key = subscribe env (AppSubscriber sid (get_full_name key)) ident key"

definition is_sub_of :: "string \<Rightarrow> ident_data \<Rightarrow> bool" where
  "is_sub_of sid d = (case i_subscriber d of AppSubscriber s c \<Rightarrow> s = sid | InternalSubscriber n \<Rightarrow> False)"

definition unsubscribe_app :: "string \<Rightarrow> esm \<Rightarrow> esm op_result" where
  "unsubscribe_app sid st =
     run_seq (\<lambda>ident. unsubscribe ident None) (map fst (filter (\<lambda>(i, d). is_sub_of sid d) (idents st))) st"

definition iterate :: "server_env \<Rightarrow> nat \<Rightarrow> string \<Rightarrow> source_key \<Rightarrow> esm \<Rightarrow> esm op_result" where
  "iterate env queue ident key = subscribe env (InternalSubscriber queue) ident key"

text \<open>\<open>_send_event\<close>: an identifier that is gone is skipped.\<close>

definition source_event :: "source_key \<Rightarrow> pyval \<Rightarrow> esm \<Rightarrow> esm" where
  "source_event key e st =
     st\<lparr>notices := notices st @ concat (map (\<lambda>ident.
        case map_of (idents st) ident of None \<Rightarrow> [] | Some d \<Rightarrow> [(i_subscriber d, Event e)]) (subs_of st key))\<rparr>"

fun pop_idents :: "exn option \<Rightarrow> string list \<Rightarrow> esm \<Rightarrow> esm op_result" where
  "pop_idents err [] st = (Inr (), st)"
| "pop_idents err (ident # is) st =
     (case map_of (idents st) ident of
        None \<Rightarrow> (Inl KeyError, st)
      | Some d \<Rightarrow> pop_idents err is (terminate_sub d err (st\<lparr>idents := AList.delete ident (idents st)\<rparr>)))"

definition unsubscribe_all :: "source_key \<Rightarrow> exn option \<Rightarrow> esm \<Rightarrow> esm op_result" where
  "unsubscribe_all key err st =
     thenS (pop_idents err (subs_of st key) st) (\<lambda>st1.
       (Inr (), st1\<lparr>instances := AList.delete key (instances st1), subs := AList.update key [] (subs st1)\<rparr>))"

section \<open>The manager as a state machine\<close>

datatype esm_op =
    RegisterSource string schema
  | SubscribeApp string string source_key
  | Iterate nat string source_key
  | Unsubscribe string
  | UnsubscribeApp string
  | Emit nat pyval
  | Ended nat "exn option"

text \<open>
  Both callers of \<open>subscribe\<close> name a registered source. An instance whose task runs may emit
  an event; when it ends, it unsubscribes everybody from its name and argument.
\<close>

fun esm_run :: "server_env \<Rightarrow> esm_op \<Rightarrow> esm \<Rightarrow> esm op_result" where
  "esm_run env (RegisterSource name s) st = (Inr (), st\<lparr>event_sources := AList.update name s (event_sources st)\<rparr>)"
| "esm_run env (SubscribeApp sid ident key) st =
     (if map_of (event_sources st) (fst key) = None then (Inr (), st) else subscribe_app env sid ident key st)"
| "esm_run env (Iterate queue ident key) st =
     (if map_of (event_sources st) (fst key) = None then (Inr (), st) else iterate env queue ident key st)"
| "esm_run env (Unsubscribe ident) st =
     (if map_of (idents st) ident = None then (Inr (), st) else unsubscribe ident None st)"
| "esm_run env (UnsubscribeApp sid) st = unsubscribe_app sid st"
| "esm_run env (Emit n e) st =
     (Inr (), if n < length (procs st) \<and> p_running (procs st ! n) then source_event (p_key (procs st ! n)) e st else st)"
| "esm_run env (Ended n err) st =
     (if n < length (procs st) \<and> p_running (procs st ! n)
      then unsubscribe_all (p_key (procs st ! n)) err (st\<lparr>procs := (procs st)[n := (procs st ! n)\<lparr>p_running := False\<rparr>]\<rparr>)
      else (Inr (), st))"

section \<open>Subscriptions of a connection\<close>

text \<open>The names a connection subscribed to, under the identifiers given to it.\<close>

type_synonym app_subs = "string dict dict"

definition app_subscribe ::
  "server_env \<Rightarrow> string \<Rightarrow> string \<Rightarrow> string \<Rightarrow> (app_subs \<times> esm) \<Rightarrow> (exn + unit) \<times> (app_subs \<times> esm)" where
  "app_subscribe env sid ident name = (\<lambda>(as, st).
     case short_name_arg name of
       key \<Rightarrow>
         if map_of (event_sources st) (fst key) \<noteq> None
         then (case subscribe_app env sid (sid @ ident) key st of (r, st1) \<Rightarrow> (r, (as, st1)))
         else (Inr (), (AList.update sid
                 (AList.update ident name (case map_of as sid of None \<Rightarrow> [] | Some d \<Rightarrow> d)) as, st)))"

definition app_unsubscribe ::
  "string \<Rightarrow> string \<Rightarrow> (app_subs \<times> esm) \<Rightarrow> (exn + unit) \<times> (app_subs \<times> esm)" where
  "app_unsubscribe sid ident = (\<lambda>(as, st).
     let d = (case map_of as sid of None \<Rightarrow> [] | Some d \<Rightarrow> d) in
     if map_of d ident \<noteq> None then (Inr (), (AList.update sid (AList.delete ident d) as, st))
     else if map_of (idents st) (sid @ ident) \<noteq> None
     then (case unsubscribe (sid @ ident) None st of (r, st1) \<Rightarrow> (r, (as, st1)))
     else (Inr (), (as, st)))"

text \<open>\<open>core.subscribe\<close> with the identifier it makes.\<close>

definition core_subscribe ::
  "server_env \<Rightarrow> event_info dict \<Rightarrow> int \<Rightarrow> auth_state \<Rightarrow> string \<Rightarrow> string \<Rightarrow> string \<Rightarrow> (app_subs \<times> esm)
     \<Rightarrow> (exn + string) \<times> (app_subs \<times> esm)" where
  "core_subscribe env evs now st sid ident name s =
     (case map_of (apps st) sid of
        None \<Rightarrow> (Inl AttributeError, s)
      | Some a \<Rightarrow>
          (case can_subscribe evs now st a name of
             Inl e \<Rightarrow> (Inl e, s)
           | Inr False \<Rightarrow> (Inl (CallError ''Not authorized'' EACCES), s)
           | Inr True \<Rightarrow>
               (case app_subscribe env sid ident name s of
                  (Inl e, s1) \<Rightarrow> (Inl e, s1)
                | (Inr u, s1) \<Rightarrow> (Inr ident, s1))))"

text \<open>The connections that an event of the middleware is sent to.\<close>

definition wants_event :: "esm \<Rightarrow> string dict \<Rightarrow> string \<Rightarrow> bool" where
  "wants_event st d name \<longleftrightarrow>
     (\<exists>(i, n) \<in> set d. n = name \<or> n = ''*'') \<or> map_of (event_sources st) (fst (short_name_arg name)) \<noteq> None"

definition event_receivers :: "esm \<Rightarrow> app_subs \<Rightarrow> string list \<Rightarrow> string \<Rightarrow> string list" where
  "event_receivers st as wsclients name =
     filter (\<lambda>sid. wants_event st (case map_of as sid of None \<Rightarrow> [] | Some d \<Rightarrow> d) name) wsclients"

text \<open>\<open>auth.logout\<close>: event sources are unsubscribed, then the session ends.\<close>

definition auth_logout :: "string \<Rightarrow> auth_state \<Rightarrow> esm \<Rightarrow> (exn + bool) \<times> auth_state \<times> esm" where
  "auth_logout sid st es =
     (case unsubscribe_app sid es of
        (Inl e, es1) \<Rightarrow> (Inl e, st, es1)
      | (Inr u, es1) \<Rightarrow> (Inr True, session_logout sid st, es1))"

end
