(* ===== verification/EventProofs.thy ===== *)
theory EventProofs
  imports Events
begin

text \<open>
  The invariant of the event source manager: the table of identifiers and the table of
  subscriptions agree, and exactly the names and arguments with a subscriber have an instance.
  No operation of the manager fails on a missing key.
\<close>

section \<open>The invariant\<close>

definition esm_inv :: "esm \<Rightarrow> bool" where
  "esm_inv st \<longleftrightarrow>
     distinct (map fst (idents st)) \<and>
     (\<forall>key. distinct (subs_of st key)) \<and>
     (\<forall>ident key. ident \<in> set (subs_of st key) \<longleftrightarrow> (\<exists>d. map_of (idents st) ident = Some d \<and> i_key d = key)) \<and>
     (\<forall>key. map_of (instances st) key \<noteq> None \<longleftrightarrow> subs_of st key \<noteq> []) \<and>
     (\<forall>key n. map_of (instances st) key = Some n \<longrightarrow> n < length (procs st) \<and> p_key (procs st ! n) = key)"

lemma esm_invD:
  assumes "esm_inv st"
  shows "distinct (map fst (idents st))" and "distinct (subs_of st key)"
    and "ident \<in> set (subs_of st key) \<longleftrightarrow> (\<exists>d. map_of (idents st) ident = Some d \<and> i_key d = key)"
    and "map_of (instances st) key \<noteq> None \<longleftrightarrow> subs_of st key \<noteq> []"
    and "map_of (instances st) key = Some n \<Longrightarrow> n < length (procs st) \<and> p_key (procs st ! n) = key"
  using assms unfolding esm_inv_def by blast+

lemma subs_of_update [simp]:
  "subs_of (st\<lparr>subs := AList.update k v (subs st)\<rparr>) q = (if q = k then v else subs_of st q)"
  by (simp add: subs_of_def update_conv')

lemma subs_of_frame [simp]:
  "subs_of (st\<lparr>idents := x\<rparr>) key = subs_of st key" "subs_of (st\<lparr>instances := y\<rparr>) key = subs_of st key"
  "subs_of (st\<lparr>procs := z\<rparr>) key = subs_of st key" "subs_of (st\<lparr>notices := w\<rparr>) key = subs_of st key"
  "subs_of (st\<lparr>event_sources := v\<rparr>) key = subs_of st key"
  "subs_of (terminate_sub d err st) key = subs_of st key"
  by (simp_all add: subs_of_def terminate_sub_def)

lemma terminate_sub_simps [simp]:
  "idents (terminate_sub d err st) = idents st" "instances (terminate_sub d err st) = instances st"
  "subs (terminate_sub d err st) = subs st" "procs (terminate_sub d err st) = procs st"
  "event_sources (terminate_sub d err st) = event_sources st"
  "notices (terminate_sub d err st) = notices st @ [(i_subscriber d, Terminated err)]"
  by (simp_all add: terminate_sub_def)

lemma esm_inv_new [simp]: "esm_inv new_esm"
  by (simp add: esm_inv_def new_esm_def subs_of_def)

lemma map_of_delete_alist: "map_of (AList.delete k al) q = (if q = k then None else map_of al q)"
  by (simp add: delete_conv')

lemma distinct_fst_delete: "distinct (map fst al) \<Longrightarrow> distinct (map fst (AList.delete k al))"
  by (rule distinct_delete)

section \<open>Unsubscribing\<close>

text \<open>The state after an identifier was removed.\<close>

lemma unsubscribe_ok:
  assumes inv: "esm_inv st" and d: "map_of (idents st) ident = Some d"
  obtains st' where "unsubscribe ident err st = (Inr (), st')" and "esm_inv st'"
    and "idents st' = AList.delete ident (idents st)" and "event_sources st' = event_sources st"
    and "notices st' = notices st @ [(i_subscriber d, Terminated err)]"
proof -
  let ?k = "i_key d" and ?is = "subs_of st (i_key d)"
  define st1 where "st1 = terminate_sub d err (st\<lparr>idents := AList.delete ident (idents st)\<rparr>)"
  define st2 where "st2 = st1\<lparr>subs := AList.update ?k (remove1 ident ?is) (subs st1)\<rparr>"
  note i = esm_invD [OF inv]
  have mem: "ident \<in> set ?is" using d i(3) by blast
  have set1: "set (remove1 ident ?is) = set ?is - {ident}" using i(2) by simp
  have subs2: "subs_of st2 q = (if q = ?k then remove1 ident ?is else subs_of st q)" for q
    by (simp only: st2_def subs_of_update) (simp add: st1_def)
  have same: "idents st2 = AList.delete ident (idents st)" "instances st2 = instances st" "procs st2 = procs st"
      "event_sources st2 = event_sources st" "notices st2 = notices st @ [(i_subscriber d, Terminated err)]"
    by (simp_all add: st2_def st1_def)
  have agree: "x \<in> set (subs_of st2 q) \<longleftrightarrow> (\<exists>e. map_of (idents st2) x = Some e \<and> i_key e = q)" for x q
  proof (cases "x = ident")
    case True
    have "ident \<notin> set (subs_of st q)" if "q \<noteq> ?k" using that d i(3) [of ident q] by auto
    then have "ident \<notin> set (subs_of st2 q)" using set1 by (auto simp: subs2)
    with True show ?thesis by (simp add: same map_of_delete_alist)
  next
    case False
    then have "x \<in> set (subs_of st2 q) \<longleftrightarrow> x \<in> set (subs_of st q)" using set1 by (auto simp: subs2)
    with False i(3) [of x q] show ?thesis by (simp add: same map_of_delete_alist)
  qed
  have keep: "distinct (map fst (idents st2))" "distinct (subs_of st2 q)" for q
    using i(1,2) by (simp_all add: same subs2 distinct_fst_delete)
  show thesis
  proof (cases "remove1 ident ?is = []")
    case False
    have "(map_of (instances st2) q \<noteq> None) = (subs_of st2 q \<noteq> [])" for q
      using False mem i(4) [of q] by (auto simp: subs2 same)
    with agree keep i(5) have "esm_inv st2" unfolding esm_inv_def same by blast
    moreover have "unsubscribe ident err st = (Inr (), st2)"
      using d mem False by (simp add: unsubscribe_def Let_def st1_def st2_def)
    ultimately show thesis using same by (intro that)
  next
    case True
    from mem i(4) [of ?k] obtain n where n: "map_of (instances st) ?k = Some n" by auto
    define st3 where "st3 = st2\<lparr>instances := AList.delete ?k (instances st2),
      procs := (procs st2)[n := (procs st2 ! n)\<lparr>p_canceled := True\<rparr>]\<rparr>"
    have same3: "subs_of st3 q = subs_of st2 q" "idents st3 = idents st2" "event_sources st3 = event_sources st2"
        "notices st3 = notices st2" "map_of (instances st3) q = (if q = ?k then None else map_of (instances st) q)" for q
      by (simp_all add: st3_def same map_of_delete_alist)
    have "(map_of (instances st3) q \<noteq> None) = (subs_of st3 q \<noteq> [])" for q
      using True i(4) [of q] by (simp add: subs2 same3)
    moreover have "m < length (procs st3) \<and> p_key (procs st3 ! m) = q" if "map_of (instances st3) q = Some m" for q m
      using that i(5) [of q m] unfolding same3 by (cases "m = n") (auto simp: st3_def same split: if_splits)
    ultimately have "esm_inv st3" using agree keep unfolding esm_inv_def same3 by blast
    moreover have "unsubscribe ident err st = (Inr (), st3)"
      using d mem True n by (simp add: unsubscribe_def Let_def st1_def st2_def st3_def)
    ultimately show thesis using same by (intro that [of st3]) (simp_all add: same3)
  qed
qed

lemma unsubscribe_app_ok:
  assumes "esm_inv st"
  obtains st' where "unsubscribe_app sid st = (Inr (), st')" and "esm_inv st'"
    and "\<forall>(i, d) \<in> set (idents st'). \<not> is_sub_of sid d"
proof -
  have loop: "\<exists>st'. run_seq (\<lambda>ident. unsubscribe ident None) is st = (Inr (), st') \<and> esm_inv st' \<and>
      idents st' = filter (\<lambda>(i, d). i \<notin> set is) (idents st)"
    if "esm_inv st" "distinct is" "set is \<subseteq> fst ` set (idents st)" for "is" st
    using that
  proof (induction "is" arbitrary: st)
    case (Cons x xs)
    then obtain d where "map_of (idents st) x = Some d" by (force simp: map_of_eq_None_iff dest: weak_map_of_SomeI)
    then obtain st1 where st1: "unsubscribe x None st = (Inr (), st1)" "esm_inv st1"
        "idents st1 = AList.delete x (idents st)"
      using unsubscribe_ok [OF Cons.prems(1)] by metis
    have "fst ` set (idents st1) = fst ` set (idents st) - {x}"
      using st1(3) delete_keys [of x "idents st"] by (metis set_map set_removeAll)
    with Cons.prems have "set xs \<subseteq> fst ` set (idents st1)" by auto
    with Cons.IH [OF st1(2)] Cons.prems(2) obtain st2 where
      "run_seq (\<lambda>ident. unsubscribe ident None) xs st1 = (Inr (), st2)" "esm_inv st2"
      "idents st2 = filter (\<lambda>(i, d). i \<notin> set xs) (idents st1)" by auto
    moreover have "filter (\<lambda>(i, d). i \<notin> set xs) (AList.delete x (idents st)) =
        filter (\<lambda>(i, d). i \<notin> set (x # xs)) (idents st)"
      by (auto simp: AList.delete_eq intro: filter_cong)
    ultimately show ?case using st1 by (auto simp: thenS_def)
  qed (auto simp: filter_id_conv)
  let ?is = "map fst (filter (\<lambda>(i, d). is_sub_of sid d) (idents st))"
  have dist: "distinct (map fst (idents st))" using esm_invD(1) [OF assms] .
  then have "distinct ?is" by (rule distinct_map_filter)
  with loop [OF assms, of ?is] obtain st' where st': "unsubscribe_app sid st = (Inr (), st')" "esm_inv st'"
      "idents st' = filter (\<lambda>(i, d). i \<notin> set ?is) (idents st)"
    by (auto simp: unsubscribe_app_def)
  have "\<not> is_sub_of sid d" if "(i, d) \<in> set (idents st')" for i d
    using that st'(3) by force
  with st' that show thesis by blast
qed

section \<open>Subscribing and ending\<close>

lemma insert_not_Nil [simp]: "List.insert x xs \<noteq> []"
  by (auto simp: List.insert_def)

lemma subscribe_inv:
  assumes inv: "esm_inv st" and reg: "map_of (event_sources st) (fst key) = Some s"
  shows "esm_inv (snd (subscribe env sub ident key st))"
proof (cases "map_of (idents st) ident")
  case (Some d)
  with inv show ?thesis by (simp add: subscribe_def)
next
  case None
  note i = esm_invD [OF inv]
  let ?d = "\<lparr>i_subscriber = sub, i_key = key\<rparr>"
  define st1 where "st1 = st\<lparr>idents := AList.update ident ?d (idents st),
    subs := AList.update key (List.insert ident (subs_of st key)) (subs st)\<rparr>"
  have same: "instances st1 = instances st" "procs st1 = procs st" "event_sources st1 = event_sources st"
      "map_of (idents st1) x = (if x = ident then Some ?d else map_of (idents st) x)"
      "subs_of st1 q = (if q = key then List.insert ident (subs_of st key) else subs_of st q)" for x q
    by (simp_all add: st1_def update_conv' subs_of_def)
  have agree: "x \<in> set (subs_of st1 q) \<longleftrightarrow> (\<exists>e. map_of (idents st1) x = Some e \<and> i_key e = q)" for x q
    using None i(3) [of x q] by (auto simp: same)
  have keep: "distinct (map fst (idents st1))" "distinct (subs_of st1 q)" for q
    using i(1,2) by (simp_all add: same) (simp add: st1_def distinct_update)
  have sub: "subscribe env sub ident key st =
      (if map_of (instances st1) key \<noteq> None then (Inr (), st1)
       else let n = length (procs st1);
                st2 = st1\<lparr>instances := AList.update key n (instances st1),
                          procs := procs st1 @ [\<lparr>p_key = key, p_running = False, p_canceled = False\<rparr>]\<rparr> in
            case validate_arg env s (snd key) of
              Inl (ValidationErrors es) \<Rightarrow> unsubscribe ident (Some (ValidationErrors es)) st2
            | Inl e \<Rightarrow> (Inl e, st2)
            | Inr x \<Rightarrow> (Inr (), st2\<lparr>procs := (procs st2)[n := (procs st2 ! n)\<lparr>p_running := True\<rparr>]\<rparr>))"
    using None reg by (simp add: subscribe_def Let_def st1_def)
  show ?thesis
  proof (cases "map_of (instances st1) key")
    case (Some n)
    have "(map_of (instances st1) q \<noteq> None) = (subs_of st1 q \<noteq> [])" for q
      using Some i(4) [of q] by (auto simp: same)
    with agree keep i(5) have "esm_inv st1" unfolding esm_inv_def same(1,2) by blast
    with sub Some show ?thesis by simp
  next
    case None2: None
    define st2 where "st2 = st1\<lparr>instances := AList.update key (length (procs st1)) (instances st1),
      procs := procs st1 @ [\<lparr>p_key = key, p_running = False, p_canceled = False\<rparr>]\<rparr>"
    have same2: "idents st2 = idents st1" "subs_of st2 q = subs_of st1 q"
        "map_of (instances st2) q = (if q = key then Some (length (procs st)) else map_of (instances st) q)"
        "procs st2 = procs st @ [\<lparr>p_key = key, p_running = False, p_canceled = False\<rparr>]" for q
      by (simp_all add: st2_def update_conv' same)
    have "(map_of (instances st2) q \<noteq> None) = (subs_of st2 q \<noteq> [])" for q
      using i(4) [of q] by (auto simp: same same2)
    moreover have "m < length (procs st2) \<and> p_key (procs st2 ! m) = q" if "map_of (instances st2) q = Some m" for q m
      using that i(5) [of q m] by (auto simp: same2 nth_append split: if_splits)
    ultimately have inv2: "esm_inv st2" using agree keep unfolding esm_inv_def same2(1,2) by blast
    have run: "esm_inv (st2\<lparr>procs := (procs st2)[n := (procs st2 ! n)\<lparr>p_running := True\<rparr>]\<rparr>)" for n
    proof -
      have "p_key ((procs st2)[n := (procs st2 ! n)\<lparr>p_running := True\<rparr>] ! m) = p_key (procs st2 ! m)"
        if "m < length (procs st2)" for m using that by (cases "m = n") auto
      with inv2 show ?thesis by (simp add: esm_inv_def)
    qed
    have uns: "esm_inv (snd (unsubscribe ident err st2))" for err
    proof -
      have "map_of (idents st2) ident = Some ?d" by (simp add: same2 same)
      from unsubscribe_ok [OF inv2 this] show ?thesis by (metis snd_conv)
    qed
    show ?thesis
      using None2 inv2 run uns unfolding sub st2_def [symmetric] Let_def
      by (simp split: sum.splits exn.splits)
  qed
qed

lemma pop_idents_ok:
  assumes "distinct is" and "\<forall>x \<in> set is. map_of (idents st) x \<noteq> None"
  shows "\<exists>st'. pop_idents err is st = (Inr (), st') \<and> subs st' = subs st \<and> instances st' = instances st \<and>
    procs st' = procs st \<and> event_sources st' = event_sources st \<and>
    (\<forall>x. map_of (idents st') x = (if x \<in> set is then None else map_of (idents st) x)) \<and>
    (distinct (map fst (idents st)) \<longrightarrow> distinct (map fst (idents st'))) \<and>
    notices st' = notices st @ map (\<lambda>x. (i_subscriber (the (map_of (idents st) x)), Terminated err)) is"
  using assms
proof (induction "is" arbitrary: st)
  case (Cons x xs)
  then obtain d where d: "map_of (idents st) x = Some d" by auto
  define st1 where "st1 = terminate_sub d err (st\<lparr>idents := AList.delete x (idents st)\<rparr>)"
  have st1: "subs st1 = subs st" "instances st1 = instances st" "procs st1 = procs st"
      "event_sources st1 = event_sources st" "map_of (idents st1) y = (if y = x then None else map_of (idents st) y)"
      "notices st1 = notices st @ [(i_subscriber d, Terminated err)]" for y
    by (simp_all add: st1_def map_of_delete_alist)
  have ids: "idents st1 = AList.delete x (idents st)" by (simp add: st1_def)
  have "\<forall>y \<in> set xs. map_of (idents st1) y \<noteq> None" using Cons.prems by (auto simp: st1)
  with Cons.IH [of st1] Cons.prems(1) obtain st2 where st2: "pop_idents err xs st1 = (Inr (), st2)"
      "subs st2 = subs st1 \<and> instances st2 = instances st1 \<and> procs st2 = procs st1 \<and> event_sources st2 = event_sources st1"
      "\<forall>y. map_of (idents st2) y = (if y \<in> set xs then None else map_of (idents st1) y)"
      "distinct (map fst (idents st1)) \<longrightarrow> distinct (map fst (idents st2))"
      "notices st2 = notices st1 @ map (\<lambda>y. (i_subscriber (the (map_of (idents st1) y)), Terminated err)) xs" by auto
  have "map (\<lambda>y. (i_subscriber (the (map_of (idents st1) y)), Terminated err)) xs =
      map (\<lambda>y. (i_subscriber (the (map_of (idents st) y)), Terminated err)) xs"
    using Cons.prems(1) by (auto simp: st1)
  moreover have "pop_idents err (x # xs) st = (Inr (), st2)" using d st2(1) by (simp add: st1_def)
  moreover have "distinct (map fst (idents st)) \<longrightarrow> distinct (map fst (idents st2))"
    using st2(4) by (simp add: ids distinct_fst_delete)
  ultimately show ?case using st2(2,3,5) d by (auto simp: st1)
qed simp

lemma unsubscribe_all_ok:
  assumes inv: "esm_inv st"
  obtains st' where "unsubscribe_all key err st = (Inr (), st')" and "esm_inv st'"
    and "subs_of st' key = []" and "map_of (instances st') key = None" and "procs st' = procs st"
    and "notices st' = notices st @ map (\<lambda>x. (i_subscriber (the (map_of (idents st) x)), Terminated err)) (subs_of st key)"
proof -
  note i = esm_invD [OF inv]
  have "\<forall>x \<in> set (subs_of st key). map_of (idents st) x \<noteq> None" using i(3) by blast
  from pop_idents_ok [OF i(2) this] obtain st1 where st1: "pop_idents err (subs_of st key) st = (Inr (), st1)"
      "subs st1 = subs st" "instances st1 = instances st" "procs st1 = procs st"
      "\<And>x. map_of (idents st1) x = (if x \<in> set (subs_of st key) then None else map_of (idents st) x)"
      "distinct (map fst (idents st1))"
      "notices st1 = notices st @ map (\<lambda>x. (i_subscriber (the (map_of (idents st) x)), Terminated err)) (subs_of st key)"
    using i(1) by auto
  define st2 where "st2 = st1\<lparr>instances := AList.delete key (instances st1), subs := AList.update key [] (subs st1)\<rparr>"
  have same: "subs_of st2 q = (if q = key then [] else subs_of st q)" "idents st2 = idents st1" "procs st2 = procs st"
      "map_of (instances st2) q = (if q = key then None else map_of (instances st) q)" "notices st2 = notices st1" for q
    by (simp_all add: st2_def subs_of_def update_conv' map_of_delete_alist st1)
  have "esm_inv st2"
    unfolding esm_inv_def
  proof (intro conjI allI impI)
    show "x \<in> set (subs_of st2 q) \<longleftrightarrow> (\<exists>e. map_of (idents st2) x = Some e \<and> i_key e = q)" for x q
      using i(3) [of x q] i(3) [of x key] by (auto simp: same st1(5))
  qed (use i st1(6) in \<open>auto simp: same split: if_splits\<close>)
  moreover have "unsubscribe_all key err st = (Inr (), st2)"
    by (simp add: unsubscribe_all_def st1(1) st2_def)
  ultimately show thesis using that same st1(7) by simp
qed

section \<open>The manager as a state machine\<close>

lemma esm_inv_ended: "esm_inv st \<Longrightarrow> esm_inv (st\<lparr>procs := (procs st)[n := (procs st ! n)\<lparr>p_running := b\<rparr>]\<rparr>)"
proof -
  assume inv: "esm_inv st"
  have "p_key ((procs st)[n := (procs st ! n)\<lparr>p_running := b\<rparr>] ! m) = p_key (procs st ! m)"
    if "m < length (procs st)" for m using that by (cases "m = n") auto
  with inv show ?thesis by (simp add: esm_inv_def)
qed

lemma esm_inv_run: "esm_inv st \<Longrightarrow> esm_inv (snd (esm_run env op st))"
proof (cases op)
  case (RegisterSource name s)
  assume "esm_inv st"
  with RegisterSource show ?thesis by (simp add: esm_inv_def)
next
  case (SubscribeApp sid ident key)
  assume "esm_inv st"
  with SubscribeApp show ?thesis by (auto simp: subscribe_app_def subscribe_inv)
next
  case (Iterate q ident key)
  assume "esm_inv st"
  with Iterate show ?thesis by (auto simp: iterate_def subscribe_inv)
next
  case (Unsubscribe ident)
  assume inv: "esm_inv st"
  with Unsubscribe show ?thesis using unsubscribe_ok [OF inv] by (auto, metis snd_conv)
next
  case (UnsubscribeApp sid)
  assume inv: "esm_inv st"
  with UnsubscribeApp show ?thesis using unsubscribe_app_ok [OF inv] by (metis esm_run.simps(5) snd_conv)
next
  case (Emit n e)
  assume "esm_inv st"
  with Emit show ?thesis by (simp add: source_event_def esm_inv_def)
next
  case (Ended n err)
  assume inv: "esm_inv st"
  with Ended show ?thesis using unsubscribe_all_ok [OF esm_inv_ended [OF inv]] by (auto, metis snd_conv)
qed

interpretation event_sources: inductive_invariant "\<lambda>st. st = new_esm" "command_step (esm_run env)" esm_inv for env
  by unfold_locales (auto simp: command_step_def esm_inv_run)

abbreviation esm_reachable :: "server_env \<Rightarrow> esm \<Rightarrow> bool" where
  "esm_reachable env \<equiv> reach (\<lambda>st. st = new_esm) (command_step (esm_run env))"

end
