(* ===== verification/EventProperties.thy ===== *)
theory EventProperties
  imports EventProofs RpcDemo
begin

text \<open>
  What the manager of event sources and the subscriptions guarantee, and two places where they do
  not: an instance that ends late, and the subscriptions of a session that logs out.
\<close>

section \<open>Examples\<close>

definition demo_key :: source_key where
  "demo_key = (''reporting.realtime'', Some ''abc'')"

definition event_schema :: schema where
  "event_schema = SAny (demo_common ''arg'')"

lemma demo_valid: "validate_arg demo_server_env event_schema (snd demo_key) = Inr (VStr ''abc'')"
  by (simp add: validate_arg_def event_schema_def demo_key_def demo_server_env_def clean_and_validate_arg_def
      demo_schema_defs attr_clean_def attr_validate_def verrors_check_def)

definition demo_ops :: "esm_op list" where
  "demo_ops = [RegisterSource ''reporting.realtime'' event_schema, SubscribeApp ''s1'' ''s1a'' demo_key,
     Unsubscribe ''s1a'', SubscribeApp ''s2'' ''s2b'' demo_key]"

text \<open>The first instance was canceled and has not ended yet; the second one serves session \<open>s2\<close>.\<close>

definition demo_esm :: esm where
  "demo_esm = snd (run_seq (esm_run demo_server_env) demo_ops new_esm)"

lemma demo_esm_reachable: "esm_reachable demo_server_env demo_esm"
  unfolding demo_esm_def by (rule run_seq_reach) simp

lemma demo_esm_eq:
  "demo_esm = \<lparr>event_sources = [(''reporting.realtime'', event_schema)], instances = [(demo_key, 1)],
     idents = [(''s2b'', \<lparr>i_subscriber = AppSubscriber ''s2'' ''reporting.realtime:abc'', i_key = demo_key\<rparr>)],
     subs = [(demo_key, [''s2b''])],
     procs = [\<lparr>p_key = demo_key, p_running = True, p_canceled = True\<rparr>, \<lparr>p_key = demo_key, p_running = True, p_canceled = False\<rparr>],
     notices = [(AppSubscriber ''s1'' ''reporting.realtime:abc'', Terminated None)]\<rparr>"
  using demo_valid
  by (simp add: demo_esm_def demo_ops_def new_esm_def demo_key_def subscribe_app_def subscribe_def subs_of_def
      unsubscribe_def terminate_sub_def get_full_name_def Let_def)

section \<open>Event sources\<close>

text \<open>The manager is consistent: in every reachable state, unsubscribing an identifier, a session
  or, when an instance ends, everybody from its events, never misses an entry of its tables.\<close>

theorem unsubscribing_never_fails:
  assumes "esm_reachable env st"
  shows "fst (esm_run env (Unsubscribe ident) st) = Inr () \<and> fst (esm_run env (UnsubscribeApp sid) st) = Inr () \<and>
    fst (esm_run env (Ended n err) st) = Inr ()"
proof -
  have inv: "esm_inv st" using event_sources.reach_inv [OF assms] .
  have "fst (esm_run env (Unsubscribe ident) st) = Inr ()"
  proof (cases "map_of (idents st) ident")
    case (Some d)
    with unsubscribe_ok [OF inv Some, of None] show ?thesis by (metis esm_run.simps(4) fst_conv option.distinct(1))
  qed simp
  moreover have "fst (esm_run env (UnsubscribeApp sid) st) = Inr ()"
    using unsubscribe_app_ok [OF inv] by (metis esm_run.simps(5) fst_conv)
  moreover have "fst (esm_run env (Ended n err) st) = Inr ()"
    using unsubscribe_all_ok [OF esm_inv_ended [OF inv]] by (auto, metis fst_conv)
  ultimately show ?thesis by blast
qed

theorem unsubscribing_never_fails_witness:
  "fst (esm_run demo_server_env (Unsubscribe ''s2b'') demo_esm) = Inr () \<and>
   fst (esm_run demo_server_env (UnsubscribeApp ''s2'') demo_esm) = Inr () \<and>
   fst (esm_run demo_server_env (Ended 1 None) demo_esm) = Inr ()"
  by (rule unsubscribing_never_fails [OF demo_esm_reachable])

lemma mset_concat_map: "mset xs = mset ys \<Longrightarrow> mset (concat (map f xs)) = mset (concat (map f ys))"
proof -
  assume "mset xs = mset ys"
  then have "mset (map (\<lambda>x. mset (f x)) xs) = mset (map (\<lambda>x. mset (f x)) ys)" by simp
  then have "sum_list (map (\<lambda>x. mset (f x)) xs) = sum_list (map (\<lambda>x. mset (f x)) ys)" by (metis sum_mset_sum_list)
  then show ?thesis by (simp add: mset_concat comp_def)
qed

text \<open>C37. An event of a running instance goes to every subscription to its name and argument, once, and
  to nobody else.\<close>

theorem event_reaches_subscribers:
  assumes "esm_reachable env st" and "n < length (procs st)" and "p_running (procs st ! n)"
  shows "\<exists>sent. notices (snd (esm_run env (Emit n e) st)) = notices st @ sent \<and>
    mset sent = mset (map (\<lambda>(i, d). (i_subscriber d, Event e)) (filter (\<lambda>(i, d). i_key d = p_key (procs st ! n)) (idents st)))"
proof -
  let ?k = "p_key (procs st ! n)"
  let ?own = "filter (\<lambda>(i, d). i_key d = ?k) (idents st)"
  note i = esm_invD [OF event_sources.reach_inv [OF assms(1)]]
  have get: "map_of (idents st) x = Some d" if "(x, d) \<in> set (idents st)" for x d using that i(1) by simp
  have "set (subs_of st ?k) = fst ` set ?own"
  proof (intro set_eqI iffI)
    fix x assume "x \<in> set (subs_of st ?k)"
    then obtain d where "map_of (idents st) x = Some d" "i_key d = ?k" using i(3) by blast
    then have "(x, d) \<in> set ?own" by (auto dest: map_of_SomeD)
    then show "x \<in> fst ` set ?own" by force
  next
    fix x assume "x \<in> fst ` set ?own"
    then obtain d where "(x, d) \<in> set (idents st)" "i_key d = ?k" by auto
    with get i(3) show "x \<in> set (subs_of st ?k)" by blast
  qed
  moreover have "distinct (map fst ?own)" using i(1) by (rule distinct_map_filter)
  ultimately have same: "mset (subs_of st ?k) = mset (map fst ?own)"
    using i(2) by (simp add: set_eq_iff_mset_eq_distinct [symmetric] del: mset_map)
  define f where
    "f = (\<lambda>ident. case map_of (idents st) ident of None \<Rightarrow> [] | Some d \<Rightarrow> [(i_subscriber d, Event e)])"
  from same have "mset (concat (map f (subs_of st ?k))) = mset (concat (map f (map fst ?own)))"
    by (rule mset_concat_map)
  also have "concat (map f (map fst ?own)) = map (\<lambda>(i, d). (i_subscriber d, Event e)) ?own"
  proof -
    have "\<forall>(x, d) \<in> set ?own. f x = [(i_subscriber d, Event e)]" using get by (auto simp: f_def)
    then have eq: "map f (map fst ?own) = map (\<lambda>(i, d). [(i_subscriber d, Event e)]) ?own" by auto
    have "concat (map (\<lambda>(i, d). [(i_subscriber d, Event e)]) xs) = map (\<lambda>(i, d). (i_subscriber d, Event e)) xs"
      for xs :: "(string \<times> ident_data) list" by (induction xs) auto
    then show ?thesis unfolding eq .
  qed
  finally show ?thesis using assms(2,3) by (simp add: source_event_def f_def)
qed

theorem event_reaches_subscribers_witness:
  "\<exists>sent. notices (snd (esm_run demo_server_env (Emit 1 (VInt 5)) demo_esm)) = notices demo_esm @ sent \<and>
    mset sent = mset (map (\<lambda>(i, d). (i_subscriber d, Event (VInt 5)))
      (filter (\<lambda>(i, d). i_key d = p_key (procs demo_esm ! 1)) (idents demo_esm)))"
  by (rule event_reaches_subscribers [OF demo_esm_reachable]) (simp_all add: demo_esm_eq)

text \<open>After a connection was closed, or a session logged out, no event of an event source goes to it,
  until it subscribes again.\<close>

theorem no_source_events_after_unsubscribe:
  assumes "esm_reachable env st" and "st' = snd (esm_run env (UnsubscribeApp sid) st)"
    and "(sub, x) \<in> set (drop (length (notices st')) (notices (snd (esm_run env (Emit n e) st'))))"
  shows "sub \<noteq> AppSubscriber sid name"
proof
  assume sub: "sub = AppSubscriber sid name"
  have inv: "esm_inv st" using event_sources.reach_inv [OF assms(1)] .
  obtain st1 where "unsubscribe_app sid st = (Inr (), st1)" and gone: "\<forall>(i, d) \<in> set (idents st1). \<not> is_sub_of sid d"
    using unsubscribe_app_ok [OF inv] by metis
  with assms(2) have "st' = st1" by simp
  with assms(3) have "\<exists>i d. map_of (idents st1) i = Some d \<and> i_subscriber d = sub"
    by (auto simp: source_event_def split: if_splits option.splits) metis
  then obtain i d where "map_of (idents st1) i = Some d" "i_subscriber d = sub" by blast
  then have "(i, d) \<in> set (idents st1)" "is_sub_of sid d" by (auto simp: is_sub_of_def sub dest: map_of_SomeD)
  with gone show False by blast
qed

theorem no_source_events_after_unsubscribe_witness:
  "AppSubscriber ''s2'' ''reporting.realtime:abc'' \<noteq> AppSubscriber ''s1'' ''reporting.realtime:abc''"
proof (rule no_source_events_after_unsubscribe [OF demo_esm_reachable refl])
  show "(AppSubscriber ''s2'' ''reporting.realtime:abc'', Event (VInt 5)) \<in>
      set (drop (length (notices (snd (esm_run demo_server_env (UnsubscribeApp ''s1'') demo_esm))))
        (notices (snd (esm_run demo_server_env (Emit 1 (VInt 5)) (snd (esm_run demo_server_env (UnsubscribeApp ''s1'') demo_esm))))))"
    by (simp add: demo_esm_eq unsubscribe_app_def is_sub_of_def source_event_def subs_of_def)
qed

text \<open>C38. An instance that ends after it was canceled takes its successor down: when a name and
  argument got a new instance in the meantime, the subscribers of the new instance are told that
  their subscription ended, and the new instance is forgotten while it still runs and was never
  canceled.\<close>

theorem late_end_hits_successor:
  assumes "esm_reachable env st" and "n < length (procs st)" and "p_running (procs st ! n)"
    and "map_of (instances st) (p_key (procs st ! n)) = Some m" and "m \<noteq> n"
    and "p_running (procs st ! m)" and "\<not> p_canceled (procs st ! m)"
    and "map_of (idents st) ident = Some d" and "i_key d = p_key (procs st ! n)"
    and "st' = snd (esm_run env (Ended n err) st)"
  shows "(i_subscriber d, Terminated err) \<in> set (drop (length (notices st)) (notices st')) \<and>
    map_of (instances st') (p_key (procs st ! n)) = None \<and> p_running (procs st' ! m) \<and> \<not> p_canceled (procs st' ! m)"
proof -
  let ?k = "p_key (procs st ! n)"
  let ?st0 = "st\<lparr>procs := (procs st)[n := (procs st ! n)\<lparr>p_running := False\<rparr>]\<rparr>"
  have inv: "esm_inv st" using event_sources.reach_inv [OF assms(1)] .
  obtain st1 where st1: "unsubscribe_all ?k err ?st0 = (Inr (), st1)" "map_of (instances st1) ?k = None"
      "procs st1 = procs ?st0"
      "notices st1 = notices ?st0 @ map (\<lambda>x. (i_subscriber (the (map_of (idents ?st0) x)), Terminated err)) (subs_of ?st0 ?k)"
    by (rule unsubscribe_all_ok [OF esm_inv_ended [OF inv]])
  have eq: "st' = st1" using assms(2,3,10) st1(1) by simp
  have "ident \<in> set (subs_of st ?k)" using esm_invD(3) [OF inv] assms(8,9) by blast
  moreover have "drop (length (notices st)) (notices st1) =
      map (\<lambda>x. (i_subscriber (the (map_of (idents st) x)), Terminated err)) (subs_of st ?k)"
    unfolding st1(4) by simp
  ultimately have "(i_subscriber (the (map_of (idents st) ident)), Terminated err) \<in> set (drop (length (notices st)) (notices st1))"
    by simp
  then have "(i_subscriber d, Terminated err) \<in> set (drop (length (notices st)) (notices st1))" using assms(8) by simp
  then show ?thesis using st1(2,3) eq assms(5-7) by simp
qed

theorem late_end_hits_successor_witness:
  "(AppSubscriber ''s2'' ''reporting.realtime:abc'', Terminated None)
     \<in> set (drop (length (notices demo_esm)) (notices (snd (esm_run demo_server_env (Ended 0 None) demo_esm)))) \<and>
   map_of (instances (snd (esm_run demo_server_env (Ended 0 None) demo_esm))) (p_key (procs demo_esm ! 0)) = None \<and>
   p_running (procs (snd (esm_run demo_server_env (Ended 0 None) demo_esm)) ! 1) \<and>
   \<not> p_canceled (procs (snd (esm_run demo_server_env (Ended 0 None) demo_esm)) ! 1)"
  using late_end_hits_successor [OF demo_esm_reachable, where n = 0 and m = 1 and ident = "''s2b''" and err = None
      and st' = "snd (esm_run demo_server_env (Ended 0 None) demo_esm)"
      and d = "\<lparr>i_subscriber = AppSubscriber ''s2'' ''reporting.realtime:abc'', i_key = demo_key\<rparr>"]
  by (simp add: demo_esm_eq del: esm_run.simps)

section \<open>Names\<close>

text \<open>The name of a subscription splits into the name of the source and its argument and is joined
  again without loss.\<close>

theorem source_name_roundtrip:
  "get_full_name (short_name_arg name) = name \<and>
   (CHR '':'' \<notin> set n \<longrightarrow> short_name_arg (get_full_name (n, arg)) = (n, arg))"
proof
  let ?p = "\<lambda>c. c \<noteq> CHR '':''"
  show "get_full_name (short_name_arg name) = name"
  proof (cases "CHR '':'' \<in> set name")
    case True
    then have "dropWhile ?p name \<noteq> []" by (auto simp: dropWhile_eq_Nil_conv)
    moreover from this have "hd (dropWhile ?p name) = CHR '':''" using hd_dropWhile [of ?p name] by simp
    ultimately have "dropWhile ?p name = CHR '':'' # tl (dropWhile ?p name)" by (metis list.collapse)
    then have "takeWhile ?p name @ CHR '':'' # tl (dropWhile ?p name) = name" by (metis takeWhile_dropWhile_id)
    with True show ?thesis by (simp add: short_name_arg_def get_full_name_def short_name_def)
  qed (simp add: short_name_arg_def get_full_name_def)
  show "CHR '':'' \<notin> set n \<longrightarrow> short_name_arg (get_full_name (n, arg)) = (n, arg)"
  proof
    assume n: "CHR '':'' \<notin> set n"
    then have all: "\<forall>c \<in> set n. ?p c" by metis
    show "short_name_arg (get_full_name (n, arg)) = (n, arg)"
    proof (cases arg)
      case (Some a)
      have "takeWhile ?p (n @ CHR '':'' # a) = n" "dropWhile ?p (n @ CHR '':'' # a) = CHR '':'' # a"
        using all by (simp_all add: takeWhile_append2 dropWhile_append2)
      with Some show ?thesis by (simp add: short_name_arg_def get_full_name_def short_name_def)
    qed (use n in \<open>simp add: short_name_arg_def get_full_name_def\<close>)
  qed
qed

theorem source_name_roundtrip_witness:
  "get_full_name (short_name_arg ''a:b:c'') = ''a:b:c'' \<and> short_name_arg (get_full_name (''a'', Some ''b:c'')) = (''a'', Some ''b:c'')"
  using source_name_roundtrip [of "''a:b:c''" "''a''" "Some ''b:c''"] by simp

section \<open>Subscriptions of a connection\<close>

text \<open>\<open>core.subscribe\<close> changes the subscriptions only when the session may subscribe at that moment.\<close>

theorem subscription_permitted:
  assumes "core_subscribe env evs now st sid ident name s = (r, s')" and "s' \<noteq> s"
  shows "\<exists>a. map_of (apps st) sid = Some a \<and> can_subscribe evs now st a name = Inr True"
  using assms by (auto simp: core_subscribe_def split: option.splits sum.splits bool.splits)

text \<open>Logging out ends the subscriptions to event sources but not those to events of the middleware:
  a connection that subscribed to an event receives it after the session logged out.\<close>

theorem logout_keeps_subscriptions:
  assumes "auth_logout sid st es = (r, st', es')" and "sid \<in> set wsclients" and "map_of as sid = Some d"
    and "(i, name) \<in> set d"
  shows "sid \<in> set (event_receivers es' as wsclients name)"
  using assms by (auto simp: event_receivers_def wants_event_def)

theorem logout_keeps_subscriptions_witness:
  "''s2'' \<in> set (event_receivers (snd (snd (auth_logout ''s2'' auth_start demo_esm)))
     [(''s2'', [(''1'', ''alert.list'')])] [''s2''] ''alert.list'')"
proof -
  obtain r st' es' where out: "auth_logout ''s2'' auth_start demo_esm = (r, st', es')" by (metis prod_cases3)
  have "''s2'' \<in> set (event_receivers es' [(''s2'', [(''1'', ''alert.list'')])] [''s2''] ''alert.list'')"
    by (rule logout_keeps_subscriptions [OF out, where d = "[(''1'', ''alert.list'')]" and i = "''1''"]) simp_all
  with out show ?thesis by simp
qed

end
