(* ===== verification/Models.thy ===== *)
theory Models
  imports Server
begin

text \<open>
  The models of new-style methods: what a model class says (\<open>api/base/model.py\<close>), how its
  annotations are inspected (\<open>api/base/handler/inspect.py\<close>), how the arguments of a call are
  accepted (\<open>accept.py\<close>), how they are dumped without secrets (\<open>dump_params.py\<close>), how a
  result is serialized (\<open>result.py\<close>) and what the decorator \<open>api_method\<close> makes of a method
  (\<open>decorator.py\<close>).

  A model class is a value: its name, whether its metaclass is \<open>ForUpdateMetaclass\<close>, its
  fields with annotation and default in the order of the class, and its two conversion hooks. To build an
  instance and to turn it into Python values is the work of pydantic: both are functions of
  the record \<open>pydantic\<close>, which every definition that needs them takes as an argument.
\<close>

section \<open>Models\<close>

text \<open>\<open>undefined\<close>, the instance of the class \<open>Undefined\<close> of \<open>utils/lang.py\<close>.\<close>

definition Undefined :: pyval where
  "Undefined = VObj [(''__class__'', VStr ''Undefined'')]"

definition SECRET_VALUE :: string where "SECRET_VALUE = ''********''"

text \<open>A field is required, has a default value or a default factory.\<close>

datatype field_default = Required | Default pyval | Factory

text \<open>
  Annotations: a model class, a union written \<open>X | Y\<close> of classes (\<open>types.UnionType\<close>), a union of
  \<open>typing\<close>, a list with its type arguments, a secret, the value \<open>None\<close> as a type argument, and
  everything else.
\<close>

type_synonym conversion = "pyval dict \<Rightarrow> exn + pyval dict"

datatype api_model =
    Model (model_name: string) (for_update: bool)
      (model_fields: "(string \<times> annotation \<times> field_default) list")
      (from_previous: conversion) (to_previous: conversion)
and annotation =
    AModel api_model
  | AUnionType "annotation list"
  | AUnion "annotation list"
  | AList "annotation list"
  | ASecret annotation
  | ANone
  | AOther string

definition field_names :: "api_model \<Rightarrow> string list" where
  "field_names m = map fst (model_fields m)"

definition field_required :: "field_default \<Rightarrow> bool" where
  "field_required f \<longleftrightarrow> (case f of Required \<Rightarrow> True | _ \<Rightarrow> False)"

text \<open>\<open>FieldInfo.get_default()\<close> of pydantic: a default factory is only called on request.\<close>

definition get_default :: "field_default \<Rightarrow> pyval" where
  "get_default f = (case f of Default v \<Rightarrow> v | _ \<Rightarrow> VNone)"

text \<open>The hooks of \<open>BaseModel\<close> change nothing.\<close>

definition keep_value :: conversion where
  "keep_value value = Inr value"

text \<open>The check of every new subclass: no secret directly in a union of \<open>typing\<close>.\<close>

definition is_secret :: "annotation \<Rightarrow> bool" where
  "is_secret a = (case a of ASecret b \<Rightarrow> True | _ \<Rightarrow> False)"

definition init_subclass :: "api_model \<Rightarrow> exn + api_model" where
  "init_subclass m =
     (if \<exists>(k, a, f) \<in> set (model_fields m). case a of AUnion opts \<Rightarrow> list_ex is_secret opts | _ \<Rightarrow> False
      then Inl TypeError else Inr m)"

section \<open>Models made of models\<close>

definition field_for_update :: "string \<times> annotation \<times> field_default \<Rightarrow> string \<times> annotation \<times> field_default" where
  "field_for_update = (\<lambda>(k, a, f). (k, a, Default Undefined))"

definition for_update_model :: "api_model \<Rightarrow> api_model" where
  "for_update_model m =
     Model (model_name m) True (map field_for_update (model_fields m)) (from_previous m) (to_previous m)"

definition single_argument_args :: "string \<Rightarrow> api_model \<Rightarrow> api_model" where
  "single_argument_args name klass =
     Model (model_name klass) False [(name, AModel klass, Required)] (from_previous klass) (to_previous klass)"

definition single_argument_result :: "annotation \<Rightarrow> string option \<Rightarrow> exn + api_model" where
  "single_argument_result klass klass_name =
     (case klass of
        AModel m \<Rightarrow>
          Inr (Model (case klass_name of Some n \<Rightarrow> if n = [] then model_name m else n | None \<Rightarrow> model_name m) False
                 [(''result'', AModel m, Required)] (from_previous m) (to_previous m))
      | AOther klass_type \<Rightarrow>
          (case klass_name of
             None \<Rightarrow> Inl TypeError
           | Some n \<Rightarrow> Inr (Model n False [(''result'', klass, Required)] keep_value keep_value))
      | AUnionType members \<Rightarrow>
          if klass_name = None \<or> klass_name = Some [] then Inl AttributeError else Inl TypeError
      | _ \<Rightarrow> Inl TypeError)"

definition removesuffix :: "string \<Rightarrow> string \<Rightarrow> string" where
  "removesuffix s suf = (if suf \<noteq> [] \<and> endswith s suf then take (length s - length suf) s else s)"

definition query_result_item :: "api_model \<Rightarrow> api_model" where
  "query_result_item item =
     for_update_model (Model (removesuffix (model_name item) ''Entry'' @ ''QueryResultItem'') False
       (model_fields item) (from_previous item) (to_previous item))"

definition query_result :: "api_model \<Rightarrow> api_model" where
  "query_result item =
     Model (removesuffix (model_name item) ''Entry'' @ ''QueryResult'') False
       [(''result'', AUnionType [AList [AModel (query_result_item item)], AModel (query_result_item item), AOther ''int''],
         Required)] keep_value keep_value"

definition event_model :: "string \<Rightarrow> bool \<Rightarrow> api_model \<Rightarrow> exn + api_model" where
  "event_model suf with_fields item =
     (case map_of (model_fields item) ''id'' of
        None \<Rightarrow> Inl KeyError
      | Some (a, f) \<Rightarrow>
          Inr (Model (removesuffix (model_name item) ''Entry'' @ suf) False
            ((''id'', a, Required) # (if with_fields then [(''fields'', AModel item, Required)] else []))
            keep_value keep_value))"

definition added_event_model :: "api_model \<Rightarrow> exn + api_model" where
  "added_event_model = event_model ''AddedEvent'' True"

definition changed_event_model :: "api_model \<Rightarrow> exn + api_model" where
  "changed_event_model = event_model ''ChangedEvent'' True"

definition removed_event_model :: "api_model \<Rightarrow> exn + api_model" where
  "removed_event_model = event_model ''RemovedEvent'' False"

section \<open>Inspection\<close>

fun first_some :: "('a \<Rightarrow> 'b option) \<Rightarrow> 'a list \<Rightarrow> 'b option" where
  "first_some f [] = None"
| "first_some f (x # xs) = (case f x of Some y \<Rightarrow> Some y | None \<Rightarrow> first_some f xs)"

lemma first_some_cong [fundef_cong]:
  "xs = ys \<Longrightarrow> (\<And>x. x \<in> set ys \<Longrightarrow> f x = g x) \<Longrightarrow> first_some f xs = first_some g ys"
  by (induction ys arbitrary: xs) (auto split: option.splits)

lemma first_some_Some: "first_some f xs = Some y \<Longrightarrow> \<exists>x \<in> set xs. f x = Some y"
  by (induction xs) (auto split: option.splits)

lemma first_some_None: "first_some f xs = None \<longleftrightarrow> (\<forall>x \<in> set xs. f x = None)"
  by (induction xs) (auto split: option.splits)

fun model_field_is_model :: "annotation \<Rightarrow> api_model option" where
  "model_field_is_model (AModel m) = Some m"
| "model_field_is_model (AUnionType members) = first_some model_field_is_model members"
| "model_field_is_model a = None"

fun model_field_is_list_of_models :: "annotation \<Rightarrow> annotation option" where
  "model_field_is_list_of_models (AList [a]) = (case a of ANone \<Rightarrow> None | _ \<Rightarrow> Some a)"
| "model_field_is_list_of_models (AUnionType members) = first_some model_field_is_list_of_models members"
| "model_field_is_list_of_models a = None"

section \<open>Accepting arguments\<close>

text \<open>An entry of \<open>ValidationError.errors()\<close>; the last part is \<open>error["ctx"]["discriminator"]\<close>.\<close>

record pyd_error =
  e_loc :: "(string + nat) list"
  e_msg :: string
  e_type :: string
  e_discriminator :: string

record 'i pydantic =
  construct :: "api_model \<Rightarrow> pyval dict \<Rightarrow> pyd_error list + 'i"
  dump_instance :: "bool \<Rightarrow> bool \<Rightarrow> 'i \<Rightarrow> pyval dict"

text \<open>\<open>dump_instance expose_secrets exclude_unset\<close> is \<open>model_dump\<close> with these options and aliases.\<close>

definition model_dict_from_list :: "api_model \<Rightarrow> pyval list \<Rightarrow> exn + pyval dict" where
  "model_dict_from_list m args =
     (if length args > length (model_fields m) then Inl (CallError ''Too many arguments'' EFAULT)
      else Inr (zip (field_names m) args))"

definition loc_part :: "string + nat \<Rightarrow> string" where
  "loc_part l = (case l of Inl s \<Rightarrow> s | Inr n \<Rightarrow> str_of_nat n)"

definition strip_quotes :: "string \<Rightarrow> string" where
  "strip_quotes s = rstrip_if (\<lambda>c. c = CHR 0x27) (lstrip_if (\<lambda>c. c = CHR 0x27) s)"

definition add_pyd_error :: "pyd_error \<Rightarrow> validation_error list \<Rightarrow> validation_error list" where
  "add_pyd_error e verrors =
     (if e_type e = ''union_tag_not_found''
      then verrors_add (str_join ''.'' (map loc_part (e_loc e) @ [strip_quotes (e_discriminator e)])) ''Field required'' verrors
      else verrors_add (str_join ''.'' (map loc_part (e_loc e))) (e_msg e) verrors)"

definition validate_model :: "'i pydantic \<Rightarrow> api_model \<Rightarrow> pyval dict \<Rightarrow> bool \<Rightarrow> bool \<Rightarrow> exn + pyval dict" where
  "validate_model pyd m data exclude_unset expose_secrets =
     (case construct pyd m data of
        Inl errors \<Rightarrow> Inl (ValidationErrors (fold add_pyd_error errors []))
      | Inr i \<Rightarrow> Inr (dump_instance pyd expose_secrets exclude_unset i))"

definition accept_params :: "'i pydantic \<Rightarrow> api_model \<Rightarrow> pyval list \<Rightarrow> bool \<Rightarrow> bool \<Rightarrow> exn + pyval list" where
  "accept_params pyd m args exclude_unset expose_secrets =
     bindE (model_dict_from_list m args) (\<lambda>args_as_dict.
     bindE (validate_model pyd m args_as_dict exclude_unset expose_secrets) (\<lambda>dmp.
       mapE (dict_index dmp) (if exclude_unset then take (length args) (field_names m) else field_names m)))"

section \<open>Dumping arguments\<close>

definition redact :: "annotation \<Rightarrow> pyval \<Rightarrow> pyval" where
  "redact a v = (if is_secret a then VStr SECRET_VALUE else v)"

function (sequential) remove_secrets :: "annotation \<Rightarrow> pyval \<Rightarrow> pyval" where
  "remove_secrets a (VDict d) =
     (case model_field_is_model a of
        Some m \<Rightarrow> VDict (map (\<lambda>(k, b, f). (k, remove_secrets b (the (map_of d k))))
                          (filter (\<lambda>(k, b, f). map_of d k \<noteq> None) (model_fields m)))
      | None \<Rightarrow> redact a (VDict d))"
| "remove_secrets a (VList xs) =
     (case model_field_is_list_of_models a of
        Some b \<Rightarrow> VList (map (remove_secrets b) xs)
      | None \<Rightarrow> redact a (VList xs))"
| "remove_secrets a v = redact a v"
  by pat_completeness auto

termination
proof (relation "measure (\<lambda>(a, v). vsize v)", goal_cases)
  case (2 a d m x k y b f)
  then obtain v where "map_of d k = Some v" by auto
  then have "vsize v < vsize (VDict d)" using vsize_mem_dict [OF map_of_SomeD] by blast
  with \<open>map_of d k = Some v\<close> show ?case by simp
qed (auto dest: vsize_mem)

text \<open>\<open>zip_longest\<close>: a missing argument is \<open>None\<close>, an argument without field is kept.\<close>

fun redact_args :: "annotation list \<Rightarrow> pyval list \<Rightarrow> pyval list" where
  "redact_args [] args = args"
| "redact_args (a # as) [] = remove_secrets a VNone # redact_args as []"
| "redact_args (a # as) (v # vs) = remove_secrets a v # redact_args as vs"

definition dump_params :: "'i pydantic \<Rightarrow> api_model \<Rightarrow> pyval list \<Rightarrow> bool \<Rightarrow> exn + pyval list" where
  "dump_params pyd m args expose_secrets =
     (case accept_params pyd m args True expose_secrets of
        Inl (ValidationErrors es) \<Rightarrow> Inr (redact_args (map (fst \<circ> snd) (model_fields m)) args)
      | r \<Rightarrow> r)"

section \<open>Results\<close>

text \<open>The exception \<open>ValidationError\<close> of pydantic is a \<open>ValueError\<close>.\<close>

definition serialize_result :: "'i pydantic \<Rightarrow> api_model \<Rightarrow> pyval \<Rightarrow> bool \<Rightarrow> exn + pyval" where
  "serialize_result pyd m result expose_secrets =
     (case construct pyd m [(''result'', result)] of
        Inl errors \<Rightarrow> Inl (ValueError ''validation error'')
      | Inr i \<Rightarrow> dict_index (dump_instance pyd expose_secrets False i) ''result'')"

section \<open>The decorator\<close>

record method_decl =
  d_name :: string
  d_accepts :: api_model
  d_returns :: api_model
  d_roles :: "string list option"
  d_private :: bool
  d_authentication_required :: bool
  d_authorization_required :: bool

record method_marks =
  k_no_auth_required :: bool
  k_no_authz_required :: bool
  k_roles :: "string list"
  k_private :: bool

definition CONFIG_CRUD_METHODS :: "string list" where
  "CONFIG_CRUD_METHODS = [''do_create'', ''do_update'', ''do_delete'', ''create'', ''update'', ''delete'',
     ''query'', ''get_instance'', ''config'']"

definition marks_of :: "method_decl \<Rightarrow> bool \<Rightarrow> bool \<Rightarrow> method_marks" where
  "marks_of d no_auth no_authz =
     \<lparr>k_no_auth_required = no_auth, k_no_authz_required = no_authz,
      k_roles = (case d_roles d of None \<Rightarrow> [] | Some rs \<Rightarrow> rs), k_private = d_private d\<rparr>"

definition api_method :: "method_decl \<Rightarrow> exn + method_marks" where
  "api_method d =
     (if field_names (d_returns d) \<noteq> [''result''] then Inl TypeError
      else if d_roles d \<noteq> None \<and> d_roles d \<noteq> Some [] then
        (if \<not> d_authorization_required d \<or> \<not> d_authentication_required d
         then Inl (ValueError ''Authentication and authorization must be enabled in order to use roles.'')
         else Inr (marks_of d False False))
      else if \<not> d_authentication_required d \<and> \<not> d_authorization_required d
        then Inl (ValueError ''Either authentication or authorization may be disabled, but not both simultaneously.'')
      else if \<not> d_authentication_required d then Inr (marks_of d True False)
      else if \<not> d_authorization_required d then Inr (marks_of d False True)
      else if \<not> d_private d \<and> d_name d \<notin> set CONFIG_CRUD_METHODS \<and> \<not> endswith (d_name d) ''choices''
        then Inl (ValueError ''Role definition is required for public API endpoints'')
      else Inr (marks_of d False False))"

text \<open>The wrapped method: what comes before the arguments of the caller is passed on as it is.\<close>

definition wrapped :: "'i pydantic \<Rightarrow> api_model \<Rightarrow> nat \<Rightarrow> (pyval list \<Rightarrow> exn + 'r) \<Rightarrow> pyval list \<Rightarrow> exn + 'r" where
  "wrapped pyd model args_index func args =
     bindE (accept_params pyd model (drop args_index args) False True) (\<lambda>ps.
       func (take args_index args @ ps))"

end
