(* ===== verification/Versions.thy ===== *)
theory Versions
  imports Models
begin

text \<open>
  Values between versions of the API: the adapter of \<open>api/base/handler/version.py\<close>, the
  methods of a legacy API (\<open>api/base/server/legacy_api_method.py\<close>) and the conversions of the
  cloud credentials, the models that differ between \<open>api/v24_10\<close> and \<open>api/v25_04_0\<close>.

  The conversion of a model is a chain of steps, one per version on the way. The code builds
  the chain of calls first and runs it from the last step: a step looks up both models before
  it asks the previous one for the value, so a model that is missing later on the way is reported
  before anything that an earlier step raises.
\<close>

section \<open>Errors\<close>

datatype api_error =
    APIVersionDoesNotExist string
  | APIVersionDoesNotContainModel string string
  | MethodNotFound
  | Raised exn

definition raised :: "exn + 'a \<Rightarrow> api_error + 'a" where
  "raised r = (case r of Inl e \<Rightarrow> Inl (Raised e) | Inr x \<Rightarrow> Inr x)"

lemma raised_simps [simp]: "raised (Inl e) = Inl (Raised e)" "raised (Inr x) = Inr x"
  by (simp_all add: raised_def)

lemma raised_eq_Inr_iff: "raised r = Inr x \<longleftrightarrow> r = Inr x"
  by (cases r) simp_all

section \<open>One step\<close>

datatype direction = DOWNGRADE | UPGRADE

text \<open>
  The nested models of a field that both models have. Their metaclasses are compared by name;
  the names of the models are not looked at.
\<close>

definition nested_models ::
  "(annotation \<Rightarrow> api_model option) \<Rightarrow> api_model \<Rightarrow> api_model \<Rightarrow> string \<Rightarrow> (api_model \<times> api_model) option" where
  "nested_models inspect current new k =
     (case (map_of (model_fields current) k, map_of (model_fields new) k) of
        (Some (a, f), Some (b, g)) \<Rightarrow>
          (case (inspect a, inspect b) of
             (Some m, Some n) \<Rightarrow> if for_update m = for_update n then Some (m, n) else None
           | _ \<Rightarrow> None)
      | _ \<Rightarrow> None)"

definition list_of_model :: "annotation \<Rightarrow> api_model option" where
  "list_of_model a =
     (case model_field_is_list_of_models a of None \<Rightarrow> None | Some b \<Rightarrow> model_field_is_model b)"

definition set_defaults :: "api_model \<Rightarrow> pyval dict \<Rightarrow> pyval dict" where
  "set_defaults new value =
     (if for_update new then value
      else fold (\<lambda>(k, a, f) d. if map_of d k = None \<and> \<not> field_required f then AList.update k (get_default f) d else d)
             (model_fields new) value)"

definition run_hook :: "direction \<Rightarrow> api_model \<Rightarrow> api_model \<Rightarrow> pyval dict \<Rightarrow> exn + pyval dict" where
  "run_hook dir current new value =
     (case dir of DOWNGRADE \<Rightarrow> to_previous current value | UPGRADE \<Rightarrow> from_previous new value)"

definition drop_removed :: "api_model \<Rightarrow> api_model \<Rightarrow> pyval dict \<Rightarrow> pyval dict" where
  "drop_removed current new value =
     filter (\<lambda>(k, v). \<not> (k \<in> set (field_names current) \<and> k \<notin> set (field_names new))) value"

definition drop_undefined :: "pyval dict \<Rightarrow> pyval dict" where
  "drop_undefined value = filter (\<lambda>(k, v). v \<noteq> Undefined) value"

text \<open>
  An element of a list of models that is not a dictionary: the loop over its elements, the
  assignment of a default or the call of \<open>items\<close> raises.
\<close>

definition default_missing :: "api_model \<Rightarrow> (string \<Rightarrow> bool) \<Rightarrow> bool" where
  "default_missing new has \<longleftrightarrow>
     \<not> for_update new \<and> (\<exists>(k, a, f) \<in> set (model_fields new). \<not> has k \<and> \<not> field_required f)"

definition not_a_dict :: "api_model \<Rightarrow> api_model \<Rightarrow> pyval \<Rightarrow> exn" where
  "not_a_dict current new value =
     (let both = (\<lambda>k. k \<in> set (field_names current) \<and> k \<in> set (field_names new)) in
      case value of
        VStr s \<Rightarrow>
          if (\<exists>c \<in> set s. both [c]) \<or> default_missing new (\<lambda>k. sublist k s) then TypeError else AttributeError
      | VList xs \<Rightarrow>
          if (\<exists>x \<in> set xs. \<not> hashable x \<or> (case x of VStr k \<Rightarrow> k \<in> set (field_names current) | _ \<Rightarrow> False))
             \<or> default_missing new (\<lambda>k. VStr k \<in> set xs)
          then TypeError else AttributeError
      | _ \<Rightarrow> TypeError)"

function (sequential) adapt_value ::
  "direction \<Rightarrow> api_model \<Rightarrow> api_model \<Rightarrow> pyval \<Rightarrow> exn + pyval dict" where
  "adapt_value dir current new (VDict d) =
     bindE (mapE (\<lambda>(k, v).
         case v of
           VDict e \<Rightarrow>
             (case nested_models model_field_is_model current new k of
                Some (m, n) \<Rightarrow> bindE (adapt_value dir m n v) (\<lambda>e. Inr (k, VDict e))
              | None \<Rightarrow> Inr (k, v))
         | VList xs \<Rightarrow>
             (case nested_models list_of_model current new k of
                Some (m, n) \<Rightarrow> bindE (mapE (adapt_value dir m n) xs) (\<lambda>es. Inr (k, VList (map VDict es)))
              | None \<Rightarrow> Inr (k, v))
         | _ \<Rightarrow> Inr (k, v)) d) (\<lambda>d1.
     bindE (run_hook dir current new (set_defaults new d1)) (\<lambda>d2.
       Inr (drop_undefined (drop_removed current new d2))))"
| "adapt_value dir current new v = Inl (not_a_dict current new v)"
  by pat_completeness auto

termination
proof (relation "measure (\<lambda>(dir, m, n, v). vsize v)", goal_cases)
  case (2 dir current new d x k v xs mn m n y)
  then have y: "y \<in> set xs" and mem: "(k, VList xs) \<in> set d" by auto
  from vsize_mem [OF y] vsize_mem_dict [OF mem] have "vsize y < vsize (VDict d)" by linarith
  then show ?case by simp
next
  case (3 dir current new d x k v)
  then show ?case using vsize_mem_dict [of k v d] by auto
qed auto

section \<open>The adapter\<close>

record api_version =
  version :: string
  models :: "api_model dict"

type_synonym adapter = "api_version dict"

text \<open>\<open>versions_history\<close> are the keys in the order of insertion.\<close>

definition APIVersionsAdapter :: "api_version list \<Rightarrow> exn + adapter" where
  "APIVersionsAdapter vs =
     (if vs = [] then Inl IndexError else Inr (fold (\<lambda>v. AList.update (version v) v) vs []))"

definition versions_history :: "adapter \<Rightarrow> string list" where
  "versions_history ad = map fst ad"

definition current_version :: "adapter \<Rightarrow> string" where
  "current_version ad = last (versions_history ad)"

fun index_in :: "'a \<Rightarrow> 'a list \<Rightarrow> nat option" where
  "index_in x [] = None"
| "index_in x (y # ys) = (if x = y then Some 0 else map_option Suc (index_in x ys))"

definition model_in :: "api_version \<Rightarrow> string \<Rightarrow> api_error + api_model" where
  "model_in v name =
     (case map_of (models v) name of
        None \<Rightarrow> Inl (APIVersionDoesNotContainModel (version v) name)
      | Some m \<Rightarrow> Inr m)"

definition adapt_step ::
  "direction \<Rightarrow> string \<Rightarrow> api_version \<Rightarrow> api_version \<Rightarrow> (unit \<Rightarrow> api_error + pyval dict) \<Rightarrow> api_error + pyval dict" where
  "adapt_step dir name current new value_factory =
     bindE (model_in current name) (\<lambda>current_model.
     bindE (model_in new name) (\<lambda>new_model.
     bindE (value_factory ()) (\<lambda>value.
       raised (adapt_value dir current_model new_model (VDict value)))))"

fun adapt_along ::
  "direction \<Rightarrow> string \<Rightarrow> api_version \<Rightarrow> api_version list \<Rightarrow> (unit \<Rightarrow> api_error + pyval dict) \<Rightarrow> api_error + pyval dict" where
  "adapt_along dir name current [] value_factory = value_factory ()"
| "adapt_along dir name current (v # vs) value_factory =
     adapt_along dir name v vs (\<lambda>u. adapt_step dir name current v value_factory)"

text \<open>The versions at the indices \<open>range(i + step, j + step, step)\<close>.\<close>

definition versions_between :: "adapter \<Rightarrow> nat \<Rightarrow> nat \<Rightarrow> api_version list" where
  "versions_between ad i j =
     map snd (if i < j then map (\<lambda>n. ad ! n) [Suc i..<Suc j] else rev (map (\<lambda>n. ad ! n) [j..<i]))"

definition adapt_model ::
  "'i pydantic \<Rightarrow> adapter \<Rightarrow> pyval dict \<Rightarrow> string \<Rightarrow> string \<Rightarrow> string \<Rightarrow> api_error + (api_model option \<times> pyval dict)" where
  "adapt_model pyd ad value name version1 version2 =
     (case index_in version1 (versions_history ad) of
        None \<Rightarrow> Inl (APIVersionDoesNotExist version1)
      | Some i \<Rightarrow>
          (case index_in version2 (versions_history ad) of
             None \<Rightarrow> Inl (APIVersionDoesNotExist version2)
           | Some j \<Rightarrow>
               let v1 = snd (ad ! i); path = versions_between ad i j;
                   dir = (if i < j then UPGRADE else DOWNGRADE) in
               bindE (model_in v1 name) (\<lambda>m.
               bindE (adapt_along dir name v1 path (\<lambda>u. raised (validate_model pyd m value False True))) (\<lambda>result.
                 Inr (map_of (models (last (v1 # path))) name, result)))))"

definition adapt :: "'i pydantic \<Rightarrow> adapter \<Rightarrow> pyval dict \<Rightarrow> string \<Rightarrow> string \<Rightarrow> string \<Rightarrow> api_error + pyval dict" where
  "adapt pyd ad value name version1 version2 =
     bindE (adapt_model pyd ad value name version1 version2) (\<lambda>(m, result). Inr result)"

text \<open>
  Start-up: the name of a version from its directory, and the models that are generated for the
  services (\<open>main.py\<close>). A generated model is registered in the last version; in an earlier one
  its factory is applied to the model of that version with the given name, if there is one.
\<close>

definition version_name :: "string \<Rightarrow> string" where
  "version_name dir = map (\<lambda>c. if c = CHR ''_'' then CHR ''.'' else c) dir"

definition register_earlier :: "string \<Rightarrow> (api_model \<Rightarrow> api_model) \<Rightarrow> string \<Rightarrow> api_version \<Rightarrow> api_version" where
  "register_earlier name factory arg_name v =
     (case map_of (models v) arg_name of
        None \<Rightarrow> v
      | Some arg \<Rightarrow> v\<lparr>models := AList.update name (factory arg) (models v)\<rparr>)"

definition register_model :: "api_model \<times> (api_model \<Rightarrow> api_model) \<times> string \<Rightarrow> api_version list \<Rightarrow> exn + api_version list" where
  "register_model = (\<lambda>(m, factory, arg_name) vs.
     if vs = [] then Inl IndexError
     else Inr (map (register_earlier (model_name m) factory arg_name) (butlast vs) @
       [last vs\<lparr>models := AList.update (model_name m) m (models (last vs))\<rparr>]))"

section \<open>Methods of a legacy API\<close>

record legacy_method =
  lm_api_version :: string
  lm_adapter :: adapter
  lm_passthrough :: bool
  lm_accepts :: "api_model option"
  lm_returns :: "api_model option"

definition adapt_params :: "'i pydantic \<Rightarrow> legacy_method \<Rightarrow> api_model \<Rightarrow> pyval list \<Rightarrow> api_error + pyval list" where
  "adapt_params pyd lm accepts_model params =
     (case Option.bind (map_of (lm_adapter lm) (lm_api_version lm)) (\<lambda>v. map_of (models v) (model_name accepts_model)) of
        None \<Rightarrow> if lm_passthrough lm then Inr params else Inl MethodNotFound
      | Some legacy_accepts_model \<Rightarrow>
          bindE (raised (model_dict_from_list legacy_accepts_model params)) (\<lambda>params_dict.
          bindE (adapt pyd (lm_adapter lm) params_dict (model_name legacy_accepts_model) (lm_api_version lm)
                  (current_version (lm_adapter lm))) (\<lambda>adapted.
            raised (mapE (dict_index adapted) (field_names accepts_model)))))"

definition legacy_call_params :: "'i pydantic \<Rightarrow> legacy_method \<Rightarrow> pyval list \<Rightarrow> api_error + pyval list" where
  "legacy_call_params pyd lm params =
     (case lm_accepts lm of None \<Rightarrow> Inr params | Some m \<Rightarrow> adapt_params pyd lm m params)"

text \<open>
  The result of a legacy method: the model of the legacy version and the value it serializes.
  Without a model the result is dumped as for any method.
\<close>

definition legacy_dump_result ::
  "'i pydantic \<Rightarrow> legacy_method \<Rightarrow> (api_model option \<Rightarrow> pyval \<Rightarrow> exn + pyval) \<Rightarrow> pyval \<Rightarrow> api_error + pyval" where
  "legacy_dump_result pyd lm base_dump result =
     (case (lm_accepts lm, lm_returns lm) of
        (Some accepts_model, Some returns_model) \<Rightarrow>
          (case adapt_model pyd (lm_adapter lm) [(''result'', result)] (model_name returns_model)
                  (current_version (lm_adapter lm)) (lm_api_version lm) of
             Inr (m, value) \<Rightarrow>
               bindE (raised (dict_index value ''result'')) (\<lambda>v. raised (base_dump m v))
           | Inl (APIVersionDoesNotContainModel v n) \<Rightarrow>
               if lm_passthrough lm then raised (base_dump None result)
               else Inl (APIVersionDoesNotContainModel v n)
           | Inl e \<Rightarrow> Inl e)
      | _ \<Rightarrow> raised (base_dump None result))"

definition legacy_dump_args ::
  "'i pydantic \<Rightarrow> legacy_method \<Rightarrow> (pyval list \<Rightarrow> exn + pyval list) \<Rightarrow> pyval list \<Rightarrow> exn + pyval list" where
  "legacy_dump_args pyd lm base_dump params =
     (case lm_accepts lm of Some m \<Rightarrow> dump_params pyd m params False | None \<Rightarrow> base_dump params)"

section \<open>Cloud credentials\<close>

definition dict_merge :: "'v dict \<Rightarrow> 'v dict \<Rightarrow> 'v dict" where
  "dict_merge d e = fold (\<lambda>(k, v). AList.update k v) e d"

definition entry_from_previous :: conversion where
  "entry_from_previous value =
     (case map_of value ''attributes'' of
        None \<Rightarrow> Inl KeyError
      | Some attributes \<Rightarrow>
          bindE (dict_index (AList.delete ''attributes'' value) ''provider'') (\<lambda>p.
            case attributes of
              VDict as \<Rightarrow>
                Inr (AList.update ''provider'' (VDict (dict_merge [(''type'', p)] as))
                       (AList.delete ''attributes'' value))
            | _ \<Rightarrow> Inl TypeError))"

definition entry_to_previous :: conversion where
  "entry_to_previous value =
     bindE (dict_index value ''provider'') (\<lambda>p.
       case p of
         VDict d \<Rightarrow>
           bindE (dict_index d ''type'') (\<lambda>t.
             Inr (AList.update ''provider'' t
                    (AList.update ''attributes'' (VDict (AList.delete ''type'' d)) value)))
       | VList xs \<Rightarrow> Inl TypeError
       | _ \<Rightarrow> Inl AttributeError)"

text \<open>An index into a value that need not be a dictionary.\<close>

definition subscript :: "pyval \<Rightarrow> string \<Rightarrow> exn + pyval" where
  "subscript v k = (case v of VDict d \<Rightarrow> dict_index d k | _ \<Rightarrow> Inl TypeError)"

definition verify_from_previous :: conversion where
  "verify_from_previous value =
     bindE (dict_index value ''cloud_sync_credentials_create'') (\<lambda>c.
     bindE (subscript c ''provider'') (\<lambda>p.
     bindE (subscript c ''attributes'') (\<lambda>attributes.
       case attributes of
         VDict as \<Rightarrow> Inr [(''cloud_sync_credentials_create'', VDict (dict_merge [(''type'', p)] as))]
       | _ \<Rightarrow> Inl TypeError)))"

text \<open>The models of both versions, with the annotations of pydantic by their names.\<close>

definition CloudCredentialEntry_24 :: api_model where
  "CloudCredentialEntry_24 = Model ''CloudCredentialEntry'' False
     [(''id'', AOther ''int'', Required), (''name'', AOther ''NonEmptyString'', Required),
      (''provider'', AOther ''str'', Required), (''attributes'', ASecret (AOther ''dict''), Required)]
     keep_value keep_value"

definition CloudCredentialEntry_25 :: "annotation \<Rightarrow> api_model" where
  "CloudCredentialEntry_25 provider = Model ''CloudCredentialEntry'' False
     [(''id'', AOther ''int'', Required), (''name'', AOther ''NonEmptyString'', Required), (''provider'', provider, Required)]
     entry_from_previous entry_to_previous"

text \<open>\<open>id: Excluded = excluded_field()\<close> overrides the field of the entry in place.\<close>

definition without_id :: "string \<Rightarrow> api_model \<Rightarrow> api_model" where
  "without_id name entry = Model name False
     (map (\<lambda>(k, a, f). if k = ''id'' then (k, AOther ''Excluded'', Default Undefined) else (k, a, f)) (model_fields entry))
     (from_previous entry) (to_previous entry)"

definition CloudCredentialCreate :: "api_model \<Rightarrow> api_model" where
  "CloudCredentialCreate entry = without_id ''CloudCredentialCreate'' entry"

definition CloudCredentialUpdate :: "api_model \<Rightarrow> api_model" where
  "CloudCredentialUpdate entry = for_update_model (without_id ''CloudCredentialUpdate'' entry)"

definition CloudCredentialCreateArgs :: "api_model \<Rightarrow> api_model" where
  "CloudCredentialCreateArgs entry = Model ''CloudCredentialCreateArgs'' False
     [(''cloud_sync_credentials_create'', AModel (CloudCredentialCreate entry), Required)] keep_value keep_value"

definition CloudCredentialUpdateArgs :: "api_model \<Rightarrow> api_model" where
  "CloudCredentialUpdateArgs entry = Model ''CloudCredentialUpdateArgs'' False
     [(''id'', AOther ''int'', Required),
      (''cloud_sync_credentials_update'', AModel (CloudCredentialUpdate entry), Required)] keep_value keep_value"

definition CloudCredentialVerifyArgs_24 :: api_model where
  "CloudCredentialVerifyArgs_24 = single_argument_args ''cloud_sync_credentials_create''
     (Model ''CloudCredentialVerifyArgs'' False
       [(''provider'', AOther ''str'', Required), (''attributes'', ASecret (AOther ''dict''), Required)]
       keep_value keep_value)"

definition CloudCredentialVerifyArgs_25 :: "annotation \<Rightarrow> api_model" where
  "CloudCredentialVerifyArgs_25 provider = Model ''CloudCredentialVerifyArgs'' False
     [(''cloud_sync_credentials_create'', provider, Required)] verify_from_previous keep_value"

text \<open>\<open>provider\<close> stands for \<open>CloudCredentialProvider\<close>, a union of \<open>typing\<close> over the models of the providers.\<close>

definition cloud_versions :: "annotation \<Rightarrow> adapter" where
  "cloud_versions provider =
     (let named = map (\<lambda>m. (model_name m, m)) in
      [(''v24.10'', \<lparr>version = ''v24.10'', models = named
          [CloudCredentialEntry_24, CloudCredentialCreateArgs CloudCredentialEntry_24,
           CloudCredentialUpdateArgs CloudCredentialEntry_24, CloudCredentialVerifyArgs_24]\<rparr>),
       (''v25.04.0'', \<lparr>version = ''v25.04.0'', models = named
          [CloudCredentialEntry_25 provider, CloudCredentialCreateArgs (CloudCredentialEntry_25 provider),
           CloudCredentialUpdateArgs (CloudCredentialEntry_25 provider), CloudCredentialVerifyArgs_25 provider]\<rparr>)])"

end
