(* ===== verification/ModelProperties.thy ===== *)
theory ModelProperties
  imports Versions RpcDemo
begin

text \<open>
  What the models of arguments guarantee: the dump of arguments that pydantic rejects does not
  depend on secrets as long as the inspection of annotations finds them; where it does not
  (unions of \<open>typing\<close>), and where the dump raises, the audit shows it.
\<close>

section \<open>Values that differ in secrets only\<close>

text \<open>
  Two values of an annotation that agree on everything the annotation declares public: under a
  secret they are arbitrary, keys that a model does not have are not compared.
\<close>

inductive differ_in_secrets :: "annotation \<Rightarrow> pyval \<Rightarrow> pyval \<Rightarrow> bool" where
  same: "differ_in_secrets a v v"
| secret: "differ_in_secrets (ASecret a) v w"
| fields: "(\<And>k b f. (k, b, f) \<in> set (model_fields m) \<Longrightarrow>
      map_of d k = None \<and> map_of e k = None \<or>
      (\<exists>v w. map_of d k = Some v \<and> map_of e k = Some w \<and> differ_in_secrets b v w)) \<Longrightarrow>
    differ_in_secrets (AModel m) (VDict d) (VDict e)"
| items: "length xs = length ys \<Longrightarrow> (\<And>i. i < length xs \<Longrightarrow> differ_in_secrets a (xs ! i) (ys ! i)) \<Longrightarrow>
    differ_in_secrets (AList [a]) (VList xs) (VList ys)"
| union_type: "a \<in> set as \<Longrightarrow> differ_in_secrets a v w \<Longrightarrow> differ_in_secrets (AUnionType as) v w"
| typing_union: "a \<in> set as \<Longrightarrow> differ_in_secrets a v w \<Longrightarrow> differ_in_secrets (AUnion as) v w"

text \<open>Annotations without models and secrets, and annotations whose secrets the inspection finds.\<close>

fun plain_annotation :: "annotation \<Rightarrow> bool" where
  "plain_annotation (AModel m) = False"
| "plain_annotation (ASecret a) = False"
| "plain_annotation (AList as) = list_all plain_annotation as"
| "plain_annotation (AUnionType as) = list_all plain_annotation as"
| "plain_annotation (AUnion as) = list_all plain_annotation as"
| "plain_annotation a = True"

definition at_most_one :: "('a \<Rightarrow> bool) \<Rightarrow> 'a list \<Rightarrow> bool" where
  "at_most_one P xs \<longleftrightarrow> length (filter P xs) \<le> 1"

fun redactable :: "annotation \<Rightarrow> bool" and redactable_model :: "api_model \<Rightarrow> bool" where
  "redactable (AModel m) = redactable_model m"
| "redactable (AList as) = list_all redactable as"
| "redactable (AUnionType as) =
     (list_all redactable as \<and> \<not> list_ex is_secret as \<and>
      at_most_one (\<lambda>a. model_field_is_model a \<noteq> None) as \<and>
      at_most_one (\<lambda>a. model_field_is_list_of_models a \<noteq> None) as)"
| "redactable (AUnion as) = list_all plain_annotation as"
| "redactable a = True"
| "redactable_model (Model name u fs from to) = list_all (\<lambda>(k, a, f). redactable a) fs"

lemma plain_same: "differ_in_secrets a v w \<Longrightarrow> plain_annotation a \<Longrightarrow> v = w"
  by (induction rule: differ_in_secrets.induct) (auto simp: list_all_iff intro: nth_equalityI)

lemma redactable_field: "redactable_model m \<Longrightarrow> (k, a, f) \<in> set (model_fields m) \<Longrightarrow> redactable a"
  by (cases m) (auto simp: list_all_iff)

section \<open>Redaction\<close>

lemma remove_secrets_secret [simp]: "remove_secrets (ASecret a) v = VStr SECRET_VALUE"
  by (cases v) (simp_all add: redact_def is_secret_def)

lemma remove_secrets_shape:
  assumes "\<not> is_secret a"
  shows "is_dict (remove_secrets a v) = is_dict v" "is_list (remove_secrets a v) = is_list v"
    "\<not> is_dict v \<Longrightarrow> \<not> is_list v \<Longrightarrow> remove_secrets a v = v"
  using assms by (cases v; simp add: redact_def split: option.splits)+

lemma first_some_unique:
  assumes "at_most_one (\<lambda>x. f x \<noteq> None) xs" and "x \<in> set xs" and "f x = Some y"
  shows "first_some f xs = Some y"
  using assms(1-2)
proof (induction xs)
  case (Cons z zs)
  show ?case
  proof (cases "f z")
    case None
    with Cons assms(3) show ?thesis by (auto simp: at_most_one_def)
  next
    case (Some u)
    with Cons.prems assms(3) have "x \<notin> set zs" by (auto simp: at_most_one_def filter_empty_conv)
    with Some Cons.prems assms(3) show ?thesis by auto
  qed
qed simp

text \<open>A member of a union redacts as the union does, or does not redact at all.\<close>

lemma remove_secrets_member:
  assumes "redactable (AUnionType as)" and "a \<in> set as" and "\<not> is_secret a"
    and eq: "remove_secrets a v = remove_secrets a w"
  shows "remove_secrets (AUnionType as) v = remove_secrets (AUnionType as) w"
proof -
  note shape = remove_secrets_shape [OF assms(3)]
  from assms(1) have one: "at_most_one (\<lambda>a. model_field_is_model a \<noteq> None) as"
    "at_most_one (\<lambda>a. model_field_is_list_of_models a \<noteq> None) as" by simp_all
  consider d e where "v = VDict d" "w = VDict e" | xs ys where "v = VList xs" "w = VList ys" | "v = w"
    using shape [of v] shape [of w] eq by (cases v; cases w) auto
  then show ?thesis
  proof cases
    case 1
    show ?thesis
    proof (cases "model_field_is_model a")
      case None
      with 1 eq assms(3) have "v = w" by (simp add: redact_def)
      then show ?thesis by simp
    next
      case (Some m)
      with first_some_unique [OF one(1) assms(2)] 1 eq show ?thesis by simp
    qed
  next
    case 2
    show ?thesis
    proof (cases "model_field_is_list_of_models a")
      case None
      with 2 eq assms(3) have "v = w" by (simp add: redact_def)
      then show ?thesis by simp
    next
      case (Some b)
      with first_some_unique [OF one(2) assms(2)] 2 eq show ?thesis by simp
    qed
  qed simp
qed

text \<open>Redaction hides every secret that the inspection finds: values that differ only
  under secrets are redacted to the same value.\<close>

lemma redaction_noninterference:
  assumes "differ_in_secrets a v w" and "redactable a"
  shows "remove_secrets a v = remove_secrets a w"
  using assms
proof (induction rule: differ_in_secrets.induct)
  case (fields m d e)
  have "filter (\<lambda>(k, b, f). map_of d k \<noteq> None) (model_fields m) = filter (\<lambda>(k, b, f). map_of e k \<noteq> None) (model_fields m)"
    using fields.IH by (intro filter_cong) fastforce+
  moreover have "remove_secrets b (the (map_of d k)) = remove_secrets b (the (map_of e k))"
    if "(k, b, f) \<in> set (model_fields m)" for k b f
    using fields.IH [OF that] redactable_field [OF _ that] fields.prems by force
  ultimately show ?case by (auto intro!: map_cong)
next
  case (items xs ys a)
  then have eq: "map (remove_secrets a) xs = map (remove_secrets a) ys" by (auto intro: nth_equalityI)
  show ?case
  proof (cases a)
    case ANone
    with items have "xs ! i = ys ! i" if "i < length xs" for i using that plain_same [of ANone] by simp
    with items have "xs = ys" by (auto intro: nth_equalityI)
    then show ?thesis by simp
  qed (use eq in simp_all)
next
  case (union_type a as v w)
  then have "\<not> is_secret a" and "remove_secrets a v = remove_secrets a w" by (auto simp: list_ex_iff list_all_iff)
  with union_type show ?case by (intro remove_secrets_member)
next
  case (typing_union a as v w)
  then have "v = w" using plain_same by (auto simp: list_all_iff)
  then show ?case by simp
qed simp_all

lemma redact_args_noninterference:
  "list_all redactable as \<Longrightarrow> length vs \<le> length as \<Longrightarrow> length vs = length ws \<Longrightarrow>
   (\<And>i. i < length vs \<Longrightarrow> differ_in_secrets (as ! i) (vs ! i) (ws ! i)) \<Longrightarrow>
   redact_args as vs = redact_args as ws"
proof (induction as vs arbitrary: ws rule: redact_args.induct)
  case (3 a as v vs)
  then obtain w ws' where ws: "ws = w # ws'" by (cases ws) auto
  have "differ_in_secrets (as ! i) (vs ! i) (ws' ! i)" if "i < length vs" for i
    using "3.prems"(4) [of "Suc i"] that ws by simp
  with 3 ws have "redact_args as vs = redact_args as ws'" by simp
  moreover have "remove_secrets a v = remove_secrets a w"
    using "3.prems"(1) "3.prems"(4) [of 0] ws redaction_noninterference by simp
  ultimately show ?case using ws by simp
qed auto

text \<open>C22. When pydantic rejects the arguments of a call, what is written about them to logs and to the
  audit does not depend on the secrets among them, for every model whose secrets the inspection
  finds.\<close>

theorem rejected_args_redacted:
  assumes "redactable_model m" and "length args = length args'"
    and "\<And>i k a f. i < length args \<Longrightarrow> i < length (model_fields m) \<Longrightarrow> model_fields m ! i = (k, a, f) \<Longrightarrow>
      differ_in_secrets a (args ! i) (args' ! i)"
    and "construct pyd m (zip (field_names m) args) = Inl es" and "construct pyd m (zip (field_names m) args') = Inl es'"
  shows "dump_params pyd m args False = dump_params pyd m args' False"
proof (cases "length args \<le> length (model_fields m)")
  case True
  let ?as = "map (fst \<circ> snd) (model_fields m)"
  have "redact_args ?as args = redact_args ?as args'"
  proof (rule redact_args_noninterference)
    show "list_all redactable ?as" using redactable_field [OF assms(1)] by (fastforce simp: list_all_iff)
    fix i assume "i < length args"
    with True assms(3) [of i] show "differ_in_secrets (?as ! i) (args ! i) (args' ! i)"
      by (cases "model_fields m ! i") auto
  qed (use True assms(2) in simp_all)
  with True assms show ?thesis
    by (simp add: dump_params_def accept_params_def model_dict_from_list_def validate_model_def)
next
  case False
  with assms(2) show ?thesis by (simp add: dump_params_def accept_params_def model_dict_from_list_def)
qed

text \<open>A model library that accepts nothing, and one that accepts every value as it is.\<close>

definition rejecting :: "unit pydantic" where
  "rejecting = \<lparr>construct = (\<lambda>m d. Inl [\<lparr>e_loc = [], e_msg = ''Extra inputs are not permitted'',
      e_type = ''extra_forbidden'', e_discriminator = []\<rparr>]), dump_instance = (\<lambda>e u i. [])\<rparr>"

definition accepting :: "pyval dict pydantic" where
  "accepting = \<lparr>construct = (\<lambda>m d. Inr d), dump_instance = (\<lambda>e u i. i)\<rparr>"

definition registry_args :: api_model where
  "registry_args = Model ''AppRegistryCreateArgs'' False [(''app_registry_create'', AModel
     (Model ''AppRegistryCreate'' False
       [(''id'', AOther ''Excluded'', Default Undefined), (''name'', AOther ''str'', Required),
        (''description'', AUnionType [AOther ''str'', AOther ''NoneType''], Default VNone),
        (''username'', ASecret (AOther ''str''), Required), (''password'', ASecret (AOther ''str''), Required),
        (''uri'', AOther ''str'', Default (VStr ''https://index.docker.io/v1/''))] keep_value keep_value), Required)] keep_value keep_value"

theorem rejected_args_redacted_witness:
  "dump_params rejecting registry_args [VDict [(''name'', VStr ''hub''), (''password'', VStr ''hunter2'')]] False =
   dump_params rejecting registry_args [VDict [(''name'', VStr ''hub''), (''password'', VStr ''x''), (''extra'', VNone)]] False"
  by (rule rejected_args_redacted)
    (auto simp: registry_args_def rejecting_def is_secret_def at_most_one_def intro!: fields intro: same secret split: if_splits)

section \<open>What the inspection does not find\<close>

text \<open>The arguments of a legacy call are dumped with the model of the current version. A legacy
  verification of cloud credentials is not valid in the current version, and the union of
  providers is one of \<open>typing\<close>: the credentials are dumped in clear, whatever they are.\<close>

theorem legacy_credentials_dumped:
  assumes "lm_accepts lm = Some (CloudCredentialVerifyArgs_25 (AUnion providers))"
    and "construct pyd (CloudCredentialVerifyArgs_25 (AUnion providers)) [(''cloud_sync_credentials_create'', c)] = Inl es"
  shows "legacy_dump_args pyd lm base [c] = Inr [c]"
proof -
  have "remove_secrets (AUnion providers) c = c" by (cases c) (simp_all add: redact_def is_secret_def)
  with assms show ?thesis
    by (simp add: legacy_dump_args_def dump_params_def accept_params_def model_dict_from_list_def validate_model_def
        CloudCredentialVerifyArgs_25_def field_names_def)
qed

theorem legacy_credentials_dumped_witness:
  "legacy_dump_args rejecting \<lparr>lm_api_version = ''v24.10'', lm_adapter = cloud_versions (AUnion []), lm_passthrough = False,
      lm_accepts = Some (CloudCredentialVerifyArgs_25 (AUnion [])), lm_returns = None\<rparr> (\<lambda>ps. Inr ps)
     [VDict [(''provider'', VStr ''S3''), (''attributes'', VDict [(''secret_access_key'', VStr ''hunter2'')])]] =
   Inr [VDict [(''provider'', VStr ''S3''), (''attributes'', VDict [(''secret_access_key'', VStr ''hunter2'')])]]"
  by (rule legacy_credentials_dumped [where es = "[\<lparr>e_loc = [], e_msg = ''Extra inputs are not permitted'',
      e_type = ''extra_forbidden'', e_discriminator = []\<rparr>]" and providers = "[]"]) (simp_all add: rejecting_def)

text \<open>C39. An audited method with a model, called with more arguments than the model has fields: the dump of
  the arguments for the audit record raises an exception that is not caught. A refused call then
  gets that exception for an answer, and no record of it is written.\<close>

theorem too_many_arguments_unaudited:
  assumes "authorize_method_call env now sid name m ps st = (r, st')"
    and "map_of (apps (s_auth st)) sid = Some a" and "authenticated a \<Longrightarrow> app_cred a \<noteq> None"
    and "audit_of m = (Some d, ext)" and "d \<noteq> []"
    and "(case (accepts m, crud_method m) of (None, Some c) \<Rightarrow> new_style_accepts c | _ \<Rightarrow> new_style_accepts m) =
      Some (\<lambda>args. dump_params pyd model args False)"
    and "length ps > length (model_fields model)"
  shows "s_audit st' = s_audit st \<and> (\<forall>e. r = Inl e \<longrightarrow> e = CallError ''Too many arguments'' EFAULT)"
proof -
  have dump: "dump_args (senv env) m ps = Inl (CallError ''Too many arguments'' EFAULT)"
    using assms(6,7)
    by (auto simp: dump_args_def dump_attrs_def dump_params_def accept_params_def model_dict_from_list_def
        method_attrs.truncate_def split: option.splits)
  have ref: "refuse env sid name m ps b e s = (Inl (CallError ''Too many arguments'' EFAULT), s)" for b e s
  proof -
    obtain x xs where "audit_descriptions m ps [] = x # xs"
      using assms(4,5) by (cases "audit_descriptions m ps []") (auto simp: audit_descriptions_def split: option.splits sum.splits)
    with dump show ?thesis by (simp add: refuse_def log_audit_message_for_method_def)
  qed
  show ?thesis
    using assms(1-3) by (auto simp: authorize_method_call_def ref Let_def split: if_splits prod.splits option.splits)
qed

definition audited_method :: method_obj where
  "audited_method = create_method\<lparr>accepts := Some [],
     new_style_accepts := Some (\<lambda>args. dump_params accepting registry_args args False)\<rparr>"

theorem too_many_arguments_unaudited_witness:
  "\<exists>r st'. authorize_method_call demo_server_env 1 ''s1'' ''a.create'' audited_method [VNone, VNone] (r_srv ping_received) = (r, st') \<and>
     s_audit st' = s_audit (r_srv ping_received) \<and> (\<forall>e. r = Inl e \<longrightarrow> e = CallError ''Too many arguments'' EFAULT)"
proof -
  let ?a = "\<lparr>app_origin = Some net_origin, authenticated = False, app_cred = None, next_mech = None, auth_data = None\<rparr>"
  obtain r st' where call: "authorize_method_call demo_server_env 1 ''s1'' ''a.create'' audited_method [VNone, VNone]
      (r_srv ping_received) = (r, st')" by force
  from too_many_arguments_unaudited [OF call, of ?a "''Create''" None accepting registry_args] call show ?thesis
    by (simp add: ping_received_eq audited_method_def create_method_def ping_method_def audit_of_def registry_args_def)
qed

section \<open>The decorator and accepted arguments\<close>

text \<open>A method that the decorator accepts is never exempt from login and from roles at once, a method
  with roles is exempt from neither, and a public method that is not one of the configuration,
  creation or choices methods has roles or is exempt explicitly.\<close>

lemma decorated_methods_guarded:
  assumes "api_method d = Inr k"
  shows "\<not> (k_no_auth_required k \<and> k_no_authz_required k)"
    "k_roles k \<noteq> [] \<longrightarrow> \<not> k_no_auth_required k \<and> \<not> k_no_authz_required k"
    "\<not> d_private d \<and> d_name d \<notin> set CONFIG_CRUD_METHODS \<and> \<not> endswith (d_name d) ''choices'' \<longrightarrow>
       k_roles k \<noteq> [] \<or> k_no_auth_required k \<or> k_no_authz_required k"
  using assms by (auto simp: api_method_def marks_of_def split: if_splits option.splits)

text \<open>Accepted arguments: as many as the model has fields, each the dumped value of its field.\<close>

lemma accept_params_fields:
  assumes "accept_params pyd m args False e = Inr ps"
  shows "\<exists>i. construct pyd m (zip (field_names m) args) = Inr i \<and> length args \<le> length (model_fields m) \<and>
    map Some ps = map (map_of (dump_instance pyd e False i)) (field_names m)"
proof -
  from assms obtain i where i: "construct pyd m (zip (field_names m) args) = Inr i" "length args \<le> length (model_fields m)"
      and ps: "mapE (dict_index (dump_instance pyd e False i)) (field_names m) = Inr ps"
    by (auto simp: accept_params_def model_dict_from_list_def validate_model_def bindE_eq_Inr_iff split: if_splits sum.splits)
  have "map Some ps = map (map_of (dump_instance pyd e False i)) (field_names m)"
  proof (rule nth_equalityI)
    fix n assume "n < length (map Some ps)"
    with mapE_length [OF ps] mapE_nth [OF ps, of n]
    show "map Some ps ! n = map (map_of (dump_instance pyd e False i)) (field_names m) ! n"
      by (simp add: dict_index_def split: option.splits)
  qed (use mapE_length [OF ps] in simp)
  with i show ?thesis by blast
qed

end
