(* ===== verification/VersionProperties.thy ===== *)
theory VersionProperties
  imports ModelProperties
begin

text \<open>
  Conversion between versions of the API: values survive an upgrade and the downgrade back
  when the new models only add fields; the conversions of the cloud credentials are inverse to each
  other; what a legacy call passes on, and when it fails.
\<close>

section \<open>The conversion of one entry\<close>

definition adapt_entry :: "direction \<Rightarrow> api_model \<Rightarrow> api_model \<Rightarrow> string \<times> pyval \<Rightarrow> exn + (string \<times> pyval)" where
  "adapt_entry dir current new = (\<lambda>(k, v).
     case v of
       VDict e \<Rightarrow>
         (case nested_models model_field_is_model current new k of
            Some (m, n) \<Rightarrow> bindE (adapt_value dir m n v) (\<lambda>e. Inr (k, VDict e))
          | None \<Rightarrow> Inr (k, v))
     | VList xs \<Rightarrow>
         (case nested_models list_of_model current new k of
            Some (m, n) \<Rightarrow> bindE (mapE (adapt_value dir m n) xs) (\<lambda>es. Inr (k, VList (map VDict es)))
          | None \<Rightarrow> Inr (k, v))
     | _ \<Rightarrow> Inr (k, v))"

lemma adapt_value_dict:
  "adapt_value dir current new (VDict d) =
     bindE (mapE (adapt_entry dir current new) d) (\<lambda>d1.
     bindE (run_hook dir current new (set_defaults new d1)) (\<lambda>d2.
       Inr (drop_undefined (drop_removed current new d2))))"
  by (simp add: adapt_entry_def)

lemmas adapt_value_simps = adapt_value_dict adapt_value.simps(2-)

declare adapt_value.simps(1) [simp del]

lemma nested_models_sym: "nested_models inspect m n k = Some (a, b) \<Longrightarrow> nested_models inspect n m k = Some (b, a)"
  by (auto simp: nested_models_def split: option.splits if_splits)

lemma nested_models_sym_None: "nested_models inspect m n k = None \<Longrightarrow> nested_models inspect n m k = None"
  using nested_models_sym [of inspect n m k] by (cases "nested_models inspect n m k") force+

lemma nested_models_no_field: "k \<notin> set (field_names n) \<Longrightarrow> nested_models inspect m n k = None"
  by (simp add: nested_models_def field_names_def map_of_eq_None_iff [THEN iffD2] split: option.splits)

lemma adapt_entry_no_field: "k \<notin> set (field_names new) \<Longrightarrow> adapt_entry dir current new (k, v) = Inr (k, v)"
  by (auto simp: adapt_entry_def nested_models_no_field split: pyval.splits)

lemma mapE_append: "mapE f (xs @ ys) = bindE (mapE f xs) (\<lambda>as. bindE (mapE f ys) (\<lambda>bs. Inr (as @ bs)))"
proof (induction xs)
  case Nil
  show ?case by (cases "mapE f ys") simp_all
qed (auto simp: bindE_assoc intro!: bindE_cong)

lemma mapE_inverse:
  "(\<And>x. x \<in> set xs \<Longrightarrow> \<exists>y. f x = Inr y \<and> g y = Inr x \<and> P x y) \<Longrightarrow>
   \<exists>ys. mapE f xs = Inr ys \<and> mapE g ys = Inr xs \<and> list_all2 P xs ys"
proof (induction xs)
  case (Cons x xs)
  from Cons.prems [of x] obtain y where "f x = Inr y" "g y = Inr x" "P x y" by auto
  moreover from Cons obtain ys where "mapE f xs = Inr ys" "mapE g ys = Inr xs" "list_all2 P xs ys" by force
  ultimately show ?case by (intro exI [of _ "y # ys"]) simp
qed simp

text \<open>Defaults are appended: only for keys that are missing, only values that are defaults.\<close>

definition default_entry :: "api_model \<Rightarrow> string \<times> pyval \<Rightarrow> bool" where
  "default_entry m = (\<lambda>(k, v). \<not> for_update m \<and> (\<exists>a f. (k, a, f) \<in> set (model_fields m) \<and> \<not> field_required f \<and> v = get_default f))"

lemma set_defaults_append:
  "\<exists>extra. set_defaults m d = d @ extra \<and> list_all (default_entry m) extra \<and> fst ` set extra \<inter> fst ` set d = {}"
proof (cases "for_update m")
  case False
  let ?f = "\<lambda>(k, a, f) d. if map_of d k = None \<and> \<not> field_required f then AList.update k (get_default f) d else d"
  have "\<exists>extra. fold ?f fs d = d @ extra \<and> list_all (default_entry m) extra \<and> fst ` set extra \<inter> fst ` set d = {}"
    if "set fs \<subseteq> set (model_fields m)" for fs
    using that
  proof (induction fs arbitrary: d)
    case (Cons x fs)
    obtain k a f where x: "x = (k, a, f)" by (cases x)
    show ?case
    proof (cases "map_of d k = None \<and> \<not> field_required f")
      case True
      then have upd: "AList.update k (get_default f) d = d @ [(k, get_default f)]"
        by (simp add: map_of_eq_None_iff update_new_append)
      with Cons.IH [of "d @ [(k, get_default f)]"] Cons.prems obtain extra where
        "fold ?f fs (d @ [(k, get_default f)]) = (d @ [(k, get_default f)]) @ extra" "list_all (default_entry m) extra"
        "fst ` set extra \<inter> fst ` set (d @ [(k, get_default f)]) = {}" by auto
      moreover have "default_entry m (k, get_default f)"
        using Cons.prems True False x by (auto simp: default_entry_def)
      ultimately show ?thesis using True upd x
        by (intro exI [of _ "(k, get_default f) # extra"]) (auto simp: map_of_eq_None_iff)
    qed (use Cons x in auto)
  qed simp
  with False show ?thesis by (simp add: set_defaults_def)
qed (simp add: set_defaults_def)

section \<open>Upgrade and downgrade\<close>

text \<open>
  A field whose absence leaves no trace: it is required, or its default is \<open>undefined\<close>.
\<close>

definition hidden :: "api_model \<Rightarrow> string \<Rightarrow> bool" where
  "hidden m k \<longleftrightarrow> (\<forall>(k', a, f) \<in> set (model_fields m). k' = k \<longrightarrow> field_required f \<or> get_default f = Undefined)"

text \<open>
  \<open>adds_fields old new d\<close>: the new model has the fields of the old one and no conversion of
  its own, the value has only fields of the old model, and all of them but hidden ones (unless the
  model is for updates), and so on for the models of its fields.
\<close>

inductive adds_fields :: "api_model \<Rightarrow> api_model \<Rightarrow> pyval dict \<Rightarrow> bool" where
  adds_fieldsI: "from_previous new = keep_value \<Longrightarrow> to_previous new = keep_value \<Longrightarrow>
    for_update old = for_update new \<Longrightarrow> set (field_names old) \<subseteq> set (field_names new) \<Longrightarrow>
    fst ` set d \<subseteq> set (field_names old) \<Longrightarrow> (\<And>k v. (k, v) \<in> set d \<Longrightarrow> v \<noteq> Undefined) \<Longrightarrow>
    (\<And>k. \<not> for_update old \<Longrightarrow> k \<in> set (field_names old) \<Longrightarrow> k \<notin> fst ` set d \<Longrightarrow> hidden old k \<and> hidden new k) \<Longrightarrow>
    (\<And>k e m n. (k, VDict e) \<in> set d \<Longrightarrow> nested_models model_field_is_model old new k = Some (m, n) \<Longrightarrow> adds_fields m n e) \<Longrightarrow>
    (\<And>k xs m n x. (k, VList xs) \<in> set d \<Longrightarrow> nested_models list_of_model old new k = Some (m, n) \<Longrightarrow> x \<in> set xs \<Longrightarrow>
      \<exists>e. x = VDict e \<and> adds_fields m n e) \<Longrightarrow>
    adds_fields old new d"

text \<open>The entries of a value there and back.\<close>

lemma entry_roundtrip:
  assumes "v \<noteq> Undefined"
    and "\<And>e m n. v = VDict e \<Longrightarrow> nested_models model_field_is_model old new k = Some (m, n) \<Longrightarrow>
      \<exists>e'. adapt_value UPGRADE m n (VDict e) = Inr e' \<and> adapt_value DOWNGRADE n m (VDict e') = Inr e"
    and "\<And>xs m n x. v = VList xs \<Longrightarrow> nested_models list_of_model old new k = Some (m, n) \<Longrightarrow> x \<in> set xs \<Longrightarrow>
      \<exists>e e'. x = VDict e \<and> adapt_value UPGRADE m n (VDict e) = Inr e' \<and> adapt_value DOWNGRADE n m (VDict e') = Inr e"
  shows "\<exists>y. adapt_entry UPGRADE old new (k, v) = Inr y \<and> adapt_entry DOWNGRADE new old y = Inr (k, v) \<and>
    fst y = k \<and> snd y \<noteq> Undefined"
proof -
  consider e where "v = VDict e" | xs where "v = VList xs" | "\<not> is_dict v" "\<not> is_list v" by (cases v) auto
  then show ?thesis
  proof cases
    case 1
    show ?thesis
    proof (cases "nested_models model_field_is_model old new k")
      case None
      with 1 nested_models_sym_None [OF None] assms(1) show ?thesis by (simp add: adapt_entry_def)
    next
      case (Some p)
      obtain m n where p: "p = (m, n)" by (cases p)
      with assms(2) [OF 1] Some obtain e' where
        "adapt_value UPGRADE m n (VDict e) = Inr e'" "adapt_value DOWNGRADE n m (VDict e') = Inr e" by auto
      with 1 Some p nested_models_sym [of model_field_is_model old new k m n] show ?thesis
        by (intro exI [of _ "(k, VDict e')"]) (simp add: adapt_entry_def Undefined_def)
    qed
  next
    case 2
    show ?thesis
    proof (cases "nested_models list_of_model old new k")
      case None
      with 2 nested_models_sym_None [OF None] assms(1) show ?thesis by (simp add: adapt_entry_def)
    next
      case (Some p)
      obtain m n where p: "p = (m, n)" by (cases p)
      have "\<exists>ys. mapE (adapt_value UPGRADE m n) xs = Inr ys \<and>
          mapE (\<lambda>e. bindE (adapt_value DOWNGRADE n m (VDict e)) (\<lambda>e. Inr (VDict e))) ys = Inr xs \<and> list_all2 (\<lambda>x y. True) xs ys"
      proof (rule mapE_inverse)
        fix x assume "x \<in> set xs"
        with assms(3) [OF 2, of m n x] Some p obtain e e' where
          "x = VDict e" "adapt_value UPGRADE m n (VDict e) = Inr e'" "adapt_value DOWNGRADE n m (VDict e') = Inr e" by auto
        then show "\<exists>y. adapt_value UPGRADE m n x = Inr y \<and>
            bindE (adapt_value DOWNGRADE n m (VDict y)) (\<lambda>e. Inr (VDict e)) = Inr x \<and> True"
          by (intro exI [of _ e']) simp
      qed
      then obtain ys where ys: "mapE (adapt_value UPGRADE m n) xs = Inr ys"
          "mapE (\<lambda>e. bindE (adapt_value DOWNGRADE n m (VDict e)) (\<lambda>e. Inr (VDict e))) ys = Inr xs" by auto
      have "mapE (\<lambda>e. bindE (adapt_value DOWNGRADE n m (VDict e)) (\<lambda>e. Inr (VDict e))) ys =
          bindE (mapE (adapt_value DOWNGRADE n m) (map VDict ys)) (\<lambda>es. Inr (map VDict es))" for ys
        by (induction ys) (auto simp: bindE_assoc intro!: bindE_cong)
      with ys(2) have "bindE (mapE (adapt_value DOWNGRADE n m) (map VDict ys)) (\<lambda>es. Inr (map VDict es)) = Inr xs" by simp
      with 2 Some p ys(1) nested_models_sym [of list_of_model old new k m n] show ?thesis
        by (intro exI [of _ "(k, VList (map VDict ys))"]) (auto simp: adapt_entry_def Undefined_def bindE_eq_Inr_iff)
    qed
  qed (use assms(1) in \<open>auto simp: adapt_entry_def split: pyval.splits\<close>)
qed

lemma drop_append [simp]:
  "drop_removed m n (d @ e) = drop_removed m n d @ drop_removed m n e"
  "drop_undefined (d @ e) = drop_undefined d @ drop_undefined e"
  by (simp_all add: drop_removed_def drop_undefined_def)

lemma drop_removed_id: "(\<And>k. k \<in> fst ` set d \<Longrightarrow> k \<in> set (field_names m) \<Longrightarrow> k \<in> set (field_names n)) \<Longrightarrow> drop_removed m n d = d"
  unfolding drop_removed_def by (rule filter_True) force

lemma drop_undefined_id: "(\<And>k v. (k, v) \<in> set d \<Longrightarrow> v \<noteq> Undefined) \<Longrightarrow> drop_undefined d = d"
  unfolding drop_undefined_def by (rule filter_True) auto

lemma upgrade_result:
  assumes "mapE (adapt_entry UPGRADE old new) d = Inr d1" and "fst ` set d1 = fst ` set d"
    and "\<And>k v. (k, v) \<in> set d1 \<Longrightarrow> v \<noteq> Undefined" and "from_previous new = keep_value" and "for_update old = for_update new"
    and "set (field_names old) \<subseteq> set (field_names new)"
    and "\<And>k. \<not> for_update old \<Longrightarrow> k \<in> set (field_names old) \<Longrightarrow> k \<notin> fst ` set d \<Longrightarrow> hidden new k"
  shows "\<exists>ex. adapt_value UPGRADE old new (VDict d) = Inr (d1 @ ex) \<and>
    fst ` set ex \<subseteq> set (field_names new) - set (field_names old)"
proof -
  obtain ex where ex: "set_defaults new d1 = d1 @ ex" "list_all (default_entry new) ex" "fst ` set ex \<inter> fst ` set d1 = {}"
    using set_defaults_append by blast
  have "k \<in> set (field_names new) - set (field_names old)" if "(k, v) \<in> set (drop_undefined ex)" for k v
  proof -
    from that have kv: "(k, v) \<in> set ex" "v \<noteq> Undefined" by (auto simp: drop_undefined_def)
    with ex(2) obtain a f where f: "\<not> for_update new" "(k, a, f) \<in> set (model_fields new)" "\<not> field_required f" "v = get_default f"
      by (auto simp: list_all_iff default_entry_def)
    then have "k \<in> set (field_names new)" by (force simp: field_names_def)
    moreover have "\<not> hidden new k" using f kv(2) by (auto simp: hidden_def)
    moreover have "k \<notin> fst ` set d" using ex(3) kv assms(2) by force
    ultimately show ?thesis using assms(5,7) f(1) by blast
  qed
  moreover have "drop_removed old new (d1 @ ex) = d1 @ ex"
    using assms(6) by (intro drop_removed_id) auto
  moreover have "drop_undefined d1 = d1" using assms(3) by (rule drop_undefined_id)
  ultimately show ?thesis using assms(1,4) ex(1)
    by (intro exI [of _ "drop_undefined ex"]) (auto simp: adapt_value_dict run_hook_def keep_value_def)
qed

lemma downgrade_result:
  assumes "mapE (adapt_entry DOWNGRADE new old) d1 = Inr d" and ex: "fst ` set ex \<subseteq> set (field_names new) - set (field_names old)"
    and "\<And>k v. (k, v) \<in> set d \<Longrightarrow> v \<noteq> Undefined" and "to_previous new = keep_value" and "fst ` set d \<subseteq> set (field_names old)"
    and "\<And>k. \<not> for_update old \<Longrightarrow> k \<in> set (field_names old) \<Longrightarrow> k \<notin> fst ` set d \<Longrightarrow> hidden old k"
  shows "adapt_value DOWNGRADE new old (VDict (d1 @ ex)) = Inr d"
proof -
  have "adapt_entry DOWNGRADE new old x = Inr (id x)" if "x \<in> set ex" for x
    using that ex adapt_entry_no_field [of "fst x" old DOWNGRADE new "snd x"] by auto
  then have "mapE (adapt_entry DOWNGRADE new old) ex = Inr ex" using mapE_total [of ex] by (metis map_idI id_apply)
  with assms(1) have entries: "mapE (adapt_entry DOWNGRADE new old) (d1 @ ex) = Inr (d @ ex)" by (simp add: mapE_append)
  obtain ex2 where ex2: "set_defaults old (d @ ex) = d @ ex @ ex2" "list_all (default_entry old) ex2"
      "fst ` set ex2 \<inter> fst ` set (d @ ex) = {}"
    using set_defaults_append [of old "d @ ex"] by auto
  have undef: "v = Undefined" if "(k, v) \<in> set ex2" for k v
  proof -
    from that ex2(2) obtain a f where f: "\<not> for_update old" "(k, a, f) \<in> set (model_fields old)" "\<not> field_required f" "v = get_default f"
      by (auto simp: list_all_iff default_entry_def)
    moreover have "k \<in> set (field_names old)" using f(2) by (force simp: field_names_def)
    moreover have "k \<notin> fst ` set d" using ex2(3) that by force
    ultimately have "hidden old k" using assms(6) by blast
    with f show ?thesis by (auto simp: hidden_def)
  qed
  have "drop_removed new old d = d" using assms(5) by (intro drop_removed_id) auto
  moreover have "drop_removed new old ex = []" using ex by (force simp: drop_removed_def filter_empty_conv)
  moreover have "drop_undefined d = d" using assms(3) by (rule drop_undefined_id)
  moreover have "drop_undefined (drop_removed new old ex2) = []"
    using undef by (auto simp: drop_undefined_def drop_removed_def filter_empty_conv)
  ultimately show ?thesis
    using entries ex2(1) assms(4) by (simp add: adapt_value_dict run_hook_def keep_value_def)
qed

text \<open>C21. A value that is converted to a newer version and back is the value it was, with its keys in
  the same order, when the newer models only add fields: the defaults that the upgrade adds are
  dropped by the downgrade, at every level.\<close>

theorem upgrade_downgrade:
  assumes "adds_fields old new d"
  shows "\<exists>e. adapt_value UPGRADE old new (VDict d) = Inr e \<and> adapt_value DOWNGRADE new old (VDict e) = Inr d"
  using assms
proof (induction rule: adds_fields.induct)
  case (adds_fieldsI new old d)
  let ?up = "adapt_entry UPGRADE old new" and ?down = "adapt_entry DOWNGRADE new old"
  have "\<exists>d1. mapE ?up d = Inr d1 \<and> mapE ?down d1 = Inr d \<and> list_all2 (\<lambda>x y. fst y = fst x \<and> snd y \<noteq> Undefined) d d1"
  proof (rule mapE_inverse)
    fix x assume x: "x \<in> set d"
    obtain k v where kv: "x = (k, v)" by (cases x)
    have "\<exists>y. ?up (k, v) = Inr y \<and> ?down y = Inr (k, v) \<and> fst y = k \<and> snd y \<noteq> Undefined"
    proof (rule entry_roundtrip)
      show "v \<noteq> Undefined" using adds_fieldsI(6) x kv by blast
    next
      fix e m n assume "v = VDict e" "nested_models model_field_is_model old new k = Some (m, n)"
      then show "\<exists>e'. adapt_value UPGRADE m n (VDict e) = Inr e' \<and> adapt_value DOWNGRADE n m (VDict e') = Inr e"
        using adds_fieldsI.IH(1) x kv by blast
    next
      fix xs m n z assume "v = VList xs" "nested_models list_of_model old new k = Some (m, n)" "z \<in> set xs"
      then show "\<exists>e e'. z = VDict e \<and> adapt_value UPGRADE m n (VDict e) = Inr e' \<and> adapt_value DOWNGRADE n m (VDict e') = Inr e"
        using adds_fieldsI.IH(2) x kv by blast
    qed
    with kv show "\<exists>y. ?up x = Inr y \<and> ?down y = Inr x \<and> fst y = fst x \<and> snd y \<noteq> Undefined" by simp
  qed
  then obtain d1 where up: "mapE ?up d = Inr d1" and down: "mapE ?down d1 = Inr d"
      and rel: "list_all2 (\<lambda>x y. fst y = fst x \<and> snd y \<noteq> Undefined) d d1" by blast
  from rel have fsts: "fst ` set d1 = fst ` set d"
    by (induction rule: list_all2_induct) auto
  from rel have def1: "v \<noteq> Undefined" if "(k, v) \<in> set d1" for k v
    using that by (induction rule: list_all2_induct) auto
  obtain ex where "adapt_value UPGRADE old new (VDict d) = Inr (d1 @ ex)"
      and "fst ` set ex \<subseteq> set (field_names new) - set (field_names old)"
    using upgrade_result [OF up fsts] def1 adds_fieldsI(1,3,4,7) by metis
  moreover from this(2) have "adapt_value DOWNGRADE new old (VDict (d1 @ ex)) = Inr d"
    using downgrade_result [OF down] adds_fieldsI(2,5,6,7) by metis
  ultimately show ?case by blast
qed

definition contact :: "(string \<times> annotation \<times> field_default) list \<Rightarrow> api_model" where
  "contact adds = Model ''Contact'' False ((''name'', AOther ''str'', Required) # adds) keep_value keep_value"

definition settings :: "api_model \<Rightarrow> (string \<times> annotation \<times> field_default) list \<Rightarrow> api_model" where
  "settings c adds = Model ''Settings'' False
     ([(''contacts'', AList [AModel c], Required), (''text1'', AOther ''str'', Required)] @ adds) keep_value keep_value"

lemma contact_adds_fields:
  "adds_fields (contact []) (contact [(''email'', AOther ''str'', Default (VStr ''-''))]) [(''name'', VStr ''Jane'')]"
  by (rule adds_fieldsI) (simp_all add: contact_def field_names_def Undefined_def)

theorem upgrade_downgrade_witness:
  "\<exists>e. adapt_value UPGRADE (settings (contact []) [])
          (settings (contact [(''email'', AOther ''str'', Default (VStr ''-''))]) [(''text2'', AOther ''str'', Default (VStr ''text2''))])
          (VDict [(''contacts'', VList [VDict [(''name'', VStr ''Jane'')]]), (''text1'', VStr ''a'')]) = Inr e \<and>
       adapt_value DOWNGRADE
          (settings (contact [(''email'', AOther ''str'', Default (VStr ''-''))]) [(''text2'', AOther ''str'', Default (VStr ''text2''))])
          (settings (contact []) []) (VDict e) =
         Inr [(''contacts'', VList [VDict [(''name'', VStr ''Jane'')]]), (''text1'', VStr ''a'')]"
proof (rule upgrade_downgrade, rule adds_fieldsI)
  fix k xs m n x
  assume "(k, VList xs) \<in> set [(''contacts'', VList [VDict [(''name'', VStr ''Jane'')]]), (''text1'', VStr ''a'')]"
    and "nested_models list_of_model (settings (contact []) [])
      (settings (contact [(''email'', AOther ''str'', Default (VStr ''-''))]) [(''text2'', AOther ''str'', Default (VStr ''text2''))]) k
      = Some (m, n)" and "x \<in> set xs"
  then show "\<exists>e. x = VDict e \<and> adds_fields m n e"
    using contact_adds_fields by (auto simp: nested_models_def settings_def list_of_model_def contact_def)
qed (auto simp: settings_def field_names_def Undefined_def)

section \<open>Cloud credentials\<close>

lemma map_of_dict_merge: "map_of (dict_merge d e) k = (case map_of (rev e) k of None \<Rightarrow> map_of d k | Some v \<Rightarrow> Some v)"
proof (induction e arbitrary: d)
  case (Cons x e)
  then show ?case
    by (cases x) (auto simp: dict_merge_def map_of_update map_add_def split: option.splits)
qed (simp add: dict_merge_def)

lemma map_of_rev: "dict_ok d \<Longrightarrow> map_of (rev d) = map_of d"
  by (subst map_of_inject_set) (simp_all add: rev_map [symmetric])

text \<open>The conversions of the cloud credentials are inverse to each other: what goes to a client of the
  old version and comes back has the same entries, and the provider the same attributes and type.\<close>

theorem cloud_credentials_roundtrip:
  assumes "map_of d ''provider'' = Some (VDict p)" and "map_of p ''type'' = Some t" and "dict_ok p"
    and "map_of d ''attributes'' = None"
  shows "\<exists>e f q. entry_to_previous d = Inr e \<and> map_of e ''provider'' = Some t \<and> entry_from_previous e = Inr f \<and>
    map_of f = (map_of d)(''provider'' \<mapsto> VDict q) \<and> map_of q = map_of p"
proof -
  let ?as = "AList.delete ''type'' p" and ?e = "AList.update ''provider'' t (AList.update ''attributes'' (VDict (AList.delete ''type'' p)) d)"
  have e: "entry_to_previous d = Inr ?e" using assms by (simp add: entry_to_previous_def dict_index_def)
  have "map_of (dict_merge [(''type'', t)] ?as) = map_of p"
    using assms(2) map_of_rev [OF dict_ok_delete [OF assms(3), of "''type''"]]
    by (auto simp: map_of_dict_merge map_of_delete fun_eq_iff split: option.splits)
  moreover have "entry_from_previous ?e = Inr (AList.update ''provider'' (VDict (dict_merge [(''type'', t)] ?as))
      (AList.delete ''attributes'' ?e))"
    by (simp add: entry_from_previous_def dict_index_def map_of_update map_of_delete)
  moreover have "map_of (AList.update ''provider'' v (AList.delete ''attributes'' ?e)) = (map_of d)(''provider'' \<mapsto> v)" for v
    using assms(4) by (auto simp: map_of_update map_of_delete fun_eq_iff)
  ultimately show ?thesis using e by (auto simp: map_of_update)
qed

theorem cloud_credentials_roundtrip_witness:
  "\<exists>e f q. entry_to_previous [(''name'', VStr ''a''), (''provider'', VDict [(''type'', VStr ''S3''), (''region'', VStr ''x'')])] = Inr e \<and>
    map_of e ''provider'' = Some (VStr ''S3'') \<and> entry_from_previous e = Inr f \<and>
    map_of f = (map_of [(''name'', VStr ''a''), (''provider'', VDict [(''type'', VStr ''S3''), (''region'', VStr ''x'')])])
      (''provider'' \<mapsto> VDict q) \<and> map_of q = map_of [(''type'', VStr ''S3''), (''region'', VStr ''x'')]"
  by (rule cloud_credentials_roundtrip) simp_all

text \<open>A model whose fields are no models is converted without descending into them.\<close>

definition flat :: "api_model \<Rightarrow> bool" where
  "flat m \<longleftrightarrow> list_all (\<lambda>(k, a, f). model_field_is_model a = None \<and> list_of_model a = None) (model_fields m)"

lemma nested_models_flat:
  assumes "flat m"
  shows "nested_models model_field_is_model m n k = None" "nested_models list_of_model m n k = None"
proof -
  have "model_field_is_model a = None \<and> list_of_model a = None" if "map_of (model_fields m) k = Some (a, f)" for a f
    using map_of_SomeD [OF that] assms by (auto simp: flat_def list_all_iff)
  then show "nested_models model_field_is_model m n k = None" "nested_models list_of_model m n k = None"
    by (auto simp: nested_models_def split: option.splits)
qed

lemma adapt_entries_flat:
  assumes "flat m"
  shows "mapE (adapt_entry dir m n) d = Inr d"
proof -
  have "adapt_entry dir m n x = Inr (id x)" for x
    using nested_models_flat [OF assms] by (cases x; cases "snd x") (simp_all add: adapt_entry_def)
  then show ?thesis using mapE_total [of d] by (metis map_idI id_apply)
qed

lemmas cloud_models = CloudCredentialEntry_24_def CloudCredentialEntry_25_def CloudCredentialCreate_def
  CloudCredentialUpdate_def CloudCredentialCreateArgs_def CloudCredentialUpdateArgs_def without_id_def
  for_update_model_def field_for_update_def CloudCredentialVerifyArgs_24_def CloudCredentialVerifyArgs_25_def
  single_argument_args_def

lemma cloud_flat: "flat (CloudCredentialUpdate CloudCredentialEntry_24)" "flat (CloudCredentialCreate CloudCredentialEntry_24)"
  by (simp_all add: flat_def cloud_models list_of_model_def)

lemma cloud_for_update [simp]: "for_update (CloudCredentialUpdate entry)" "\<not> for_update (CloudCredentialCreate entry)"
  by (simp_all add: CloudCredentialUpdate_def for_update_model_def CloudCredentialCreate_def without_id_def)

text \<open>The steps of a conversion from the old to the current version of the cloud models.\<close>

lemma adapt_cloud:
  assumes "map_of (models (snd (cloud_versions provider ! 0))) name = Some old"
    and "map_of (models (snd (cloud_versions provider ! 1))) name = Some new"
    and "construct pyd old value = Inr i" and "dump_instance pyd True False i = d"
  shows "adapt pyd (cloud_versions provider) value name ''v24.10'' ''v25.04.0'' = raised (adapt_value UPGRADE old new (VDict d))"
proof -
  have "versions_between (cloud_versions provider) 0 1 = [snd (cloud_versions provider ! 1)]"
    by (simp add: versions_between_def)
  moreover have "versions_history (cloud_versions provider) = [''v24.10'', ''v25.04.0'']"
    by (simp add: versions_history_def cloud_versions_def Let_def)
  ultimately show ?thesis using assms
    by (cases "adapt_value UPGRADE old new (VDict d)")
      (simp_all add: adapt_def adapt_model_def Let_def model_in_def validate_model_def adapt_step_def)
qed

lemma adapt_entry_model:
  "map_of (model_fields a) k = Some (AModel m, f) \<Longrightarrow> map_of (model_fields b) k = Some (AModel n, g) \<Longrightarrow>
   for_update m = for_update n \<Longrightarrow>
   adapt_entry dir a b (k, VDict d) = bindE (adapt_value dir m n (VDict d)) (\<lambda>e. Inr (k, VDict e))"
  by (simp add: adapt_entry_def nested_models_def)

lemma adapt_entry_other: "map_of (model_fields a) k = Some (AOther t, f) \<Longrightarrow> adapt_entry dir a b (k, v) = Inr (k, v)"
  by (cases v) (simp_all add: adapt_entry_def nested_models_def list_of_model_def split: option.splits)

lemma dict_merge_disjoint: "dict_ok e \<Longrightarrow> fst ` set d \<inter> fst ` set e = {} \<Longrightarrow> dict_merge d e = d @ e"
proof (induction e arbitrary: d)
  case (Cons x e)
  then have "fst x \<notin> fst ` set d" by auto
  with Cons show ?case by (cases x) (auto simp: dict_merge_def update_new_append)
qed (simp add: dict_merge_def)

lemmas adapt_rest = set_defaults_def field_required_def get_default_def run_hook_def keep_value_def drop_removed_def
  drop_undefined_def field_names_def

text \<open>The parameters of a legacy call, one step from the old version to the current one.\<close>

lemma legacy_params_cloud:
  assumes "lm_adapter lm = cloud_versions provider" and "lm_api_version lm = ''v24.10''" and "lm_accepts lm = Some new"
    and "map_of (models (snd (cloud_versions provider ! 0))) (model_name new) = Some old"
    and "map_of (models (snd (cloud_versions provider ! 1))) (model_name new) = Some new"
    and "model_name old = model_name new" and "length params \<le> length (model_fields old)"
    and "construct pyd old (zip (field_names old) params) = Inr i" and "dump_instance pyd True False i = d"
  shows "legacy_call_params pyd lm params =
    bindE (raised (adapt_value UPGRADE old new (VDict d))) (\<lambda>e. raised (mapE (dict_index e) (field_names new)))"
proof -
  have "current_version (cloud_versions provider) = ''v25.04.0''"
    by (simp add: current_version_def versions_history_def cloud_versions_def Let_def)
  moreover have "map_of (cloud_versions provider) ''v24.10'' = Some (snd (cloud_versions provider ! 0))"
    by (simp add: cloud_versions_def Let_def)
  ultimately show ?thesis using assms adapt_cloud [OF assms(4,5,8,9)]
    by (simp add: legacy_call_params_def adapt_params_def model_dict_from_list_def)
qed

lemma cloud_model_lookup:
  "map_of (models (snd (cloud_versions provider ! 0))) ''CloudCredentialCreateArgs'' = Some (CloudCredentialCreateArgs CloudCredentialEntry_24)"
  "map_of (models (snd (cloud_versions provider ! 1))) ''CloudCredentialCreateArgs'' = Some (CloudCredentialCreateArgs (CloudCredentialEntry_25 provider))"
  "map_of (models (snd (cloud_versions provider ! 0))) ''CloudCredentialUpdateArgs'' = Some (CloudCredentialUpdateArgs CloudCredentialEntry_24)"
  "map_of (models (snd (cloud_versions provider ! 1))) ''CloudCredentialUpdateArgs'' = Some (CloudCredentialUpdateArgs (CloudCredentialEntry_25 provider))"
  by (simp_all add: cloud_versions_def Let_def cloud_models)

text \<open>A client of the old version that creates cloud credentials: the method is called with the type and
  the attributes of the provider in one dictionary, and without the excluded field.\<close>

theorem legacy_create_adapted:
  assumes "lm_adapter lm = cloud_versions provider" and "lm_api_version lm = ''v24.10''"
    and "lm_accepts lm = Some (CloudCredentialCreateArgs (CloudCredentialEntry_25 provider))"
    and "construct pyd (CloudCredentialCreateArgs CloudCredentialEntry_24) [(''cloud_sync_credentials_create'', c)] = Inr i"
    and "dump_instance pyd True False i = [(''cloud_sync_credentials_create'',
      VDict [(''name'', n), (''provider'', p), (''attributes'', VDict attrs)])]"
    and "dict_ok attrs" and "''type'' \<notin> fst ` set attrs" and "n \<noteq> Undefined"
  shows "legacy_call_params pyd lm [c] = Inr [VDict [(''name'', n), (''provider'', VDict ((''type'', p) # attrs))]]"
proof -
  let ?old = "CloudCredentialCreateArgs CloudCredentialEntry_24"
  let ?new = "CloudCredentialCreateArgs (CloudCredentialEntry_25 provider)"
  have "dict_merge [(''type'', p)] attrs = (''type'', p) # attrs" using dict_merge_disjoint [of attrs "[(''type'', p)]"] assms(6,7) by simp
  then have "adapt_value UPGRADE (CloudCredentialCreate CloudCredentialEntry_24) (CloudCredentialCreate (CloudCredentialEntry_25 provider))
      (VDict [(''name'', n), (''provider'', p), (''attributes'', VDict attrs)]) =
      Inr [(''name'', n), (''provider'', VDict ((''type'', p) # attrs))]"
    using assms(8) unfolding adapt_value_dict adapt_entries_flat [OF cloud_flat(2)]
    by (simp add: cloud_models adapt_rest entry_from_previous_def dict_index_def Undefined_def)
  then have "adapt_value UPGRADE ?old ?new
      (VDict [(''cloud_sync_credentials_create'', VDict [(''name'', n), (''provider'', p), (''attributes'', VDict attrs)])]) =
      Inr [(''cloud_sync_credentials_create'', VDict [(''name'', n), (''provider'', VDict ((''type'', p) # attrs))])]"
    by (subst adapt_value_dict) (simp add: CloudCredentialCreateArgs_def
        adapt_entry_model [where k = "''cloud_sync_credentials_create''"] adapt_rest Undefined_def)
  moreover have "legacy_call_params pyd lm [c] = bindE (raised (adapt_value UPGRADE ?old ?new (VDict
      [(''cloud_sync_credentials_create'', VDict [(''name'', n), (''provider'', p), (''attributes'', VDict attrs)])])))
      (\<lambda>e. raised (mapE (dict_index e) (field_names ?new)))"
    by (rule legacy_params_cloud [OF assms(1-3)])
      (use assms cloud_model_lookup in \<open>simp_all add: CloudCredentialCreateArgs_def field_names_def\<close>)
  ultimately show ?thesis by (simp add: CloudCredentialCreateArgs_def field_names_def dict_index_def)
qed

text \<open>C40. An update of cloud credentials by a client of the old version that does not name the attributes, for
  example one that only renames them, is valid in the old version and raises \<open>KeyError\<close>: the
  conversion of a whole entry is also used for updates, which name any subset of the fields.\<close>

theorem legacy_partial_update_raises:
  assumes "lm_adapter lm = cloud_versions provider" and "lm_api_version lm = ''v24.10''"
    and "lm_accepts lm = Some (CloudCredentialUpdateArgs (CloudCredentialEntry_25 provider))"
    and "construct pyd (CloudCredentialUpdateArgs CloudCredentialEntry_24) [(''id'', n), (''cloud_sync_credentials_update'', c)] = Inr i"
    and "dump_instance pyd True False i = [(''id'', n), (''cloud_sync_credentials_update'', VDict u)]"
    and "map_of u ''attributes'' = None"
  shows "legacy_call_params pyd lm [n, c] = Inl (Raised KeyError)"
proof -
  let ?old = "CloudCredentialUpdateArgs CloudCredentialEntry_24"
  let ?new = "CloudCredentialUpdateArgs (CloudCredentialEntry_25 provider)"
  have "adapt_value UPGRADE (CloudCredentialUpdate CloudCredentialEntry_24) (CloudCredentialUpdate (CloudCredentialEntry_25 provider))
      (VDict u) = Inl KeyError"
    using assms(6) unfolding adapt_value_dict adapt_entries_flat [OF cloud_flat(1)]
    by (simp add: cloud_models adapt_rest entry_from_previous_def)
  then have "adapt_value UPGRADE ?old ?new (VDict [(''id'', n), (''cloud_sync_credentials_update'', VDict u)]) = Inl KeyError"
    by (subst adapt_value_dict) (simp add: CloudCredentialUpdateArgs_def
        adapt_entry_model [where k = "''cloud_sync_credentials_update''"] adapt_entry_other [where k = "''id''"])
  moreover have "legacy_call_params pyd lm [n, c] = bindE (raised (adapt_value UPGRADE ?old ?new (VDict
      [(''id'', n), (''cloud_sync_credentials_update'', VDict u)]))) (\<lambda>e. raised (mapE (dict_index e) (field_names ?new)))"
    by (rule legacy_params_cloud [OF assms(1-3)])
      (use assms cloud_model_lookup in \<open>simp_all add: CloudCredentialUpdateArgs_def field_names_def\<close>)
  ultimately show ?thesis by simp
qed

theorem legacy_partial_update_raises_witness:
  "legacy_call_params accepting \<lparr>lm_api_version = ''v24.10'', lm_adapter = cloud_versions (AUnion []), lm_passthrough = True,
      lm_accepts = Some (CloudCredentialUpdateArgs (CloudCredentialEntry_25 (AUnion []))), lm_returns = None\<rparr>
     [VInt 1, VDict [(''name'', VStr ''b'')]] = Inl (Raised KeyError)"
  by (rule legacy_partial_update_raises [where u = "[(''name'', VStr ''b'')]"]) (simp_all add: accepting_def)

theorem legacy_create_adapted_witness:
  "legacy_call_params accepting \<lparr>lm_api_version = ''v24.10'', lm_adapter = cloud_versions (AUnion []), lm_passthrough = True,
      lm_accepts = Some (CloudCredentialCreateArgs (CloudCredentialEntry_25 (AUnion []))), lm_returns = None\<rparr>
     [VDict [(''name'', VStr ''a''), (''provider'', VStr ''S3''), (''attributes'', VDict [(''region'', VStr ''x'')])]] =
   Inr [VDict [(''name'', VStr ''a''), (''provider'', VDict [(''type'', VStr ''S3''), (''region'', VStr ''x'')])]]"
  by (rule legacy_create_adapted) (simp_all add: accepting_def Undefined_def)

section \<open>Default factories\<close>

lemma map_of_set_defaults:
  assumes "\<not> for_update m" and "dict_ok (model_fields m)" and "map_of (model_fields m) k = Some (a, f)" and "\<not> field_required f"
    and "map_of d k = None"
  shows "map_of (set_defaults m d) k = Some (get_default f)"
proof -
  let ?f = "\<lambda>(k, a, f) d. if map_of d k = None \<and> \<not> field_required f then AList.update k (get_default f) d else d"
  have keep: "map_of (fold ?f fs d) k = Some v" if "map_of d k = Some v" for fs d v
    using that by (induction fs arbitrary: d) (auto simp: map_of_update split: prod.splits)
  have "map_of (fold ?f fs d) k = Some (get_default f)" if "map_of fs k = Some (a, f)" "map_of d k = None" for fs d
    using that
  proof (induction fs arbitrary: d)
    case (Cons x fs)
    obtain k' a' f' where x: "x = (k', a', f')" by (cases x)
    show ?case
    proof (cases "k' = k")
      case True
      with Cons.prems x assms(4) keep [of "AList.update k (get_default f) d" "get_default f" fs] show ?thesis
        by (simp add: map_of_update)
    next
      case False
      with Cons x show ?thesis by (auto simp: map_of_update)
    qed
  qed simp
  with assms show ?thesis by (simp add: set_defaults_def)
qed

text \<open>A field that the newer model adds with a default factory is added with the value \<open>None\<close>: the factory
  is not called.\<close>

theorem factory_default_lost:
  assumes "flat old" and "from_previous new = keep_value" and "\<not> for_update new" and "dict_ok (model_fields new)"
    and "map_of (model_fields new) k = Some (a, Factory)" and "map_of d k = None"
  shows "\<exists>e. adapt_value UPGRADE old new (VDict d) = Inr e \<and> (k, VNone) \<in> set e"
proof -
  have "map_of (set_defaults new d) k = Some VNone"
    using map_of_set_defaults [OF assms(3-5) _ assms(6)] by (simp add: field_required_def get_default_def)
  then have "(k, VNone) \<in> set (set_defaults new d)" by (rule map_of_SomeD)
  moreover have "k \<in> set (field_names new)" using map_of_SomeD [OF assms(5)] by (force simp: field_names_def)
  ultimately have "(k, VNone) \<in> set (drop_undefined (drop_removed old new (set_defaults new d)))"
    by (simp add: drop_undefined_def drop_removed_def Undefined_def)
  then show ?thesis
    using assms(2) by (simp add: adapt_value_dict adapt_entries_flat [OF assms(1)] run_hook_def keep_value_def)
qed

theorem factory_default_lost_witness:
  "\<exists>e. adapt_value UPGRADE (contact []) (contact [(''tags'', AOther ''list'', Factory)]) (VDict [(''name'', VStr ''Jane'')]) = Inr e \<and>
     (''tags'', VNone) \<in> set e"
  by (rule factory_default_lost [where a = "AOther ''list''"]) (simp_all add: contact_def flat_def list_of_model_def)

section \<open>Errors of the adapter\<close>

text \<open>Between equal versions a value is only validated.\<close>

lemma adapt_same_version:
  assumes "index_in v (versions_history ad) = Some i" and "map_of (models (snd (ad ! i))) name = Some m"
  shows "adapt pyd ad value name v v = raised (validate_model pyd m value False True)"
  using assms by (cases "validate_model pyd m value False True")
    (simp_all add: adapt_def adapt_model_def Let_def versions_between_def model_in_def)

text \<open>Of the models missing before the target the last one is reported, whatever the earlier steps do.\<close>

lemma adapt_along_append:
  "adapt_along dir name v (xs @ ys) fac = adapt_along dir name (last (v # xs)) ys (\<lambda>u. adapt_along dir name v xs fac)"
  by (induction xs arbitrary: v fac) simp_all

lemma adapt_along_error:
  "fac () = Inl e \<Longrightarrow> \<forall>w \<in> set (v # vs). map_of (models w) name \<noteq> None \<Longrightarrow> adapt_along dir name v vs fac = Inl e"
  by (induction vs arbitrary: v fac) (auto simp: adapt_step_def model_in_def)

lemma missing_model_reported:
  assumes "map_of (models w) name = None" and "vs \<noteq> []" and "\<forall>v \<in> set vs. map_of (models v) name \<noteq> None"
  shows "adapt_along dir name v (us @ w # vs) fac = Inl (APIVersionDoesNotContainModel (version w) name)"
proof -
  obtain x xs where vs: "vs = x # xs" using assms(2) by (cases vs) auto
  have "adapt_step dir name w x f = Inl (APIVersionDoesNotContainModel (version w) name)" for f
    using assms(1) by (simp add: adapt_step_def model_in_def)
  with vs assms(3) show ?thesis by (simp add: adapt_along_append [of _ _ _ us] adapt_along_error)
qed

text \<open>A legacy call that goes through passes one argument for each field of the current model.\<close>

lemma legacy_params_complete:
  assumes "adapt_params pyd lm m params = Inr ps" and "\<not> lm_passthrough lm"
  shows "length ps = length (model_fields m)"
  using assms by (auto simp: adapt_params_def raised_eq_Inr_iff field_names_def bindE_eq_Inr_iff dest!: mapE_length
      split: option.splits if_splits)

end
