(* ===== verification/Spec2Isabelle.thy ===== *)
theory Spec2Isabelle
  imports FilterProofs RoleTable PrivilegeProofs AuthProperties JobProperties SchemaProperties LeafProperties
    AlertProperties AlertTable RpcSecrets EventProperties VersionProperties
begin

text \<open>
  A verification library for the TrueNAS middleware, the Python program under
  \<open>src/src/middlewared/middlewared/\<close>. Paths below are relative to that directory.

  The middleware is a server. Services (plugins) register their methods together with roles; a
  client connects, logs in and calls methods; a call is authorized against the allow list that
  the roles of the user compose to; a method marked as a job becomes an entry of the job queue;
  rows of a query are filtered, ordered and cut before they are returned. The library models
  these parts and how they meet.

  \<^bold>\<open>Foundations.\<close> \<open>Prelude\<close>: exceptions as left values of a sum, the loops of the code as
  combinators over that sum, dictionaries as association lists in insertion order, the string
  operations used. \<open>PyValue\<close>: JSON-like values with Python's equality, order and membership.
  \<open>Systems\<close>: operations that raise and keep their effect, reachable states, and the rule for
  inductive invariants as a locale; it is interpreted for the role registry, the privilege
  service, the login system, the one-time passwords, the job queue, the alert
  service, the server of calls and the event sources.

  \<^bold>\<open>Query filters\<close> (\<open>utils/__init__.py\<close>). \<open>Filters\<close> has \<open>validate_filters\<close>, \<open>eval_filter\<close>,
  \<open>do_select\<close>, \<open>do_order\<close>, \<open>filter_list\<close> and the helpers they call, on every branch. Regular
  expressions and the parsing of ISO dates belong to the standard library's C code and are
  fields of the parameter \<open>py_env\<close>. \<open>FilterProofs\<close> shows that filtering returns exactly the
  rows that satisfy all filters, that the short circuit of \<open>get\<close> agrees with the full search,
  that evaluation refines the Boolean reading of a filter, that validated filters are never
  malformed, that ordering permutes and sorts, and that pages partition the result.

  \<^bold>\<open>Roles\<close> (\<open>role.py\<close>, \<open>utils/security.py\<close>, the registration loop of \<open>main.py\<close>). \<open>Roles\<close> has the
  table of roles as shipped, the resource managers and \<open>RoleManager\<close>; \<open>RolesProofs\<close> shows that
  \<open>roles_for_role\<close> and \<open>roles_for_method\<close> compute the two closures of the inclusion of roles and
  that they are dual. \<open>RoleTable\<close> has facts of the shipped table. Recursion over included roles
  has fuel for Python's recursion limit: the theorems state that the rank of a role is enough,
  and for the one role that includes itself that no fuel is.

  \<^bold>\<open>Privileges\<close> (\<open>utils/allowlist.py\<close>, \<open>utils/privilege.py\<close>, \<open>plugins/account_/privilege.py\<close>,
  \<open>service_exception.py\<close>). \<open>Errors\<close> has the collection of validation errors, \<open>Privilege\<close> allow
  lists with shell patterns, the composition of privileges and the privilege service;
  \<open>PrivilegeProofs\<close> shows what an allow list permits, that a session may call a method exactly
  when one of its roles is among the roles of the method, and that no sequence of operations
  loses the local administrator.

  \<^bold>\<open>Authentication\<close> (\<open>utils/auth.py\<close>, \<open>utils/origin.py\<close>, \<open>auth.py\<close>, \<open>plugins/auth.py\<close>,
  \<open>plugins/auth_/authenticate.py\<close>). \<open>Auth\<close> has assurance levels, one-time passwords, origins,
  credentials, tokens and sessions over a store of shared objects; \<open>Login\<close> has the login
  conversation. \<open>LoginProofs\<close> has the invariant of the store, \<open>AuthProperties\<close> what a login
  proves, the bound on guesses, single use of tokens and one-time passwords, revocation and
  expiry. PAM, password hashing, the user database and API key hashes are parameters
  (\<open>login_env\<close>). The walk from a token to its root credential is bounded by the number of
  credentials, which is shown to be enough in every reachable state.

  \<^bold>\<open>Jobs\<close> (\<open>job.py\<close>, the job methods of \<open>service/core_service.py\<close>, the part of
  \<open>Middleware._call_prepare\<close> that makes a job). \<open>Jobs\<close> has locks, queue, scheduler, table and
  the life of a job. Each stretch of a coroutine between two suspensions is one operation, and
  the operations of all jobs interleave freely. \<open>JobsProofs\<close> has the invariant and the moves
  of a job, \<open>JobProperties\<close> exclusion, order, absence of lost wake-ups and of deadlock, limits,
  abortion and ownership. Jobs use the credentials of \<open>Auth\<close> and \<open>filter_list\<close> of \<open>Filters\<close>.
  Forwarding of progress through wrapped jobs has fuel for Python's recursion limit.

  \<^bold>\<open>Schemas\<close> (\<open>schema/\<close>, \<open>validators.py\<close>). \<open>PyText\<close> has the text operations they use,
  \<open>Validators\<close> the validator classes, \<open>Schema\<close> the attribute classes with their three
  operations \<open>clean\<close>, \<open>validate\<close> and \<open>dump\<close>, and the processing of the arguments of a call. An
  attribute is a value of the data type \<open>schema\<close>, one constructor per class, with the options of
  \<open>Attribute.__init__\<close> in \<open>common\<close>; a method of a class is a case of a structural recursion. Network
  addresses, regular expressions and files are fields of \<open>schema_env\<close>. \<open>Raises\<close> has the calculus of
  the exceptions an operation may raise, \<open>SchemaProofs\<close> the induction over schemas, \<open>SchemaProperties\<close>
  and \<open>LeafProperties\<close> show that what \<open>clean\<close> returns has the type the schema declares, that
  it is a fixed point of \<open>clean\<close>, which exceptions arise, and that the dump of a value does not
  depend on its private parts.

  \<^bold>\<open>Alerts\<close> (\<open>plugins/alert.py\<close>, \<open>alert/base.py\<close>, \<open>alert/schedule.py\<close>). \<open>Alerts\<close> has alert classes,
  alerts, policies, the alert service with its sources, blocks, locks and jobs, and the
  processing of alerts. An alert is an object with identity, as dismissal and policies
  compare objects and keys in turn. What the sources report, the other node of a pair and
  the data store are fields of \<open>alert_env\<close>; the clock stands still during one operation.
  \<open>AlertsProofs\<close> and \<open>AlertsInv\<close> have the invariant, \<open>AlertEvents\<close> and \<open>AlertProperties\<close> show that keys are
  unique, that subscribers see the state of the service, that dismissed alerts stay dismissed,
  how often a policy sends, and that alerts survive a restart; \<open>AlertTable\<close> has blocks, expiry of
  locks and the order of the list.

  \<^bold>\<open>Calls\<close> (\<open>api/base/server/\<close>, \<open>utils/limits.py\<close>, \<open>utils/lock.py\<close>, \<open>utils/rate_limit/cache.py\<close>, \<open>webui_auth.py\<close>,
  \<open>authorize_method_call\<close>, \<open>call_with_audit\<close>, \<open>dump_args\<close> and \<open>dump_result\<close> of \<open>main.py\<close>). \<open>RateLimit\<close> has the limit on
  calls without login, with its bound on calls in any period; \<open>Semaphore\<close> the limits on concurrent
  calls; \<open>Server\<close> authorization, audit, redaction and messages; \<open>Rpc\<close> connections and calls as a state
  machine whose operations interleave with the login system of \<open>Login\<close>. What the body of a method
  returns, JSON and the models of pydantic are parameters. \<open>RpcProofs\<close> has the invariant, \<open>RpcCalls\<close>
  the life of a call and \<open>RpcStarts\<close> how it comes to run; \<open>RpcDemo\<close> is a small server for examples.
  \<open>RpcProperties\<close> shows that a method runs only for a session whose roles grant it, that calls are
  limited, end, and are answered exactly once; \<open>RpcSecrets\<close> that replies and audit log do not depend
  on private data, that refusals are recorded, and which messages are taken. The waiting of a
  call needs no fuel: progress is shown by a measure on the phases of calls.

  \<^bold>\<open>Events\<close> (\<open>event.py\<close>, \<open>common/event_source/manager.py\<close>, \<open>can_subscribe\<close> and \<open>send_event\<close> of \<open>main.py\<close>). \<open>Events\<close>
  has who may subscribe, the subscriptions of connections and the manager of event sources with
  the identity of its instances; \<open>EventProofs\<close> has the agreement of its tables, \<open>EventProperties\<close> shows
  where events go, and what an instance that ends late does to its successor.

  \<^bold>\<open>Models and versions of the API\<close> (\<open>api/base/model.py\<close>, \<open>api/base/handler/\<close>, \<open>api/base/decorator.py\<close>,
  \<open>api/base/server/legacy_api_method.py\<close>, \<open>cloud_sync.py\<close> of \<open>api/v24_10\<close> and \<open>api/v25_04_0\<close>). \<open>Models\<close> has model classes
  as values, the inspection of annotations, the acceptance and the dump of arguments and the
  decorator of methods; \<open>Versions\<close> the conversion of values between versions, the methods of a legacy
  API and the cloud credentials, the models that differ between the two versions. The construction
  and the dump of an instance are the record \<open>pydantic\<close>, a parameter. \<open>ModelProperties\<close> shows that
  arguments which a model rejects are dumped without the secrets that the inspection finds, where it
  finds none, and when the audit of a refusal is lost; \<open>VersionProperties\<close> that an upgrade and the
  downgrade back are the identity when models only add fields, that the conversions of the cloud
  credentials are inverse, and which legacy calls fail. Recursion over nested models ends because
  the values get smaller.

  \<^bold>\<open>Not modelled.\<close> The legacy protocol (\<open>apps/\<close>), REST, the start-up and the process pools of \<open>main.py\<close>:
  input and output. The models of the API other than the cloud credentials are declarations for pydantic.
  The data store builds queries for SQLAlchemy. The plugins that drive ZFS, Samba, the network, the directory services and
  fail-over translate requests into calls of external programs and kernel interfaces. Python's
  floating-point numbers, text of messages that interpolates values and log output are left out
  everywhere; audit records are modelled for calls but not for logins.
\<close>

end
